(* ===== verification/Prelude.thy ===== *)
theory Prelude
  imports Main "HOL-Library.Word" "HOL-Library.Char_ord" "HOL-Library.List_Lexorder"
begin

unbundle bit_operations_syntax

text \<open>
  Shared vocabulary of the development.

  \<^item> Text.  Rust strings are HOL strings.  The gateway's own text (header names, topics, GraphQL
    names, configuration keys) is ASCII; the string operations below are the ASCII cases of
    the standard library's \<open>str\<close> methods.
  \<^item> Library data.  \<open>serde_json::Value\<close> is the datatype \<open>json\<close> with that enum's constructors
    (objects as association lists), \<open>http::HeaderMap\<close> is a list of lower-case names with
    values.  Only the documented accessors the source calls are given.
  \<^item> Library code that computes (parsers, hashes, signature checks, caches) is never defined
    here: it is an argument of the definitions that call it.
\<close>

named_theorems str_simps \<open>definitions of the string operations\<close>

type_synonym u64 = "64 word"
type_synonym u32 = "32 word"
type_synonym byte = "8 word"
type_synonym uuid = "128 word"
type_synonym 'a result = "string + 'a"

text \<open>\<open>anyhow::Context\<close>: the context is what the error shows.\<close>

definition with_context :: "string \<Rightarrow> 'a result \<Rightarrow> 'a result" where
  "with_context msg r = (case r of Inl _ \<Rightarrow> Inl msg | Inr x \<Rightarrow> Inr x)"

lemma with_context_simps [simp]:
  "with_context msg (Inl e) = Inl msg"
  "with_context msg (Inr x) = Inr x"
  by (simp_all add: with_context_def)

section \<open>ASCII text\<close>

definition is_upper_ascii :: "char \<Rightarrow> bool" where
  "is_upper_ascii c = (65 \<le> (of_char c :: nat) \<and> (of_char c :: nat) \<le> 90)"

definition lower_char :: "char \<Rightarrow> char" where
  "lower_char c = (if is_upper_ascii c then char_of ((of_char c :: nat) + 32) else c)"

definition is_lower_ascii :: "char \<Rightarrow> bool" where
  "is_lower_ascii c = (97 \<le> (of_char c :: nat) \<and> (of_char c :: nat) \<le> 122)"

definition upper_char :: "char \<Rightarrow> char" where
  "upper_char c = (if is_lower_ascii c then char_of ((of_char c :: nat) - 32) else c)"

definition to_lowercase :: "string \<Rightarrow> string" where
  "to_lowercase s = map lower_char s"

definition to_uppercase :: "string \<Rightarrow> string" where
  "to_uppercase s = map upper_char s"

definition eq_ignore_ascii_case :: "string \<Rightarrow> string \<Rightarrow> bool" where
  "eq_ignore_ascii_case a b = (to_lowercase a = to_lowercase b)"

definition is_ws :: "char \<Rightarrow> bool" where
  "is_ws c = ((9 \<le> (of_char c :: nat) \<and> (of_char c :: nat) \<le> 13) \<or> (of_char c :: nat) = 32)"

definition trim_start :: "(char \<Rightarrow> bool) \<Rightarrow> string \<Rightarrow> string" where
  "trim_start p s = dropWhile p s"

definition trim_end :: "(char \<Rightarrow> bool) \<Rightarrow> string \<Rightarrow> string" where
  "trim_end p s = rev (dropWhile p (rev s))"

definition trim :: "string \<Rightarrow> string" where
  "trim s = trim_end is_ws (trim_start is_ws s)"

definition starts_with :: "string \<Rightarrow> string \<Rightarrow> bool" where
  "starts_with s p = (take (length p) s = p)"

definition ends_with :: "string \<Rightarrow> string \<Rightarrow> bool" where
  "ends_with s p = starts_with (rev s) (rev p)"

fun contains_str :: "string \<Rightarrow> string \<Rightarrow> bool" where
  "contains_str [] p = (p = [])"
| "contains_str (c # s) p = (starts_with (c # s) p \<or> contains_str s p)"

text \<open>\<open>str::find\<close>: the index of the first occurrence.\<close>

fun find_str :: "string \<Rightarrow> string \<Rightarrow> nat option" where
  "find_str p [] = (if p = [] then Some 0 else None)"
| "find_str p (c # s) = (if starts_with (c # s) p then Some 0 else map_option Suc (find_str p s))"

definition strip_prefix :: "string \<Rightarrow> string \<Rightarrow> string option" where
  "strip_prefix p s = (if starts_with s p then Some (drop (length p) s) else None)"

fun split_on :: "char \<Rightarrow> string \<Rightarrow> string list" where
  "split_on d [] = [[]]"
| "split_on d (c # s) =
     (if c = d then [] # split_on d s
      else case split_on d s of [] \<Rightarrow> [[c]] | p # ps \<Rightarrow> (c # p) # ps)"

definition split_once :: "char \<Rightarrow> string \<Rightarrow> (string \<times> string) option" where
  "split_once d s =
     (if d \<in> set s
      then Some (takeWhile (\<lambda>c. c \<noteq> d) s, tl (dropWhile (\<lambda>c. c \<noteq> d) s))
      else None)"

fun join :: "string \<Rightarrow> string list \<Rightarrow> string" where
  "join sep [] = []"
| "join sep [x] = x"
| "join sep (x # y # xs) = x @ sep @ join sep (y # xs)"

definition replace_char :: "char \<Rightarrow> char \<Rightarrow> string \<Rightarrow> string" where
  "replace_char a b s = map (\<lambda>c. if c = a then b else c) s"

definition remove_chars :: "char list \<Rightarrow> string \<Rightarrow> string" where
  "remove_chars cs s = filter (\<lambda>c. c \<notin> set cs) s"

text \<open>Text between single quotes, as the error messages print names.\<close>

definition quoted :: "string \<Rightarrow> string" where
  "quoted s = CHR 0x27 # s @ [CHR 0x27]"

lemmas [str_simps] =
  is_upper_ascii_def lower_char_def is_lower_ascii_def upper_char_def to_lowercase_def
  to_uppercase_def eq_ignore_ascii_case_def is_ws_def trim_start_def trim_end_def trim_def
  starts_with_def ends_with_def strip_prefix_def split_once_def replace_char_def remove_chars_def

lemma lower_char_idem [simp]: "lower_char (lower_char c) = lower_char c"
proof (cases "is_upper_ascii c")
  case True
  then have b: "65 \<le> (of_char c :: nat)" "(of_char c :: nat) \<le> 90"
    by (auto simp: is_upper_ascii_def)
  then have "(of_char (char_of ((of_char c :: nat) + 32) :: char) :: nat) = of_char c + 32"
    by simp
  then have "\<not> is_upper_ascii (char_of ((of_char c :: nat) + 32))"
    using b by (simp add: is_upper_ascii_def)
  with True show ?thesis by (simp add: lower_char_def)
next
  case False
  then show ?thesis by (simp add: lower_char_def)
qed

lemma to_lowercase_idem [simp]: "to_lowercase (to_lowercase s) = to_lowercase s"
  by (simp add: to_lowercase_def)

lemma to_lowercase_append [simp]: "to_lowercase (a @ b) = to_lowercase a @ to_lowercase b"
  by (simp add: to_lowercase_def)

lemma to_lowercase_length [simp]: "length (to_lowercase s) = length s"
  by (simp add: to_lowercase_def)

lemma eq_ignore_ascii_case_refl [simp]: "eq_ignore_ascii_case s s"
  by (simp add: eq_ignore_ascii_case_def)

lemma eq_ignore_ascii_case_sym: "eq_ignore_ascii_case a b = eq_ignore_ascii_case b a"
  by (auto simp: eq_ignore_ascii_case_def)

lemma starts_with_append [simp]: "starts_with (p @ s) p"
  by (simp add: starts_with_def)

lemma starts_with_iff: "starts_with s p \<longleftrightarrow> (\<exists>t. s = p @ t)"
proof
  assume "starts_with s p"
  then have "s = p @ drop (length p) s"
    unfolding starts_with_def by (metis append_take_drop_id)
  then show "\<exists>t. s = p @ t" ..
qed (auto simp: starts_with_def)

lemma contains_str_iff: "contains_str s p \<longleftrightarrow> (\<exists>a b. s = a @ p @ b)"
proof (induction s)
  case Nil
  then show ?case by simp
next
  case (Cons c s)
  have "(\<exists>a b. c # s = a @ p @ b) \<longleftrightarrow> (\<exists>b. c # s = p @ b) \<or> (\<exists>a b. s = a @ p @ b)"
  proof
    assume "\<exists>a b. c # s = a @ p @ b"
    then obtain a b where "c # s = a @ p @ b" by blast
    then show "(\<exists>b. c # s = p @ b) \<or> (\<exists>a b. s = a @ p @ b)"
      by (cases a) auto
  next
    assume "(\<exists>b. c # s = p @ b) \<or> (\<exists>a b. s = a @ p @ b)"
    then show "\<exists>a b. c # s = a @ p @ b"
    proof
      assume "\<exists>b. c # s = p @ b"
      then show ?thesis by (metis append_Nil)
    next
      assume "\<exists>a b. s = a @ p @ b"
      then obtain a b where "s = a @ p @ b" by blast
      then have "c # s = (c # a) @ p @ b" by simp
      then show ?thesis by blast
    qed
  qed
  with Cons.IH show ?case by (simp add: starts_with_iff)
qed

lemma find_str_skip:
  "(\<And>i. i < length a \<Longrightarrow> \<not> starts_with (drop i (a @ p @ s)) p) \<Longrightarrow> find_str p (a @ p @ s) = Some (length a)"
proof (induction a)
  case Nil
  have "starts_with (p @ s) p" by simp
  then show ?case by (cases "p @ s") auto
next
  case (Cons c a)
  have "\<not> starts_with ((c # a) @ p @ s) p" using Cons.prems [of 0] by simp
  moreover have "find_str p (a @ p @ s) = Some (length a)"
    using Cons.prems [of "Suc i" for i] by (intro Cons.IH) auto
  ultimately show ?case by simp
qed

lemma split_on_not_Nil [simp]: "split_on d s \<noteq> []"
  by (induction s) (auto split: list.splits)

lemma split_on_pieces: "p \<in> set (split_on d s) \<Longrightarrow> d \<notin> set p"
  by (induction s arbitrary: p) (auto split: list.splits if_splits)

section \<open>UTF-8\<close>

text \<open>\<open>std::str::from_utf8\<close>: a \<open>char\<close> is a byte; no overlong forms, no surrogates, nothing
  above U+10FFFF.\<close>

definition in_range :: "nat \<Rightarrow> nat \<Rightarrow> char \<Rightarrow> bool" where
  "in_range lo hi c = (lo \<le> (of_char c :: nat) \<and> (of_char c :: nat) \<le> hi)"

fun valid_utf8 :: "string \<Rightarrow> bool" where
  "valid_utf8 [] = True"
| "valid_utf8 (a # s) =
     (if in_range 0 127 a then valid_utf8 s
      else case s of
        [] \<Rightarrow> False
      | b # s1 \<Rightarrow>
          if in_range 194 223 a then in_range 128 191 b \<and> valid_utf8 s1
          else case s1 of
            [] \<Rightarrow> False
          | c # s2 \<Rightarrow>
              if in_range 224 239 a then
                (if in_range 224 224 a then in_range 160 191 b
                 else if in_range 237 237 a then in_range 128 159 b else in_range 128 191 b)
                \<and> in_range 128 191 c \<and> valid_utf8 s2
              else case s2 of
                [] \<Rightarrow> False
              | d # s3 \<Rightarrow>
                  in_range 240 244 a
                  \<and> (if in_range 240 240 a then in_range 144 191 b
                     else if in_range 244 244 a then in_range 128 143 b else in_range 128 191 b)
                  \<and> in_range 128 191 c \<and> in_range 128 191 d \<and> valid_utf8 s3)"

definition from_utf8 :: "string \<Rightarrow> string option" where
  "from_utf8 bytes = (if valid_utf8 bytes then Some bytes else None)"

text \<open>\<open>String::from_utf8_lossy\<close>: the length of the sequence at the front and whether it is valid; of an
  invalid one the longest prefix that could have begun a sequence becomes one U+FFFD.\<close>

definition second_ok :: "char \<Rightarrow> char \<Rightarrow> bool" where
  "second_ok a b =
     (if in_range 224 224 a then in_range 160 191 b
      else if in_range 237 237 a then in_range 128 159 b
      else if in_range 240 240 a then in_range 144 191 b
      else if in_range 244 244 a then in_range 128 143 b
      else in_range 128 191 b)"

fun utf8_chunk :: "string \<Rightarrow> bool \<times> nat" where
  "utf8_chunk [] = (True, 0)"
| "utf8_chunk (a # s) =
     (if in_range 0 127 a then (True, 1)
      else if \<not> in_range 194 244 a then (False, 1)
      else case s of
        [] \<Rightarrow> (False, 1)
      | b # s1 \<Rightarrow>
          if \<not> second_ok a b then (False, 1)
          else if in_range 194 223 a then (True, 2)
          else case s1 of
            [] \<Rightarrow> (False, 2)
          | c # s2 \<Rightarrow>
              if \<not> in_range 128 191 c then (False, 2)
              else if in_range 224 239 a then (True, 3)
              else case s2 of
                [] \<Rightarrow> (False, 3)
              | d # s3 \<Rightarrow> if in_range 128 191 d then (True, 4) else (False, 3))"

lemma utf8_chunk_pos: "0 < snd (utf8_chunk (a # s))"
  by (simp split: list.splits)

text \<open>\<open>chars().take(n)\<close> of a text.\<close>

fun take_chars :: "nat \<Rightarrow> string \<Rightarrow> string" where
  "take_chars 0 s = []"
| "take_chars (Suc n) [] = []"
| "take_chars (Suc n) (a # s) =
     (let k = snd (utf8_chunk (a # s)) in take k (a # s) @ take_chars n (drop k (a # s)))"

lemma take_chars_front: "\<exists>rest. s = take_chars n s @ rest"
proof (induction n s rule: take_chars.induct)
  case (3 n a s)
  then obtain rest where "drop (snd (utf8_chunk (a # s))) (a # s)
      = take_chars n (drop (snd (utf8_chunk (a # s))) (a # s)) @ rest" by blast
  then show ?case
    by (metis append_assoc append_take_drop_id take_chars.simps(3))
qed simp_all

function from_utf8_lossy :: "string \<Rightarrow> string" where
  "from_utf8_lossy [] = []"
| "from_utf8_lossy (a # s) =
     (if fst (utf8_chunk (a # s)) then take (snd (utf8_chunk (a # s))) (a # s)
      else [CHR 0xEF, CHR 0xBF, CHR 0xBD])
     @ from_utf8_lossy (drop (snd (utf8_chunk (a # s))) (a # s))"
  by pat_completeness auto
termination
proof (relation "measure length")
  show "(drop (snd (utf8_chunk (a # s))) (a # s), a # s) \<in> measure length" for a s
    using utf8_chunk_pos [of a s] by (simp only: in_measure length_drop length_Cons diff_less zero_less_Suc)
qed simp

lemma in_range_weaken: "in_range lo hi c \<Longrightarrow> lo' \<le> lo \<Longrightarrow> hi \<le> hi' \<Longrightarrow> in_range lo' hi' c"
  by (simp add: in_range_def)

lemma in_range_disjoint: "in_range lo hi c \<Longrightarrow> hi < lo' \<or> hi' < lo \<Longrightarrow> \<not> in_range lo' hi' c"
  by (auto simp: in_range_def)

lemma valid_utf8_chunk:
  assumes "valid_utf8 (a # s)"
  shows "fst (utf8_chunk (a # s)) \<and> valid_utf8 (drop (snd (utf8_chunk (a # s))) (a # s))"
proof -
  consider (one) "in_range 0 127 a"
    | (two) b s1 where "\<not> in_range 0 127 a" "s = b # s1" "in_range 194 223 a" "in_range 128 191 b" "valid_utf8 s1"
    | (three) b c s2 where "\<not> in_range 0 127 a" "s = b # c # s2" "\<not> in_range 194 223 a" "in_range 224 239 a"
        "second_ok a b" "in_range 128 191 c" "valid_utf8 s2"
    | (four) b c d s3 where "\<not> in_range 0 127 a" "s = b # c # d # s3" "\<not> in_range 194 223 a" "\<not> in_range 224 239 a"
        "in_range 240 244 a" "second_ok a b" "in_range 128 191 c" "in_range 128 191 d" "valid_utf8 s3"
  proof (cases "in_range 0 127 a")
    case False
    note no = in_range_disjoint [of 224 239 a 240 240] in_range_disjoint [of 224 239 a 244 244]
      in_range_disjoint [of 240 244 a 224 224] in_range_disjoint [of 240 244 a 237 237]
    show ?thesis
      using assms False that no
      by (simp add: second_ok_def split: list.splits if_split_asm)
  qed (rule that)
  then show ?thesis
  proof cases
    case one
    then show ?thesis using assms by simp
  next
    case two
    moreover have "second_ok a b" using two(3,4) by (auto simp: second_ok_def in_range_def)
    moreover have "in_range 194 244 a" using two(3) by (rule in_range_weaken) simp_all
    ultimately show ?thesis by simp
  next
    case three
    moreover have "in_range 194 244 a" using three(4) by (rule in_range_weaken) simp_all
    ultimately show ?thesis by simp
  next
    case four
    moreover have "in_range 194 244 a" using four(5) by (rule in_range_weaken) simp_all
    ultimately show ?thesis by simp
  qed
qed

lemma from_utf8_lossy_valid [simp]: "valid_utf8 s \<Longrightarrow> from_utf8_lossy s = s"
proof (induction s rule: from_utf8_lossy.induct)
  case (2 a s)
  with valid_utf8_chunk [of a s] show ?case
    by (simp del: utf8_chunk.simps valid_utf8.simps)
qed simp

lemma valid_utf8_ascii: "list_all (in_range 0 127) s \<Longrightarrow> valid_utf8 s"
  by (induction s) auto

section \<open>Decimal numerals\<close>

definition digit :: "nat \<Rightarrow> char" where
  "digit n = char_of (48 + n mod 10)"

fun show_nat :: "nat \<Rightarrow> string" where
  "show_nat n = (if n < 10 then [digit n] else show_nat (n div 10) @ [digit (n mod 10)])"

declare show_nat.simps [simp del]

text \<open>Rust's \<open>{:0w}\<close>: left padding with zeros to at least \<open>w\<close> characters.\<close>

definition pad0 :: "nat \<Rightarrow> string \<Rightarrow> string" where
  "pad0 w s = replicate (w - length s) (CHR ''0'') @ s"

text \<open>The digits of a number below \<open>10 ^ w\<close> at fixed width \<open>w\<close>.\<close>

fun fixed_digits :: "nat \<Rightarrow> nat \<Rightarrow> string" where
  "fixed_digits 0 n = []"
| "fixed_digits (Suc w) n = fixed_digits w (n div 10) @ [digit (n mod 10)]"

lemma digit_0: "digit 0 = CHR ''0''"
  by code_simp

lemma digit_less_iff: "a < 10 \<Longrightarrow> b < 10 \<Longrightarrow> digit a < digit b \<longleftrightarrow> a < b"
  by (simp add: digit_def less_char_def)

lemma digit_inj: "a < 10 \<Longrightarrow> b < 10 \<Longrightarrow> digit a = digit b \<longleftrightarrow> a = b"
  using digit_less_iff [of a b] digit_less_iff [of b a] by (metis linorder_neqE_nat less_irrefl)

lemma fixed_digits_length [simp]: "length (fixed_digits w n) = w"
  by (induction w arbitrary: n) auto

lemma fixed_digits_zero: "fixed_digits w 0 = replicate w (CHR ''0'')"
proof (induction w)
  case (Suc w)
  then show ?case by (simp add: digit_0 replicate_append_same)
qed simp

lemma pad0_show_nat: "0 < w \<Longrightarrow> n < 10 ^ w \<Longrightarrow> pad0 w (show_nat n) = fixed_digits w n"
proof (induction w arbitrary: n)
  case 0
  then show ?case by simp
next
  case (Suc w)
  show ?case
  proof (cases "n < 10")
    case True
    then show ?thesis
      by (simp add: show_nat.simps [of n] pad0_def fixed_digits_zero)
  next
    case False
    then have "0 < w" using Suc.prems by (cases w) auto
    moreover have "n div 10 < 10 ^ w" using Suc.prems by (simp add: less_mult_imp_div_less mult.commute)
    ultimately have "pad0 w (show_nat (n div 10)) = fixed_digits w (n div 10)" by (rule Suc.IH)
    with False show ?thesis by (simp add: show_nat.simps [of n] pad0_def)
  qed
qed

lemma list_less_append_same_length:
  fixes a b :: "'a :: linorder list"
  assumes "length a = length b"
  shows "a @ c < b @ d \<longleftrightarrow> a < b \<or> (a = b \<and> c < d)"
  using assms by (induction a b rule: list_induct2) (auto simp: Cons_less_Cons)

lemma div_mod_less_iff:
  "r < 10 \<Longrightarrow> s < 10 \<Longrightarrow> 10 * p + r < 10 * q + s \<longleftrightarrow> p < q \<or> (p = q \<and> r < (s :: nat))"
  by linarith

lemma fixed_digits_less:
  "m < 10 ^ w \<Longrightarrow> n < 10 ^ w \<Longrightarrow> fixed_digits w m < fixed_digits w n \<longleftrightarrow> m < n"
proof (induction w arbitrary: m n)
  case 0
  then show ?case by simp
next
  case (Suc w)
  have b: "m div 10 < 10 ^ w" "n div 10 < 10 ^ w"
    using Suc.prems by (simp_all add: less_mult_imp_div_less mult.commute)
  have lt: "fixed_digits w (m div 10) < fixed_digits w (n div 10) \<longleftrightarrow> m div 10 < n div 10"
    and gt: "fixed_digits w (n div 10) < fixed_digits w (m div 10) \<longleftrightarrow> n div 10 < m div 10"
    using Suc.IH b by blast+
  have eq: "fixed_digits w (m div 10) = fixed_digits w (n div 10) \<longleftrightarrow> m div 10 = n div 10"
    using lt gt by (metis linorder_neqE less_irrefl)
  have "m < n \<longleftrightarrow> m div 10 < n div 10 \<or> (m div 10 = n div 10 \<and> m mod 10 < n mod 10)"
    using div_mod_less_iff [of "m mod 10" "n mod 10" "m div 10" "n div 10"] by simp
  then show ?case
    by (simp add: list_less_append_same_length lt eq digit_less_iff Cons_less_Cons)
qed

section \<open>Debug output\<close>

text \<open>\<open>{:?}\<close> of a string and of an optional string.\<close>

definition hex_digit :: "nat \<Rightarrow> char" where
  "hex_digit n = (if n < 10 then char_of (48 + n) else char_of (87 + n))"

definition escape_debug :: "char \<Rightarrow> string" where
  "escape_debug c =
     (let n = (of_char c :: nat); esc = (\<lambda>t. CHR 0x5C # t)
      in if n = 34 then esc [CHR 0x22]
         else if n = 92 then esc [CHR 0x5C]
         else if n = 9 then esc ''t'' else if n = 10 then esc ''n'' else if n = 13 then esc ''r''
         else if n = 0 then esc ''0''
         else if n < 32 \<or> n = 127 then
           esc (''u{'' @ (if n < 16 then [] else [hex_digit (n div 16)]) @ [hex_digit (n mod 16)] @ ''}'')
         else [c])"

definition debug_str :: "string \<Rightarrow> string" where
  "debug_str s = CHR 0x22 # concat (map escape_debug s) @ [CHR 0x22]"

definition debug_opt_str :: "string option \<Rightarrow> string" where
  "debug_opt_str x = (case x of None \<Rightarrow> ''None'' | Some s \<Rightarrow> ''Some('' @ debug_str s @ '')'')"

section \<open>Saturating and checked arithmetic\<close>

definition sat_add :: "'a::len word \<Rightarrow> 'a word \<Rightarrow> 'a word" where
  "sat_add a b = (if unat a + unat b < 2 ^ LENGTH('a) then a + b else - 1)"

definition sat_sub :: "'a::len word \<Rightarrow> 'a word \<Rightarrow> 'a word" where
  "sat_sub a b = (if b \<le> a then a - b else 0)"

definition checked_add :: "'a::len word \<Rightarrow> 'a word \<Rightarrow> 'a word option" where
  "checked_add a b = (if unat a + unat b < 2 ^ LENGTH('a) then Some (a + b) else None)"

lemma unat_sat_add:
  fixes a b :: "'a::len word"
  shows "unat (sat_add a b) = min (unat a + unat b) (2 ^ LENGTH('a) - 1)"
  by (auto simp: sat_add_def unat_word_ariths unsigned_minus_1_eq_mask mask_eq_exp_minus_1)

lemma unat_sat_sub: "unat (sat_sub a b) = unat a - unat b"
  by (auto simp: sat_sub_def unat_sub word_le_nat_alt)

section \<open>Association lists\<close>

definition alist_insert :: "'k \<Rightarrow> 'v \<Rightarrow> ('k \<times> 'v) list \<Rightarrow> ('k \<times> 'v) list" where
  "alist_insert k v xs = filter (\<lambda>p. fst p \<noteq> k) xs @ [(k, v)]"

definition alist_remove :: "'k \<Rightarrow> ('k \<times> 'v) list \<Rightarrow> ('k \<times> 'v) list" where
  "alist_remove k xs = filter (\<lambda>p. fst p \<noteq> k) xs"

lemma map_of_filter_key: "map_of (filter (\<lambda>p. fst p \<noteq> k) xs) j = (if j = k then None else map_of xs j)"
  by (induction xs) auto

lemma map_of_alist_insert [simp]: "map_of (alist_insert k v xs) = (map_of xs)(k \<mapsto> v)"
  by (rule ext) (auto simp: alist_insert_def map_add_def map_of_filter_key split: option.splits)

lemma map_of_alist_remove [simp]: "map_of (alist_remove k xs) = (map_of xs)(k := None)"
  by (rule ext) (auto simp: alist_remove_def map_of_filter_key)

lemma distinct_alist_insert [simp]:
  "distinct (map fst xs) \<Longrightarrow> distinct (map fst (alist_insert k v xs))"
  by (auto simp: alist_insert_def distinct_map_filter)

section \<open>JSON values\<close>

datatype json_number =
    PosInt nat      \<comment> \<open>a u64\<close>
  | NegInt int      \<comment> \<open>an i64 below zero\<close>
  | JFloat u64      \<comment> \<open>the bits of an f64\<close>

datatype json =
    JNull
  | JBool bool
  | JNumber json_number
  | JString string
  | JArray "json list"
  | JObject "(string \<times> json) list"

fun json_get :: "json \<Rightarrow> string \<Rightarrow> json option" where
  "json_get (JObject m) k = map_of m k"
| "json_get _ k = None"

fun as_str :: "json \<Rightarrow> string option" where
  "as_str (JString s) = Some s"
| "as_str _ = None"

fun as_array :: "json \<Rightarrow> json list option" where
  "as_array (JArray xs) = Some xs"
| "as_array _ = None"

fun as_object :: "json \<Rightarrow> (string \<times> json) list option" where
  "as_object (JObject m) = Some m"
| "as_object _ = None"

fun as_bool :: "json \<Rightarrow> bool option" where
  "as_bool (JBool b) = Some b"
| "as_bool _ = None"

fun as_u64 :: "json \<Rightarrow> nat option" where
  "as_u64 (JNumber (PosInt n)) = Some n"
| "as_u64 _ = None"

fun as_i64 :: "json \<Rightarrow> int option" where
  "as_i64 (JNumber (PosInt n)) = (if int n < 2 ^ 63 then Some (int n) else None)"
| "as_i64 (JNumber (NegInt i)) = Some i"
| "as_i64 _ = None"

abbreviation get_str :: "json \<Rightarrow> string \<Rightarrow> string option" where
  "get_str v k \<equiv> Option.bind (json_get v k) as_str"

section \<open>HTTP data\<close>

text \<open>
  A header value is a byte string; \<open>to_str\<close> succeeds on visible ASCII (and tab) only, and so
  does \<open>HeaderValue::from_str\<close>.
\<close>

type_synonym header_map = "(string \<times> string) list"

definition is_visible :: "char \<Rightarrow> bool" where
  "is_visible c = ((32 \<le> (of_char c :: nat) \<and> (of_char c :: nat) < 127) \<or> (of_char c :: nat) = 9)"

definition to_str :: "string \<Rightarrow> string option" where
  "to_str v = (if list_all is_visible v then Some v else None)"

definition header_value_from_str :: "string \<Rightarrow> string option" where
  "header_value_from_str s = (if list_all is_visible s then Some s else None)"

text \<open>\<open>HeaderName::from_bytes\<close>: a token of RFC 9110, put in lower case.  \<open>StatusCode::from_u16\<close>.\<close>

definition is_tchar :: "char \<Rightarrow> bool" where
  "is_tchar c = (is_upper_ascii c \<or> is_lower_ascii c \<or> in_range 48 57 c
     \<or> (of_char c :: nat) \<in> {33, 35, 36, 37, 38, 39, 42, 43, 45, 46, 94, 95, 96, 124, 126})"

definition header_name_from_bytes :: "string \<Rightarrow> string option" where
  "header_name_from_bytes s = (if s \<noteq> [] \<and> list_all is_tchar s then Some (to_lowercase s) else None)"

definition status_from_u16 :: "nat \<Rightarrow> nat option" where
  "status_from_u16 n = (if 100 \<le> n \<and> n \<le> 999 then Some n else None)"

definition header_get :: "header_map \<Rightarrow> string \<Rightarrow> string option" where
  "header_get h n = map_of h n"

definition header_insert :: "header_map \<Rightarrow> string \<Rightarrow> string \<Rightarrow> header_map" where
  "header_insert h n v = alist_insert n v h"

definition header_append :: "header_map \<Rightarrow> string \<Rightarrow> string \<Rightarrow> header_map" where
  "header_append h n v = h @ [(n, v)]"

abbreviation header_str :: "header_map \<Rightarrow> string \<Rightarrow> string option" where
  "header_str h n \<equiv> Option.bind (header_get h n) to_str"

lemma header_get_insert [simp]:
  "header_get (header_insert h n v) m = (if m = n then Some v else header_get h m)"
  by (simp add: header_get_def header_insert_def)

record http_parts =
  http_method :: string
  uri :: string
  uri_path :: string
  uri_query :: "string option"
  http_version :: string
  headers :: header_map

definition is_client_error :: "nat \<Rightarrow> bool" where
  "is_client_error s = (400 \<le> s \<and> s < 500)"

definition is_server_error :: "nat \<Rightarrow> bool" where
  "is_server_error s = (500 \<le> s \<and> s < 600)"

section \<open>Options and lists\<close>

text \<open>\<open>unwrap_or\<close> and \<open>or_else\<close> of \<open>Option\<close>.\<close>

definition unwrap_or :: "'a option \<Rightarrow> 'a \<Rightarrow> 'a" where
  "unwrap_or x d = (case x of None \<Rightarrow> d | Some y \<Rightarrow> y)"

definition or_else :: "'a option \<Rightarrow> 'a option \<Rightarrow> 'a option" where
  "or_else x y = (case x of None \<Rightarrow> y | Some z \<Rightarrow> Some z)"

lemma unwrap_or_simps [simp]: "unwrap_or None d = d" "unwrap_or (Some y) d = y"
  by (simp_all add: unwrap_or_def)

lemma or_else_simps [simp]: "or_else None y = y" "or_else (Some z) y = Some z"
  by (simp_all add: or_else_def)

lemma find_Some_in: "List.find P xs = Some x \<Longrightarrow> x \<in> set xs \<and> P x"
  by (induction xs) (auto split: if_splits)

lemma find_None_iff_none: "List.find P xs = None \<longleftrightarrow> (\<forall>x \<in> set xs. \<not> P x)"
  by (induction xs) auto

end
