(* ===== verification/Sanitizer.thy ===== *)
theory Sanitizer
  imports Prelude
begin

text \<open>
  \<open>interceptors/sanitizer.rs\<close>: which keys are sensitive, and the redaction of JSON values
  before they reach logs and event brokers.

  The two compiled regular expressions of \<open>sanitize_gql_query_str\<close> are arguments: \<open>re_args\<close>
  (replace inline literal arguments) and \<open>re_bearer\<close> (replace bearer tokens).  \<open>from_str\<close> and
  \<open>to_string\<close> of serde_json are arguments of \<open>sanitize_json_str\<close>.  The interface \<open>redactor\<close> is
  what the request and event code relies on.
\<close>

section \<open>Sensitive keys\<close>

definition DEFAULT_SENSITIVE_KEYS :: "string list" where
  "DEFAULT_SENSITIVE_KEYS = [''password'', ''pass'', ''token'', ''secret'', ''apikey'', ''api_key'',
     ''creditcard'', ''credit_card'', ''cvv'', ''cvc'', ''ssn'', ''pin'', ''auth'', ''authorization'']"

definition REDACTED_PLACEHOLDER :: string where
  "REDACTED_PLACEHOLDER = ''[REDACTED]''"

type_synonym sanitizer = "string list"

definition sanitizer_new :: "string list option \<Rightarrow> sanitizer" where
  "sanitizer_new custom = map to_lowercase DEFAULT_SENSITIVE_KEYS @ map to_lowercase (unwrap_or custom [])"

definition flush_token :: "string \<Rightarrow> string list" where
  "flush_token current = (if current = [] then [] else [to_lowercase current])"

text \<open>The loop over the characters: the token being read and whether the previous character
  was neither a separator nor upper case.\<close>

fun token_loop :: "string \<Rightarrow> string \<Rightarrow> bool \<Rightarrow> string list" where
  "token_loop [] current prev_is_lower = flush_token current"
| "token_loop (ch # chs) current prev_is_lower =
     (if ch \<in> {CHR ''_'', CHR ''-'', CHR ''.'', CHR '' ''} then flush_token current @ token_loop chs [] False
      else if is_upper_ascii ch then
        (if prev_is_lower \<and> current \<noteq> [] then flush_token current @ token_loop chs [ch] False
         else token_loop chs (current @ [ch]) False)
      else token_loop chs (current @ [ch]) True)"

definition split_key_tokens :: "string \<Rightarrow> string list" where
  "split_key_tokens key = token_loop key [] False"

definition norm_key :: "string \<Rightarrow> string" where
  "norm_key k = remove_chars ''-_'' k"

text \<open>The windows \<open>tokens[i..j]\<close> of at most four tokens.\<close>

definition token_windows :: "string list \<Rightarrow> string list" where
  "token_windows tokens =
     (let n = length tokens; w = min 4 n
      in concat (map (\<lambda>i. map (\<lambda>j. concat (take (j - i) (drop i tokens))) [i + 1 ..< min (i + w) n + 1])
                     [0 ..< n]))"

definition is_sensitive_key :: "sanitizer \<Rightarrow> string \<Rightarrow> bool" where
  "is_sensitive_key s key =
     (let normalized = norm_key (to_lowercase key); tokens = split_key_tokens key
      in list_ex (\<lambda>k. normalized = norm_key k) s
       \<or> list_ex (\<lambda>token. list_ex (\<lambda>k. token = norm_key k) s) tokens
       \<or> list_ex (\<lambda>joined. list_ex (\<lambda>k. joined = norm_key k) s) (token_windows tokens))"

section \<open>Redaction\<close>

definition is_bearer :: "string \<Rightarrow> bool" where
  "is_bearer s = starts_with (to_lowercase s) ''bearer ''"

definition redacted_bearer :: string where
  "redacted_bearer = ''Bearer '' @ REDACTED_PLACEHOLDER"

text \<open>The value that replaces the one under a sensitive key.\<close>

definition redact_sensitive :: "json \<Rightarrow> json" where
  "redact_sensitive v =
     (case v of
        JString s \<Rightarrow> if is_bearer s then JString redacted_bearer else JString REDACTED_PLACEHOLDER
      | _ \<Rightarrow> JString REDACTED_PLACEHOLDER)"

definition sanitize_gql_query_str :: "(string \<Rightarrow> string) \<Rightarrow> (string \<Rightarrow> string) \<Rightarrow> string \<Rightarrow> string" where
  "sanitize_gql_query_str re_args re_bearer query = re_bearer (re_args query)"

text \<open>The \<open>query\<close> entry: only a string is rewritten.\<close>

definition redact_query :: "(string \<Rightarrow> string) \<Rightarrow> json \<Rightarrow> json" where
  "redact_query gql v = (case v of JString q \<Rightarrow> JString (gql q) | _ \<Rightarrow> v)"

function (sequential) sanitize_value_depth :: "(string \<Rightarrow> string) \<Rightarrow> sanitizer \<Rightarrow> json \<Rightarrow> nat \<Rightarrow> json" where
  "sanitize_value_depth gql s (JObject m) depth =
     (if depth > 64 then JObject m
      else JObject (map (\<lambda>p. (fst p,
              if is_sensitive_key s (fst p) then redact_sensitive (snd p)
              else if to_lowercase (fst p) = ''query'' then redact_query gql (snd p)
              else sanitize_value_depth gql s (snd p) (depth + 1))) m))"
| "sanitize_value_depth gql s (JArray xs) depth =
     (if depth > 64 then JArray xs
      else JArray (map (\<lambda>v. sanitize_value_depth gql s v (depth + 1)) xs))"
| "sanitize_value_depth gql s (JString t) depth =
     (if depth > 64 then JString t
      else if is_bearer t then JString redacted_bearer else JString t)"
| "sanitize_value_depth gql s v depth = v"
  by pat_completeness auto
termination
  by (relation "measure (\<lambda>(gql, s, v, depth). 65 - depth)") auto

definition sanitize_value :: "(string \<Rightarrow> string) \<Rightarrow> sanitizer \<Rightarrow> json \<Rightarrow> json" where
  "sanitize_value gql s v = sanitize_value_depth gql s v 0"

definition sanitize_json_str ::
  "(string \<Rightarrow> json result) \<Rightarrow> (json \<Rightarrow> string result) \<Rightarrow> (string \<Rightarrow> string) \<Rightarrow> sanitizer \<Rightarrow> string \<Rightarrow> string" where
  "sanitize_json_str from_str to_string gql s raw =
     (case from_str raw of
        Inr val \<Rightarrow> (case to_string (sanitize_value gql s val) of Inr t \<Rightarrow> t | Inl _ \<Rightarrow> raw)
      | Inl _ \<Rightarrow> gql raw)"

declare sanitize_value_depth.simps(1,2,3) [simp del]

section \<open>What callers rely on\<close>

definition redacted_marks :: "json set" where
  "redacted_marks = {JString REDACTED_PLACEHOLDER, JString redacted_bearer}"

locale redactor =
  fixes sensitive :: "string \<Rightarrow> bool"
    and redact :: "json \<Rightarrow> json"
  assumes redact_sensitive_key:
      "sensitive k \<Longrightarrow> json_get v k = Some x \<Longrightarrow> \<exists>y \<in> redacted_marks. json_get (redact v) k = Some y"
    and redact_keeps_keys: "json_get (redact v) k = None \<longleftrightarrow> json_get v k = None"
begin

text \<open>Whatever a sensitive key held, a reader of the redacted value sees a mark or nothing.\<close>

lemma get_redacted: "sensitive k \<Longrightarrow> json_get (redact v) k \<in> insert None (Some ` redacted_marks)"
  using redact_sensitive_key redact_keeps_keys by (cases "json_get v k") force+

lemma get_str_redacted:
  assumes "sensitive k"
  shows "get_str (redact v) k \<in> {None, Some REDACTED_PLACEHOLDER, Some redacted_bearer}"
  using get_redacted [OF assms, of v] by (auto simp: redacted_marks_def)

end

lemma redact_sensitive_mark: "redact_sensitive v \<in> redacted_marks"
  by (auto simp: redact_sensitive_def redacted_marks_def split: json.splits)

lemma map_of_map_pair: "map_of (map (\<lambda>p. (fst p, f (fst p) (snd p))) m) k = map_option (f k) (map_of m k)"
  by (induction m) auto

text \<open>One level of an object below the depth limit.\<close>

lemma json_get_sanitize:
  "depth \<le> 64 \<Longrightarrow> json_get (sanitize_value_depth gql s v depth) k =
     map_option (\<lambda>x. if is_sensitive_key s k then redact_sensitive x
                     else if to_lowercase k = ''query'' then redact_query gql x
                     else sanitize_value_depth gql s x (depth + 1)) (json_get v k)"
  by (cases v) (auto simp: sanitize_value_depth.simps map_of_map_pair
      [of "\<lambda>k x. if is_sensitive_key s k then redact_sensitive x
            else if to_lowercase k = ''query'' then redact_query gql x
            else sanitize_value_depth gql s x (depth + 1)"])

interpretation value_redactor: redactor "is_sensitive_key s" "sanitize_value gql s" for s gql
  by unfold_locales (auto simp: sanitize_value_def json_get_sanitize redact_sensitive_mark)

section \<open>Properties\<close>

text \<open>A place in a JSON value.\<close>

datatype json_step = Key string | Index nat

fun step_into :: "json \<Rightarrow> json_step \<Rightarrow> json option" where
  "step_into (JObject m) (Key k) = map_of m k"
| "step_into (JArray xs) (Index i) = (if i < length xs then Some (xs ! i) else None)"
| "step_into _ _ = None"

fun value_at :: "json \<Rightarrow> json_step list \<Rightarrow> json option" where
  "value_at v [] = Some v"
| "value_at v (st # p) = Option.bind (step_into v st) (\<lambda>x. value_at x p)"

text \<open>The steps the recursion descends through.\<close>

fun plain_step :: "sanitizer \<Rightarrow> json_step \<Rightarrow> bool" where
  "plain_step s (Key k) = (\<not> is_sensitive_key s k \<and> to_lowercase k \<noteq> ''query'')"
| "plain_step s (Index i) = True"

lemma step_into_sanitize:
  assumes "plain_step s st" "depth \<le> 64"
  shows "step_into (sanitize_value_depth gql s v depth) st =
         map_option (\<lambda>x. sanitize_value_depth gql s x (depth + 1)) (step_into v st)"
proof (cases st)
  case (Key k)
  with assms json_get_sanitize [of depth gql s v k] show ?thesis
    by (cases v) (simp_all add: sanitize_value_depth.simps)
next
  case (Index i)
  with assms show ?thesis by (cases v) (simp_all add: sanitize_value_depth.simps)
qed

lemma value_at_sanitize:
  "list_all (plain_step s) p \<Longrightarrow> depth + length p \<le> 65 \<Longrightarrow>
   value_at (sanitize_value_depth gql s v depth) p =
   map_option (\<lambda>x. sanitize_value_depth gql s x (depth + length p)) (value_at v p)"
proof (induction p arbitrary: v depth)
  case (Cons st p)
  then show ?case
    by (cases "step_into v st") (simp_all add: step_into_sanitize)
qed simp

lemma value_at_append: "value_at v (p @ q) = Option.bind (value_at v p) (\<lambda>x. value_at x q)"
  by (induction p arbitrary: v) (auto split: bind_splits)

text \<open>\<open>sanitize_value\<close>: at every place of a JSON value reached through at most 64 plain keys and
  array positions, the value under a sensitive key is replaced by a redaction mark, and
  every other value met on the way is still there, itself sanitised.\<close>

theorem sanitize_value_redacts:
  assumes "list_all (plain_step s) p" "length p \<le> 64" "is_sensitive_key s k"
    and "value_at v (p @ [Key k]) = Some x"
  shows "\<exists>y \<in> redacted_marks. value_at (sanitize_value gql s v) (p @ [Key k]) = Some y"
proof -
  from assms(4) obtain o1 where at: "value_at v p = Some o1" and get: "json_get o1 k = Some x"
    by (cases "value_at v p") (auto simp: value_at_append elim: step_into.elims split: bind_splits)
  have "value_at (sanitize_value gql s v) p = Some (sanitize_value_depth gql s o1 (length p))"
    using value_at_sanitize [of s p 0 gql v] assms(1,2) at by (simp add: sanitize_value_def)
  moreover have "json_get (sanitize_value_depth gql s o1 (length p)) k = Some (redact_sensitive x)"
    using assms(2,3) get by (simp add: json_get_sanitize)
  then have "step_into (sanitize_value_depth gql s o1 (length p)) (Key k) = Some (redact_sensitive x)"
    by (cases "sanitize_value_depth gql s o1 (length p)") simp_all
  ultimately show ?thesis
    using redact_sensitive_mark by (simp add: value_at_append)
qed

text \<open>A value without secrets at the places the sanitizer covers: every place reached through at most 64 plain
  keys and array positions.  There a sensitive key holds a mark, and no text is a bearer token.\<close>

definition clean_json :: "sanitizer \<Rightarrow> json \<Rightarrow> bool" where
  "clean_json s v =
     ((\<forall>p k x. list_all (plain_step s) p \<and> length p \<le> 64 \<and> is_sensitive_key s k \<and> value_at v (p @ [Key k]) = Some x
         \<longrightarrow> x \<in> redacted_marks)
      \<and> (\<forall>p t. list_all (plain_step s) p \<and> length p \<le> 64 \<and> value_at v p = Some (JString t) \<and> is_bearer t
         \<longrightarrow> t = redacted_bearer))"

lemma step_into_key: "step_into v (Key k) = json_get v k"
  by (cases v) simp_all

lemma value_at_covered:
  "list_all (plain_step s) p \<Longrightarrow> length p \<le> 64 \<Longrightarrow>
   value_at (sanitize_value gql s v) p = map_option (\<lambda>x. sanitize_value_depth gql s x (length p)) (value_at v p)"
  using value_at_sanitize [of s p 0 gql v] by (simp add: sanitize_value_def)

lemma sanitized_text:
  "sanitize_value_depth gql s v depth = JString t \<Longrightarrow> depth \<le> 64 \<Longrightarrow> is_bearer t \<Longrightarrow> t = redacted_bearer"
  by (cases v) (auto simp: sanitize_value_depth.simps split: if_splits)

lemma sanitize_value_clean: "clean_json s (sanitize_value gql s v)"
  unfolding clean_json_def
proof (intro conjI allI impI; elim conjE)
  fix p k x
  assume p: "list_all (plain_step s) p" "length p \<le> 64" and k: "is_sensitive_key s k"
    and at: "value_at (sanitize_value gql s v) (p @ [Key k]) = Some x"
  then obtain y where "value_at v p = Some y" "json_get (sanitize_value_depth gql s y (length p)) k = Some x"
    by (auto simp: value_at_append value_at_covered step_into_key split: bind_splits)
  then show "x \<in> redacted_marks"
    using p(2) k redact_sensitive_mark by (auto simp: json_get_sanitize)
next
  fix p t
  assume p: "list_all (plain_step s) p" "length p \<le> 64" and t: "is_bearer t"
    and at: "value_at (sanitize_value gql s v) p = Some (JString t)"
  then obtain y where "sanitize_value_depth gql s y (length p) = JString t" by (auto simp: value_at_covered)
  then show "t = redacted_bearer" using p(2) t by (rule sanitized_text)
qed

lemma null_clean [simp]: "clean_json s JNull"
proof -
  have "value_at JNull (st # p) = None" for st p by (cases st) simp_all
  moreover have "p @ [Key k] = hd (p @ [Key k]) # tl (p @ [Key k])" for p k by simp
  ultimately have "value_at JNull (p @ [Key k]) = None" for p k by metis
  moreover have "value_at JNull p \<noteq> Some (JString t)" for p t
    using \<open>\<And>st p. value_at JNull (st # p) = None\<close> by (cases p) simp_all
  ultimately show ?thesis by (simp add: clean_json_def)
qed

definition sample_body :: json where
  "sample_body = JObject [(''variables'', JArray [JObject [(''accessToken'', JString ''abc'')]])]"

theorem sanitize_value_redacts_witness:
  "\<exists>y \<in> redacted_marks. value_at (sanitize_value id (sanitizer_new None) sample_body)
     [Key ''variables'', Index 0, Key ''accessToken''] = Some y"
  using sanitize_value_redacts [of "sanitizer_new None" "[Key ''variables'', Index 0]" "''accessToken''"
      sample_body "JString ''abc''" id]
  by (simp add: sample_body_def) code_simp

lemma redact_sensitive_idem: "redact_sensitive (redact_sensitive v) = redact_sensitive v"
proof -
  have "is_bearer redacted_bearer" "\<not> is_bearer REDACTED_PLACEHOLDER" by code_simp+
  then show ?thesis by (auto simp: redact_sensitive_def split: json.splits)
qed

lemma redact_query_idem:
  "(\<And>q. gql (gql q) = gql q) \<Longrightarrow> redact_query gql (redact_query gql v) = redact_query gql v"
  by (simp add: redact_query_def split: json.splits)

text \<open>Sanitising is idempotent: a body that went through \<open>sanitize_value\<close> once (in the request
  log) and again (on the way to the broker) is the body sanitised once.  The hypothesis is
  that the two regular expressions leave their own replacement text alone.\<close>

theorem sanitize_value_idem:
  assumes gql: "\<And>q. gql (gql q) = gql q"
  shows "sanitize_value_depth gql s (sanitize_value_depth gql s v depth) depth = sanitize_value_depth gql s v depth"
proof (induction gql\<equiv>gql s v depth rule: sanitize_value_depth.induct)
  case (1 s m depth)
  then show ?case
    by (auto simp: sanitize_value_depth.simps redact_sensitive_idem redact_query_idem [OF gql])
next
  case (2 s xs depth)
  then show ?case by (auto simp: sanitize_value_depth.simps)
next
  case (3 s t depth)
  have "is_bearer redacted_bearer" by code_simp
  then show ?case by (simp add: sanitize_value_depth.simps)
qed simp_all

theorem sanitize_value_idem_witness:
  "(\<forall>q :: string. id (id q) = id q) \<and>
   sanitize_value_depth id (sanitizer_new None) (sanitize_value_depth id (sanitizer_new None) sample_body 0) 0
   = sanitize_value_depth id (sanitizer_new None) sample_body 0"
  using sanitize_value_idem [of id "sanitizer_new None" sample_body 0] by simp

text \<open>Below the depth limit nothing is redacted: 65 enclosing arrays keep a password.\<close>

fun nest :: "nat \<Rightarrow> json \<Rightarrow> json" where
  "nest 0 v = v"
| "nest (Suc n) v = JArray [nest n v]"

lemma sanitize_nest: "depth + n \<le> 65 \<Longrightarrow>
  sanitize_value_depth gql s (nest n v) depth = nest n (sanitize_value_depth gql s v (depth + n))"
  by (induction n arbitrary: depth) (simp_all add: sanitize_value_depth.simps)

lemma sanitize_value_depth_limit:
  "sanitize_value gql s (nest 65 (JObject [(''password'', JString pw)])) = nest 65 (JObject [(''password'', JString pw)])"
  by (simp add: sanitize_value_def sanitize_nest sanitize_value_depth.simps)

text \<open>A value under \<open>query\<close> that is not a string is not looked into.\<close>

lemma sanitize_value_query_object:
  "sanitize_value gql (sanitizer_new None) (JObject [(''query'', JObject [(''password'', JString pw)])])
   = JObject [(''query'', JObject [(''password'', JString pw)])]"
proof -
  have "\<not> is_sensitive_key (sanitizer_new None) ''query''" "to_lowercase ''query'' = ''query''" by code_simp+
  then show ?thesis by (simp add: sanitize_value_def sanitize_value_depth.simps redact_query_def)
qed

text \<open>A configured key is recognised whatever its case and its dashes and underscores.\<close>

lemma configured_key_sensitive:
  assumes "k \<in> set (unwrap_or custom []) \<union> set DEFAULT_SENSITIVE_KEYS"
    and "norm_key (to_lowercase k') = norm_key (to_lowercase k)"
  shows "is_sensitive_key (sanitizer_new custom) k'"
  using assms by (auto simp: is_sensitive_key_def sanitizer_new_def Let_def list_ex_iff)

end
