(* ===== verification/Clock.thy ===== *)
theory Clock
  imports Prelude
begin

text \<open>
  The hybrid logical clock of \<open>core/clock.rs\<close>.

  The clock is one 64-bit atomic word: 48 bits of milliseconds above 16 bits of a logical
  counter.  \<open>now_next\<close> and \<open>update_next\<close> are the bodies of the two compare-and-swap loops;
  \<open>clock_step\<close> is the shared word with any number of threads inside those loops (load,
  successful exchange, failed or spuriously failed exchange).  The interface locale
  \<open>packed_clock\<close> says what a loop body must do to the packed word for the issued values to
  increase strictly; it is interpreted on \<open>op_next\<close>.
\<close>

section \<open>Timestamps\<close>

record hlc_timestamp =
  physical :: u64
  logical :: u32

definition hlc_new :: "u64 \<Rightarrow> u32 \<Rightarrow> hlc_timestamp" where
  "hlc_new p l = \<lparr>physical = p, logical = l\<rparr>"

definition hlc_less :: "hlc_timestamp \<Rightarrow> hlc_timestamp \<Rightarrow> bool" where
  "hlc_less a b =
     (physical a < physical b \<or> (physical a = physical b \<and> logical a < logical b))"

definition to_compact_string :: "hlc_timestamp \<Rightarrow> string" where
  "to_compact_string t =
     pad0 13 (show_nat (unat (physical t))) @ ''-'' @ pad0 6 (show_nat (unat (logical t)))"

definition hlc_display :: "hlc_timestamp \<Rightarrow> string" where
  "hlc_display t =
     pad0 13 (show_nat (unat (physical t))) @ ''.'' @ pad0 6 (show_nat (unat (logical t)))"

section \<open>The packed word\<close>

definition MAX_ALLOWED_CLOCK_DRIFT_MS :: u64 where
  "MAX_ALLOWED_CLOCK_DRIFT_MS = 60000"

definition LOGICAL_MASK :: u64 where
  "LOGICAL_MASK = 0xFFFF"

definition MAX_LOGICAL :: u32 where
  "MAX_LOGICAL = 0xFFFF"

definition hlc_clock_new :: "u64 \<Rightarrow> u64" where
  "hlc_clock_new initial_physical = push_bit 16 initial_physical AND NOT LOGICAL_MASK"

definition curr_physical :: "u64 \<Rightarrow> u64" where
  "curr_physical current = drop_bit 16 current"

definition curr_logical :: "u64 \<Rightarrow> u32" where
  "curr_logical current = ucast (current AND LOGICAL_MASK)"

definition hlc_pack :: "u64 \<Rightarrow> u32 \<Rightarrow> u64" where
  "hlc_pack p l = (push_bit 16 p) OR (ucast l AND LOGICAL_MASK)"

section \<open>The bodies of the compare-and-swap loops\<close>

definition now_next :: "u64 \<Rightarrow> u64 \<Rightarrow> u64 \<times> u32" where
  "now_next physical_now current =
     (if physical_now > curr_physical current then (physical_now, 0)
      else if curr_logical current < MAX_LOGICAL
        then (curr_physical current, curr_logical current + 1)
        else (sat_add (curr_physical current) 1, 0))"

definition safe_remote_physical :: "u64 \<Rightarrow> hlc_timestamp \<Rightarrow> u64" where
  "safe_remote_physical physical_now remote =
     (let max_tolerated = sat_add physical_now MAX_ALLOWED_CLOCK_DRIFT_MS
      in if physical remote > max_tolerated then max_tolerated else physical remote)"

text \<open>The match that all three counter branches of \<open>update\<close> repeat.\<close>

definition bump_logical :: "u64 \<Rightarrow> u32 \<Rightarrow> u64 \<times> u32" where
  "bump_logical new_physical l =
     (case checked_add l 1 of
        Some val \<Rightarrow> if val \<le> MAX_LOGICAL then (new_physical, val) else (sat_add new_physical 1, 0)
      | None \<Rightarrow> (sat_add new_physical 1, 0))"

definition update_next :: "u64 \<Rightarrow> hlc_timestamp \<Rightarrow> u64 \<Rightarrow> u64 \<times> u32" where
  "update_next physical_now remote current =
     (let safe_remote = safe_remote_physical physical_now remote;
          cp = curr_physical current;
          cl = curr_logical current;
          new_physical = max (max physical_now cp) safe_remote
      in if new_physical = cp \<and> new_physical = safe_remote
           then bump_logical new_physical (max cl (logical remote))
         else if new_physical = cp then bump_logical new_physical cl
         else if new_physical = safe_remote then bump_logical new_physical (logical remote)
         else (new_physical, 0))"

section \<open>Threads inside the loops\<close>

datatype clock_op = OpNow u64 | OpUpdate u64 hlc_timestamp

fun op_next :: "clock_op \<Rightarrow> u64 \<Rightarrow> u64 \<times> u32" where
  "op_next (OpNow p) c = now_next p c"
| "op_next (OpUpdate p r) c = update_next p r c"

text \<open>
  Clock readings before the year 6429 (\<open>2 ^ 47\<close> milliseconds, less the tolerated drift):
  half of the range of the 48-bit field.
\<close>

fun reading_ok :: "clock_op \<Rightarrow> bool" where
  "reading_ok (OpNow p) = (unat p + 60000 < 2 ^ 47)"
| "reading_ok (OpUpdate p r) = (unat p + 60000 < 2 ^ 47)"

datatype clock_thread = Idle | Looping clock_op u64

record clock_sys =
  clock_state :: u64
  threads :: "nat \<Rightarrow> clock_thread"
  issued :: "hlc_timestamp list"

definition clock_init :: "u64 \<Rightarrow> clock_sys" where
  "clock_init p = \<lparr>clock_state = hlc_clock_new p, threads = (\<lambda>_. Idle), issued = []\<rparr>"

inductive clock_step :: "clock_sys \<Rightarrow> clock_sys \<Rightarrow> bool" where
  load: "threads s i = Idle \<Longrightarrow> reading_ok op \<Longrightarrow>
     clock_step s (s\<lparr>threads := (threads s)(i := Looping op (clock_state s))\<rparr>)"
| cas_ok: "threads s i = Looping op current \<Longrightarrow> clock_state s = current \<Longrightarrow>
     op_next op current = (p, l) \<Longrightarrow>
     clock_step s (s\<lparr>clock_state := hlc_pack p l, threads := (threads s)(i := Idle),
                     issued := issued s @ [hlc_new p l]\<rparr>)"
| cas_fail: "threads s i = Looping op current \<Longrightarrow>
     clock_step s (s\<lparr>threads := (threads s)(i := Looping op (clock_state s))\<rparr>)"

inductive_cases clock_stepE: "clock_step s t"

inductive clock_reach :: "u64 \<Rightarrow> clock_sys \<Rightarrow> bool" where
  init: "clock_reach p (clock_init p)"
| step: "clock_reach p s \<Longrightarrow> clock_step s t \<Longrightarrow> clock_reach p t"

section \<open>The interface: what a loop body owes the packed word\<close>

fun iterate :: "('op \<Rightarrow> nat \<Rightarrow> nat) \<Rightarrow> 'op list \<Rightarrow> nat \<Rightarrow> nat list" where
  "iterate nxt [] c = []"
| "iterate nxt (op # ops) c = nxt op c # iterate nxt ops (nxt op c)"

lemma iterate_append:
  "iterate nxt (xs @ [x]) c =
     iterate nxt xs c @ [nxt x (last (c # iterate nxt xs c))]"
  by (induction xs arbitrary: c) auto

locale packed_clock =
  fixes nxt :: "'op \<Rightarrow> nat \<Rightarrow> nat"
    and ok :: "'op \<Rightarrow> bool"
    and bound top :: nat
  assumes nxt_gt: "ok op \<Longrightarrow> c < top \<Longrightarrow> c < nxt op c"
    and nxt_le: "ok op \<Longrightarrow> c < top \<Longrightarrow> nxt op c \<le> max (Suc c) bound"
begin

lemma iterate_increasing:
  assumes "list_all ok ops" and "max c bound + length ops \<le> top"
  shows "sorted_wrt (<) (c # iterate nxt ops c)"
  using assms
proof (induction ops arbitrary: c)
  case Nil
  then show ?case by simp
next
  case (Cons op ops)
  from Cons.prems have ok: "ok op" and lt: "c < top" by auto
  have gt: "c < nxt op c" and le: "nxt op c \<le> max (Suc c) bound"
    using nxt_gt [OF ok lt] nxt_le [OF ok lt] by auto
  have "max (nxt op c) bound + length ops \<le> top" using Cons.prems(2) le by auto
  then have "sorted_wrt (<) (nxt op c # iterate nxt ops (nxt op c))"
    using Cons.IH Cons.prems(1) by simp
  with gt show ?case by fastforce
qed

lemma iterate_bounded:
  assumes "list_all ok ops" and "max c bound + length ops \<le> top"
  shows "last (c # iterate nxt ops c) \<le> max c bound + length ops"
  using assms
proof (induction ops arbitrary: c)
  case Nil
  then show ?case by simp
next
  case (Cons op ops)
  from Cons.prems have ok: "ok op" and lt: "c < top" by auto
  have le: "nxt op c \<le> max (Suc c) bound" by (rule nxt_le [OF ok lt])
  then have "max (nxt op c) bound + length ops \<le> top" using Cons.prems(2) by auto
  then have "last (nxt op c # iterate nxt ops (nxt op c)) \<le> max (nxt op c) bound + length ops"
    using Cons.IH Cons.prems(1) by simp
  with le show ?case by auto
qed

end

section \<open>Words and the numbers they pack\<close>

lemma unat_curr_physical: "unat (curr_physical c) = unat c div 65536"
  by (simp add: curr_physical_def drop_bit_eq_div unat_div)

lemma unat_and_mask16: "unat (c AND LOGICAL_MASK) = unat c mod 65536"
proof -
  have "LOGICAL_MASK = mask 16"
    by (simp add: LOGICAL_MASK_def mask_eq_exp_minus_1)
  then have "c AND LOGICAL_MASK = take_bit 16 c"
    by (simp only: take_bit_eq_mask)
  then show ?thesis
    by (simp add: take_bit_eq_mod unat_mod)
qed

lemma unat_curr_logical: "unat (curr_logical c) = unat c mod 65536"
proof -
  have "unat (curr_logical c) = take_bit 32 (unat c mod 65536)"
    by (simp add: curr_logical_def unsigned_ucast_eq unat_and_mask16)
  also have "\<dots> = unat c mod 65536"
    by (simp add: take_bit_eq_mod)
  finally show ?thesis .
qed

lemma unat_hlc_pack:
  assumes "unat p < 2 ^ 48" and "unat l < 65536"
  shows "unat (hlc_pack p l) = unat p * 65536 + unat l"
proof -
  let ?a = "push_bit 16 p" and ?b = "ucast l AND LOGICAL_MASK :: u64"
  have m: "LOGICAL_MASK = mask 16"
    by (simp add: LOGICAL_MASK_def mask_eq_exp_minus_1)
  have "?a AND ?b = 0"
    unfolding m by (rule bit_word_eqI) (auto simp: bit_simps)
  then have or: "hlc_pack p l = ?a + ?b"
    unfolding hlc_pack_def by (simp add: disjunctive_add_eq_or)
  have a: "unat ?a = unat p * 65536"
    using assms(1) by (simp add: push_bit_eq_mult unat_word_ariths)
  have b: "unat ?b = unat l"
    using assms(2) by (simp add: unat_and_mask16 unsigned_ucast_eq take_bit_eq_mod)
  have "unat ?a + unat ?b < 2 ^ 64"
    using a b assms by simp
  with or a b show ?thesis
    by (simp add: unat_word_ariths)
qed

lemma unat_hlc_clock_new:
  assumes "unat p < 2 ^ 48"
  shows "unat (hlc_clock_new p) = unat p * 65536"
proof -
  have m: "LOGICAL_MASK = mask 16"
    by (simp add: LOGICAL_MASK_def mask_eq_exp_minus_1)
  have "hlc_clock_new p = push_bit 16 p"
    unfolding hlc_clock_new_def m by (rule bit_word_eqI) (auto simp: bit_simps)
  then show ?thesis
    using assms by (simp add: push_bit_eq_mult unat_word_ariths)
qed

text \<open>The word written by a counter step is the previous one plus one, capped at the counter.\<close>

lemma bump_logical_value:
  assumes "unat np < 2 ^ 63" and "bump_logical np l = (p, l')"
  shows "unat p * 65536 + unat l' = unat np * 65536 + min (unat l) 65535 + 1"
    and "unat l' < 65536"
proof -
  have sat: "unat (sat_add np 1) = unat np + 1"
    using assms(1) by (simp add: unat_sat_add)
  have *: "unat p * 65536 + unat l' = unat np * 65536 + min (unat l) 65535 + 1 \<and> unat l' < 65536"
  proof (cases "unat l < 65535")
    case True
    then have "checked_add l 1 = Some (l + 1)" and u: "unat (l + 1) = unat l + 1"
      by (simp_all add: checked_add_def unat_word_ariths)
    moreover have "l + 1 \<le> MAX_LOGICAL"
      using True u by (simp add: word_le_nat_alt MAX_LOGICAL_def)
    ultimately have "p = np" and "l' = l + 1"
      using assms(2) by (simp_all add: bump_logical_def)
    with True u show ?thesis by simp
  next
    case False
    have "\<not> val \<le> MAX_LOGICAL" if "checked_add l 1 = Some val" for val
      using that False
      by (auto simp: checked_add_def word_le_nat_alt MAX_LOGICAL_def unat_word_ariths split: if_splits)
    then have "p = sat_add np 1" and "l' = 0"
      using assms(2) by (auto simp: bump_logical_def split: option.splits if_splits)
    with False sat show ?thesis by simp
  qed
  then show "unat p * 65536 + unat l' = unat np * 65536 + min (unat l) 65535 + 1"
    and "unat l' < 65536" by blast+
qed

lemma now_next_value:
  assumes "unat c < 2 ^ 64 - 1" and "now_next pn c = (p, l)"
  shows "unat p * 65536 + unat l =
           (if unat c div 65536 < unat pn then unat pn * 65536 else unat c + 1) \<and> unat l < 65536"
proof -
  consider (later) "unat c div 65536 < unat pn"
    | (count) "\<not> unat c div 65536 < unat pn" "unat c mod 65536 < 65535"
    | (full) "\<not> unat c div 65536 < unat pn" "unat c mod 65536 = 65535"
    by linarith
  then show ?thesis
  proof cases
    case later
    then show ?thesis
      using assms by (simp add: now_next_def word_less_nat_alt unat_curr_physical)
  next
    case count
    then have "unat (curr_logical c + 1) = unat c mod 65536 + 1"
      by (simp add: unat_word_ariths unat_curr_logical)
    with count assms show ?thesis
      by (auto simp: now_next_def word_less_nat_alt unat_curr_physical unat_curr_logical MAX_LOGICAL_def)
  next
    case full
    have "unat c div 65536 + 1 < 2 ^ 64" using assms(1) by simp
    then have "unat (sat_add (curr_physical c) 1) = unat c div 65536 + 1"
      by (simp add: unat_sat_add unat_curr_physical)
    with full assms div_mult_mod_eq [of "unat c" 65536] show ?thesis
      by (auto simp: now_next_def word_less_nat_alt unat_curr_physical unat_curr_logical MAX_LOGICAL_def)
  qed
qed

lemma safe_remote_bounds:
  "unat (safe_remote_physical pn r) \<le> unat pn + 60000"
  "unat (safe_remote_physical pn r) \<le> unat (physical r)"
  by (auto simp: safe_remote_physical_def Let_def MAX_ALLOWED_CLOCK_DRIFT_MS_def unat_sat_add
      word_less_nat_alt)

lemma unat_max: "unat (max a b) = max (unat a) (unat b)"
  by (auto simp: max_def word_le_nat_alt)

text \<open>The four branches of \<open>update\<close>, with the words compared as numbers.\<close>

lemma update_next_cases:
  fixes pn c :: u64 and r :: hlc_timestamp
  assumes "update_next pn r c = (p, l)" "np = max (max pn (curr_physical c)) (safe_remote_physical pn r)"
    and "R = unat (safe_remote_physical pn r)"
  obtains
      (both) "unat np = unat c div 65536" "unat np = R" "bump_logical np (max (curr_logical c) (logical r)) = (p, l)"
    | (local) "unat np = unat c div 65536" "unat np \<noteq> R" "bump_logical np (curr_logical c) = (p, l)"
    | (remote) "unat np \<noteq> unat c div 65536" "unat np = R" "bump_logical np (logical r) = (p, l)"
    | (clock) "unat np \<noteq> unat c div 65536" "unat np \<noteq> R" "p = np" "l = 0"
proof -
  have eqs: "np = curr_physical c \<longleftrightarrow> unat np = unat c div 65536"
    "np = safe_remote_physical pn r \<longleftrightarrow> unat np = R"
    by (simp_all add: word_unat_eq_iff unat_curr_physical assms(3))
  have "(p, l) =
    (if unat np = unat c div 65536 \<and> unat np = R then bump_logical np (max (curr_logical c) (logical r))
     else if unat np = unat c div 65536 then bump_logical np (curr_logical c)
     else if unat np = R then bump_logical np (logical r) else (np, 0))"
    using assms(1) unfolding update_next_def Let_def assms(2) [symmetric] eqs by simp
  with that show thesis by (auto split: if_splits)
qed

text \<open>
  The value \<open>update\<close> writes, as a number: at least one above the local word, and at least one
  above the tolerated remote timestamp.
\<close>

lemma update_next_value:
  fixes pn c :: u64 and r :: hlc_timestamp
  defines "R \<equiv> unat (safe_remote_physical pn r)"
  assumes "unat pn + 60000 < 2 ^ 47" and "update_next pn r c = (p, l)"
  shows "unat l < 65536"
    and "unat c < unat p * 65536 + unat l"
    and "R * 65536 + min (unat (logical r)) 65535 < unat p * 65536 + unat l"
    and "unat p * 65536 + unat l \<le> max (unat c + 1) ((max (unat pn) R + 1) * 65536)"
proof -
  let ?np = "max (max pn (curr_physical c)) (safe_remote_physical pn r)"
  let ?V = "unat p * 65536 + unat l"
  have np: "unat ?np = max (max (unat pn) (unat c div 65536)) R"
    by (simp add: unat_max unat_curr_physical R_def)
  have R: "R \<le> unat pn + 60000"
    unfolding R_def by (rule safe_remote_bounds)
  have "unat c < 2 ^ 64" by (rule order_less_le_trans [OF unsigned_less]) simp
  then have small: "unat ?np < 2 ^ 63"
    using assms(2) R by (simp add: np)
  define q k where "q = unat c div 65536" and "k = unat c mod 65536"
  have c: "unat c = q * 65536 + k" and k: "k < 65536"
    by (simp_all add: q_def k_def)
  define M lr where "M = (max (unat pn) R + 1) * 65536" and "lr = unat (logical r)"
  have mx: "R * 65536 + 65536 \<le> M" "unat pn * 65536 + 65536 \<le> M"
    by (auto simp: M_def max_def)
  note bump = bump_logical_value [OF small]
  have "unat l < 65536 \<and> unat c < ?V \<and> R * 65536 + min lr 65535 < ?V \<and> ?V \<le> max (unat c + 1) M"
    using assms(3) refl [of ?np] R_def [THEN meta_eq_to_obj_eq]
  proof (cases rule: update_next_cases)
    case both
    have V: "?V = R * 65536 + min (max k lr) 65535 + 1"
      using bump(1) [OF both(3)] both(2) by (simp add: unat_max unat_curr_logical k_def lr_def)
    have "q = R" using both(1,2) by (simp add: q_def)
    then show ?thesis using bump(2) [OF both(3)] V c k mx(1) by (intro conjI; linarith)
  next
    case local
    have V: "?V = q * 65536 + k + 1"
      using bump(1) [OF local(3)] k local(1) by (simp add: unat_curr_logical k_def q_def)
    have "R < q" using local(1,2) np by (auto simp: q_def)
    then show ?thesis using bump(2) [OF local(3)] V c k by (intro conjI; linarith)
  next
    case remote
    have V: "?V = R * 65536 + min lr 65535 + 1"
      using bump(1) [OF remote(3)] remote(2) by (simp add: lr_def)
    have "q < R" using remote(1,2) np by (auto simp: q_def)
    then show ?thesis using bump(2) [OF remote(3)] V c k mx(1) by (intro conjI; linarith)
  next
    case clock
    have "unat ?np = unat pn" "q < unat pn" "R < unat pn"
      using clock(1,2) np by (auto simp: q_def)
    moreover have "unat p = unat pn" "unat l = 0" using clock(3,4) calculation(1) by simp_all
    ultimately show ?thesis using c k mx(2) by (intro conjI; linarith)
  qed
  then show "unat l < 65536" and "unat c < ?V"
    and "R * 65536 + min (unat (logical r)) 65535 < ?V"
    and "?V \<le> max (unat c + 1) ((max (unat pn) R + 1) * 65536)"
    unfolding M_def lr_def by blast+
qed

section \<open>The HLC is a packed clock\<close>

definition hlc_nxt :: "clock_op \<Rightarrow> nat \<Rightarrow> nat" where
  "hlc_nxt op c = (let (p, l) = op_next op (of_nat c) in unat (hlc_pack p l))"

lemma op_next_value:
  assumes "reading_ok op" and "unat c < 2 ^ 64 - 1" and "op_next op c = (p, l)"
  shows "unat p < 2 ^ 48" and "unat l < 65536"
    and "unat c < unat p * 65536 + unat l"
    and "unat p * 65536 + unat l \<le> max (Suc (unat c)) (2 ^ 63)"
proof -
  have "unat l < 65536 \<and> unat c < unat p * 65536 + unat l
      \<and> unat p * 65536 + unat l \<le> max (Suc (unat c)) (2 ^ 63)"
  proof (cases op)
    case (OpNow pn)
    with assms have *: "unat p * 65536 + unat l =
        (if unat c div 65536 < unat pn then unat pn * 65536 else unat c + 1) \<and> unat l < 65536"
      by (intro now_next_value) simp_all
    have "unat c < unat pn * 65536" if "unat c div 65536 < unat pn"
      using that by (simp add: div_less_iff_less_mult)
    with * OpNow assms(1) show ?thesis by (auto split: if_splits)
  next
    case (OpUpdate pn r)
    with assms have pn: "unat pn + 60000 < 2 ^ 47" and u: "update_next pn r c = (p, l)" by simp_all
    have "unat (safe_remote_physical pn r) + 1 \<le> 2 ^ 47"
      using pn safe_remote_bounds(1) [of pn r] by linarith
    then have "(max (unat pn) (unat (safe_remote_physical pn r)) + 1) * 65536 \<le> 2 ^ 63"
      using pn by simp
    with update_next_value [OF pn u] show ?thesis by (auto simp: max_def split: if_splits)
  qed
  then show "unat l < 65536" and "unat c < unat p * 65536 + unat l"
    and "unat p * 65536 + unat l \<le> max (Suc (unat c)) (2 ^ 63)" by blast+
  then show "unat p < 2 ^ 48" using assms(2) by (auto simp: max_def split: if_splits)
qed

lemma hlc_nxt_unat:
  assumes "reading_ok op" and "unat c < 2 ^ 64 - 1" and "op_next op c = (p, l)"
  shows "hlc_nxt op (unat c) = unat p * 65536 + unat l"
    and "hlc_nxt op (unat c) = unat (hlc_pack p l)"
  using op_next_value [OF assms] assms(3) by (simp_all add: hlc_nxt_def unat_hlc_pack)

interpretation hlc: packed_clock hlc_nxt reading_ok "2 ^ 63" "2 ^ 64 - 1"
proof
  fix op c
  assume ok: "reading_ok op" and c: "c < (2 ^ 64 - 1 :: nat)"
  then have cw: "unat (of_nat c :: u64) = c" by (simp add: unat_of_nat)
  obtain p l where n: "op_next op (of_nat c) = (p, l)" by fastforce
  have lt: "unat (of_nat c :: u64) < 2 ^ 64 - 1" using c cw by simp
  have "hlc_nxt op c = unat p * 65536 + unat l"
    using hlc_nxt_unat(1) [OF ok lt n] cw by simp
  with op_next_value [OF ok lt n] cw
  show "c < hlc_nxt op c" and "hlc_nxt op c \<le> max (Suc c) (2 ^ 63)" by simp_all
qed

section \<open>Concurrent runs\<close>

text \<open>Readings taken by threads inside a loop come from a step that checked them.\<close>

lemma reach_looping_ok:
  "clock_reach p s \<Longrightarrow> threads s i = Looping op c \<Longrightarrow> reading_ok op"
  by (induction arbitrary: i op c rule: clock_reach.induct)
    (auto simp: clock_init_def elim!: clock_stepE split: if_splits)

definition packed_ts :: "hlc_timestamp \<Rightarrow> nat" where
  "packed_ts t = unat (physical t) * 65536 + unat (logical t)"

text \<open>
  Every interleaving of the two loops is an atomic sequence of the loop bodies: the successful
  exchanges, in the order they happen.
\<close>

definition clock_linear :: "u64 \<Rightarrow> clock_sys \<Rightarrow> bool" where
  "clock_linear p s \<longleftrightarrow>
     (\<exists>ops. list_all reading_ok ops \<and>
        map packed_ts (issued s) = iterate hlc_nxt ops (unat (hlc_clock_new p)) \<and>
        unat (clock_state s) = last (unat (hlc_clock_new p) # map packed_ts (issued s)) \<and>
        list_all (\<lambda>t. unat (logical t) < 65536) (issued s))"

lemma length_iterate [simp]: "length (iterate nxt ops c) = length ops"
  by (induction ops arbitrary: c) auto

lemma clock_linear_cas:
  assumes lin: "clock_linear p s" and p: "unat p + 60000 < 2 ^ 47"
    and len: "length (issued s) < 2 ^ 63 - 1"
    and ok: "reading_ok op" and n: "op_next op (clock_state s) = (q, l)"
  shows "clock_linear p (s\<lparr>clock_state := hlc_pack q l, threads := th,
                           issued := issued s @ [hlc_new q l]\<rparr>)"
proof -
  let ?c = "unat (hlc_clock_new p)"
  obtain ops where ops: "list_all reading_ok ops"
      "map packed_ts (issued s) = iterate hlc_nxt ops ?c"
      "unat (clock_state s) = last (?c # map packed_ts (issued s))"
      "list_all (\<lambda>t. unat (logical t) < 65536) (issued s)"
    using lin unfolding clock_linear_def by blast
  have c: "?c \<le> 2 ^ 63" using p by (simp add: unat_hlc_clock_new)
  have len_ops: "length ops = length (issued s)"
    using ops(2) by (metis length_iterate length_map)
  have "unat (clock_state s) \<le> max ?c (2 ^ 63) + length ops"
    using hlc.iterate_bounded [OF ops(1), of ?c] c len ops(2,3) len_ops by simp
  then have lt: "unat (clock_state s) < 2 ^ 64 - 1"
    using c len len_ops by (simp add: max_def)
  note nv = hlc_nxt_unat [OF ok lt n] and ov = op_next_value [OF ok lt n]
  have "packed_ts (hlc_new q l) = hlc_nxt op (last (?c # iterate hlc_nxt ops ?c))"
    using nv(1) ops(2,3) by (simp add: packed_ts_def hlc_new_def)
  then have run: "map packed_ts (issued s @ [hlc_new q l]) = iterate hlc_nxt (ops @ [op]) ?c"
    using ops(2) by (simp add: iterate_append)
  have "unat (hlc_pack q l) = packed_ts (hlc_new q l)"
    using nv by (simp add: packed_ts_def hlc_new_def)
  then have fin: "unat (hlc_pack q l) = last (?c # map packed_ts (issued s @ [hlc_new q l]))"
    by simp
  have "list_all (\<lambda>t. unat (logical t) < 65536) (issued s @ [hlc_new q l])"
    using ops(4) ov(2) by (simp add: hlc_new_def)
  with run fin ops(1) ok show ?thesis
    unfolding clock_linear_def by (intro exI [of _ "ops @ [op]"] conjI) simp_all
qed

lemma clock_reach_linear:
  "clock_reach p s \<Longrightarrow> unat p + 60000 < 2 ^ 47 \<Longrightarrow> length (issued s) < 2 ^ 63 \<Longrightarrow> clock_linear p s"
proof (induction rule: clock_reach.induct)
  case (init p)
  show ?case
    unfolding clock_linear_def by (rule exI [of _ "[]"]) (simp add: clock_init_def)
next
  case (step p s t)
  from step.hyps(2) show ?case
  proof cases
    case (load i op)
    with step show ?thesis by (simp add: clock_linear_def)
  next
    case (cas_fail i op current)
    with step show ?thesis by (simp add: clock_linear_def)
  next
    case (cas_ok i op current q l)
    then have "length (issued s) < 2 ^ 63 - 1" using step.prems(2) by simp
    moreover have "reading_ok op"
      using reach_looping_ok [OF step.hyps(1)] cas_ok by blast
    ultimately show ?thesis
      using clock_linear_cas [of p s op q l] cas_ok step by simp
  qed
qed

lemma packed_less_hlc_less:
  assumes "packed_ts a < packed_ts b" "unat (logical a) < 65536" "unat (logical b) < 65536"
  shows "hlc_less a b"
  using assms by (auto simp: packed_ts_def hlc_less_def word_less_nat_alt word_unat_eq_iff)

lemma sorted_packed_sorted_hlc:
  assumes "sorted_wrt (<) (map packed_ts ts)" "list_all (\<lambda>t. unat (logical t) < 65536) ts"
  shows "sorted_wrt hlc_less ts"
  using assms
  by (induction ts) (auto simp: list_all_iff intro: packed_less_hlc_less)

section \<open>Properties\<close>

text \<open>C9. However many threads race through \<open>now\<close> and \<open>update\<close>, and however their
  compare-and-swap attempts interleave or fail, the timestamps the clock hands out increase
  strictly in the order of the successful exchanges; in particular no two are equal.  The clock
  readings are below \<open>2 ^ 47\<close> ms and fewer than \<open>2 ^ 63\<close> timestamps have been issued.\<close>

theorem hlc_issued_strictly_increasing:
  assumes "clock_reach p s" and "unat p + 60000 < 2 ^ 47" and "length (issued s) < 2 ^ 63"
  shows "sorted_wrt hlc_less (issued s)"
proof -
  let ?c = "unat (hlc_clock_new p)"
  from clock_reach_linear [OF assms] obtain ops where ops: "list_all reading_ok ops"
      "map packed_ts (issued s) = iterate hlc_nxt ops ?c"
      "list_all (\<lambda>t. unat (logical t) < 65536) (issued s)"
    unfolding clock_linear_def by blast
  have "?c \<le> 2 ^ 63" using assms(2) by (simp add: unat_hlc_clock_new)
  moreover have "length ops = length (issued s)"
    using ops(2) by (metis length_iterate length_map)
  ultimately have "sorted_wrt (<) (?c # iterate hlc_nxt ops ?c)"
    using hlc.iterate_increasing [OF ops(1), of ?c] assms(3) by simp
  then show ?thesis
    using sorted_packed_sorted_hlc ops(2,3) by simp
qed

definition race_end :: clock_sys where
  "race_end = \<lparr>clock_state = 0x70001,
     threads = (\<lambda>_. Idle)(0 := Looping (OpNow 7) 0x50000, 1 := Looping (OpNow 7) 0x50000,
                          0 := Idle, 1 := Looping (OpNow 7) 0x70000, 1 := Idle),
     issued = [\<lparr>physical = 7, logical = 0\<rparr>, \<lparr>physical = 7, logical = 1\<rparr>]\<rparr>"

lemma race_end_reach: "clock_reach 5 race_end"
proof -
  define s0 s1 s2 s3 s4 s5 where
    "s0 = clock_init 5" and
    "s1 = s0\<lparr>threads := (threads s0)(0 := Looping (OpNow 7) (clock_state s0))\<rparr>" and
    "s2 = s1\<lparr>threads := (threads s1)(1 := Looping (OpNow 7) (clock_state s1))\<rparr>" and
    "s3 = s2\<lparr>clock_state := hlc_pack 7 0, threads := (threads s2)(0 := Idle),
             issued := issued s2 @ [hlc_new 7 0]\<rparr>" and
    "s4 = s3\<lparr>threads := (threads s3)(1 := Looping (OpNow 7) (clock_state s3))\<rparr>" and
    "s5 = s4\<lparr>clock_state := hlc_pack 7 1, threads := (threads s4)(1 := Idle),
             issued := issued s4 @ [hlc_new 7 1]\<rparr>"
  note d = s0_def s1_def s2_def s3_def s4_def s5_def clock_init_def
  have pk: "hlc_pack 7 0 = 0x70000" "hlc_pack 7 1 = 0x70001" "hlc_clock_new 5 = 0x50000"
    by (simp_all add: word_unat_eq_iff unat_hlc_pack unat_hlc_clock_new)
  have st: "clock_state s2 = 0x50000" "clock_state s4 = 0x70000"
    by (simp_all add: d pk)
  have n: "op_next (OpNow 7) 0x50000 = (7, 0)" "op_next (OpNow 7) 0x70000 = (7, 1)"
    by code_simp+
  have "clock_reach 5 s0" unfolding s0_def by (rule clock_reach.init)
  then have "clock_reach 5 s1"
    unfolding s1_def by (rule clock_reach.step) (rule clock_step.load, auto simp: d)
  then have "clock_reach 5 s2"
    unfolding s2_def by (rule clock_reach.step) (rule clock_step.load, auto simp: d)
  then have "clock_reach 5 s3"
    unfolding s3_def by (rule clock_reach.step)
      (rule clock_step.cas_ok [where op = "OpNow 7" and current = "clock_state s2"],
        auto simp: st n simp del: op_next.simps, simp add: d pk)
  then have "clock_reach 5 s4"
    unfolding s4_def by (rule clock_reach.step) (rule clock_step.cas_fail, auto simp: d)
  then have "clock_reach 5 s5"
    unfolding s5_def by (rule clock_reach.step)
      (rule clock_step.cas_ok [where op = "OpNow 7" and current = "clock_state s4"],
        auto simp: st n simp del: op_next.simps, simp add: d pk)
  moreover have "s5 = race_end"
    by (simp add: d pk race_end_def hlc_new_def)
  ultimately show ?thesis by simp
qed

theorem hlc_issued_strictly_increasing_witness:
  "clock_reach 5 race_end \<and> length (issued race_end) = 2 \<and> sorted_wrt hlc_less (issued race_end)"
  using race_end_reach hlc_issued_strictly_increasing [OF race_end_reach]
  by (simp add: race_end_def)

text \<open>C39. \<open>update\<close> is causal and cannot be poisoned: the timestamp it issues is after the local
  clock, after the received timestamp whenever that is within the tolerated drift, and its
  physical part is at most one millisecond past the larger of the local clock and the wall clock
  plus the tolerated 60 seconds, whatever the remote node sent.\<close>

theorem update_causal_and_bounded:
  assumes "unat pn + 60000 < 2 ^ 47" and "update_next pn r c = (p, l)"
  shows "hlc_less (hlc_new (curr_physical c) (curr_logical c)) (hlc_new p l)
    \<and> (unat (physical r) \<le> unat pn + 60000 \<longrightarrow> hlc_less r (hlc_new p l))
    \<and> unat p \<le> max (unat pn + 60000) (unat (curr_physical c)) + 1"
proof -
  note u = update_next_value [OF assms]
  have "packed_ts (hlc_new (curr_physical c) (curr_logical c)) = unat c"
    by (simp add: packed_ts_def hlc_new_def unat_curr_physical unat_curr_logical)
  then have "hlc_less (hlc_new (curr_physical c) (curr_logical c)) (hlc_new p l)"
    using u(1,2) by (intro packed_less_hlc_less) (simp_all add: packed_ts_def hlc_new_def unat_curr_logical)
  moreover have "hlc_less r (hlc_new p l)" if "unat (physical r) \<le> unat pn + 60000"
  proof -
    have "unat (sat_add pn MAX_ALLOWED_CLOCK_DRIFT_MS) = unat pn + 60000"
      using assms(1) by (simp add: unat_sat_add MAX_ALLOWED_CLOCK_DRIFT_MS_def)
    then have "unat (safe_remote_physical pn r) = unat (physical r)"
      using that by (simp add: safe_remote_physical_def word_less_nat_alt)
    then have gt: "unat (physical r) * 65536 + min (unat (logical r)) 65535 < unat p * 65536 + unat l"
      using u(3) by simp
    show ?thesis
    proof (cases "unat (logical r) < 65536")
      case True
      with gt u(1) show ?thesis
        by (intro packed_less_hlc_less) (simp_all add: packed_ts_def hlc_new_def)
    next
      case False
      with gt u(1) have "unat (physical r) < unat p" by simp
      then show ?thesis by (simp add: hlc_less_def hlc_new_def word_less_nat_alt)
    qed
  qed
  moreover have "unat p \<le> max (unat pn + 60000) (unat (curr_physical c)) + 1"
  proof -
    define q k where "q = unat c div 65536" and "k = unat c mod 65536"
    have "unat c = q * 65536 + k" and "k < 65536" by (simp_all add: q_def k_def)
    moreover define M where "M = max (unat pn) (unat (safe_remote_physical pn r))"
    moreover have "M \<le> unat pn + 60000" using safe_remote_bounds(1) [of pn r] by (simp add: M_def)
    moreover have "unat p * 65536 \<le> max (unat c + 1) ((M + 1) * 65536)" using u(4) by (simp add: M_def)
    ultimately consider "unat p * 65536 \<le> q * 65536 + 65536" | "unat p * 65536 \<le> M * 65536 + 65536"
      by (auto simp: max_def split: if_splits)
    then have "unat p \<le> max M q + 1" by cases auto
    then have "unat p \<le> max (unat pn + 60000) q + 1" using \<open>M \<le> unat pn + 60000\<close> by auto
    then show ?thesis by (simp add: unat_curr_physical q_def)
  qed
  ultimately show ?thesis by blast
qed

theorem update_causal_and_bounded_witness:
  "update_next 1000 \<lparr>physical = 999999999, logical = 3\<rparr> 0x3E80005 = (61000, 4)
    \<and> unat (61000 :: u64) \<le> max (unat (1000 :: u64) + 60000) (unat (curr_physical 0x3E80005)) + 1"
proof -
  have u: "update_next 1000 \<lparr>physical = 999999999, logical = 3\<rparr> 0x3E80005 = (61000, 4)"
    by (simp add: update_next_def safe_remote_physical_def curr_physical_def curr_logical_def
        bump_logical_def checked_add_def sat_add_def MAX_ALLOWED_CLOCK_DRIFT_MS_def
        LOGICAL_MASK_def MAX_LOGICAL_def max_def)
  with update_causal_and_bounded [OF _ u] show ?thesis by simp
qed

text \<open>The compact form written to headers, receipts and events is sortable as text: for
  readings of thirteen digits and counters of six, comparing the strings is comparing the
  timestamps.\<close>

theorem compact_string_sortable:
  assumes "unat (physical a) < 10 ^ 13" "unat (physical b) < 10 ^ 13"
    and "unat (logical a) < 10 ^ 6" "unat (logical b) < 10 ^ 6"
  shows "to_compact_string a < to_compact_string b \<longleftrightarrow> hlc_less a b"
proof -
  have eq: "fixed_digits 13 m = fixed_digits 13 n \<longleftrightarrow> m = n" if "m < 10 ^ 13" "n < 10 ^ 13" for m n
    using that fixed_digits_less [of m 13 n] fixed_digits_less [of n 13 m]
    by (metis linorder_neqE less_irrefl)
  have "to_compact_string t = fixed_digits 13 (unat (physical t)) @ ''-'' @ fixed_digits 6 (unat (logical t))"
    if "unat (physical t) < 10 ^ 13" "unat (logical t) < 10 ^ 6" for t
    using that by (simp add: to_compact_string_def pad0_show_nat)
  with assms show ?thesis
    by (simp add: list_less_append_same_length fixed_digits_less eq hlc_less_def
        word_less_nat_alt word_unat_eq_iff Cons_less_Cons del: fixed_digits.simps)
qed

theorem compact_string_sortable_witness:
  "to_compact_string \<lparr>physical = 999, logical = 7\<rparr> < to_compact_string \<lparr>physical = 1000, logical = 2\<rparr>"
  using compact_string_sortable
    [of "\<lparr>physical = 999, logical = 7\<rparr>" "\<lparr>physical = 1000, logical = 2\<rparr>"]
  by (simp add: hlc_less_def)

section \<open>Progress\<close>

text \<open>An attempt is refused when the word changed since the thread read it; then the thread holds a
  stale word.  (A weak exchange may also fail for no reason, which leaves everything as it was.)\<close>

definition stale :: "clock_sys \<Rightarrow> nat set" where
  "stale s = {i. \<exists>op current. threads s i = Looping op current \<and> current \<noteq> clock_state s}"

definition refused :: "clock_sys \<Rightarrow> clock_sys \<Rightarrow> bool" where
  "refused s t = (\<exists>i op current. threads s i = Looping op current \<and> current \<noteq> clock_state s
     \<and> t = s\<lparr>threads := (threads s)(i := Looping op (clock_state s))\<rparr>)"

text \<open>Runs of at most \<open>n\<close> threads, with the number of refused attempts so far.\<close>

inductive contended :: "nat \<Rightarrow> u64 \<Rightarrow> clock_sys \<Rightarrow> nat \<Rightarrow> bool" for n p where
  start: "contended n p (clock_init p) 0"
| progress: "contended n p s k \<Longrightarrow> clock_step s t \<Longrightarrow> \<not> refused s t \<Longrightarrow> {i. threads t i \<noteq> Idle} \<subseteq> {..<n}
     \<Longrightarrow> contended n p t k"
| refusal: "contended n p s k \<Longrightarrow> refused s t \<Longrightarrow> contended n p t (Suc k)"

lemma refused_is_step: "refused s t \<Longrightarrow> clock_step s t"
  by (auto simp: refused_def intro: clock_step.cas_fail)

lemma stale_threads: "i \<in> stale s \<Longrightarrow> threads s i \<noteq> Idle"
  by (auto simp: stale_def)

lemma contended_stale:
  "contended n p s k \<Longrightarrow> {i. threads s i \<noteq> Idle} \<subseteq> {..<n} \<and> k + card (stale s) \<le> (n - 1) * length (issued s)"
proof (induction rule: contended.induct)
  case start
  have "stale (clock_init p) = {}" by (auto simp: stale_def clock_init_def)
  then show ?case by (simp add: clock_init_def)
next
  case (progress s k t)
  have fin: "finite (stale s)" using progress.IH by (auto intro: finite_subset dest: stale_threads)
  from progress.hyps(2) show ?case
  proof cases
    case (load i op)
    then have "stale t = stale s" by (auto simp: stale_def split: if_splits)
    with load progress.IH progress.hyps(4) show ?thesis by simp
  next
    case (cas_ok i op current q l)
    then have "i \<in> {j. threads s j \<noteq> Idle}" by simp
    then have "i < n" using progress.IH by blast
    moreover have "stale t \<subseteq> {..<n} - {i}"
      using cas_ok progress.hyps(4) by (auto dest!: stale_threads split: if_splits)
    ultimately have "card (stale t) \<le> n - 1" using card_mono [of "{..<n} - {i}" "stale t"] by simp
    with cas_ok progress.IH progress.hyps(4) show ?thesis by simp
  next
    case (cas_fail i op current)
    with progress.hyps(3) have "current = clock_state s" by (auto simp: refused_def)
    with cas_fail have "t = s" by (simp add: fun_upd_idem)
    with progress.IH progress.hyps(4) show ?thesis by simp
  qed
next
  case (refusal s k t)
  then obtain i op current where t: "threads s i = Looping op current" "current \<noteq> clock_state s"
      "t = s\<lparr>threads := (threads s)(i := Looping op (clock_state s))\<rparr>" by (auto simp: refused_def)
  then have "stale t = stale s - {i}" "i \<in> stale s" by (auto simp: stale_def split: if_splits)
  moreover have "finite (stale s)" using refusal.IH by (auto intro: finite_subset dest: stale_threads)
  ultimately have "Suc (card (stale t)) = card (stale s)" by (metis card_Suc_Diff1)
  moreover have "{j. threads t j \<noteq> Idle} = {j. threads s j \<noteq> Idle}" using t(1,3) by auto
  ultimately show ?case using refusal.IH t(3) by auto
qed

text \<open>The clock is free of locks and of livelock: among \<open>n\<close> threads the refused attempts are at most \<open>n - 1\<close>
  for every time stamp issued, so as long as threads try, time stamps are issued.\<close>

theorem refusals_bounded:
  assumes "contended n p s k"
  shows "k \<le> (n - 1) * length (issued s)"
  using contended_stale [OF assms] by simp

text \<open>A thread that is refused succeeds with its next attempt when no other comes between.\<close>

theorem retry_succeeds:
  assumes "threads s i = Looping op current"
  shows "\<exists>t u h. clock_step s t \<and> clock_step t u \<and> issued u = issued s @ [h] \<and> threads u i = Idle"
proof -
  let ?t = "s\<lparr>threads := (threads s)(i := Looping op (clock_state s))\<rparr>"
  obtain q l where n: "op_next op (clock_state ?t) = (q, l)" by fastforce
  have "clock_step s ?t" using assms by (rule clock_step.cas_fail)
  moreover have "clock_step ?t (?t\<lparr>clock_state := hlc_pack q l, threads := (threads ?t)(i := Idle),
      issued := issued ?t @ [hlc_new q l]\<rparr>)"
    by (rule clock_step.cas_ok [OF _ _ n]) simp_all
  ultimately show ?thesis by fastforce
qed

end
