(* ===== verification/Protocol.thy ===== *)
theory Protocol
  imports Sanitizer Clock
begin

text \<open>
  \<open>protocol/\<close>: GraphQL operation types and request bodies, the choice of the operation a
  document asks for, the request and response descriptions sent to the brokers, their
  sanitisation and the type state that guards it, and the GraphQL error envelope.

  Arguments that stand for library code: \<open>from_str\<close> and \<open>to_string\<close> (serde_json), \<open>apollo\<close> (the
  apollo parser: the error messages and the definitions of a document), \<open>gql\<close> (the regular
  expressions of the sanitiser).
\<close>

section \<open>Operations\<close>

datatype operation_type = Query | Mutation | Subscription | Unknown

fun operation_type_str :: "operation_type \<Rightarrow> string" where
  "operation_type_str Query = ''Query''"
| "operation_type_str Mutation = ''Mutation''"
| "operation_type_str Subscription = ''Subscription''"
| "operation_type_str Unknown = ''Unknown''"

definition operation_type_from_str :: "string \<Rightarrow> operation_type option" where
  "operation_type_from_str s =
     List.find (\<lambda>t. eq_ignore_ascii_case s (operation_type_str t)) [Query, Mutation, Subscription, Unknown]"

text \<open>What the apollo parser gives of a document.\<close>

datatype op_token = QueryToken | MutationToken | SubscriptionToken | NoToken

datatype selection = FieldSel "string option" | FragmentSpread string | InlineFragment

record operation_definition =
  od_type :: "op_token option"
  od_name :: "string option"
  od_selections :: "selection list option"

datatype gql_definition = OperationDefinition operation_definition | OtherDefinition

record parsed_operation =
  operation_type :: operation_type
  operation_name :: "string option"
  root_fields :: "string list"

definition matches_operation :: "string option \<Rightarrow> string list \<Rightarrow> string \<Rightarrow> bool" where
  "matches_operation name rfs target =
     ((case name of Some n \<Rightarrow> eq_ignore_ascii_case n target | None \<Rightarrow> False)
      \<or> list_ex (\<lambda>f. eq_ignore_ascii_case f target) rfs)"

fun token_type :: "op_token option \<Rightarrow> operation_type" where
  "token_type (Some QueryToken) = Query"
| "token_type (Some MutationToken) = Mutation"
| "token_type (Some SubscriptionToken) = Subscription"
| "token_type (Some NoToken) = Unknown"
| "token_type None = Query"

fun field_name :: "selection \<Rightarrow> string option" where
  "field_name (FieldSel n) = n"
| "field_name _ = None"

definition parsed_of :: "operation_definition \<Rightarrow> parsed_operation" where
  "parsed_of d =
     \<lparr>operation_type = token_type (od_type d), operation_name = od_name d,
      root_fields = List.map_filter field_name (unwrap_or (od_selections d) [])\<rparr>"

text \<open>The loop over the definitions: the operation that matches the target and the first one.\<close>

fun scan_definitions ::
  "string option \<Rightarrow> gql_definition list \<Rightarrow> parsed_operation option
     \<Rightarrow> parsed_operation option \<times> parsed_operation option" where
  "scan_definitions target [] first_op = (None, first_op)"
| "scan_definitions target (OtherDefinition # ds) first_op = scan_definitions target ds first_op"
| "scan_definitions target (OperationDefinition d # ds) first_op =
     (let parsed = parsed_of d; first' = (if first_op = None then Some parsed else first_op)
      in case target of
           Some t \<Rightarrow>
             (case od_name d of
                Some n \<Rightarrow> if eq_ignore_ascii_case n t then (Some parsed, first_op)
                          else scan_definitions target ds first'
              | None \<Rightarrow> scan_definitions target ds first')
         | None \<Rightarrow> if first_op = None then (None, Some parsed)
                   else scan_definitions target ds first_op)"

definition parse_graphql_operation_with_name ::
  "(string \<Rightarrow> string list \<times> gql_definition list) \<Rightarrow> string \<Rightarrow> string option \<Rightarrow> parsed_operation result" where
  "parse_graphql_operation_with_name apollo query target =
     (let (errors, defs) = apollo query
      in if errors \<noteq> [] then Inl (''GraphQL syntax error: '' @ join ''; '' errors)
         else let (matching_op, first_op) = scan_definitions target defs None
              in case matching_op of
                   Some p \<Rightarrow> Inr p
                 | None \<Rightarrow>
                     (case target of
                        Some t \<Rightarrow> Inl (''Operation '' @ quoted t @ '' not found in GraphQL document'')
                      | None \<Rightarrow>
                          (case first_op of
                             Some p \<Rightarrow> Inr p
                           | None \<Rightarrow> Inl ''No operation definition found in GraphQL query'')))"

section \<open>Requests\<close>

record gql_request_body =
  gb_query :: string
  gb_operation_name :: "string option"
  gb_variables :: "json option"
  gb_extensions :: "json option"

record gql_request_info =
  gi_operation_type :: operation_type
  gi_operation_name :: "string option"
  gi_root_fields :: "string list"
  gi_raw_body :: "string option"
  gi_json_body :: json
  gi_parsed_body :: "gql_request_body option"

definition set_request_json :: "(string \<Rightarrow> json result) \<Rightarrow> string \<Rightarrow> gql_request_info \<Rightarrow> gql_request_info" where
  "set_request_json from_str request_json g =
     (let g1 = g\<lparr>gi_raw_body := Some request_json\<rparr>
      in case from_str request_json of
           Inl _ \<Rightarrow> g1
         | Inr val \<Rightarrow>
             g1\<lparr>gi_parsed_body := Some
                  \<lparr>gb_query = unwrap_or (get_str val ''query'') [],
                   gb_operation_name = get_str val ''operationName'',
                   gb_variables = json_get val ''variables'',
                   gb_extensions = json_get val ''extensions''\<rparr>,
                gi_json_body := val\<rparr>)"

definition gql_request_info_new :: "(string \<Rightarrow> json result) \<Rightarrow> string \<Rightarrow> gql_request_info" where
  "gql_request_info_new from_str request_json =
     set_request_json from_str request_json
       \<lparr>gi_operation_type = Unknown, gi_operation_name = None, gi_root_fields = [],
        gi_raw_body = None, gi_json_body = JNull, gi_parsed_body = None\<rparr>"

definition get_gql_request_body :: "gql_request_info \<Rightarrow> gql_request_body result" where
  "get_gql_request_body g =
     (case gi_parsed_body g of
        Some b \<Rightarrow> Inr b
      | None \<Rightarrow> Inl ''Request body has not been set or is invalid JSON.'')"

definition gi_matches_operation :: "gql_request_info \<Rightarrow> string \<Rightarrow> bool" where
  "gi_matches_operation g target = matches_operation (gi_operation_name g) (gi_root_fields g) target"

definition gql_sanitize ::
  "(string \<Rightarrow> json result) \<Rightarrow> (json \<Rightarrow> string result) \<Rightarrow> (string \<Rightarrow> string) \<Rightarrow> sanitizer
     \<Rightarrow> gql_request_info \<Rightarrow> gql_request_info" where
  "gql_sanitize from_str to_string gql s g =
     g\<lparr>gi_raw_body := map_option (sanitize_json_str from_str to_string gql s) (gi_raw_body g),
       gi_json_body := (if gi_json_body g = JNull then JNull else sanitize_value gql s (gi_json_body g)),
       gi_parsed_body := map_option (\<lambda>b. b\<lparr>gb_variables := map_option (sanitize_value gql s) (gb_variables b)\<rparr>)
                           (gi_parsed_body g)\<rparr>"

datatype payload_type = RequestPayload | ResponsePayload

record request_info =
  ri_request_id :: uuid
  ri_hlc :: hlc_timestamp
  ri_http :: http_parts
  ri_gql :: "gql_request_info option"
  ri_raw_request_body :: "string option"
  ri_payload_type :: payload_type
  ri_version :: byte

definition request_info_new :: "uuid \<Rightarrow> hlc_timestamp \<Rightarrow> http_parts \<Rightarrow> request_info" where
  "request_info_new rid h parts =
     \<lparr>ri_request_id = rid, ri_hlc = h, ri_http = parts, ri_gql = None, ri_raw_request_body = None,
      ri_payload_type = RequestPayload, ri_version = 1\<rparr>"

text \<open>\<open>RequestInfo::sanitize\<close>: the headers, the GraphQL part and the raw body.\<close>

definition sanitize_header :: "sanitizer \<Rightarrow> string \<times> string \<Rightarrow> string" where
  "sanitize_header s kv =
     (if is_sensitive_key s (fst kv) then
        (case to_str (snd kv) of
           Some t \<Rightarrow> if is_bearer t then ''Bearer [REDACTED]'' else ''[REDACTED]''
         | None \<Rightarrow> ''[REDACTED]'')
      else snd kv)"

definition sanitize_headers :: "sanitizer \<Rightarrow> header_map \<Rightarrow> header_map" where
  "sanitize_headers s h = fold (\<lambda>kv acc. header_insert acc (fst kv) (sanitize_header s kv)) h []"

definition request_sanitize ::
  "(string \<Rightarrow> json result) \<Rightarrow> (json \<Rightarrow> string result) \<Rightarrow> (string \<Rightarrow> string) \<Rightarrow> request_info \<Rightarrow> request_info" where
  "request_sanitize from_str to_string gql r =
     (let s = sanitizer_new None
      in r\<lparr>ri_http := (ri_http r)\<lparr>headers := sanitize_headers s (headers (ri_http r))\<rparr>,
           ri_gql := map_option (gql_sanitize from_str to_string gql s) (ri_gql r),
           ri_raw_request_body := map_option (\<lambda>body.
             case from_utf8 body of
               Some t \<Rightarrow> sanitize_json_str from_str to_string gql s t
             | None \<Rightarrow> body) (ri_raw_request_body r)\<rparr>)"

text \<open>The type state: a sanitised payload is a type of its own, made only by sanitising or by
  \<open>new_unchecked\<close>.\<close>

datatype 'a raw_payload = RawPayload 'a
datatype 'a sanitized_payload = SanitizedPayload 'a

definition new_unchecked :: "'a \<Rightarrow> 'a sanitized_payload" where
  "new_unchecked p = SanitizedPayload p"

fun sanitize_with :: "('a \<Rightarrow> 'a) \<Rightarrow> 'a raw_payload \<Rightarrow> 'a sanitized_payload" where
  "sanitize_with f (RawPayload p) = new_unchecked (f p)"

fun payload_inner :: "'a sanitized_payload \<Rightarrow> 'a" where
  "payload_inner (SanitizedPayload p) = p"

definition into_sanitized ::
  "(string \<Rightarrow> json result) \<Rightarrow> (json \<Rightarrow> string result) \<Rightarrow> (string \<Rightarrow> string) \<Rightarrow> request_info
     \<Rightarrow> request_info sanitized_payload" where
  "into_sanitized from_str to_string gql r = new_unchecked (request_sanitize from_str to_string gql r)"

definition raw_payload_sanitize ::
  "(string \<Rightarrow> json result) \<Rightarrow> (json \<Rightarrow> string result) \<Rightarrow> (string \<Rightarrow> string) \<Rightarrow> request_info raw_payload
     \<Rightarrow> request_info sanitized_payload" where
  "raw_payload_sanitize from_str to_string gql = sanitize_with (request_sanitize from_str to_string gql)"

text \<open>\<open>Display\<close>: the event name of a request.\<close>

definition request_display :: "request_info \<Rightarrow> string" where
  "request_display r =
     (case ri_gql r of
        Some g \<Rightarrow> to_lowercase (operation_type_str (gi_operation_type g)) @ ''.'' @
                  (case gi_operation_name g of Some n \<Rightarrow> to_lowercase n | None \<Rightarrow> ''anonymous'')
      | None \<Rightarrow> ''HTTP '' @ http_method (ri_http r))"

section \<open>Decoders\<close>

fun parse_ops :: "string list \<Rightarrow> operation_type list \<Rightarrow> operation_type list result" where
  "parse_ops [] ops = Inr ops"
| "parse_ops (p # ps) ops =
     (let t = trim p
      in if t = [] then parse_ops ps ops
         else case operation_type_from_str t of
                None \<Rightarrow> Inl (''Invalid GraphQL operation type '' @ quoted t)
              | Some ty \<Rightarrow> parse_ops ps (List.insert ty ops))"

definition decoder_try_new :: "string \<Rightarrow> operation_type list result" where
  "decoder_try_new ops = parse_ops (split_on CHR '','' ops) []"

definition decoder_new :: "string \<Rightarrow> operation_type list" where
  "decoder_new ops = (case decoder_try_new ops of Inr s \<Rightarrow> s | Inl _ \<Rightarrow> [Mutation])"

datatype protocol_decoder = GraphQLDecoder "operation_type list" | HttpDecoder

definition gql_decode_request ::
  "(string \<Rightarrow> json result) \<Rightarrow> (string \<Rightarrow> string list \<times> gql_definition list)
     \<Rightarrow> uuid \<Rightarrow> hlc_timestamp \<Rightarrow> http_parts \<Rightarrow> string \<Rightarrow> request_info result" where
  "gql_decode_request from_str apollo rid h parts body =
     (let info = request_info_new rid h parts; g = gql_request_info_new from_str body
      in case get_gql_request_body g of
           Inl e \<Rightarrow> Inl e
         | Inr b \<Rightarrow>
             (case parse_graphql_operation_with_name apollo (gb_query b) (gb_operation_name b) of
                Inl e \<Rightarrow> Inl e
              | Inr p \<Rightarrow> Inr (info\<lparr>ri_gql := Some (g\<lparr>gi_operation_name := operation_name p,
                              gi_operation_type := operation_type p,
                              gi_root_fields := root_fields p\<rparr>)\<rparr>)))"

fun decode_request ::
  "(string \<Rightarrow> json result) \<Rightarrow> (string \<Rightarrow> string list \<times> gql_definition list) \<Rightarrow> protocol_decoder
     \<Rightarrow> uuid \<Rightarrow> hlc_timestamp \<Rightarrow> http_parts \<Rightarrow> string \<Rightarrow> request_info result" where
  "decode_request from_str apollo (GraphQLDecoder ops) rid h parts body =
     gql_decode_request from_str apollo rid h parts body"
| "decode_request from_str apollo HttpDecoder rid h parts body = Inr (request_info_new rid h parts)"

section \<open>Responses\<close>

text \<open>\<open>json\<close> is the compact JSON text; the default raw value is \<open>null\<close>.\<close>

record response_body =
  rb_json :: string
  rb_text :: "string option"

definition response_body_new ::
  "(string \<Rightarrow> json result) \<Rightarrow> (json \<Rightarrow> string result) \<Rightarrow> header_map \<Rightarrow> string \<Rightarrow> response_body" where
  "response_body_new from_str to_string h raw_body =
     (let content_type = unwrap_or (header_str h ''content-type'') [];
          is_json_candidate = contains_str content_type ''json''
            \<or> starts_with (trim raw_body) ''{'' \<or> starts_with (trim raw_body) ''[''
      in if is_json_candidate then
           (case from_str raw_body of
              Inr val \<Rightarrow> \<lparr>rb_json = (case to_string val of Inr t \<Rightarrow> t | Inl _ \<Rightarrow> ''null''), rb_text = None\<rparr>
            | Inl _ \<Rightarrow> \<lparr>rb_json = ''null'', rb_text = Some raw_body\<rparr>)
         else \<lparr>rb_json = ''null'', rb_text = Some raw_body\<rparr>)"

record response_info =
  rs_request_id :: uuid
  rs_hlc :: hlc_timestamp
  rs_headers :: header_map
  rs_body :: response_body
  rs_payload_type :: payload_type
  rs_version :: byte

definition response_info_new :: "uuid \<Rightarrow> hlc_timestamp \<Rightarrow> response_body \<Rightarrow> header_map \<Rightarrow> response_info" where
  "response_info_new rid h b hs =
     \<lparr>rs_request_id = rid, rs_hlc = h, rs_headers = hs, rs_body = b,
      rs_payload_type = ResponsePayload, rs_version = 1\<rparr>"

section \<open>Errors\<close>

record graphql_error =
  ge_message :: string
  ge_locations :: "(nat \<times> nat) list option"
  ge_path :: "string list option"
  ge_extensions :: "(string \<times> json) list option"

record graphql_error_response =
  ger_errors :: "graphql_error list"
  ger_data :: "json option"

definition graphql_error_new :: "string \<Rightarrow> graphql_error" where
  "graphql_error_new msg = \<lparr>ge_message = msg, ge_locations = None, ge_path = None, ge_extensions = None\<rparr>"

definition error_with_extension :: "string \<Rightarrow> json \<Rightarrow> graphql_error \<Rightarrow> graphql_error" where
  "error_with_extension k v e = e\<lparr>ge_extensions := Some (alist_insert k v (unwrap_or (ge_extensions e) []))\<rparr>"

definition error_with_code :: "string \<Rightarrow> graphql_error \<Rightarrow> graphql_error" where
  "error_with_code code e = error_with_extension ''code'' (JString code) e"

definition error_single :: "graphql_error \<Rightarrow> graphql_error_response" where
  "error_single e = \<lparr>ger_errors = [e], ger_data = None\<rparr>"

definition error_response :: "string \<Rightarrow> string \<Rightarrow> graphql_error_response" where
  "error_response code msg = error_single (error_with_code code (graphql_error_new msg))"

definition error_conflict :: "string option \<Rightarrow> hlc_timestamp \<Rightarrow> graphql_error_response" where
  "error_conflict key conflict_hlc =
     (let msg = (case key of
                   Some k \<Rightarrow> ''A mutation with idempotency key '' @ quoted k @ '' is currently in flight''
                 | None \<Rightarrow> ''A mutation with idempotency key is currently in flight'')
      in error_single (error_with_extension ''hlc'' (JString (to_compact_string conflict_hlc))
           (error_with_code ''CONFLICT'' (graphql_error_new msg))))"

text \<open>The serialised form: absent options are skipped.\<close>

definition location_json :: "nat \<times> nat \<Rightarrow> json" where
  "location_json p = JObject [(''line'', JNumber (PosInt (fst p))), (''column'', JNumber (PosInt (snd p)))]"

definition opt_field :: "string \<Rightarrow> json option \<Rightarrow> (string \<times> json) list" where
  "opt_field k v = (case v of None \<Rightarrow> [] | Some x \<Rightarrow> [(k, x)])"

definition graphql_error_json :: "graphql_error \<Rightarrow> json" where
  "graphql_error_json e = JObject ([(''message'', JString (ge_message e))]
     @ opt_field ''locations'' (map_option (\<lambda>ls. JArray (map location_json ls)) (ge_locations e))
     @ opt_field ''path'' (map_option (\<lambda>ps. JArray (map JString ps)) (ge_path e))
     @ opt_field ''extensions'' (map_option JObject (ge_extensions e)))"

definition error_response_json :: "graphql_error_response \<Rightarrow> json" where
  "error_response_json r = JObject ([(''errors'', JArray (map graphql_error_json (ger_errors r)))]
     @ opt_field ''data'' (ger_data r))"

definition error_to_json_string :: "(json \<Rightarrow> string result) \<Rightarrow> graphql_error_response \<Rightarrow> string" where
  "error_to_json_string to_string r =
     (case to_string (error_response_json r) of
        Inr t \<Rightarrow> t
      | Inl _ \<Rightarrow> CHR ''{'' # CHR 0x22 # ''errors'' @ CHR 0x22 # '':[{'' @ CHR 0x22 # ''message'' @ CHR 0x22
                 # '':'' @ CHR 0x22 # ''Internal error'' @ CHR 0x22 # ''}]}'')"

section \<open>Properties\<close>

text \<open>The operations of a document, in order.\<close>

fun operations_of :: "gql_definition list \<Rightarrow> parsed_operation list" where
  "operations_of [] = []"
| "operations_of (OperationDefinition d # ds) = parsed_of d # operations_of ds"
| "operations_of (OtherDefinition # ds) = operations_of ds"

definition named :: "string \<Rightarrow> parsed_operation \<Rightarrow> bool" where
  "named t p = (case operation_name p of Some n \<Rightarrow> eq_ignore_ascii_case n t | None \<Rightarrow> False)"

lemma scan_definitions_target:
  "fst (scan_definitions (Some t) ds f) = List.find (named t) (operations_of ds)"
  by (induction "Some t" ds f rule: scan_definitions.induct)
     (auto simp: named_def parsed_of_def Let_def split: option.splits)

lemma scan_definitions_no_target:
  "scan_definitions None ds None = (None, case operations_of ds of [] \<Rightarrow> None | p # _ \<Rightarrow> Some p)"
  by (induction ds rule: operations_of.induct) (auto simp: Let_def)

text \<open>C40. \<open>parse_graphql_operation_with_name\<close> computes what it means to: a document with syntax
  errors is refused with all of them; without a target the first operation is chosen and a
  document of fragments only is an error; with a target the first operation whose name
  equals it up to case is chosen, anonymous operations never are, and no match is an error.\<close>

theorem parse_operation_reference:
  "parse_graphql_operation_with_name apollo query target =
     (let (errors, defs) = apollo query; ops = operations_of defs
      in if errors \<noteq> [] then Inl (''GraphQL syntax error: '' @ join ''; '' errors)
         else case target of
           None \<Rightarrow> (case ops of [] \<Rightarrow> Inl ''No operation definition found in GraphQL query''
                              | p # _ \<Rightarrow> Inr p)
         | Some t \<Rightarrow> (case List.find (named t) ops of
                        None \<Rightarrow> Inl (''Operation '' @ quoted t @ '' not found in GraphQL document'')
                      | Some p \<Rightarrow> Inr p))"
proof (cases target)
  case None
  then show ?thesis
    by (auto simp: parse_graphql_operation_with_name_def scan_definitions_no_target Let_def
        split: prod.splits list.splits)
next
  case (Some t)
  obtain es ds where "apollo query = (es, ds)" by fastforce
  moreover obtain m f where "scan_definitions (Some t) ds None = (m, f)" by fastforce
  moreover from this have "m = List.find (named t) (operations_of ds)"
    using scan_definitions_target [of t ds None] by simp
  ultimately show ?thesis using Some
    by (simp add: parse_graphql_operation_with_name_def split: option.splits)
qed

text \<open>GraphQL names are case sensitive, the match is not: of two operations whose names differ in
  case the gateway inspects the first and the server that receives the same text executes
  the other.\<close>

lemma parse_operation_wrong_case:
  "parse_graphql_operation_with_name
     (\<lambda>_. ([], [OperationDefinition \<lparr>od_type = Some QueryToken, od_name = Some ''run'', od_selections = None\<rparr>,
               OperationDefinition \<lparr>od_type = Some MutationToken, od_name = Some ''Run'', od_selections = None\<rparr>]))
     q (Some ''Run'')
   = Inr \<lparr>operation_type = Query, operation_name = Some ''run'', root_fields = []\<rparr>"
proof -
  have "eq_ignore_ascii_case ''run'' ''Run''" by code_simp
  then show ?thesis
    by (simp add: parse_graphql_operation_with_name_def parsed_of_def Let_def List.map_filter_def)
qed

text \<open>A field reached through a fragment spread is not among the root fields.\<close>

lemma root_fields_skip_fragments:
  "root_fields (parsed_of \<lparr>od_type = Some MutationToken, od_name = None,
     od_selections = Some [FragmentSpread ''F'']\<rparr>) = []"
  by (simp add: parsed_of_def List.map_filter_def)

lemma header_insert_set:
  "kv \<in> set (header_insert h n v) \<longleftrightarrow> kv = (n, v) \<or> (kv \<in> set h \<and> fst kv \<noteq> n)"
  by (auto simp: header_insert_def alist_insert_def)

lemma sanitize_headers_inv:
  assumes "\<And>kv. kv \<in> set h \<Longrightarrow> P (fst kv, sanitize_header s kv)"
    and "\<And>kv. kv \<in> set acc \<Longrightarrow> P kv"
  shows "kv \<in> set (fold (\<lambda>kv acc. header_insert acc (fst kv) (sanitize_header s kv)) h acc) \<Longrightarrow> P kv"
  using assms
proof (induction h arbitrary: acc)
  case (Cons x h)
  show ?case
  proof (rule Cons.IH [of "header_insert acc (fst x) (sanitize_header s x)"])
    show "\<And>kv. kv \<in> set (header_insert acc (fst x) (sanitize_header s x)) \<Longrightarrow> P kv"
      using Cons.prems(2) [of x] Cons.prems(3) by (auto simp: header_insert_set)
  qed (use Cons.prems in auto)
qed simp

lemma header_get_sanitize:
  "header_get (fold (\<lambda>kv acc. header_insert acc (fst kv) (sanitize_header s kv)) h acc) n =
     (case List.find (\<lambda>kv. fst kv = n) (rev h) of
        Some kv \<Rightarrow> Some (sanitize_header s kv) | None \<Rightarrow> header_get acc n)"
proof (induction h arbitrary: acc rule: rev_induct)
  case (snoc x h)
  then show ?case by simp
qed simp

lemma sanitize_header_mark:
  "is_sensitive_key s (fst kv) \<Longrightarrow> sanitize_header s kv \<in> {REDACTED_PLACEHOLDER, redacted_bearer}"
  by (simp add: sanitize_header_def redacted_bearer_def REDACTED_PLACEHOLDER_def split: option.splits)

text \<open>C6. \<open>RequestInfo::into_sanitized\<close>, the only way the gateway builds a request event.  Every header whose
  name is sensitive carries a redaction mark, every other header keeps its last value.  The decoded JSON body
  and the variables of the parsed one hold, at every place reached through at most 64 keys and array positions
  that are neither sensitive nor \<open>query\<close>, a mark under every sensitive key and no text that is a bearer
  token; what is under \<open>query\<close> is left to the regular expressions.  The raw bodies, if they are JSON,
  are replaced by the text of a value with the same guarantee.\<close>

theorem into_sanitized_no_secrets:
  assumes "into_sanitized from_str to_string gql r = p"
  shows "(\<forall>kv \<in> set (headers (ri_http (payload_inner p))). is_sensitive_key (sanitizer_new None) (fst kv)
            \<longrightarrow> snd kv \<in> {REDACTED_PLACEHOLDER, redacted_bearer})
       \<and> (\<forall>n. \<not> is_sensitive_key (sanitizer_new None) n \<longrightarrow>
            header_get (headers (ri_http (payload_inner p))) n = header_get (rev (headers (ri_http r))) n)
       \<and> (\<forall>g. ri_gql (payload_inner p) = Some g \<longrightarrow> clean_json (sanitizer_new None) (gi_json_body g)
            \<and> (\<forall>b vs. gi_parsed_body g = Some b \<and> gb_variables b = Some vs \<longrightarrow> clean_json (sanitizer_new None) vs))
       \<and> (\<forall>body v t. ri_raw_request_body r = Some body \<and> valid_utf8 body \<and> from_str body = Inr v
            \<and> to_string (sanitize_value gql (sanitizer_new None) v) = Inr t \<longrightarrow>
            ri_raw_request_body (payload_inner p) = Some t)
       \<and> (\<forall>g body v t. ri_gql r = Some g \<and> gi_raw_body g = Some body \<and> from_str body = Inr v
            \<and> to_string (sanitize_value gql (sanitizer_new None) v) = Inr t \<longrightarrow>
            map_option gi_raw_body (ri_gql (payload_inner p)) = Some (Some t))
       \<and> (\<forall>v. clean_json (sanitizer_new None) (sanitize_value gql (sanitizer_new None) v))"
proof -
  let ?s = "sanitizer_new None"
  have inner: "payload_inner p = request_sanitize from_str to_string gql r"
    using assms by (auto simp: into_sanitized_def new_unchecked_def)
  have hs: "headers (ri_http (payload_inner p)) = sanitize_headers ?s (headers (ri_http r))"
    by (simp add: inner request_sanitize_def Let_def)
  have "is_sensitive_key ?s (fst kv) \<longrightarrow> snd kv \<in> {REDACTED_PLACEHOLDER, redacted_bearer}"
    if "kv \<in> set (sanitize_headers ?s (headers (ri_http r)))" for kv
    using that unfolding sanitize_headers_def
    by (rule sanitize_headers_inv [rotated 2]) (use sanitize_header_mark in auto)
  moreover have "header_get (sanitize_headers ?s h) n = header_get (rev h) n"
    if "\<not> is_sensitive_key ?s n" for n h
  proof -
    have "(case List.find (\<lambda>kv. fst kv = n) h of Some kv \<Rightarrow> Some (sanitize_header ?s kv) | None \<Rightarrow> None)
          = map_of h n" for h
      using that by (induction h) (auto simp: sanitize_header_def)
    from this [of "rev h"] show ?thesis
      unfolding sanitize_headers_def header_get_sanitize
      by (auto simp: header_get_def split: option.splits)
  qed
  moreover have "clean_json ?s (gi_json_body g)
      \<and> (\<forall>b vs. gi_parsed_body g = Some b \<and> gb_variables b = Some vs \<longrightarrow> clean_json ?s vs)"
    if g: "ri_gql (payload_inner p) = Some g" for g
  proof -
    obtain z where "g = gql_sanitize from_str to_string gql ?s z"
      using g by (auto simp: inner request_sanitize_def Let_def)
    then show ?thesis by (auto simp: gql_sanitize_def sanitize_value_clean)
  qed
  moreover have "map_option gi_raw_body (ri_gql (payload_inner p)) = Some (Some t)"
    if "ri_gql r = Some g" "gi_raw_body g = Some body" "from_str body = Inr v"
       "to_string (sanitize_value gql ?s v) = Inr t" for g body v t
    using that by (simp add: inner request_sanitize_def gql_sanitize_def sanitize_json_str_def Let_def)
  moreover have "ri_raw_request_body (payload_inner p) = Some t"
    if "ri_raw_request_body r = Some body" "valid_utf8 body" "from_str body = Inr v"
       "to_string (sanitize_value gql ?s v) = Inr t" for body v t
    using that by (simp add: inner request_sanitize_def from_utf8_def sanitize_json_str_def Let_def)
  ultimately show ?thesis unfolding hs using sanitize_value_clean by blast
qed

definition sample_parts :: http_parts where
  "sample_parts = \<lparr>http_method = ''POST'', uri = ''/graphql'', uri_path = ''/graphql'', uri_query = None,
     http_version = ''HTTP/1.1'', headers = [(''authorization'', ''Bearer abc''), (''host'', ''h'')]\<rparr>"

definition sample_request :: request_info where
  "sample_request = request_info_new 0 \<lparr>physical = 0, logical = 0\<rparr> sample_parts"

theorem into_sanitized_no_secrets_witness:
  "\<exists>p. into_sanitized (\<lambda>_. Inl []) (\<lambda>_. Inl []) id sample_request = p
     \<and> header_get (headers (ri_http (payload_inner p))) ''host'' = Some ''h''
     \<and> (\<forall>kv \<in> set (headers (ri_http (payload_inner p))). is_sensitive_key (sanitizer_new None) (fst kv)
          \<longrightarrow> snd kv \<in> {REDACTED_PLACEHOLDER, redacted_bearer})"
proof -
  have "\<not> is_sensitive_key (sanitizer_new None) ''host''" by code_simp
  with into_sanitized_no_secrets [of "\<lambda>_. Inl []" "\<lambda>_. Inl []" id sample_request, OF refl]
  show ?thesis by (auto simp: sample_request_def request_info_new_def sample_parts_def header_get_def)
qed

end
