(* ===== verification/Interceptors.thy ===== *)
theory Interceptors
  imports Protocol
begin

text \<open>
  \<open>interceptors/context.rs\<close>, \<open>rules.rs\<close>, \<open>request.rs\<close> and \<open>response.rs\<close>: the context handed
  through the pipelines, verdicts and rejections, the native interceptors and the two
  pipelines.

  A trait object is a function.  It receives and returns the state its implementation keeps
  behind locks (circuit breakers, caches; the type \<open>'w\<close>), the mutable context and the mutable
  request or response head.  The interface \<open>request_port\<close> states what the gateway relies on
  of every request interceptor; it is interpreted on each native one and on the pipeline.
\<close>

section \<open>Context and verdicts\<close>

record auth_claims =
  subject :: "string option"
  tenant_id :: "string option"
  roles :: "string list"
  permissions :: "string list"
  raw_claims :: json

definition claims_new :: "string \<Rightarrow> auth_claims" where
  "claims_new s = \<lparr>subject = Some s, tenant_id = None, roles = [], permissions = [], raw_claims = JNull\<rparr>"

record interceptor_context =
  ctx_request_id :: uuid
  ctx_hlc :: hlc_timestamp
  ctx_operation_name :: "string option"
  ctx_operation_type :: "operation_type option"
  ctx_json_body :: "json option"
  ctx_metadata :: "(string \<times> string) list"
  ctx_extensions :: "(string \<times> json) list"
  ctx_duration_ms :: nat
  ctx_claims :: "auth_claims option"

definition context_new :: "uuid \<Rightarrow> hlc_timestamp \<Rightarrow> interceptor_context" where
  "context_new rid h = \<lparr>ctx_request_id = rid, ctx_hlc = h, ctx_operation_name = None,
     ctx_operation_type = None, ctx_json_body = None, ctx_metadata = [], ctx_extensions = [],
     ctx_duration_ms = 0, ctx_claims = None\<rparr>"

definition with_operation ::
  "string option \<Rightarrow> operation_type option \<Rightarrow> interceptor_context \<Rightarrow> interceptor_context" where
  "with_operation n t c = c\<lparr>ctx_operation_name := n, ctx_operation_type := t\<rparr>"

definition is_authenticated :: "interceptor_context \<Rightarrow> bool" where
  "is_authenticated c = (case ctx_claims c of Some cl \<Rightarrow> subject cl \<noteq> None | None \<Rightarrow> False)"

definition has_role :: "interceptor_context \<Rightarrow> string \<Rightarrow> bool" where
  "has_role c role =
     (case ctx_claims c of
        Some cl \<Rightarrow> list_ex (\<lambda>r. r = role \<or> r = ''*'') (roles cl)
      | None \<Rightarrow> False)"

definition has_any_role :: "interceptor_context \<Rightarrow> string list \<Rightarrow> bool" where
  "has_any_role c rs =
     (case ctx_claims c of
        Some cl \<Rightarrow> list_ex (\<lambda>r. r = ''*'' \<or> r \<in> set rs) (roles cl)
      | None \<Rightarrow> False)"

definition has_permission :: "interceptor_context \<Rightarrow> string \<Rightarrow> bool" where
  "has_permission c perm =
     (case ctx_claims c of
        Some cl \<Rightarrow> list_ex (\<lambda>p. p = perm \<or> p = ''*'') (permissions cl)
                    \<or> list_ex (\<lambda>r. r = ''admin'' \<or> r = ''*'') (roles cl)
      | None \<Rightarrow> False)"

record rejection =
  rej_status :: nat
  rej_code :: string
  rej_message :: string
  rej_details :: "json option"

definition rejection_new :: "nat \<Rightarrow> string \<Rightarrow> string \<Rightarrow> rejection" where
  "rejection_new st c m = \<lparr>rej_status = st, rej_code = c, rej_message = m, rej_details = None\<rparr>"

definition with_details :: "json \<Rightarrow> rejection \<Rightarrow> rejection" where
  "with_details d r = r\<lparr>rej_details := Some d\<rparr>"

datatype verdict =
    Pass
  | Reject rejection
  | Transform "header_map option" "string option"
  | Audit string "string option" string

text \<open>\<open>GraphQLErrorResponse::from\<close> a rejection.\<close>

definition error_of_rejection :: "rejection \<Rightarrow> graphql_error_response" where
  "error_of_rejection r =
     (let err = error_with_code (rej_code r) (graphql_error_new (rej_message r))
      in error_single (case rej_details r of
           Some d \<Rightarrow> error_with_extension ''details'' d err | None \<Rightarrow> err))"

definition to_graphql_response :: "(json \<Rightarrow> string result) \<Rightarrow> rejection \<Rightarrow> string" where
  "to_graphql_response to_string r = error_to_json_string to_string (error_of_rejection r)"

datatype rule_error = RuleNotFound string | EvaluationFailed string | InvalidInput string

fun rule_error_str :: "rule_error \<Rightarrow> string" where
  "rule_error_str (RuleNotFound r) = ''Rule not found: '' @ r"
| "rule_error_str (EvaluationFailed m) = ''Rule evaluation failed: '' @ m"
| "rule_error_str (InvalidInput m) = ''Invalid rule input: '' @ m"

text \<open>The native rule registry.\<close>

type_synonym rule_registry = "string \<rightharpoonup> (json \<Rightarrow> bool)"

definition register_rule :: "string \<Rightarrow> (json \<Rightarrow> bool) \<Rightarrow> rule_registry \<Rightarrow> rule_registry" where
  "register_rule n p rs = rs(n \<mapsto> p)"

definition unregister_rule :: "string \<Rightarrow> rule_registry \<Rightarrow> rule_registry" where
  "unregister_rule n rs = rs(n := None)"

definition evaluate_rule :: "rule_registry \<Rightarrow> string \<Rightarrow> json \<Rightarrow> rule_error + bool" where
  "evaluate_rule rs n input =
     (case rs n of Some p \<Rightarrow> Inr (p input) | None \<Rightarrow> Inl (RuleNotFound n))"

section \<open>Request interceptors\<close>

type_synonym 'w request_interceptor =
  "'w \<Rightarrow> interceptor_context \<Rightarrow> http_parts \<Rightarrow> string \<Rightarrow> verdict \<times> 'w \<times> interceptor_context \<times> http_parts"

definition syntax_interceptor ::
  "(string \<Rightarrow> json result) \<Rightarrow> (string \<Rightarrow> string list \<times> gql_definition list) \<Rightarrow> 'w request_interceptor" where
  "syntax_interceptor from_str apollo w c p body =
     (let path = uri_path p;
          reject = (\<lambda>code msg. (Reject (rejection_new 400 code msg), w, c, p))
      in if \<not> contains_str path ''graphql'' \<and> \<not> contains_str path ''gql'' then (Pass, w, c, p)
         else if ctx_operation_type c \<noteq> None then (Pass, w, c, p)
         else if trim body = [] then reject ''GRAPHQL_PARSE_FAILED'' ''Empty GraphQL request body''
         else case from_str body of
           Inl e \<Rightarrow> reject ''GRAPHQL_PARSE_FAILED'' (''Invalid JSON request body: '' @ e)
         | Inr parsed \<Rightarrow>
             (case get_str parsed ''query'' of
                None \<Rightarrow> reject ''GRAPHQL_PARSE_FAILED''
                          (''Missing '' @ quoted ''query'' @ '' field in GraphQL request body'')
              | Some query \<Rightarrow>
                  (case parse_graphql_operation_with_name apollo query (get_str parsed ''operationName'') of
                     Inl e \<Rightarrow> reject ''GRAPHQL_SYNTAX_ERROR'' (''Failed to parse GraphQL query: '' @ e)
                   | Inr p' \<Rightarrow>
                       (Pass, w, c\<lparr>ctx_operation_name := operation_name p',
                                   ctx_operation_type := Some (operation_type p')\<rparr>, p))))"

definition header_validation_interceptor :: "bool \<Rightarrow> 'w request_interceptor" where
  "header_validation_interceptor require_json w c p body =
     (let content_type = unwrap_or (header_str (headers p) ''content-type'') []
      in if require_json \<and> http_method p = ''POST'' \<and> \<not> contains_str content_type ''application/json''
         then (Reject (rejection_new 415 ''INVALID_CONTENT_TYPE'' ''Content-Type must be application/json''), w, c, p)
         else (Pass, w, c, p))"

definition as_bytes :: "string \<Rightarrow> byte list" where
  "as_bytes s = map (\<lambda>ch. word_of_nat (of_char ch)) s"

definition constant_time_eq :: "byte list \<Rightarrow> byte list \<Rightarrow> bool" where
  "constant_time_eq a b =
     (if length a \<noteq> length b then False
      else fold (\<lambda>(x, y) result. result OR (x XOR y)) (zip a b) 0 = 0)"

definition deploy_auth_new :: "(string \<Rightarrow> string option) \<Rightarrow> string option \<Rightarrow> string option" where
  "deploy_auth_new env tok =
     or_else tok (or_else (env ''SPECTRA_DEPLOY_TOKEN'') (env ''SPECTRAGQL_DEPLOY_TOKEN''))"

definition is_deploy_op :: "interceptor_context \<Rightarrow> bool" where
  "is_deploy_op c =
     (let op_name = to_lowercase (unwrap_or (ctx_operation_name c) [])
      in contains_str op_name ''deployfluxcell'' \<or> contains_str op_name ''activatefluxcell''
       \<or> contains_str op_name ''removefluxcell'')"

definition provided_deploy_token :: "http_parts \<Rightarrow> string option" where
  "provided_deploy_token p =
     or_else (Option.bind (header_str (headers p) ''authorization'')
                (\<lambda>h. or_else (strip_prefix ''Bearer '' h) (strip_prefix ''bearer '' h)))
             (header_str (headers p) ''x-spectra-deploy-key'')"

definition deploy_auth_interceptor :: "string option \<Rightarrow> 'w request_interceptor" where
  "deploy_auth_interceptor token w c p body =
     (let reject = (\<lambda>msg. (Reject (rejection_new 401 ''DEPLOY_UNAUTHORIZED'' msg), w, c, p));
          unconfigured = ''Deployment authorization token is not configured on the gateway ''
            @ ''(set SPECTRA_DEPLOY_TOKEN or deploy_token in spectra.toml)''
      in if \<not> is_deploy_op c then (Pass, w, c, p)
         else case token of
           Some expected \<Rightarrow>
             if trim expected \<noteq> [] then
               (case provided_deploy_token p of
                  Some provided \<Rightarrow>
                    if constant_time_eq (as_bytes (trim provided)) (as_bytes (trim expected)) then (Pass, w, c, p)
                    else reject ''Invalid or missing deployment authorization token''
                | None \<Rightarrow> reject ''Invalid or missing deployment authorization token'')
             else reject unconfigured
         | None \<Rightarrow> reject unconfigured)"

text \<open>\<open>RequestInterceptorPipeline::intercept_request\<close>, with the last audit verdict so far.\<close>

fun request_pipeline ::
  "'w request_interceptor list \<Rightarrow> verdict option \<Rightarrow> 'w request_interceptor" where
  "request_pipeline [] audit w c p body = (unwrap_or audit Pass, w, c, p)"
| "request_pipeline (i # is) audit w c p body =
     (case i w c p body of
        (Pass, w', c', p') \<Rightarrow> request_pipeline is audit w' c' p' body
      | (Audit n t r, w', c', p') \<Rightarrow> request_pipeline is (Some (Audit n t r)) w' c' p' body
      | (v, w', c', p') \<Rightarrow> (v, w', c', p'))"

section \<open>Response interceptors\<close>

record http_response_parts =
  resp_status :: nat
  resp_headers :: header_map

type_synonym 'w response_interceptor =
  "'w \<Rightarrow> interceptor_context \<Rightarrow> http_response_parts \<Rightarrow> string \<Rightarrow> verdict \<times> 'w \<times> http_response_parts"

record sensitive_data =
  sd_evaluator :: "(string \<Rightarrow> json \<Rightarrow> rule_error + bool) option"
  sd_forbidden_tokens :: "string list"

definition sensitive_data_interceptor ::
  "(string \<Rightarrow> json result) \<Rightarrow> sensitive_data \<Rightarrow> 'w response_interceptor" where
  "sensitive_data_interceptor from_str sd w c p body =
     (let reject = (\<lambda>msg. (Reject (rejection_new 500 ''DATA_LEAK_PREVENTED'' msg), w, p))
      in case from_utf8 body of
           None \<Rightarrow> (Pass, w, p)
         | Some body_str \<Rightarrow>
             (case List.find (contains_str body_str) (sd_forbidden_tokens sd) of
                Some token \<Rightarrow> reject (''Response contains forbidden token: '' @ token)
              | None \<Rightarrow>
                  (case sd_evaluator sd of
                     None \<Rightarrow> (Pass, w, p)
                   | Some evaluator \<Rightarrow>
                       (case from_str body_str of
                          Inl _ \<Rightarrow> (Pass, w, p)
                        | Inr v \<Rightarrow>
                            (case evaluator ''sensitive_data_check'' v of
                               Inr True \<Rightarrow> reject ''Response failed sensitive data evaluation rule''
                             | _ \<Rightarrow> (Pass, w, p))))))"

record pipeline_acc =
  acc_headers :: "header_map option"
  acc_body :: "string option"
  acc_audit :: "verdict option"

fun response_pipeline ::
  "'w response_interceptor list \<Rightarrow> pipeline_acc \<Rightarrow> 'w response_interceptor" where
  "response_pipeline [] a w c p body =
     ((if acc_body a \<noteq> None \<or> acc_headers a \<noteq> None then Transform (acc_headers a) (acc_body a)
       else unwrap_or (acc_audit a) Pass), w, p)"
| "response_pipeline (i # is) a w c p body =
     (case i w c p (unwrap_or (acc_body a) body) of
        (Pass, w', p') \<Rightarrow> response_pipeline is a w' c p' body
      | (Reject r, w', p') \<Rightarrow> (Reject r, w', p')
      | (Transform h b, w', p') \<Rightarrow>
          response_pipeline is (a\<lparr>acc_headers := or_else h (acc_headers a), acc_body := or_else b (acc_body a)\<rparr>)
            w' c p' body
      | (Audit n t r, w', p') \<Rightarrow> response_pipeline is (a\<lparr>acc_audit := Some (Audit n t r)\<rparr>) w' c p' body)"

definition empty_acc :: pipeline_acc where
  "empty_acc = \<lparr>acc_headers = None, acc_body = None, acc_audit = None\<rparr>"

section \<open>What the gateway relies on\<close>

text \<open>A request interceptor never changes the identity of the request (its id and time stamp)
  nor its method and target.\<close>

definition same_request :: "interceptor_context \<Rightarrow> http_parts \<Rightarrow> interceptor_context \<Rightarrow> http_parts \<Rightarrow> bool" where
  "same_request c p c' p' =
     (ctx_request_id c' = ctx_request_id c \<and> ctx_hlc c' = ctx_hlc c \<and> http_method p' = http_method p
      \<and> uri p' = uri p \<and> uri_path p' = uri_path p \<and> uri_query p' = uri_query p)"

lemma same_request_refl [simp]: "same_request c p c p"
  by (simp add: same_request_def)

lemma same_request_trans: "same_request c p c1 p1 \<Longrightarrow> same_request c1 p1 c2 p2 \<Longrightarrow> same_request c p c2 p2"
  by (simp add: same_request_def)

locale request_port =
  fixes run :: "'w request_interceptor"
  assumes run_same_request: "run w c p b = (v, w', c', p') \<Longrightarrow> same_request c p c' p'"
begin

lemma run_keeps_id: "ctx_request_id (fst (snd (snd (run w c p b)))) = ctx_request_id c"
  using run_same_request by (cases "run w c p b") (auto simp: same_request_def)

end

interpretation gql_syntax: request_port "syntax_interceptor from_str apollo" for from_str apollo
  by unfold_locales (auto simp: syntax_interceptor_def same_request_def Let_def
      split: if_splits sum.splits option.splits)

interpretation header_validation: request_port "header_validation_interceptor b" for b
  by unfold_locales (auto simp: header_validation_interceptor_def Let_def split: if_splits)

interpretation deploy_auth: request_port "deploy_auth_interceptor tok" for tok
  by unfold_locales (auto simp: deploy_auth_interceptor_def Let_def split: if_splits option.splits)

lemma request_pipeline_port:
  "(\<And>i. i \<in> set is \<Longrightarrow> request_port i) \<Longrightarrow> request_port (request_pipeline is audit)"
proof (induction "is" arbitrary: audit)
  case Nil
  show ?case by unfold_locales auto
next
  case (Cons i "is")
  have tail: "request_port (request_pipeline is a)" for a using Cons by simp
  show ?case
  proof
    fix w c p b v w' c' p'
    assume run: "request_pipeline (i # is) audit w c p b = (v, w', c', p')"
    obtain v1 w1 c1 p1 where i: "i w c p b = (v1, w1, c1, p1)" by (metis prod_cases4)
    then have first: "same_request c p c1 p1" using Cons.prems [of i] by (simp add: request_port_def)
    have "request_pipeline is a w1 c1 p1 b = (v, w', c', p') \<Longrightarrow> same_request c1 p1 c' p'" for a
      using tail by (simp add: request_port_def)
    with run i have "same_request c1 p1 c' p'" by (cases v1) simp_all
    with first show "same_request c p c' p'" by (rule same_request_trans)
  qed
qed

text \<open>The built-in chain on a GraphQL endpoint.\<close>

definition native_chain ::
  "(string \<Rightarrow> json result) \<Rightarrow> (string \<Rightarrow> string list \<times> gql_definition list) \<Rightarrow> string option
     \<Rightarrow> 'w request_interceptor list" where
  "native_chain from_str apollo tok =
     [header_validation_interceptor True, syntax_interceptor from_str apollo, deploy_auth_interceptor tok]"

interpretation native: request_port "request_pipeline (native_chain from_str apollo tok) audit"
  for from_str apollo tok audit
  by (rule request_pipeline_port)
     (auto simp: native_chain_def intro: gql_syntax.request_port_axioms header_validation.request_port_axioms
        deploy_auth.request_port_axioms)

section \<open>Properties\<close>

lemma fold_or_zero:
  "fold (\<lambda>(x, y) r. r OR (x XOR y)) xs (acc :: byte) = 0 \<longleftrightarrow> acc = 0 \<and> list_all (\<lambda>(x, y). x = y) xs"
proof (induction xs arbitrary: acc)
  case (Cons xy xs)
  obtain x y where xy: "xy = (x, y)" by fastforce
  have "acc OR (x XOR y) = 0 \<longleftrightarrow> acc = 0 \<and> x = y"
    by (auto simp: bit_eq_iff bit_or_iff bit_xor_iff)
  with Cons xy show ?case by auto
qed simp

lemma constant_time_eq_iff: "constant_time_eq a b \<longleftrightarrow> a = b"
proof (cases "length a = length b")
  case True
  have "list_all (\<lambda>(x, y). x = y) (zip a b) \<longleftrightarrow> a = b"
    using True by (induction a b rule: list_induct2) auto
  with True show ?thesis by (simp add: constant_time_eq_def fold_or_zero)
qed (auto simp: constant_time_eq_def)

lemma as_bytes_inj [simp]: "as_bytes a = as_bytes b \<longleftrightarrow> a = b"
proof -
  have "inj (\<lambda>ch. word_of_nat (of_char ch) :: byte)"
  proof (rule injI)
    fix x y :: char
    have "unat (word_of_nat (of_char ch) :: byte) = of_char ch" for ch :: char
      by (simp add: unat_of_nat)
    moreover assume "(word_of_nat (of_char x) :: byte) = word_of_nat (of_char y)"
    ultimately have "(of_char x :: nat) = of_char y" by metis
    then show "x = y" by simp
  qed
  then show ?thesis by (simp add: as_bytes_def inj_map_eq_map)
qed

text \<open>\<open>DeployAuthInterceptor\<close>: an operation whose name marks it as a deployment passes exactly
  when a non-blank token is configured and the request presents that token (as a bearer
  token or in the deploy-key header, up to surrounding blanks); the comparison of every byte
  is equality.  Every other operation passes.\<close>

theorem deploy_auth_decision:
  "fst (deploy_auth_interceptor token w c p body) = Pass \<longleftrightarrow>
     (if is_deploy_op c
      then \<exists>expected provided. token = Some expected \<and> trim expected \<noteq> [] \<and>
         provided_deploy_token p = Some provided \<and> trim provided = trim expected
      else True)"
  by (auto simp: deploy_auth_interceptor_def constant_time_eq_iff Let_def split: option.splits)

text \<open>The decision looks at the name the client gives the operation, not at the field it calls.\<close>

lemma deploy_auth_anonymous_passes:
  "ctx_operation_name c = None \<Longrightarrow> fst (deploy_auth_interceptor token w c p body) = Pass"
  by (simp add: deploy_auth_interceptor_def is_deploy_op_def to_lowercase_def starts_with_def)

text \<open>The verdicts of a list of interceptors run one after the other, whatever they are.\<close>

fun request_trace ::
  "'w request_interceptor list \<Rightarrow> 'w \<Rightarrow> interceptor_context \<Rightarrow> http_parts \<Rightarrow> string \<Rightarrow> verdict list" where
  "request_trace [] w c p body = []"
| "request_trace (i # is) w c p body =
     (case i w c p body of (v, w', c', p') \<Rightarrow> v # request_trace is w' c' p' body)"

fun is_stop :: "verdict \<Rightarrow> bool" where
  "is_stop (Reject r) = True"
| "is_stop (Transform h b) = True"
| "is_stop _ = False"

fun is_audit :: "verdict \<Rightarrow> bool" where
  "is_audit (Audit n t r) = True"
| "is_audit _ = False"

text \<open>The state a list of interceptors leaves when all of it runs.\<close>

fun request_after ::
  "'w request_interceptor list \<Rightarrow> 'w \<Rightarrow> interceptor_context \<Rightarrow> http_parts \<Rightarrow> string \<Rightarrow> 'w \<times> interceptor_context \<times> http_parts" where
  "request_after [] w c p body = (w, c, p)"
| "request_after (i # is) w c p body = (case i w c p body of (v, w', c', p') \<Rightarrow> request_after is w' c' p' body)"

text \<open>How many of a list run when the first with the property is the last.\<close>

definition until_first :: "('a \<Rightarrow> bool) \<Rightarrow> 'a list \<Rightarrow> nat" where
  "until_first P xs = Suc (length (takeWhile (\<lambda>x. \<not> P x) xs))"

lemma until_first_Cons [simp]: "until_first P (x # xs) = (if P x then 1 else Suc (until_first P xs))"
  by (simp add: until_first_def)

text \<open>C21. The request pipeline runs its interceptors in order up to the first that rejects or transforms,
  and no further: that one's verdict is the result, and the interceptor state, the context and the request
  head are those the interceptors up to it leave.  If none rejects or transforms all have run, and the
  result is the last audit verdict, or \<open>Pass\<close> when there is none.\<close>

theorem request_pipeline_verdict:
  "request_pipeline is audit w c p body =
     (let vs = request_trace is w c p body
      in (case List.find is_stop vs of
            Some v \<Rightarrow> v
          | None \<Rightarrow> unwrap_or (or_else (List.find is_audit (rev vs)) audit) Pass,
          request_after (take (until_first is_stop vs) is) w c p body))"
proof (induction "is" arbitrary: audit w c p)
  case (Cons i "is")
  obtain v w' c' p' where i: "i w c p body = (v, w', c', p')" by (metis prod_cases4)
  have rev_find: "List.find is_audit (xs @ [v]) =
      or_else (List.find is_audit xs) (if is_audit v then Some v else None)" for xs v
    by (induction xs) auto
  show ?case
    using Cons.IH [of _ w' c' p'] i
    by (cases v) (auto simp: rev_find Let_def or_else_def split: option.splits)
qed simp

text \<open>A transformation stops the pipeline as a rejection does: what follows it is not asked.\<close>

lemma transform_skips_later_interceptors:
  "i w c p body = (Transform h b, w', c', p') \<Longrightarrow>
   request_pipeline (i # is) audit w c p body = (Transform h b, w', c', p')"
  by simp

fun body_of :: "verdict \<Rightarrow> string option" where
  "body_of (Transform h b) = b"
| "body_of _ = None"

fun headers_of :: "verdict \<Rightarrow> header_map option" where
  "headers_of (Transform h b) = h"
| "headers_of _ = None"

text \<open>The verdicts on the response side, each interceptor seeing the body its predecessors left.\<close>

fun response_trace ::
  "'w response_interceptor list \<Rightarrow> 'w \<Rightarrow> interceptor_context \<Rightarrow> http_response_parts \<Rightarrow> string \<Rightarrow> verdict list" where
  "response_trace [] w c p cur = []"
| "response_trace (i # is) w c p cur =
     (case i w c p cur of (v, w', p') \<Rightarrow> v # response_trace is w' c p' (unwrap_or (body_of v) cur))"

fun is_reject :: "verdict \<Rightarrow> bool" where
  "is_reject (Reject r) = True"
| "is_reject _ = False"

fun last_some :: "'a option list \<Rightarrow> 'a option \<Rightarrow> 'a option" where
  "last_some [] d = d"
| "last_some (x # xs) d = last_some xs (or_else x d)"

definition audit_part :: "verdict \<Rightarrow> verdict option" where
  "audit_part v = (if is_audit v then Some v else None)"

fun response_after ::
  "'w response_interceptor list \<Rightarrow> 'w \<Rightarrow> interceptor_context \<Rightarrow> http_response_parts \<Rightarrow> string \<Rightarrow> 'w \<times> http_response_parts" where
  "response_after [] w c p cur = (w, p)"
| "response_after (i # is) w c p cur =
     (case i w c p cur of (v, w', p') \<Rightarrow> response_after is w' c p' (unwrap_or (body_of v) cur))"

text \<open>C22. The response pipeline runs its interceptors in order, each on the body its predecessors left, up to
  the first that rejects and no further: that rejection is the result, and the interceptor state and the
  response head are those the interceptors up to it leave.  If none rejects all have run, and the result
  carries the last replaced headers and the last replaced body, or failing both the last audit verdict.\<close>

theorem response_pipeline_verdict:
  "response_pipeline is a w c p body =
     (let cur = unwrap_or (acc_body a) body; vs = response_trace is w c p cur
      in (case List.find is_reject vs of
            Some v \<Rightarrow> v
          | None \<Rightarrow>
              (let h = last_some (map headers_of vs) (acc_headers a);
                   b = last_some (map body_of vs) (acc_body a)
               in if b = None \<and> h = None then unwrap_or (last_some (map audit_part vs) (acc_audit a)) Pass
                  else Transform h b),
          response_after (take (until_first is_reject vs) is) w c p cur))"
proof (induction "is" arbitrary: a w p)
  case (Cons i "is")
  obtain v w' p' where i: "i w c p (unwrap_or (acc_body a) body) = (v, w', p')" by (metis prod_cases3)
  have cur: "unwrap_or (or_else b (acc_body a)) body = unwrap_or b (unwrap_or (acc_body a) body)" for b
    by (cases b) simp_all
  show ?case
  proof (cases v)
    case Pass
    with Cons.IH [of _ w' p'] i show ?thesis by (simp add: Let_def audit_part_def cong: option.case_cong)
  next
    case (Reject r)
    with i show ?thesis by simp
  next
    case (Transform h b)
    with Cons.IH [of _ w' p'] i show ?thesis by (simp add: Let_def audit_part_def cur cong: option.case_cong)
  next
    case (Audit n t r)
    with Cons.IH [of _ w' p'] i show ?thesis by (simp add: Let_def audit_part_def cong: option.case_cong)
  qed
qed (auto simp: Let_def)

end
