(* ===== verification/Auth.thy ===== *)
theory Auth
  imports Interceptors
begin

text \<open>
  \<open>interceptors/auth.rs\<close>: policy modes, key sets, JWT verification, claim extraction, the RBAC
  request interceptor with its token cache, and the DER encoding of RSA keys.

  Library code is a record of functions: \<open>crypto\<close> holds base64, serde_json and the signature
  checks of ring; \<open>lru_ops\<close> the two operations of \<open>lru::LruCache\<close> the source calls, with the
  documented behaviour \<open>lru_laws\<close>.  The two clocks (\<open>Instant\<close> in milliseconds and the Unix time
  in seconds) are arguments.  Byte strings are strings.
\<close>

section \<open>Policies, keys and providers\<close>

datatype policy_mode = AuditOnly | PassAll | AllowAuthenticated | DenyUnlisted

definition policy_mode_from_str :: "string \<Rightarrow> policy_mode" where
  "policy_mode_from_str s =
     (let l = to_lowercase s
      in if l \<in> {''pass_all'', ''permissive''} then PassAll
         else if l = ''allow_authenticated'' then AllowAuthenticated
         else if l \<in> {''deny_unlisted'', ''strict'', ''zero_trust''} then DenyUnlisted
         else AuditOnly)"

record claims_mapping =
  subject_path :: string
  tenant_path :: "string option"
  roles_path :: string
  permissions_path :: "string option"

definition default_claims_mapping :: claims_mapping where
  "default_claims_mapping = \<lparr>subject_path = ''sub'', tenant_path = Some ''org_id'',
     roles_path = ''roles'', permissions_path = Some ''permissions''\<rparr>"

datatype jwks_key = RsaPkcs1 string | Ed25519 string

datatype auth_provider =
    Hmac string
  | Jwks string "(string \<times> jwks_key) list"
  | StaticKey "string option" jwks_key

record crypto =
  b64_url_no_pad :: "string \<Rightarrow> string result"
  b64_url :: "string \<Rightarrow> string result"
  json_from_slice :: "string \<Rightarrow> json result"
  hmac_sha256_verify :: "string \<Rightarrow> string \<Rightarrow> string \<Rightarrow> bool"
  rsa_pkcs1_verify :: "string \<Rightarrow> string \<Rightarrow> string \<Rightarrow> bool"
  ed25519_verify :: "string \<Rightarrow> string \<Rightarrow> string \<Rightarrow> bool"

definition set_jwks_keys :: "(string \<times> jwks_key) list \<Rightarrow> auth_provider \<Rightarrow> auth_provider" where
  "set_jwks_keys new_keys p = (case p of Jwks url _ \<Rightarrow> Jwks url new_keys | _ \<Rightarrow> p)"

section \<open>Encodings\<close>

definition decode_b64url :: "crypto \<Rightarrow> string \<Rightarrow> string result" where
  "decode_b64url cr s =
     (case b64_url_no_pad cr s of
        Inr b \<Rightarrow> Inr b
      | Inl _ \<Rightarrow> (case b64_url cr s of
                    Inr b \<Rightarrow> Inr b
                  | Inl e \<Rightarrow> Inl (''Base64url decode error: '' @ e)))"

definition decode_json_b64url :: "crypto \<Rightarrow> string \<Rightarrow> json result" where
  "decode_json_b64url cr s =
     (case decode_b64url cr s of
        Inl e \<Rightarrow> Inl e
      | Inr bytes \<Rightarrow> (case json_from_slice cr bytes of
                       Inl e \<Rightarrow> Inl (''JSON decode error: '' @ e)
                     | Inr v \<Rightarrow> Inr v))"

text \<open>\<open>len as u8\<close> keeps the low byte.\<close>

definition u8 :: "nat \<Rightarrow> char" where
  "u8 n = char_of (n mod 256)"

definition encode_der_length :: "nat \<Rightarrow> string" where
  "encode_der_length len =
     (if len < 128 then [u8 len]
      else if len < 256 then [u8 129, u8 len]
      else [u8 130, u8 (len div 256), u8 (len mod 256)])"

definition encode_der_integer :: "string \<Rightarrow> string" where
  "encode_der_integer bytes =
     (let needs_leading_zero = bytes \<noteq> [] \<and> 128 \<le> (of_char (hd bytes) :: nat);
          len = length bytes + (if needs_leading_zero then 1 else 0)
      in [u8 2] @ encode_der_length len @ (if needs_leading_zero then [u8 0] else []) @ bytes)"

definition rsa_components_to_der :: "string \<Rightarrow> string \<Rightarrow> string" where
  "rsa_components_to_der n e =
     (let int_n = encode_der_integer n; int_e = encode_der_integer e
      in [u8 48] @ encode_der_length (length int_n + length int_e) @ int_n @ int_e)"

section \<open>Key sets\<close>

definition parse_rsa_jwk :: "crypto \<Rightarrow> string \<Rightarrow> json \<Rightarrow> jwks_key result" where
  "parse_rsa_jwk cr kid key_obj =
     (case (get_str key_obj ''n'', get_str key_obj ''e'') of
        (None, _) \<Rightarrow> Inl (''RSA key '' @ quoted kid @ '' missing '' @ quoted ''n'' @ '' component'')
      | (Some n, None) \<Rightarrow> Inl (''RSA key '' @ quoted kid @ '' missing '' @ quoted ''e'' @ '' component'')
      | (Some n, Some e) \<Rightarrow>
          (case decode_b64url cr n of
             Inl err \<Rightarrow> Inl (''Failed to decode '' @ quoted ''n'' @ '' for key '' @ quoted kid @ '': '' @ err)
           | Inr n_bytes \<Rightarrow>
               (case decode_b64url cr e of
                  Inl err \<Rightarrow> Inl (''Failed to decode '' @ quoted ''e'' @ '' for key '' @ quoted kid @ '': '' @ err)
                | Inr e_bytes \<Rightarrow> Inr (RsaPkcs1 (rsa_components_to_der n_bytes e_bytes)))))"

fun parse_jwks_keys ::
  "crypto \<Rightarrow> nat \<Rightarrow> json list \<Rightarrow> (string \<times> jwks_key) list \<Rightarrow> (string \<times> jwks_key) list result" where
  "parse_jwks_keys cr idx [] m = Inr m"
| "parse_jwks_keys cr idx (key_obj # ks) m =
     (let kty = unwrap_or (get_str key_obj ''kty'') [];
          kid = unwrap_or (get_str key_obj ''kid'') (''key_'' @ show_nat idx)
      in if kty = ''RSA'' then
           (case parse_rsa_jwk cr kid key_obj of
              Inl e \<Rightarrow> Inl e
            | Inr k \<Rightarrow> parse_jwks_keys cr (idx + 1) ks (alist_insert kid k m))
         else if kty = ''OKP'' then
           (if unwrap_or (get_str key_obj ''crv'') [] \<noteq> ''Ed25519'' then parse_jwks_keys cr (idx + 1) ks m
            else case get_str key_obj ''x'' of
              None \<Rightarrow> Inl (''Ed25519 key '' @ quoted kid @ '' missing '' @ quoted ''x'' @ '' component'')
            | Some x \<Rightarrow>
                (case decode_b64url cr x of
                   Inl err \<Rightarrow> Inl (''Failed to decode '' @ quoted ''x'' @ '' for key '' @ quoted kid @ '': '' @ err)
                 | Inr x_bytes \<Rightarrow> parse_jwks_keys cr (idx + 1) ks (alist_insert kid (Ed25519 x_bytes) m)))
         else parse_jwks_keys cr (idx + 1) ks m)"

definition parse_jwks_from_json :: "crypto \<Rightarrow> json \<Rightarrow> (string \<times> jwks_key) list result" where
  "parse_jwks_from_json cr v =
     (case Option.bind (json_get v ''keys'') as_array of
        None \<Rightarrow> Inl (''JWKS JSON missing '' @ quoted ''keys'' @ '' array'')
      | Some ks \<Rightarrow> parse_jwks_keys cr 0 ks [])"

section \<open>Token verification\<close>

definition verify_key :: "crypto \<Rightarrow> jwks_key \<Rightarrow> string \<Rightarrow> string \<Rightarrow> string \<Rightarrow> unit result" where
  "verify_key cr key alg signed_data sig =
     (case key of
        RsaPkcs1 der \<Rightarrow>
          if alg \<noteq> ''RS256'' then Inl (''Expected RS256 algorithm for RSA key, got '' @ alg)
          else if rsa_pkcs1_verify cr der signed_data sig then Inr ()
          else Inl ''RSA signature verification failed''
      | Ed25519 raw \<Rightarrow>
          if alg \<noteq> ''EdDSA'' \<and> alg \<noteq> ''ED25519''
          then Inl (''Expected EdDSA algorithm for Ed25519 key, got '' @ alg)
          else if ed25519_verify cr raw signed_data sig then Inr ()
          else Inl ''Ed25519 signature verification failed'')"

definition verify_signature ::
  "crypto \<Rightarrow> auth_provider \<Rightarrow> string \<Rightarrow> string option \<Rightarrow> string \<Rightarrow> string \<Rightarrow> unit result" where
  "verify_signature cr p alg kid signed_data sig =
     (case p of
        Hmac secret \<Rightarrow>
          if alg \<noteq> ''HS256'' then Inl (''Algorithm mismatch: expected HS256, got '' @ alg)
          else if hmac_sha256_verify cr secret signed_data sig then Inr ()
          else Inl ''HMAC signature verification failed''
      | StaticKey expected_kid key \<Rightarrow>
          (case (expected_kid, kid) of
             (Some k1, Some k2) \<Rightarrow>
               if k1 \<noteq> k2 then Inl (''JWK Key ID mismatch: expected '' @ k1 @ '', got '' @ k2)
               else verify_key cr key alg signed_data sig
           | _ \<Rightarrow> verify_key cr key alg signed_data sig)
      | Jwks url keys \<Rightarrow>
          (case (case kid of
                   Some k \<Rightarrow> map_of keys k
                 | None \<Rightarrow> (case keys of [] \<Rightarrow> None | (_, key) # _ \<Rightarrow> Some key)) of
             Some key \<Rightarrow> verify_key cr key alg signed_data sig
           | None \<Rightarrow> Inl (''No matching key found in JWKS for kid: '' @ debug_opt_str kid)))"

text \<open>\<open>i64::saturating_add\<close>.\<close>

definition sat_add_i64 :: "int \<Rightarrow> int \<Rightarrow> int" where
  "sat_add_i64 a b = max (- (2 ^ 63)) (min (2 ^ 63 - 1) (a + b))"

definition CLOCK_SKEW_SECS :: int where
  "CLOCK_SKEW_SECS = 60"

definition check_times :: "int \<Rightarrow> json \<Rightarrow> json result" where
  "check_times now payload =
     (let expired = (case Option.bind (json_get payload ''exp'') as_i64 of
                       Some e \<Rightarrow> now > sat_add_i64 e CLOCK_SKEW_SECS | None \<Rightarrow> False);
          early = (case Option.bind (json_get payload ''nbf'') as_i64 of
                       Some n \<Rightarrow> sat_add_i64 now CLOCK_SKEW_SECS < n | None \<Rightarrow> False)
      in if expired then Inl ''JWT token has expired''
         else if early then Inl ''JWT token not yet valid (nbf)''
         else Inr payload)"

definition verify_jwt :: "crypto \<Rightarrow> auth_provider \<Rightarrow> int \<Rightarrow> string \<Rightarrow> json result" where
  "verify_jwt cr p now token =
     (case split_on CHR ''.'' token of
        [h, pl, sg] \<Rightarrow>
          (case decode_json_b64url cr h of
             Inl e \<Rightarrow> Inl (''Failed to parse JWT header: '' @ e)
           | Inr header_json \<Rightarrow>
          (case decode_json_b64url cr pl of
             Inl e \<Rightarrow> Inl (''Failed to parse JWT payload: '' @ e)
           | Inr payload_json \<Rightarrow>
          (case decode_b64url cr sg of
             Inl e \<Rightarrow> Inl (''Failed to decode JWT signature: '' @ e)
           | Inr sig \<Rightarrow>
          (case verify_signature cr p (unwrap_or (get_str header_json ''alg'') ''RS256'')
                  (get_str header_json ''kid'') (h @ ''.'' @ pl) sig of
             Inl e \<Rightarrow> Inl e
           | Inr _ \<Rightarrow> check_times now payload_json))))
      | _ \<Rightarrow> Inl ''JWT must contain exactly three parts separated by dots'')"

definition str_items :: "json \<Rightarrow> string list" where
  "str_items v = (case as_array v of Some xs \<Rightarrow> List.map_filter as_str xs | None \<Rightarrow> [])"

definition extract_claims_from_json :: "json \<Rightarrow> claims_mapping \<Rightarrow> auth_claims" where
  "extract_claims_from_json v m =
     \<lparr>subject = get_str v (subject_path m),
      tenant_id = Option.bind (tenant_path m) (get_str v),
      roles = (case json_get v (roles_path m) of
                 None \<Rightarrow> []
               | Some val \<Rightarrow>
                   (case as_array val of
                      Some xs \<Rightarrow> List.map_filter as_str xs
                    | None \<Rightarrow> (case as_str val of Some s \<Rightarrow> [s] | None \<Rightarrow> []))),
      permissions = (case Option.bind (permissions_path m) (json_get v) of
                       Some val \<Rightarrow> str_items val | None \<Rightarrow> []),
      raw_claims = v\<rparr>"

section \<open>The RBAC interceptor\<close>

record cached_auth =
  ca_claims :: auth_claims
  ca_expires_at :: nat

record 'c lru_ops =
  lru_get :: "'c \<Rightarrow> string \<Rightarrow> cached_auth option \<times> 'c"
  lru_put :: "'c \<Rightarrow> string \<Rightarrow> cached_auth \<Rightarrow> 'c"

record rbac =
  rb_provider :: "auth_provider option"
  rb_claims_mapping :: claims_mapping
  rb_mutations_default :: policy_mode
  rb_queries_default :: policy_mode
  rb_unauthenticated_ops :: "string list"
  rb_role_permissions :: "(string \<times> string list) list"
  rb_cache_ttl :: nat

definition rbac_new :: rbac where
  "rbac_new = \<lparr>rb_provider = None, rb_claims_mapping = default_claims_mapping,
     rb_mutations_default = AuditOnly, rb_queries_default = PassAll,
     rb_unauthenticated_ops = [''IntrospectionQuery'', ''__schema'', ''requestMagicLink'', ''verifyMagicLink''],
     rb_role_permissions = [], rb_cache_ttl = 60000\<rparr>"

definition with_policies :: "policy_mode \<Rightarrow> policy_mode \<Rightarrow> rbac \<Rightarrow> rbac" where
  "with_policies m q r = r\<lparr>rb_mutations_default := m, rb_queries_default := q\<rparr>"

definition allow_unauthenticated :: "string \<Rightarrow> rbac \<Rightarrow> rbac" where
  "allow_unauthenticated op r = r\<lparr>rb_unauthenticated_ops := List.insert op (rb_unauthenticated_ops r)\<rparr>"

definition grant_role :: "string \<Rightarrow> string list \<Rightarrow> rbac \<Rightarrow> rbac" where
  "grant_role role ops r =
     r\<lparr>rb_role_permissions := fold (\<lambda>op m. alist_insert op (unwrap_or (map_of m op) [] @ [role]) m) ops
         (rb_role_permissions r)\<rparr>"

definition resolve_claims_from_token ::
  "'c lru_ops \<Rightarrow> crypto \<Rightarrow> rbac \<Rightarrow> nat \<Rightarrow> int \<Rightarrow> 'c \<Rightarrow> string \<Rightarrow> auth_claims result \<times> 'c" where
  "resolve_claims_from_token lru cr r now unix cache token =
     (let (hit, cache1) = lru_get lru cache token;
          verify = (case rb_provider r of
              None \<Rightarrow> (Inl ''No authentication provider configured'', cache1)
            | Some p \<Rightarrow>
                (case verify_jwt cr p unix token of
                   Inl e \<Rightarrow> (Inl e, cache1)
                 | Inr raw \<Rightarrow>
                     let claims = extract_claims_from_json raw (rb_claims_mapping r)
                     in (Inr claims, lru_put lru cache1 token
                           \<lparr>ca_claims = claims, ca_expires_at = now + rb_cache_ttl r\<rparr>)))
      in case hit of
           Some e \<Rightarrow> if now < ca_expires_at e then (Inr (ca_claims e), cache1) else verify
         | None \<Rightarrow> verify)"

definition bearer_token :: "http_parts \<Rightarrow> string option" where
  "bearer_token p =
     (case map_option trim (header_str (headers p) ''authorization'') of
        Some hdr \<Rightarrow>
          if length hdr > 7 \<and> eq_ignore_ascii_case (take 7 hdr) ''bearer ''
          then Some (trim (drop 7 hdr)) else None
      | None \<Rightarrow> None)"

definition insert_if_valid :: "string \<Rightarrow> string \<Rightarrow> http_parts \<Rightarrow> http_parts" where
  "insert_if_valid name v p =
     (case header_value_from_str v of
        Some hv \<Rightarrow> p\<lparr>headers := header_insert (headers p) name hv\<rparr> | None \<Rightarrow> p)"

definition propagate_identity :: "auth_claims \<Rightarrow> http_parts \<Rightarrow> http_parts" where
  "propagate_identity c p =
     (let p1 = (case subject c of Some s \<Rightarrow> insert_if_valid ''x-user-id'' s p | None \<Rightarrow> p);
          p2 = (case tenant_id c of Some t \<Rightarrow> insert_if_valid ''x-tenant-id'' t p1 | None \<Rightarrow> p1)
      in if roles c \<noteq> [] then insert_if_valid ''x-user-roles'' (join '','' (roles c)) p2 else p2)"

definition role_granted :: "rbac \<Rightarrow> policy_mode \<Rightarrow> string \<Rightarrow> auth_claims option \<Rightarrow> bool" where
  "role_granted r mode op claims =
     (case map_of (rb_role_permissions r) op of
        Some req \<Rightarrow>
          (case claims of
             Some c \<Rightarrow> list_ex (\<lambda>x. x = ''*'' \<or> x \<in> set req) (roles c)
           | None \<Rightarrow> False)
      | None \<Rightarrow>
          (case mode of
             PassAll \<Rightarrow> True
           | AuditOnly \<Rightarrow> False
           | AllowAuthenticated \<Rightarrow> claims \<noteq> None
           | DenyUnlisted \<Rightarrow> False))"

definition unauthorized_verdict ::
  "policy_mode \<Rightarrow> string \<Rightarrow> auth_claims option \<Rightarrow> string option \<Rightarrow> verdict" where
  "unauthorized_verdict mode op claims token_error =
     (let sub = Option.bind claims subject
      in case mode of
           PassAll \<Rightarrow> Pass
         | AuditOnly \<Rightarrow> Audit ''rbac_audit_mode'' (Some ''AUTH_AUDIT'')
             (''Operation '' @ quoted op @ '' executed without required role (identity: '' @ debug_opt_str sub
              @ '', token_err: '' @ debug_opt_str token_error @ '')'')
         | AllowAuthenticated \<Rightarrow>
             if claims \<noteq> None then Pass
             else Reject (rejection_new 401 ''AUTHENTICATION_REQUIRED''
                    (unwrap_or token_error ''Valid authentication token required''))
         | DenyUnlisted \<Rightarrow>
             if claims = None
             then Reject (rejection_new 401 ''AUTHENTICATION_REQUIRED''
                    (unwrap_or token_error ''Authentication token required''))
             else Reject (rejection_new 403 ''FORBIDDEN''
                    (''User '' @ quoted (unwrap_or sub ''anonymous'')
                     @ '' does not possess required role for operation '' @ quoted op)))"

definition rbac_intercept_request ::
  "'c lru_ops \<Rightarrow> crypto \<Rightarrow> rbac \<Rightarrow> nat \<Rightarrow> int \<Rightarrow> 'c request_interceptor" where
  "rbac_intercept_request lru cr r now unix cache c p body =
     (let op_name = unwrap_or (ctx_operation_name c) []
      in if op_name \<in> set (rb_unauthenticated_ops r) then (Pass, cache, c, p)
         else
           let (claims, token_error, cache1) =
                 (case bearer_token p of
                    None \<Rightarrow> (None, None, cache)
                  | Some token \<Rightarrow>
                      (case resolve_claims_from_token lru cr r now unix cache token of
                         (Inr cl, cache') \<Rightarrow> (Some cl, None, cache')
                       | (Inl e, cache') \<Rightarrow> (None, Some e, cache')));
               (c1, p1) = (case claims of
                             Some cl \<Rightarrow> (c\<lparr>ctx_claims := Some cl\<rparr>, propagate_identity cl p)
                           | None \<Rightarrow> (c, p));
               mode = (if ctx_operation_type c = Some Mutation then rb_mutations_default r
                       else rb_queries_default r)
           in if role_granted r mode op_name claims then (Pass, cache1, c1, p1)
              else (unauthorized_verdict mode op_name claims token_error, cache1, c1, p1))"

section \<open>The interceptor as a port\<close>

lemma propagate_identity_target [simp]:
  "http_method (propagate_identity cl p) = http_method p" "uri (propagate_identity cl p) = uri p"
  "uri_path (propagate_identity cl p) = uri_path p" "uri_query (propagate_identity cl p) = uri_query p"
  by (simp_all add: propagate_identity_def insert_if_valid_def Let_def split: option.splits)

text \<open>The claims, the error and the cache after the token has been looked at.\<close>

definition identify ::
  "'c lru_ops \<Rightarrow> crypto \<Rightarrow> rbac \<Rightarrow> nat \<Rightarrow> int \<Rightarrow> 'c \<Rightarrow> http_parts \<Rightarrow> auth_claims option \<times> string option \<times> 'c" where
  "identify lru cr r now unix cache p =
     (case bearer_token p of
        None \<Rightarrow> (None, None, cache)
      | Some token \<Rightarrow>
          (case resolve_claims_from_token lru cr r now unix cache token of
             (Inr cl, cache') \<Rightarrow> (Some cl, None, cache')
           | (Inl e, cache') \<Rightarrow> (None, Some e, cache')))"

definition mode_for :: "rbac \<Rightarrow> interceptor_context \<Rightarrow> policy_mode" where
  "mode_for r c = (if ctx_operation_type c = Some Mutation then rb_mutations_default r else rb_queries_default r)"

abbreviation op_of :: "interceptor_context \<Rightarrow> string" where
  "op_of c \<equiv> unwrap_or (ctx_operation_name c) []"

lemma rbac_intercept_cases:
  assumes "identify lru cr r now unix cache p = (claims, err, cache1)"
  shows "rbac_intercept_request lru cr r now unix cache c p body =
    (if op_of c \<in> set (rb_unauthenticated_ops r) then (Pass, cache, c, p)
     else (if role_granted r (mode_for r c) (op_of c) claims then Pass
           else unauthorized_verdict (mode_for r c) (op_of c) claims err,
           cache1,
           case claims of Some cl \<Rightarrow> c\<lparr>ctx_claims := Some cl\<rparr> | None \<Rightarrow> c,
           case claims of Some cl \<Rightarrow> propagate_identity cl p | None \<Rightarrow> p))"
  using assms
  by (auto simp: rbac_intercept_request_def identify_def mode_for_def Let_def
      split: option.splits prod.splits sum.splits)

interpretation rbac: request_port "rbac_intercept_request lru cr r now unix" for lru cr r now unix
proof
  fix w c p b v w' c' p'
  assume run: "rbac_intercept_request lru cr r now unix w c p b = (v, w', c', p')"
  obtain claims err cache1 where i: "identify lru cr r now unix w p = (claims, err, cache1)"
    by (metis prod_cases3)
  from run show "same_request c p c' p'"
    unfolding rbac_intercept_cases [OF i] by (auto simp: same_request_def split: if_splits option.splits)
qed

section \<open>Properties of verification\<close>

lemma join_split_on: "join [d] (split_on d s) = s"
proof (induction s)
  case (Cons c s)
  show ?case
  proof (cases "split_on d s")
    case (Cons x xs)
    with Cons.IH show ?thesis by (cases xs) auto
  qed simp
qed simp

text \<open>The signature was checked with the key of the provider, under the algorithm of that key.\<close>

definition key_accepts :: "crypto \<Rightarrow> jwks_key \<Rightarrow> string \<Rightarrow> string \<Rightarrow> string \<Rightarrow> bool" where
  "key_accepts cr key alg d sig =
     (case key of
        RsaPkcs1 der \<Rightarrow> alg = ''RS256'' \<and> rsa_pkcs1_verify cr der d sig
      | Ed25519 raw \<Rightarrow> alg \<in> {''EdDSA'', ''ED25519''} \<and> ed25519_verify cr raw d sig)"

definition provider_accepts ::
  "crypto \<Rightarrow> auth_provider \<Rightarrow> string \<Rightarrow> string option \<Rightarrow> string \<Rightarrow> string \<Rightarrow> bool" where
  "provider_accepts cr p alg kid d sig =
     (case p of
        Hmac secret \<Rightarrow> alg = ''HS256'' \<and> hmac_sha256_verify cr secret d sig
      | StaticKey ek key \<Rightarrow> (ek = None \<or> kid = None \<or> ek = kid) \<and> key_accepts cr key alg d sig
      | Jwks url keys \<Rightarrow>
          \<exists>k key. (k, key) \<in> set keys \<and> (kid = None \<or> kid = Some k) \<and> key_accepts cr key alg d sig)"

lemma verify_key_accepts: "verify_key cr key alg d sig = Inr u \<longleftrightarrow> key_accepts cr key alg d sig"
  by (auto simp: verify_key_def key_accepts_def split: jwks_key.splits)

lemma verify_signature_accepts:
  "verify_signature cr p alg kid d sig = Inr u \<Longrightarrow> provider_accepts cr p alg kid d sig"
  by (auto simp: verify_signature_def provider_accepts_def verify_key_accepts
      split: auth_provider.splits option.splits if_splits list.splits dest: map_of_SomeD)

lemma check_times_Inr:
  "check_times now v = Inr w \<longleftrightarrow> w = v
     \<and> (\<forall>e. Option.bind (json_get v ''exp'') as_i64 = Some e \<longrightarrow> now \<le> sat_add_i64 e 60)
     \<and> (\<forall>n. Option.bind (json_get v ''nbf'') as_i64 = Some n \<longrightarrow> n \<le> sat_add_i64 now 60)"
  by (auto simp: check_times_def CLOCK_SKEW_SECS_def Let_def not_le split: option.splits)

text \<open>C7. \<open>AuthProvider::verify_jwt\<close>: an accepted token is three base64 parts; its signature over the
  first two was verified with the provider's key under exactly that key's algorithm (the
  header cannot switch an RSA key to HMAC or to none); an integer expiry is not more than 60
  seconds past and an integer not-before not more than 60 seconds ahead; and the claims
  returned are the decoded second part.  A time that is missing or no integer is not checked.\<close>

theorem jwt_accepted_sound:
  assumes "verify_jwt cr p now token = Inr claims"
  shows "\<exists>h pl sg hj sig. token = h @ ''.'' @ pl @ ''.'' @ sg
     \<and> decode_json_b64url cr h = Inr hj \<and> decode_json_b64url cr pl = Inr claims \<and> decode_b64url cr sg = Inr sig
     \<and> provider_accepts cr p (unwrap_or (get_str hj ''alg'') ''RS256'') (get_str hj ''kid'') (h @ ''.'' @ pl) sig
     \<and> (\<forall>e. Option.bind (json_get claims ''exp'') as_i64 = Some e \<longrightarrow> now \<le> sat_add_i64 e 60)
     \<and> (\<forall>n. Option.bind (json_get claims ''nbf'') as_i64 = Some n \<longrightarrow> n \<le> sat_add_i64 now 60)"
proof -
  from assms obtain h pl sg hj pj sig where parts: "split_on CHR ''.'' token = [h, pl, sg]"
    and dec: "decode_json_b64url cr h = Inr hj" "decode_json_b64url cr pl = Inr pj" "decode_b64url cr sg = Inr sig"
    and sig: "verify_signature cr p (unwrap_or (get_str hj ''alg'') ''RS256'') (get_str hj ''kid'') (h @ ''.'' @ pl) sig = Inr ()"
    and times: "check_times now pj = Inr claims"
    by (auto simp: verify_jwt_def split: list.splits sum.splits)
  have "token = h @ ''.'' @ pl @ ''.'' @ sg"
    using join_split_on [of "CHR ''.''" token] parts by simp
  moreover have "claims = pj" using times by (simp add: check_times_Inr)
  ultimately show ?thesis
    using dec verify_signature_accepts [OF sig] times unfolding check_times_Inr by blast
qed

text \<open>A provider and a token for which every hypothesis on the library holds: \<open>b64\<close> and
  \<open>json\<close> are tables.\<close>

definition toy_crypto :: crypto where
  "toy_crypto = \<lparr>b64_url_no_pad = Inr, b64_url = Inr,
     json_from_slice = (\<lambda>s. if s = ''h'' then Inr (JObject [(''alg'', JString ''HS256'')])
                        else if s = ''p'' then Inr (JObject [(''sub'', JString ''ann''), (''roles'', JArray [JString ''admin'']),
                                                          (''exp'', JNumber (PosInt 1000))])
                        else Inl ''bad''),
     hmac_sha256_verify = (\<lambda>k d s. k = ''key'' \<and> d = ''h.p'' \<and> s = ''s''),
     rsa_pkcs1_verify = (\<lambda>_ _ _. False), ed25519_verify = (\<lambda>_ _ _. False)\<rparr>"

lemmas toy_crypto_eval =
  verify_jwt_def decode_json_b64url_def decode_b64url_def verify_signature_def toy_crypto_def
  check_times_def sat_add_i64_def CLOCK_SKEW_SECS_def

lemma toy_verify: "verify_jwt toy_crypto (Hmac ''key'') 1060 ''h.p.s'' =
  Inr (JObject [(''sub'', JString ''ann''), (''roles'', JArray [JString ''admin'']), (''exp'', JNumber (PosInt 1000))])"
  by (simp add: toy_crypto_eval)

theorem jwt_accepted_sound_witness:
  "\<exists>h pl sg sig. ''h.p.s'' = h @ ''.'' @ pl @ ''.'' @ sg \<and> decode_b64url toy_crypto sg = Inr sig
     \<and> (\<exists>alg kid. provider_accepts toy_crypto (Hmac ''key'') alg kid (h @ ''.'' @ pl) sig)"
  using jwt_accepted_sound [OF toy_verify] by blast

text \<open>An expiry written as a floating-point number is not looked at.\<close>

lemma float_exp_never_expires:
  "json_get v ''exp'' = Some (JNumber (JFloat bits)) \<Longrightarrow> json_get v ''nbf'' = None \<Longrightarrow> check_times now v = Inr v"
  by (simp add: check_times_def)

section \<open>Properties of authorisation\<close>


definition no_cache :: "unit lru_ops" where
  "no_cache = \<lparr>lru_get = (\<lambda>c _. (None, c)), lru_put = (\<lambda>c _ _. c)\<rparr>"

definition strict_rbac :: rbac where
  "strict_rbac = grant_role ''admin'' [''wipe''] (with_policies DenyUnlisted DenyUnlisted
     (rbac_new\<lparr>rb_provider := Some (Hmac ''key'')\<rparr>))"

definition wipe_context :: interceptor_context where
  "wipe_context = with_operation (Some ''wipe'') (Some Mutation) (context_new 0 \<lparr>physical = 0, logical = 0\<rparr>)"

definition ann_parts :: http_parts where
  "ann_parts = sample_parts\<lparr>headers := [(''authorization'', ''Bearer h.p.s'')]\<rparr>"

lemma ann_token: "bearer_token ann_parts = Some ''h.p.s''"
  by code_simp

lemma ann_resolves:
  "resolve_claims_from_token no_cache toy_crypto strict_rbac 0 1060 () ''h.p.s''
     = (Inr \<lparr>subject = Some ''ann'', tenant_id = None, roles = [''admin''], permissions = [],
              raw_claims = JObject [(''sub'', JString ''ann''), (''roles'', JArray [JString ''admin'']), (''exp'', JNumber (PosInt 1000))]\<rparr>, ())"
  by (simp add: resolve_claims_from_token_def no_cache_def strict_rbac_def rbac_new_def with_policies_def
      grant_role_def toy_verify extract_claims_from_json_def default_claims_mapping_def
      List.map_filter_def Let_def)


text \<open>The two permissive modes never block: under \<open>AuditOnly\<close> and \<open>PassAll\<close> no request is
  rejected, whatever the token, the roles and the cache.\<close>

theorem rbac_permissive_never_rejects:
  assumes "mode_for r c \<in> {AuditOnly, PassAll}"
  shows "\<not> is_reject (fst (rbac_intercept_request lru cr r now unix cache c p body))"
proof -
  obtain claims err cache1 where i: "identify lru cr r now unix cache p = (claims, err, cache1)"
    by (metis prod_cases3)
  show ?thesis
    using assms unfolding rbac_intercept_cases [OF i] by (auto simp: unauthorized_verdict_def Let_def)
qed

theorem rbac_permissive_never_rejects_witness:
  "\<not> is_reject (fst (rbac_intercept_request no_cache toy_crypto rbac_new 0 0 () wipe_context ann_parts []))"
  by (rule rbac_permissive_never_rejects) (simp add: mode_for_def rbac_new_def wipe_context_def with_operation_def)

text \<open>Under \<open>AllowAuthenticated\<close> a role requirement is not enforced: any identity passes.\<close>

lemma allow_authenticated_ignores_roles:
  assumes "identify lru cr r now unix cache p = (Some cl, err, cache1)" "mode_for r c = AllowAuthenticated"
  shows "fst (rbac_intercept_request lru cr r now unix cache c p body) = Pass"
  using assms(2) unfolding rbac_intercept_cases [OF assms(1)] by (simp add: unauthorized_verdict_def Let_def)

section \<open>The token cache\<close>

text \<open>What the documentation of \<open>LruCache\<close> promises of \<open>get\<close> and \<open>put\<close>: a lookup changes no content,
  a key that was put is found, and other keys are as before or evicted.\<close>

definition lru_content :: "'c lru_ops \<Rightarrow> 'c \<Rightarrow> string \<Rightarrow> cached_auth option" where
  "lru_content lru c k = fst (lru_get lru c k)"

definition lru_laws :: "'c lru_ops \<Rightarrow> bool" where
  "lru_laws lru =
     ((\<forall>c j k. lru_content lru (snd (lru_get lru c j)) k = lru_content lru c k)
      \<and> (\<forall>c k v. lru_content lru (lru_put lru c k v) k = Some v)
      \<and> (\<forall>c j k v. j \<noteq> k \<longrightarrow> lru_content lru (lru_put lru c k v) j \<in> {None, lru_content lru c j}))"

lemma lru_content_get: "lru_laws lru \<Longrightarrow> lru_get lru c j = (h, c') \<Longrightarrow> lru_content lru c' k = lru_content lru c k"
  unfolding lru_laws_def by (metis snd_conv)

lemma lru_content_put_same: "lru_laws lru \<Longrightarrow> lru_content lru (lru_put lru c k v) k = Some v"
  unfolding lru_laws_def by blast

lemma lru_content_put_other:
  "lru_laws lru \<Longrightarrow> j \<noteq> k \<Longrightarrow> lru_content lru (lru_put lru c k v) j = Some e \<Longrightarrow> lru_content lru c j = Some e"
  unfolding lru_laws_def by (metis insertE option.distinct(1) singletonD)

text \<open>A moment: the two clocks and the configuration (with its keys) in force.\<close>

type_synonym moment = "nat \<times> int \<times> rbac"

definition verified_at :: "crypto \<Rightarrow> moment \<Rightarrow> string \<Rightarrow> auth_claims \<Rightarrow> bool" where
  "verified_at cr mo token cl =
     (case mo of (t, unix, r) \<Rightarrow> \<exists>p raw. rb_provider r = Some p \<and> verify_jwt cr p unix token = Inr raw
        \<and> cl = extract_claims_from_json raw (rb_claims_mapping r))"

definition cache_ok :: "'c lru_ops \<Rightarrow> crypto \<Rightarrow> moment list \<Rightarrow> 'c \<Rightarrow> bool" where
  "cache_ok lru cr past c =
     (\<forall>k e. lru_content lru c k = Some e \<longrightarrow>
        (\<exists>mo \<in> set past. verified_at cr mo k (ca_claims e)
            \<and> ca_expires_at e = fst mo + rb_cache_ttl (snd (snd mo))))"

text \<open>A run: at each moment a token is presented.\<close>

fun rbac_run ::
  "'c lru_ops \<Rightarrow> crypto \<Rightarrow> (moment \<times> string) list \<Rightarrow> 'c \<Rightarrow> 'c" where
  "rbac_run lru cr [] c = c"
| "rbac_run lru cr (((now, unix, r), token) # es) c =
     rbac_run lru cr es (snd (resolve_claims_from_token lru cr r now unix c token))"

lemma cache_ok_mono: "cache_ok lru cr past c \<Longrightarrow> set past \<subseteq> set past' \<Longrightarrow> cache_ok lru cr past' c"
  unfolding cache_ok_def by blast

lemma resolve_cases:
  assumes "lru_get lru c token = (hit, c1)"
    and "resolve_claims_from_token lru cr r now unix c token = (res, c')"
  shows "(\<exists>e. res = Inl e \<and> c' = c1)
    \<or> (\<exists>e. hit = Some e \<and> now < ca_expires_at e \<and> res = Inr (ca_claims e) \<and> c' = c1)
    \<or> (\<exists>cl. verified_at cr (now, unix, r) token cl \<and> res = Inr cl
         \<and> c' = lru_put lru c1 token \<lparr>ca_claims = cl, ca_expires_at = now + rb_cache_ttl r\<rparr>)"
proof (cases "\<exists>e. hit = Some e \<and> now < ca_expires_at e")
  case True
  with assms show ?thesis by (auto simp: resolve_claims_from_token_def Let_def)
next
  case False
  then have verify: "resolve_claims_from_token lru cr r now unix c token =
      (case rb_provider r of
         None \<Rightarrow> (Inl ''No authentication provider configured'', c1)
       | Some p \<Rightarrow>
           (case verify_jwt cr p unix token of
              Inl e \<Rightarrow> (Inl e, c1)
            | Inr raw \<Rightarrow>
                (Inr (extract_claims_from_json raw (rb_claims_mapping r)), lru_put lru c1 token
                   \<lparr>ca_claims = extract_claims_from_json raw (rb_claims_mapping r),
                    ca_expires_at = now + rb_cache_ttl r\<rparr>)))"
    using assms(1) by (auto simp: resolve_claims_from_token_def Let_def split: option.splits sum.splits)
  show ?thesis
  proof (cases "rb_provider r")
    case None
    with assms(2) verify show ?thesis by auto
  next
    case (Some p)
    with assms(2) verify show ?thesis by (cases "verify_jwt cr p unix token") (auto simp: verified_at_def)
  qed
qed

lemma resolve_sound:
  assumes laws: "lru_laws lru" and ok: "cache_ok lru cr past c"
    and res: "resolve_claims_from_token lru cr r now unix c token = (res, c')"
  shows "cache_ok lru cr (past @ [(now, unix, r)]) c'"
    and "res = Inr cl \<Longrightarrow> verified_at cr (now, unix, r) token cl \<or>
           (\<exists>mo \<in> set past. verified_at cr mo token cl \<and> now < fst mo + rb_cache_ttl (snd (snd mo)))"
proof -
  obtain hit c1 where g: "lru_get lru c token = (hit, c1)" by fastforce
  have content: "lru_content lru c1 k = lru_content lru c k" for k
    using lru_content_get [OF laws g] .
  have hit: "hit = lru_content lru c token" using g by (simp add: lru_content_def)
  have ok1: "cache_ok lru cr (past @ [(now, unix, r)]) c1"
    using cache_ok_mono [OF ok, of "past @ [(now, unix, r)]"] content by (auto simp: cache_ok_def)
  have put: "cache_ok lru cr (past @ [(now, unix, r)])
      (lru_put lru c1 token \<lparr>ca_claims = cl, ca_expires_at = now + rb_cache_ttl r\<rparr>)"
    if "verified_at cr (now, unix, r) token cl" for cl
    unfolding cache_ok_def
  proof (intro allI impI)
    fix k e
    assume e: "lru_content lru (lru_put lru c1 token \<lparr>ca_claims = cl, ca_expires_at = now + rb_cache_ttl r\<rparr>) k = Some e"
    show "\<exists>mo \<in> set (past @ [(now, unix, r)]). verified_at cr mo k (ca_claims e)
            \<and> ca_expires_at e = fst mo + rb_cache_ttl (snd (snd mo))"
    proof (cases "k = token")
      case True
      with e lru_content_put_same [OF laws] have "e = \<lparr>ca_claims = cl, ca_expires_at = now + rb_cache_ttl r\<rparr>"
        by simp
      with True that show ?thesis by simp
    next
      case False
      from e have "lru_content lru c1 k = Some e" by (rule lru_content_put_other [OF laws False])
      with ok1 show ?thesis by (simp add: cache_ok_def)
    qed
  qed
  consider (failed) e where "res = Inl e" "c' = c1"
    | (cached) e where "hit = Some e" "now < ca_expires_at e" "res = Inr (ca_claims e)" "c' = c1"
    | (fresh) cl1 where "verified_at cr (now, unix, r) token cl1" "res = Inr cl1"
        "c' = lru_put lru c1 token \<lparr>ca_claims = cl1, ca_expires_at = now + rb_cache_ttl r\<rparr>"
    using resolve_cases [OF g res] by blast
  then show "cache_ok lru cr (past @ [(now, unix, r)]) c'"
    using ok1 put by cases auto
  have "verified_at cr (now, unix, r) token cl \<or> (\<exists>e. hit = Some e \<and> ca_claims e = cl \<and> now < ca_expires_at e)"
    if "res = Inr cl"
    using resolve_cases [OF g res] that by auto
  then show "verified_at cr (now, unix, r) token cl \<or>
      (\<exists>mo \<in> set past. verified_at cr mo token cl \<and> now < fst mo + rb_cache_ttl (snd (snd mo)))"
    if "res = Inr cl"
    using that ok unfolding hit cache_ok_def by metis
qed

lemma rbac_run_ok:
  "lru_laws lru \<Longrightarrow> cache_ok lru cr past c \<Longrightarrow> cache_ok lru cr (past @ map fst es) (rbac_run lru cr es c)"
proof (induction lru cr es c arbitrary: past rule: rbac_run.induct)
  case (2 lru cr now unix r token es c)
  obtain res c' where "resolve_claims_from_token lru cr r now unix c token = (res, c')" by fastforce
  with 2 resolve_sound(1) [OF "2.prems" this] show ?case by fastforce
qed simp

text \<open>C23. The token cache is sound over every run: starting from an empty cache, after any
  sequence of tokens, clocks and key rotations, an identity the interceptor accepts was
  obtained by verifying that very token, now or at an earlier moment of the run with the
  keys in force then and no longer ago than the cache's time to live.\<close>

theorem rbac_cache_sound:
  assumes "lru_laws lru" and "\<forall>k. lru_content lru c k = None"
    and "resolve_claims_from_token lru cr r now unix (rbac_run lru cr es c) token = (Inr cl, c')"
  shows "verified_at cr (now, unix, r) token cl \<or>
    (\<exists>mo \<in> fst ` set es. verified_at cr mo token cl \<and> now < fst mo + rb_cache_ttl (snd (snd mo)))"
proof -
  have "cache_ok lru cr [] c" using assms(2) by (simp add: cache_ok_def)
  from rbac_run_ok [OF assms(1) this, of es]
  have "cache_ok lru cr (map fst es) (rbac_run lru cr es c)" by simp
  from resolve_sound(2) [OF assms(1) this assms(3) refl] show ?thesis by simp
qed

text \<open>A cache of one entry, as \<open>with_cache_capacity(1)\<close> makes it.\<close>

definition lru1 :: "(string \<times> cached_auth) option lru_ops" where
  "lru1 = \<lparr>lru_get = (\<lambda>c k. (case c of Some (j, v) \<Rightarrow> if j = k then Some v else None | None \<Rightarrow> None, c)),
           lru_put = (\<lambda>c k v. Some (k, v))\<rparr>"

lemma lru1_laws: "lru_laws lru1"
  by (auto simp: lru_laws_def lru_content_def lru1_def split: option.splits)

theorem rbac_cache_sound_witness:
  "lru_laws lru1 \<and>
   (\<exists>cl c'. resolve_claims_from_token lru1 toy_crypto strict_rbac 5000 2000
       (rbac_run lru1 toy_crypto [((0, 1060, strict_rbac), ''h.p.s'')] None) ''h.p.s'' = (Inr cl, c')
     \<and> (verified_at toy_crypto (5000, 2000, strict_rbac) ''h.p.s'' cl \<or>
        verified_at toy_crypto (0, 1060, strict_rbac) ''h.p.s'' cl))"
proof -
  have prov: "rb_provider strict_rbac = Some (Hmac ''key'')" "rb_cache_ttl strict_rbac = 60000"
    by (simp_all add: strict_rbac_def grant_role_def with_policies_def rbac_new_def)
  obtain cl c' where res: "resolve_claims_from_token lru1 toy_crypto strict_rbac 5000 2000
      (rbac_run lru1 toy_crypto [((0, 1060, strict_rbac), ''h.p.s'')] None) ''h.p.s'' = (Inr cl, c')"
    by (simp add: resolve_claims_from_token_def lru1_def prov toy_verify Let_def)
  have "\<forall>k. lru_content lru1 None k = None" by (simp add: lru_content_def lru1_def)
  from rbac_cache_sound [OF lru1_laws this res] res lru1_laws show ?thesis by auto
qed

section \<open>DER\<close>

text \<open>A reader of definite lengths and of the two-integer sequence.\<close>

definition byte_val :: "char \<Rightarrow> nat" where
  "byte_val c = of_char c"

fun read_length :: "string \<Rightarrow> (nat \<times> string) option" where
  "read_length [] = None"
| "read_length (c # s) =
     (if byte_val c < 128 then Some (byte_val c, s)
      else if byte_val c = 129 then (case s of a # s' \<Rightarrow> Some (byte_val a, s') | _ \<Rightarrow> None)
      else if byte_val c = 130 then
        (case s of a # b # s' \<Rightarrow> Some (byte_val a * 256 + byte_val b, s') | _ \<Rightarrow> None)
      else None)"

definition read_tlv :: "nat \<Rightarrow> string \<Rightarrow> (string \<times> string) option" where
  "read_tlv tag s =
     (case s of
        [] \<Rightarrow> None
      | c # s1 \<Rightarrow>
          if byte_val c \<noteq> tag then None
          else case read_length s1 of
            None \<Rightarrow> None
          | Some (n, s2) \<Rightarrow> if length s2 < n then None else Some (take n s2, drop n s2))"

definition bytes_value :: "string \<Rightarrow> nat" where
  "bytes_value bs = fold (\<lambda>c acc. acc * 256 + byte_val c) bs 0"

text \<open>The value of a non-negative INTEGER: its first byte has no sign bit.\<close>

definition read_unsigned :: "string \<Rightarrow> (nat \<times> string) option" where
  "read_unsigned s =
     (case read_tlv 2 s of
        None \<Rightarrow> None
      | Some (bs, rest) \<Rightarrow>
          if bs \<noteq> [] \<and> 128 \<le> byte_val (hd bs) then None else Some (bytes_value bs, rest))"

definition read_rsa_key :: "string \<Rightarrow> (nat \<times> nat) option" where
  "read_rsa_key s =
     (case read_tlv 48 s of
        None \<Rightarrow> None
      | Some (bs, rest) \<Rightarrow>
          (case read_unsigned bs of
             None \<Rightarrow> None
           | Some (n, s1) \<Rightarrow>
               (case read_unsigned s1 of
                  None \<Rightarrow> None
                | Some (e, s2) \<Rightarrow> if rest = [] \<and> s2 = [] then Some (n, e) else None)))"

lemma byte_val_u8 [simp]: "byte_val (u8 n) = n mod 256"
  by (simp add: byte_val_def u8_def)

lemma read_encode_length: "len < 65536 \<Longrightarrow> read_length (encode_der_length len @ s) = Some (len, s)"
  by (auto simp: encode_der_length_def)

lemma read_tlv_encode:
  "tag < 128 \<Longrightarrow> length bs < 65536 \<Longrightarrow>
   read_tlv tag ([u8 tag] @ encode_der_length (length bs) @ bs @ rest) = Some (bs, rest)"
  by (simp add: read_tlv_def read_encode_length)

lemma read_encode_integer:
  assumes "length bs < 65535"
  shows "read_unsigned (encode_der_integer bs @ rest) = Some (bytes_value bs, rest)"
proof (cases "bs \<noteq> [] \<and> 128 \<le> byte_val (hd bs)")
  case True
  then have "encode_der_integer bs @ rest =
      [u8 2] @ encode_der_length (length (u8 0 # bs)) @ (u8 0 # bs) @ rest"
    by (simp add: encode_der_integer_def byte_val_def)
  then have "read_tlv 2 (encode_der_integer bs @ rest) = Some (u8 0 # bs, rest)"
    using read_tlv_encode [of 2 "u8 0 # bs" rest] assms by simp
  then show ?thesis by (simp add: read_unsigned_def bytes_value_def)
next
  case False
  then have "encode_der_integer bs @ rest = [u8 2] @ encode_der_length (length bs) @ bs @ rest"
    by (auto simp: encode_der_integer_def byte_val_def)
  then have "read_tlv 2 (encode_der_integer bs @ rest) = Some (bs, rest)"
    using read_tlv_encode [of 2 bs rest] assms by simp
  with False show ?thesis by (auto simp: read_unsigned_def)
qed

lemma encode_der_integer_length: "length (encode_der_integer bs) \<le> length bs + 5"
  by (simp add: encode_der_integer_def encode_der_length_def Let_def)

text \<open>\<open>rsa_components_to_der\<close>: for every modulus and exponent of a key that fits a
  two-byte DER length (far above the 8192 bits ring accepts) the encoding is read back as
  exactly these two non-negative integers, also when the first byte has its top bit set.\<close>

theorem rsa_der_roundtrip:
  assumes "length n + length e < 65525"
  shows "read_rsa_key (rsa_components_to_der n e) = Some (bytes_value n, bytes_value e)"
proof -
  let ?c = "encode_der_integer n @ encode_der_integer e"
  have len: "length ?c < 65536"
    using encode_der_integer_length [of n] encode_der_integer_length [of e] assms by simp
  have "rsa_components_to_der n e = [u8 48] @ encode_der_length (length ?c) @ ?c @ []"
    by (simp add: rsa_components_to_der_def Let_def)
  then have "read_tlv 48 (rsa_components_to_der n e) = Some (?c, [])"
    using read_tlv_encode [of 48 ?c "[]"] len by simp
  moreover have "read_unsigned ?c = Some (bytes_value n, encode_der_integer e)"
    using assms by (intro read_encode_integer) simp
  moreover have "read_unsigned (encode_der_integer e) = Some (bytes_value e, [])"
    using read_encode_integer [of e "[]"] assms by simp
  ultimately show ?thesis by (simp add: read_rsa_key_def)
qed

theorem rsa_der_roundtrip_witness:
  "read_rsa_key (rsa_components_to_der [u8 200, u8 1] [u8 1, u8 0, u8 1]) = Some (51201, 65537)"
  using rsa_der_roundtrip [of "[u8 200, u8 1]" "[u8 1, u8 0, u8 1]"] by (simp add: bytes_value_def)

end
