(* ===== verification/Cel.thy ===== *)
theory Cel
  imports Interceptors
begin

text \<open>
  \<open>interceptors/evaluators/cel.rs\<close>: the conversion of JSON to CEL values, the rule evaluator and the
  request and response interceptors driven by CEL expressions.

  The \<open>cel\<close> crate is an argument: \<open>execute\<close> runs a compiled program (of a type \<open>'p\<close>) on the variables,
  \<open>debug_val\<close> prints a value.  A context is the list of its variables; a later \<open>add_variable\<close> of a
  name replaces the earlier one.
\<close>

section \<open>Values and rules\<close>

datatype cel_value =
    CNull
  | CBool bool
  | CInt int
  | CUInt nat
  | CFloat u64
  | CString string
  | CList "cel_value list"
  | CMap "(string \<times> cel_value) list"

fun json_to_cel :: "json \<Rightarrow> cel_value" where
  "json_to_cel JNull = CNull"
| "json_to_cel (JBool b) = CBool b"
| "json_to_cel (JNumber n) =
     (case as_i64 (JNumber n) of
        Some i \<Rightarrow> CInt i
      | None \<Rightarrow> (case as_u64 (JNumber n) of
                   Some u \<Rightarrow> CUInt u
                 | None \<Rightarrow> (case n of JFloat f \<Rightarrow> CFloat f | _ \<Rightarrow> CNull)))"
| "json_to_cel (JString s) = CString s"
| "json_to_cel (JArray xs) = CList (map json_to_cel xs)"
| "json_to_cel (JObject m) = CMap (map (\<lambda>(k, v). (k, json_to_cel v)) m)"

type_synonym cel_vars = "(string \<times> cel_value) list"

definition add_variable :: "string \<Rightarrow> cel_value \<Rightarrow> cel_vars \<Rightarrow> cel_vars" where
  "add_variable k v vs = alist_insert k v vs"

type_synonym 'p cel_engine = "'p \<Rightarrow> cel_vars \<Rightarrow> cel_value result"

definition cel_register :: "(string \<Rightarrow> 'p result) \<Rightarrow> string \<Rightarrow> string \<Rightarrow> (string \<rightharpoonup> 'p) \<Rightarrow> (string \<rightharpoonup> 'p) result" where
  "cel_register compile name expr ps =
     (case compile expr of
        Inl e \<Rightarrow> Inl (''Failed to compile CEL expression '' @ quoted expr @ '': '' @ e)
      | Inr p \<Rightarrow> Inr (ps(name \<mapsto> p)))"

definition add_json_fields :: "json \<Rightarrow> cel_vars \<Rightarrow> cel_vars" where
  "add_json_fields v vs =
     (case v of JObject m \<Rightarrow> fold (\<lambda>(k, x) acc. add_variable k (json_to_cel x) acc) m vs | _ \<Rightarrow> vs)"

definition cel_evaluate ::
  "'p cel_engine \<Rightarrow> (cel_value \<Rightarrow> string) \<Rightarrow> (string \<rightharpoonup> 'p) \<Rightarrow> string \<Rightarrow> json \<Rightarrow> rule_error + bool" where
  "cel_evaluate execute debug_val ps rule_name input =
     (case ps rule_name of
        None \<Rightarrow> Inl (RuleNotFound rule_name)
      | Some p \<Rightarrow>
          (case execute p (add_variable ''input'' (json_to_cel input) (add_json_fields input [])) of
             Inr (CBool b) \<Rightarrow> Inr b
           | Inr other \<Rightarrow> Inl (EvaluationFailed (''CEL expression did not return a boolean, got: '' @ debug_val other))
           | Inl e \<Rightarrow> Inl (EvaluationFailed (''CEL evaluation error: '' @ e))))"

datatype cel_action = RejectAction | AuditAction

definition cel_action_from_str :: "string option \<Rightarrow> cel_action" where
  "cel_action_from_str s =
     (if map_option to_lowercase s \<in> {Some ''audit'', Some ''flag''} then AuditAction else RejectAction)"

record 'p cel_rule =
  cel_name :: string
  cel_program :: 'p
  cel_status :: nat
  cel_code :: string
  cel_message :: string
  cel_mode :: cel_action
  cel_tag :: "string option"

definition cel_with_options ::
  "(string \<Rightarrow> 'p result) \<Rightarrow> nat \<Rightarrow> string \<Rightarrow> string \<Rightarrow> string \<Rightarrow> string \<Rightarrow> nat option \<Rightarrow> string option \<Rightarrow> string option
     \<Rightarrow> cel_action \<Rightarrow> string option \<Rightarrow> 'p cel_rule result" where
  "cel_with_options compile def_status def_code def_message name expr st code msg action tag =
     (case compile expr of
        Inl e \<Rightarrow> Inl (''Failed to compile CEL expression '' @ quoted expr @ '': '' @ e)
      | Inr p \<Rightarrow> Inr \<lparr>cel_name = name, cel_program = p, cel_status = unwrap_or st def_status,
                      cel_code = unwrap_or code def_code, cel_message = unwrap_or msg def_message,
                      cel_mode = action, cel_tag = tag\<rparr>)"

definition cel_request_new where
  "cel_request_new compile =
     cel_with_options compile 403 ''POLICY_VIOLATION'' ''Request failed CEL validation policy''"

definition cel_response_new where
  "cel_response_new compile =
     cel_with_options compile 500 ''DATA_LEAK_PREVENTED'' ''Response failed outbound CEL policy check''"

section \<open>Requests\<close>

definition cel_str_opt :: "string option \<Rightarrow> cel_value" where
  "cel_str_opt x = (case x of Some s \<Rightarrow> CString s | None \<Rightarrow> CNull)"

definition cel_headers :: "header_map \<Rightarrow> cel_value" where
  "cel_headers hs = CMap (fold (\<lambda>(k, v) acc.
     case to_str v of Some s \<Rightarrow> alist_insert k (CString s) acc | None \<Rightarrow> acc) hs [])"

definition claims_value :: "auth_claims option \<Rightarrow> cel_value" where
  "claims_value claims =
     (case claims of
        Some c \<Rightarrow> CMap
          [(''sub'', cel_str_opt (subject c)), (''subject'', cel_str_opt (subject c)),
           (''tenant_id'', cel_str_opt (tenant_id c)), (''org_id'', cel_str_opt (tenant_id c)),
           (''roles'', CList (map CString (roles c))), (''permissions'', CList (map CString (permissions c))),
           (''is_authenticated'', CBool (subject c \<noteq> None)), (''raw'', json_to_cel (raw_claims c))]
      | None \<Rightarrow> CMap
          [(''sub'', CNull), (''subject'', CNull), (''tenant_id'', CNull), (''org_id'', CNull),
           (''roles'', CList []), (''permissions'', CList []), (''is_authenticated'', CBool False),
           (''raw'', CNull)])"

definition body_variables :: "(string \<Rightarrow> json result) \<Rightarrow> interceptor_context \<Rightarrow> string \<Rightarrow> cel_vars \<Rightarrow> cel_vars" where
  "body_variables from_str c body vs =
     (let json_body = (case ctx_json_body c of
                         Some j \<Rightarrow> Some j
                       | None \<Rightarrow> (case from_str body of Inr j \<Rightarrow> Some j | Inl _ \<Rightarrow> None))
      in case json_body of
           Some j \<Rightarrow>
             (let v1 = add_variable ''variables''
                         (case json_get j ''variables'' of Some x \<Rightarrow> json_to_cel x | None \<Rightarrow> CMap []) vs;
                  v2 = (case get_str j ''query'' of
                          Some q \<Rightarrow> add_variable ''query'' (CString q) v1 | None \<Rightarrow> v1)
              in add_variable ''body'' (json_to_cel j) v2)
         | None \<Rightarrow> add_variable ''body'' (CString body) (add_variable ''variables'' (CMap []) vs))"

definition request_variables ::
  "(string \<Rightarrow> json result) \<Rightarrow> interceptor_context \<Rightarrow> http_parts \<Rightarrow> string \<Rightarrow> cel_vars" where
  "request_variables from_str c p body =
     (let hs = cel_headers (headers p);
          v1 = add_variable ''headers'' hs [];
          v2 = add_variable ''request'' (CMap [(''method'', CString (http_method p)), (''uri'', CString (uri p)),
                 (''path'', CString (uri_path p)), (''headers'', hs)]) v1;
          v3 = add_variable ''operation_name'' (cel_str_opt (ctx_operation_name c)) v2;
          v4 = add_variable ''raw_body'' (CString body) (body_variables from_str c body v3);
          cl = claims_value (ctx_claims c)
      in add_variable ''auth'' cl (add_variable ''claims'' cl v4))"

definition cel_verdict :: "(cel_value \<Rightarrow> string) \<Rightarrow> 'p cel_rule \<Rightarrow> cel_value result \<Rightarrow> verdict" where
  "cel_verdict debug_val r res =
     (case cel_mode r of
        RejectAction \<Rightarrow>
          (case res of
             Inr (CBool True) \<Rightarrow> Pass
           | Inr (CBool False) \<Rightarrow> Reject (rejection_new (cel_status r) (cel_code r) (cel_message r))
           | Inr other \<Rightarrow> Reject (rejection_new (cel_status r) (cel_code r)
                            (''CEL expression returned non-boolean: '' @ debug_val other))
           | Inl e \<Rightarrow> Reject (rejection_new (cel_status r) (cel_code r) (''CEL evaluation error: '' @ e)))
      | AuditAction \<Rightarrow>
          (case res of
             Inr (CBool True) \<Rightarrow> Audit (cel_name r) (cel_tag r) (cel_message r)
           | _ \<Rightarrow> Pass))"

definition cel_intercept_request ::
  "'p cel_engine \<Rightarrow> (cel_value \<Rightarrow> string) \<Rightarrow> (string \<Rightarrow> json result) \<Rightarrow> 'p cel_rule \<Rightarrow> 'w request_interceptor" where
  "cel_intercept_request execute debug_val from_str r w c p body =
     (cel_verdict debug_val r (execute (cel_program r) (request_variables from_str c p body)), w, c, p)"

section \<open>Responses\<close>

definition response_variables ::
  "(string \<Rightarrow> json result) \<Rightarrow> (uuid \<Rightarrow> string) \<Rightarrow> interceptor_context \<Rightarrow> http_response_parts \<Rightarrow> string \<Rightarrow> cel_vars" where
  "response_variables from_str show_uuid c p body =
     (let v1 = add_variable ''status'' (CUInt (resp_status p)) [];
          v2 = add_variable ''duration_ms'' (CUInt (ctx_duration_ms c)) v1;
          v3 = add_variable ''request_id'' (CString (show_uuid (ctx_request_id c))) v2;
          v4 = add_variable ''operation_name'' (cel_str_opt (ctx_operation_name c)) v3;
          v5 = add_variable ''headers'' (cel_headers (resp_headers p)) v4
      in case from_utf8 body of
           None \<Rightarrow> v5
         | Some s \<Rightarrow>
             (let v6 = add_variable ''raw_body'' (CString s) (add_variable ''body'' (CString s) v5)
              in case from_str s of
                   Inr j \<Rightarrow> add_variable ''response'' (json_to_cel j) (add_json_fields j v6)
                 | Inl _ \<Rightarrow> add_variable ''response'' (CString s) v6))"

definition cel_intercept_response ::
  "'p cel_engine \<Rightarrow> (cel_value \<Rightarrow> string) \<Rightarrow> (string \<Rightarrow> json result) \<Rightarrow> (uuid \<Rightarrow> string) \<Rightarrow> 'p cel_rule
     \<Rightarrow> 'w response_interceptor" where
  "cel_intercept_response execute debug_val from_str show_uuid r w c p body =
     (cel_verdict debug_val r (execute (cel_program r) (response_variables from_str show_uuid c p body)), w, p)"

interpretation cel: request_port "cel_intercept_request execute debug_val from_str r"
  for execute debug_val from_str r
  by unfold_locales (simp add: cel_intercept_request_def)

section \<open>Properties\<close>

lemma map_of_add_variable [simp]: "map_of (add_variable k v vs) j = (if j = k then Some v else map_of vs j)"
  by (simp add: add_variable_def)

lemma body_variables_other:
  "k \<notin> {''variables'', ''query'', ''body''} \<Longrightarrow> map_of (body_variables from_str c body vs) k = map_of vs k"
  by (simp add: body_variables_def Let_def split: option.splits)

text \<open>The CEL request interceptor: in reject mode a request passes exactly when the expression
  evaluates to true (a false, a non-boolean and an error all reject), in audit mode none is
  rejected; and what the expression sees under \<open>claims\<close>, \<open>auth\<close>, \<open>headers\<close>, \<open>request\<close>, \<open>raw_body\<close> and
  \<open>operation_name\<close> comes from the verified context and the request head, whatever JSON the
  client sends.\<close>

theorem cel_request_policy:
  "(cel_mode r = RejectAction \<longrightarrow>
      (fst (cel_intercept_request execute debug_val from_str r w c p body) = Pass \<longleftrightarrow>
       execute (cel_program r) (request_variables from_str c p body) = Inr (CBool True)))
   \<and> (cel_mode r = AuditAction \<longrightarrow> \<not> is_reject (fst (cel_intercept_request execute debug_val from_str r w c p body)))
   \<and> map_of (request_variables from_str c p body) ''claims'' = Some (claims_value (ctx_claims c))
   \<and> map_of (request_variables from_str c p body) ''auth'' = Some (claims_value (ctx_claims c))
   \<and> map_of (request_variables from_str c p body) ''headers'' = Some (cel_headers (headers p))
   \<and> map_of (request_variables from_str c p body) ''operation_name'' = Some (cel_str_opt (ctx_operation_name c))
   \<and> map_of (request_variables from_str c p body) ''raw_body'' = Some (CString body)"
proof (intro conjI)
  show "cel_mode r = RejectAction \<longrightarrow>
      (fst (cel_intercept_request execute debug_val from_str r w c p body) = Pass \<longleftrightarrow>
       execute (cel_program r) (request_variables from_str c p body) = Inr (CBool True))"
    by (auto simp: cel_intercept_request_def cel_verdict_def split: sum.splits cel_value.splits bool.splits)
  show "cel_mode r = AuditAction \<longrightarrow> \<not> is_reject (fst (cel_intercept_request execute debug_val from_str r w c p body))"
    by (auto simp: cel_intercept_request_def cel_verdict_def split: sum.splits cel_value.splits bool.splits)
qed (simp_all add: request_variables_def body_variables_other Let_def)

theorem cel_request_policy_witness:
  "fst (cel_intercept_request (\<lambda>_ _. Inr (CInt 1)) (\<lambda>_. []) (\<lambda>_. Inl [])
      \<lparr>cel_name = ''r'', cel_program = (), cel_status = 403, cel_code = ''X'', cel_message = ''m'',
       cel_mode = RejectAction, cel_tag = None\<rparr> ()
      (context_new 0 \<lparr>physical = 0, logical = 0\<rparr>) sample_parts ''b'') \<noteq> Pass"
  using cel_request_policy [of "\<lparr>cel_name = ''r'', cel_program = (), cel_status = 403, cel_code = ''X'',
       cel_message = ''m'', cel_mode = RejectAction, cel_tag = None\<rparr>" "\<lambda>_ _. Inr (CInt 1)" "\<lambda>_. []" "\<lambda>_. Inl []" "()"
       "context_new 0 \<lparr>physical = 0, logical = 0\<rparr>" sample_parts "''b''"]
  by simp

text \<open>On the response side the top-level keys of the upstream's JSON are added after \<open>status\<close> and
  \<open>headers\<close> and replace them.\<close>

lemma response_json_shadows_status:
  assumes "from_str ''j'' = Inr (JObject [(''status'', JNumber (PosInt 200))])"
  shows "map_of (response_variables from_str show_uuid c (p\<lparr>resp_status := 500\<rparr>) ''j'') ''status'' = Some (CInt 200)"
proof -
  have "from_utf8 ''j'' = Some ''j''" by code_simp
  with assms show ?thesis by (simp add: response_variables_def add_json_fields_def Let_def)
qed

end
