(* ===== verification/Config.thy ===== *)
theory Config
  imports Prelude
begin

text \<open>
  \<open>core/types.rs\<close>, \<open>core/config.rs\<close> and \<open>core/config_store.rs\<close>: the execution strategies and
  dispatch policies, the configuration records with the defaults serde fills in, the
  resolution of applications and upstreams, and the persistent configuration store.

  The environment is an argument \<open>env\<close> (\<open>std::env::var\<close>), the resolver an argument
  \<open>resolve\<close> (\<open>ToSocketAddrs\<close>).  Hash maps whose iteration the code walks are association
  lists in the order of that iteration.  The interface \<open>config_store\<close> is the trait of the same
  name; it is interpreted on the memory and the file back end.
\<close>

section \<open>Strategies and policies\<close>

datatype execution_strategy = SyncUpstreamExecution | AsyncCommandReceipt

definition sync_names :: "string list" where
  "sync_names = [''sync'', ''SYNC'', ''sync_upstream_execution'', ''SYNC_UPSTREAM_EXECUTION'',
     ''synchronous'', ''proxy'', ''upstream'', ''UPSTREAM'', ''SyncUpstreamExecution'', ''A'', ''a'']"

definition async_names :: "string list" where
  "async_names = [''async'', ''ASYNC'', ''AsyncCommandReceipt'', ''async_command_receipt'',
     ''ASYNC_COMMAND_RECEIPT'', ''async_edge_command'', ''ASYNC_EDGE_COMMAND'', ''asynchronous'',
     ''receipt'', ''queue'', ''QUEUE'', ''B'', ''b'']"

text \<open>Deserialisation: \<open>None\<close> is serde's unknown-variant error.\<close>

definition parse_strategy :: "string \<Rightarrow> execution_strategy option" where
  "parse_strategy s =
     (if s \<in> set sync_names then Some SyncUpstreamExecution
      else if s \<in> set async_names then Some AsyncCommandReceipt else None)"

definition is_async_edge_command :: "execution_strategy \<Rightarrow> bool" where
  "is_async_edge_command m = (m = AsyncCommandReceipt)"

definition is_sync_upstream_execution :: "execution_strategy \<Rightarrow> bool" where
  "is_sync_upstream_execution m = (m = SyncUpstreamExecution)"

fun display_name :: "execution_strategy \<Rightarrow> string" where
  "display_name SyncUpstreamExecution = ''Sync''"
| "display_name AsyncCommandReceipt = ''Async''"

datatype dispatch_policy = ResponseWithFailure | ResponseOnly | RawAudit | NoDispatch

fun policy_as_str :: "dispatch_policy \<Rightarrow> string" where
  "policy_as_str ResponseWithFailure = ''response_with_failure''"
| "policy_as_str ResponseOnly = ''response_only''"
| "policy_as_str RawAudit = ''raw_audit''"
| "policy_as_str NoDispatch = ''none''"

datatype operation_outcome = Success | Failed | Rejected

section \<open>Configuration records and their defaults\<close>

record mode_a_config =
  ma_enabled :: bool
  ma_dispatch_policy :: dispatch_policy
  ma_timeout_ms :: nat

definition default_mode_a :: mode_a_config where
  "default_mode_a = \<lparr>ma_enabled = True, ma_dispatch_policy = ResponseWithFailure, ma_timeout_ms = 3000\<rparr>"

record route_config =
  r_operation :: string
  r_mode :: execution_strategy
  route_enabled :: bool
  route_upstream :: "string option"
  receipt_status :: string
  route_interceptors :: "string list"
  route_dispatch_policy :: "dispatch_policy option"

text \<open>A \<open>[[routes]]\<close> entry that gives only \<open>operation\<close>.\<close>

definition route_of_operation :: "string \<Rightarrow> route_config" where
  "route_of_operation op = \<lparr>r_operation = op, r_mode = SyncUpstreamExecution, route_enabled = True,
     route_upstream = None, receipt_status = ''ACCEPTED'', route_interceptors = [],
     route_dispatch_policy = None\<rparr>"

record wasm_config =
  strict_aot :: bool
  allow_jit :: bool
  epoch_tick_interval_ms :: nat
  default_timeout_ms :: nat

definition default_wasm :: wasm_config where
  "default_wasm = \<lparr>strict_aot = True, allow_jit = False, epoch_tick_interval_ms = 1,
     default_timeout_ms = 25\<rparr>"

record upstream_config =
  up_name :: string
  up_description :: "string option"
  up_addr :: string

record subscriptions_config =
  sub_enabled :: bool
  topic_prefix :: string
  keepalive_secs :: nat
  client_buffer_capacity :: nat

definition default_subscriptions :: subscriptions_config where
  "default_subscriptions = \<lparr>sub_enabled = True, topic_prefix = ''spectra'', keepalive_secs = 25,
     client_buffer_capacity = 256\<rparr>"

datatype idempotency_backend_type = MemoryBackend | RedisBackend

record idempotency_config =
  idem_backend :: idempotency_backend_type
  idem_addr :: "string option"
  ttl_secs :: nat
  max_capacity :: nat

definition default_idempotency :: idempotency_config where
  "default_idempotency = \<lparr>idem_backend = MemoryBackend, idem_addr = None, ttl_secs = 300,
     max_capacity = 10000\<rparr>"

record error_capture_config =
  capture_enabled :: bool
  max_body_bytes :: nat

definition default_error_capture :: error_capture_config where
  "default_error_capture = \<lparr>capture_enabled = True, max_body_bytes = 4096\<rparr>"

record dns_config =
  dns_enabled :: bool
  interval_secs :: nat

definition default_dns :: dns_config where
  "default_dns = \<lparr>dns_enabled = True, interval_secs = 15\<rparr>"

record dispatch_config =
  disp_name :: string
  disp_description :: "string option"
  disp_method :: string
  disp_addr :: string
  reconnect_profile :: "string option"
  reconnect_initial_ms :: "nat option"
  reconnect_max_ms :: "nat option"

text \<open>\<open>interactive\<close> is \<open>is_interactive\<close>: a terminal on standard input or output.\<close>

definition initial_reconnect_ms :: "bool \<Rightarrow> dispatch_config \<Rightarrow> nat" where
  "initial_reconnect_ms interactive d =
     (case reconnect_initial_ms d of
        Some ms \<Rightarrow> ms
      | None \<Rightarrow>
          if reconnect_profile d \<in> {Some ''dev'', Some ''development''} then 250
          else if reconnect_profile d \<in> {Some ''prod'', Some ''production''} then 10
          else if interactive then 250 else 10)"

definition max_reconnect_ms :: "bool \<Rightarrow> dispatch_config \<Rightarrow> nat" where
  "max_reconnect_ms interactive d =
     (case reconnect_max_ms d of
        Some ms \<Rightarrow> ms
      | None \<Rightarrow>
          if reconnect_profile d \<in> {Some ''dev'', Some ''development''} then 5000
          else if reconnect_profile d \<in> {Some ''prod'', Some ''production''} then 2000
          else if interactive then 5000 else 2000)"

record admin_config =
  admin_enabled :: bool
  admin_bind_addr :: string
  path_prefix :: string
  allowed_ips :: "string list"
  enable_ui :: bool
  deploy_token :: "string option"

definition default_admin :: admin_config where
  "default_admin = \<lparr>admin_enabled = False, admin_bind_addr = ''0.0.0.0:8000'',
     path_prefix = ''/admin'',
     allowed_ips = [''127.0.0.1'', ''::1'', ''10.0.0.0/8'', ''172.16.0.0/12'', ''192.168.0.0/16''],
     enable_ui = True, deploy_token = None\<rparr>"

record app_config =
  app_id :: string
  app_name :: string
  domains :: "string list"
  path_prefixes :: "string list"
  app_upstream :: string
  subject_prefix :: "string option"

definition effective_subject_prefix :: "app_config \<Rightarrow> string" where
  "effective_subject_prefix a = unwrap_or (subject_prefix a) (''mutation.'' @ app_id a)"

record store_config =
  store_backend :: string
  database_url :: "string option"
  redis_url :: "string option"
  file_path :: "string option"
  table_name :: string
  store_key :: string

definition default_store :: store_config where
  "default_store = \<lparr>store_backend = ''memory'', database_url = None, redis_url = None,
     file_path = None, table_name = ''spectragql_config'', store_key = ''active''\<rparr>"

text \<open>The interceptor declarations of \<open>[interceptors.<name>]\<close>.\<close>

datatype interceptor_stage = RequestStage | ResponseStage

datatype interceptor_type = CelType | WasmType | NativeType | RbacType | AuthType

datatype fail_mode = FailClosed | FailOpen

record interceptor_config =
  ic_type :: interceptor_type
  ic_stage :: interceptor_stage
  ic_expression :: "string option"
  ic_status_code :: "nat option"
  ic_code :: "string option"
  ic_message :: "string option"
  ic_action :: "string option"
  ic_tag :: "string option"
  ic_path :: "string option"
  ic_timeout_ms :: "nat option"
  ic_fail_mode :: "fail_mode option"
  ic_failure_threshold :: "nat option"
  ic_cooloff_duration_secs :: "nat option"
  ic_kind :: "string option"
  ic_token :: "string option"
  ic_provider :: "string option"
  ic_jwks_url :: "string option"
  ic_secret :: "string option"
  ic_mutations_default :: "string option"
  ic_queries_default :: "string option"
  ic_unauthenticated_ops :: "string list option"
  ic_roles :: "(string \<times> string list) list option"
  ic_subject_path :: "string option"
  ic_tenant_path :: "string option"
  ic_roles_path :: "string option"
  ic_permissions_path :: "string option"

record gql_config =
  gql_paths :: string
  ops_to_dispatch :: string
  gql_upstream_cfg :: "upstream_config option"
  gql_dispatch_cfg :: "dispatch_config option"
  gql_mode_a :: mode_a_config
  gql_routes :: "(string \<times> route_config) list"
  gql_interceptors :: "string list"

record rest_config =
  rest_paths :: string
  rest_upstream_cfg :: "upstream_config option"
  rest_dispatch_cfg :: "dispatch_config option"

record spectra_config =
  cfg_bind_addr :: string
  cfg_gql :: gql_config
  cfg_rest :: rest_config
  cfg_upstream :: upstream_config
  cfg_upstreams :: "(string \<times> upstream_config) list"
  cfg_apps :: "app_config list"
  cfg_default_app :: "string option"
  cfg_dispatch :: dispatch_config
  cfg_idempotency :: idempotency_config
  cfg_subscriptions :: subscriptions_config
  cfg_admin :: admin_config
  cfg_interceptors :: "(string \<times> interceptor_config) list"
  cfg_wasm :: wasm_config
  cfg_error_capture :: error_capture_config
  config_store_cfg :: store_config
  cfg_dns :: dns_config

section \<open>Accessors\<close>

definition gql_upstream :: "spectra_config \<Rightarrow> upstream_config" where
  "gql_upstream c = unwrap_or (gql_upstream_cfg (cfg_gql c)) (cfg_upstream c)"

definition gql_dispatch :: "spectra_config \<Rightarrow> dispatch_config" where
  "gql_dispatch c = unwrap_or (gql_dispatch_cfg (cfg_gql c)) (cfg_dispatch c)"

definition rest_upstream :: "spectra_config \<Rightarrow> upstream_config" where
  "rest_upstream c = unwrap_or (rest_upstream_cfg (cfg_rest c)) (cfg_upstream c)"

definition rest_dispatch :: "spectra_config \<Rightarrow> dispatch_config" where
  "rest_dispatch c = unwrap_or (rest_dispatch_cfg (cfg_rest c)) (cfg_dispatch c)"

section \<open>Upstream resolution\<close>

type_synonym socket_addr = string

definition first_addr :: "(string \<Rightarrow> socket_addr list result) \<Rightarrow> string \<Rightarrow> string \<Rightarrow> socket_addr result" where
  "first_addr resolve msg addr =
     (case resolve addr of
        Inl e \<Rightarrow> Inl e
      | Inr [] \<Rightarrow> Inl (msg @ addr)
      | Inr (a # _) \<Rightarrow> Inr a)"

type_synonym upstream_tables = "(string \<rightharpoonup> socket_addr) \<times> (string \<rightharpoonup> string)"

text \<open>Both tables receive the address under the key and, unless it is empty or
  \<open>default\<close>, under the upstream's own name.\<close>

definition insert_upstream ::
  "string \<Rightarrow> upstream_config \<Rightarrow> socket_addr \<Rightarrow> upstream_tables \<Rightarrow> upstream_tables" where
  "insert_upstream key cfg a t =
     (let (m, tg) = t;
          m1 = m(key \<mapsto> a); t1 = tg(key \<mapsto> up_addr cfg)
      in if up_name cfg \<noteq> [] \<and> up_name cfg \<noteq> ''default''
         then (m1(up_name cfg \<mapsto> a), t1(up_name cfg \<mapsto> up_addr cfg))
         else (m1, t1))"

fun resolve_named ::
  "(string \<Rightarrow> socket_addr list result) \<Rightarrow> (string \<times> upstream_config) list \<Rightarrow> upstream_tables
     \<Rightarrow> upstream_tables result" where
  "resolve_named resolve [] t = Inr t"
| "resolve_named resolve ((key, cfg) # cs) t =
     (case first_addr resolve (''Could not resolve upstream '' @ key @ '': '') (up_addr cfg) of
        Inl e \<Rightarrow> Inl e
      | Inr a \<Rightarrow> resolve_named resolve cs (insert_upstream key cfg a t))"

definition resolve_all_upstreams_with_targets ::
  "(string \<Rightarrow> socket_addr list result) \<Rightarrow> spectra_config \<Rightarrow> upstream_tables result" where
  "resolve_all_upstreams_with_targets resolve c =
     (case first_addr resolve ''Could not resolve default upstream: '' (up_addr (gql_upstream c)) of
        Inl e \<Rightarrow> Inl e
      | Inr a \<Rightarrow> resolve_named resolve (cfg_upstreams c)
                  (insert_upstream ''default'' (gql_upstream c) a (Map.empty, Map.empty)))"

definition resolve_upstream_addr ::
  "(string \<rightharpoonup> socket_addr) \<Rightarrow> socket_addr \<Rightarrow> string option \<Rightarrow> socket_addr" where
  "resolve_upstream_addr named default_addr upstream_name =
     unwrap_or (Option.bind upstream_name named) default_addr"

section \<open>Application resolution\<close>

definition clean_host :: "string \<Rightarrow> string" where
  "clean_host h = trim (hd (split_on CHR '':'' h))"

definition find_app_by_host :: "app_config list \<Rightarrow> string \<Rightarrow> app_config option" where
  "find_app_by_host as host =
     List.find (\<lambda>a. list_ex (\<lambda>d. eq_ignore_ascii_case (clean_host d) (clean_host host)) (domains a)) as"

definition find_app_by_id :: "app_config list \<Rightarrow> string \<Rightarrow> app_config option" where
  "find_app_by_id as i = List.find (\<lambda>a. eq_ignore_ascii_case (app_id a) i) as"

definition path_matches :: "string \<Rightarrow> string \<Rightarrow> bool" where
  "path_matches path pfx =
     (let p = trim_end (\<lambda>c. c = CHR ''/'') pfx
      in path = p \<or> starts_with path (p @ ''/''))"

definition find_app_by_path :: "app_config list \<Rightarrow> string \<Rightarrow> app_config option" where
  "find_app_by_path as path = List.find (\<lambda>a. list_ex (path_matches path) (path_prefixes a)) as"

definition resolve_app ::
  "spectra_config \<Rightarrow> string option \<Rightarrow> string option \<Rightarrow> string \<Rightarrow> app_config option" where
  "resolve_app c host header_app path =
     (case Option.bind header_app (find_app_by_id (cfg_apps c)) of
        Some a \<Rightarrow> Some a
      | None \<Rightarrow>
     (case Option.bind host (find_app_by_host (cfg_apps c)) of
        Some a \<Rightarrow> Some a
      | None \<Rightarrow>
     (case find_app_by_path (cfg_apps c) path of
        Some a \<Rightarrow> Some a
      | None \<Rightarrow>
     (case Option.bind (cfg_default_app c) (find_app_by_id (cfg_apps c)) of
        Some a \<Rightarrow> Some a
      | None \<Rightarrow> (case cfg_apps c of [] \<Rightarrow> None | a # _ \<Rightarrow> Some a)))))"

section \<open>Persistent configuration store\<close>

text \<open>\<open>sanitize_url\<close>, for logs.\<close>

definition sanitize_url :: "string \<Rightarrow> string" where
  "sanitize_url raw =
     (case find_str ''@'' raw of
        None \<Rightarrow> raw
      | Some at_idx \<Rightarrow>
          (case find_str ''://'' raw of
             None \<Rightarrow> raw
           | Some proto_idx \<Rightarrow> take (proto_idx + 3) raw @ ''*****'' @ drop at_idx raw))"

text \<open>The memory back end keeps the text.\<close>

definition memory_load :: "string option \<Rightarrow> string option result" where
  "memory_load s = Inr s"

definition memory_save :: "string option \<Rightarrow> string \<Rightarrow> unit result \<times> string option" where
  "memory_save s content = (Inr (), Some content)"

text \<open>
  The file back end.  A path is its parent directory and its last component.  The files of the
  system are a map; what the operating system answers is an argument: whether each call
  succeeds, and what a failed \<open>fs::write\<close> leaves of the text in the file it opened.
\<close>

type_synonym path_buf = "string \<times> string"
type_synonym files = "path_buf \<rightharpoonup> string"

record io_env =
  can_read :: bool
  can_create_dir :: bool
  can_write :: bool
  can_rename :: bool
  torn_write :: "string \<Rightarrow> string option"

definition file_stem :: "string \<Rightarrow> string" where
  "file_stem n =
     (let ext = takeWhile (\<lambda>c. c \<noteq> CHR ''.'') (rev n);
          stem = rev (drop (length ext + 1) (rev n))
      in if CHR ''.'' \<notin> set n \<or> stem = [] then n else stem)"

definition with_extension :: "string \<Rightarrow> path_buf \<Rightarrow> path_buf" where
  "with_extension ext p = (fst p, file_stem (snd p) @ ''.'' @ ext)"

definition path_display :: "path_buf \<Rightarrow> string" where
  "path_display p =
     (if fst p = [] then snd p
      else if ends_with (fst p) ''/'' then fst p @ snd p else fst p @ ''/'' @ snd p)"

definition file_load :: "io_env \<Rightarrow> path_buf \<Rightarrow> files \<Rightarrow> string option result" where
  "file_load io p fs =
     (case fs p of
        None \<Rightarrow> Inr None
      | Some content \<Rightarrow>
          if can_read io then Inr (Some content)
          else Inl (''Failed to read config file from '' @ quoted (path_display p)))"

definition file_save :: "io_env \<Rightarrow> path_buf \<Rightarrow> files \<Rightarrow> string \<Rightarrow> unit result \<times> files" where
  "file_save io p fs content =
     (let tmp_path = with_extension ''tmp'' p
      in if fst p \<noteq> [] \<and> \<not> can_create_dir io
           then (Inl (''Failed to create parent directory '' @ quoted (fst p)), fs)
         else if \<not> can_write io
           then (Inl (''Failed to write temporary config to '' @ quoted (path_display tmp_path)),
                 fs(tmp_path := torn_write io content))
         else let fs1 = fs(tmp_path \<mapsto> content)
              in if \<not> can_rename io then (Inl (''Failed to replace config file at '' @ quoted (path_display p)), fs1)
                 else (Inr (), (fs1(tmp_path := None))(p \<mapsto> content)))"

text \<open>\<open>ConfigStoreFactory::create\<close>, up to the connection of the remote back ends.\<close>

datatype store_choice =
    MemoryStore
  | FileStore string
  | RedisStore string string
  | PostgresStore string string string

fun first_env :: "(string \<Rightarrow> string option) \<Rightarrow> string list \<Rightarrow> string option" where
  "first_env env [] = None"
| "first_env env (k # ks) = or_else (env k) (first_env env ks)"

definition create_store ::
  "bool \<Rightarrow> (string \<Rightarrow> string option) \<Rightarrow> store_config \<Rightarrow> store_choice result" where
  "create_store postgres_feature env c =
     (let backend = to_lowercase (unwrap_or
            (first_env env [''SPECTRA_CONFIG_STORE_BACKEND'', ''SPECTRAGQL_CONFIG_STORE_BACKEND''])
            (store_backend c))
      in if backend = ''memory'' then Inr MemoryStore
         else if backend = ''file'' then
           Inr (FileStore (unwrap_or
             (or_else (first_env env [''SPECTRA_CONFIG_FILE'', ''SPECTRAGQL_CONFIG_FILE'',
                                      ''SPECTRA_CONFIG'', ''SPECTRAGQL_CONFIG''])
                      (file_path c)) ''spectra.toml''))
         else if backend = ''redis'' then
           (case or_else (first_env env [''SPECTRA_REDIS_URL'', ''SPECTRAGQL_REDIS_URL'', ''REDIS_URL''])
                         (redis_url c) of
              None \<Rightarrow> Inl ''Config store backend is 'redis', but no URL is configured''
            | Some url \<Rightarrow> Inr (RedisStore url (store_key c)))
         else if backend \<in> {''postgres'', ''postgresql'', ''rdbms''} then
           (if postgres_feature then
              (case or_else (first_env env [''SPECTRA_DATABASE_URL'', ''SPECTRAGQL_DATABASE_URL'',
                                            ''DATABASE_URL'']) (database_url c) of
                 None \<Rightarrow> Inl ''Config store backend is 'postgres', but no URL is configured''
               | Some url \<Rightarrow> Inr (PostgresStore url (table_name c) (store_key c)))
            else Inl ''compiled without the 'postgres' feature'')
         else Inl (''Unknown config store backend '' @ quoted backend))"

section \<open>The contract of a store\<close>

text \<open>The trait \<open>ConfigStore\<close>: a save that succeeds is what every later load returns, and a
  save that fails leaves the stored text as it was.\<close>

locale config_store =
  fixes load :: "'s \<Rightarrow> string option result"
    and save :: "'e \<Rightarrow> 's \<Rightarrow> string \<Rightarrow> unit result \<times> 's"
  assumes load_saved: "save e s c = (Inr (), s') \<Longrightarrow> load s' = Inr (Some c)"
    and load_unsaved: "save e s c = (Inl err, s') \<Longrightarrow> load s' = load s"
begin

fun save_all :: "'s \<Rightarrow> ('e \<times> string) list \<Rightarrow> 's" where
  "save_all s [] = s"
| "save_all s ((e, c) # cs) = save_all (snd (save e s c)) cs"

fun last_saved :: "'s \<Rightarrow> ('e \<times> string) list \<Rightarrow> string option \<Rightarrow> string option" where
  "last_saved s [] l = l"
| "last_saved s ((e, c) # cs) l =
     last_saved (snd (save e s c)) cs (if fst (save e s c) = Inr () then Some c else l)"

lemma load_save_all: "load s = Inr l \<Longrightarrow> load (save_all s cs) = Inr (last_saved s cs l)"
proof (induction cs arbitrary: s l)
  case (Cons x cs)
  obtain e c where x: "x = (e, c)" by fastforce
  obtain r s' where sv: "save e s c = (r, s')" by fastforce
  show ?case
  proof (cases r)
    case (Inl err)
    with sv load_unsaved Cons.prems have "load s' = Inr l" by metis
    with Cons.IH [of s' l] sv Inl x show ?thesis by simp
  next
    case (Inr u)
    with sv load_saved have "load s' = Inr (Some c)" by (metis old.unit.exhaust)
    with Cons.IH [of s' "Some c"] sv Inr x show ?thesis by simp
  qed
qed simp

end

interpretation memory_store: config_store memory_load "\<lambda>_ :: unit. memory_save"
  by unfold_locales (auto simp: memory_load_def memory_save_def)

lemma file_save_load:
  assumes "with_extension ''tmp'' p \<noteq> p"
  shows "snd (file_save io p fs c) p = (if fst (file_save io p fs c) = Inr () then Some c else fs p)"
  using assms by (auto simp: file_save_def Let_def)

lemma file_stem_ext:
  "CHR ''.'' \<notin> set ext \<Longrightarrow> n \<noteq> [] \<Longrightarrow> file_stem (n @ ''.'' @ ext) = n"
proof -
  assume "CHR ''.'' \<notin> set ext" "n \<noteq> []"
  then have "takeWhile (\<lambda>c. c \<noteq> CHR ''.'') (rev (n @ ''.'' @ ext)) = rev ext"
    by (auto simp: takeWhile_append)
  with \<open>n \<noteq> []\<close> show ?thesis by (simp add: file_stem_def Let_def)
qed

text \<open>A \<open>.toml\<close> path on a readable file system.\<close>

definition toml_load :: "string \<Rightarrow> string \<Rightarrow> files \<Rightarrow> string option result" where
  "toml_load d n = file_load \<lparr>can_read = True, can_create_dir = True, can_write = True,
     can_rename = True, torn_write = Some\<rparr> (d, n @ ''.toml'')"

lemma with_extension_toml: "with_extension ''tmp'' (d, n @ ''.toml'') \<noteq> (d, n @ ''.toml'')"
proof (cases "n = []")
  case True
  then show ?thesis by (simp add: with_extension_def file_stem_def)
next
  case False
  with file_stem_ext [of "''toml''" n] show ?thesis by (simp add: with_extension_def)
qed

definition toml_save :: "string \<Rightarrow> string \<Rightarrow> io_env \<Rightarrow> files \<Rightarrow> string \<Rightarrow> unit result \<times> files" where
  "toml_save d n io = file_save io (d, n @ ''.toml'')"

interpretation toml_file: config_store "toml_load d n" "toml_save d n" for d n
proof
  note at_path = file_save_load [OF with_extension_toml [of d n]]
  show "toml_save d n io s c = (Inr (), s') \<Longrightarrow> toml_load d n s' = Inr (Some c)" for io s c s'
    using at_path [of io s c] by (simp add: toml_load_def toml_save_def file_load_def)
  show "toml_save d n io s c = (Inl e, s') \<Longrightarrow> toml_load d n s' = toml_load d n s" for io s c s' e
    using at_path [of io s c] by (simp add: toml_load_def toml_save_def file_load_def)
qed

section \<open>Properties\<close>

definition tables_ok :: "(string \<Rightarrow> socket_addr list result) \<Rightarrow> upstream_tables \<Rightarrow> bool" where
  "tables_ok resolve t =
     (\<forall>k. rel_option (\<lambda>a ad. \<exists>as. resolve ad = Inr (a # as)) (fst t k) (snd t k))"

definition upstream_keys :: "string \<times> upstream_config \<Rightarrow> string set" where
  "upstream_keys kc =
     {fst kc} \<union> (if up_name (snd kc) \<notin> {[], ''default''} then {up_name (snd kc)} else {})"

lemma first_addr_Inr: "first_addr resolve msg ad = Inr a \<longleftrightarrow> (\<exists>as. resolve ad = Inr (a # as))"
  by (auto simp: first_addr_def split: sum.splits list.splits)

lemma insert_upstream_ok:
  "tables_ok resolve t \<Longrightarrow> resolve (up_addr cfg) = Inr (a # as) \<Longrightarrow>
   tables_ok resolve (insert_upstream k cfg a t)"
  by (cases t) (auto simp: tables_ok_def insert_upstream_def Let_def)

lemma insert_upstream_dom:
  "dom (fst (insert_upstream k cfg a t)) = upstream_keys (k, cfg) \<union> dom (fst t)"
  by (cases t) (auto simp: insert_upstream_def upstream_keys_def Let_def)

lemma resolve_named_ok:
  "resolve_named resolve cs t = Inr t' \<Longrightarrow> tables_ok resolve t \<Longrightarrow>
   tables_ok resolve t' \<and> dom (fst t') = (\<Union>kc \<in> set cs. upstream_keys kc) \<union> dom (fst t)"
proof (induction resolve cs t rule: resolve_named.induct)
  case (2 resolve key cfg cs t)
  then obtain a where a: "first_addr resolve (''Could not resolve upstream '' @ key @ '': '') (up_addr cfg) = Inr a"
    and rest: "resolve_named resolve cs (insert_upstream key cfg a t) = Inr t'"
    by (auto split: sum.splits)
  from a obtain as where "resolve (up_addr cfg) = Inr (a # as)" by (auto simp: first_addr_Inr)
  with "2.prems" have "tables_ok resolve (insert_upstream key cfg a t)" by (simp add: insert_upstream_ok)
  from "2.IH" [OF a rest this] show ?case by (auto simp: insert_upstream_dom)
qed simp

text \<open>\<open>resolve_all_upstreams_with_targets\<close>: when it succeeds the address table and the target
  table have the same names, namely \<open>default\<close>, every configured key and every non-trivial
  upstream name, and each name's address is the first one its own target string resolves to.\<close>

theorem resolve_all_upstreams_consistent:
  assumes "resolve_all_upstreams_with_targets resolve c = Inr (addrs, targets)"
  shows "dom addrs = upstream_keys (''default'', gql_upstream c) \<union> (\<Union>kc \<in> set (cfg_upstreams c). upstream_keys kc)
       \<and> dom targets = dom addrs
       \<and> (\<forall>k a ad. addrs k = Some a \<and> targets k = Some ad \<longrightarrow> (\<exists>as. resolve ad = Inr (a # as)))"
proof -
  let ?def = "\<lambda>a. insert_upstream ''default'' (gql_upstream c) a (Map.empty, Map.empty)"
  from assms obtain a where a: "first_addr resolve ''Could not resolve default upstream: '' (up_addr (gql_upstream c)) = Inr a"
    and rest: "resolve_named resolve (cfg_upstreams c) (?def a) = Inr (addrs, targets)"
    by (auto simp: resolve_all_upstreams_with_targets_def split: sum.splits)
  have "tables_ok resolve (Map.empty, Map.empty)" by (simp add: tables_ok_def)
  with a have "tables_ok resolve (?def a)" by (auto simp: first_addr_Inr intro: insert_upstream_ok)
  from resolve_named_ok [OF rest this]
  have ok: "tables_ok resolve (addrs, targets)"
    and d: "dom addrs = (\<Union>kc \<in> set (cfg_upstreams c). upstream_keys kc) \<union> dom (fst (?def a))"
    by auto
  have "(addrs k = None) = (targets k = None)" for k
    using ok unfolding tables_ok_def by (auto dest!: spec [of _ k])
  then have "dom targets = dom addrs" by (auto simp: dom_def)
  moreover have "\<exists>as. resolve ad = Inr (a # as)" if "addrs k = Some a" "targets k = Some ad" for k a ad
    using ok that unfolding tables_ok_def by (auto dest!: spec [of _ k])
  ultimately show ?thesis using d by (auto simp: insert_upstream_dom)
qed

definition sample_config :: spectra_config where
  "sample_config = \<lparr>cfg_bind_addr = ''0.0.0.0:8080'',
     cfg_gql = \<lparr>gql_paths = ''/graphql'', ops_to_dispatch = ''mutation'', gql_upstream_cfg = None,
       gql_dispatch_cfg = None, gql_mode_a = default_mode_a, gql_routes = [], gql_interceptors = []\<rparr>,
     cfg_rest = \<lparr>rest_paths = ''/api'', rest_upstream_cfg = None, rest_dispatch_cfg = None\<rparr>,
     cfg_upstream = \<lparr>up_name = ''main'', up_description = None, up_addr = ''main:80''\<rparr>,
     cfg_upstreams = [(''billing'', \<lparr>up_name = ''default'', up_description = None, up_addr = ''bill:80''\<rparr>)],
     cfg_apps = [\<lparr>app_id = ''shop'', app_name = ''Shop'', domains = [''shop.test''],
       path_prefixes = [''/shop/''], app_upstream = ''billing'', subject_prefix = None\<rparr>],
     cfg_default_app = None,
     cfg_dispatch = \<lparr>disp_name = ''nats'', disp_description = None, disp_method = ''nats'',
       disp_addr = ''nats:4222'', reconnect_profile = None, reconnect_initial_ms = None,
       reconnect_max_ms = None\<rparr>,
     cfg_idempotency = default_idempotency, cfg_subscriptions = default_subscriptions,
     cfg_admin = default_admin, cfg_interceptors = [], cfg_wasm = default_wasm,
     cfg_error_capture = default_error_capture, config_store_cfg = default_store,
     cfg_dns = default_dns\<rparr>"

theorem resolve_all_upstreams_consistent_witness:
  "\<exists>addrs targets. resolve_all_upstreams_with_targets (\<lambda>s. Inr [s @ ''/ip'']) sample_config = Inr (addrs, targets)
     \<and> dom addrs = {''default'', ''main'', ''billing''}"
proof -
  obtain addrs targets where
    r: "resolve_all_upstreams_with_targets (\<lambda>s. Inr [s @ ''/ip'']) sample_config = Inr (addrs, targets)"
    by (simp add: resolve_all_upstreams_with_targets_def sample_config_def first_addr_def
        insert_upstream_def gql_upstream_def)
  from resolve_all_upstreams_consistent [OF r]
  have "dom addrs = {''default'', ''main'', ''billing''}"
    by (auto simp: sample_config_def gql_upstream_def upstream_keys_def)
  with r show ?thesis by blast
qed

text \<open>\<open>FileConfigStore\<close>: over any sequence of saves, each with its own pattern of I/O
  failures and torn temporary files, a load returns exactly the last text whose save
  succeeded, or what was there before if none did.\<close>

theorem file_store_durable:
  assumes "toml_load d n fs = Inr l"
  shows "toml_load d n (toml_file.save_all d n fs saves) = Inr (toml_file.last_saved d n fs saves l)"
  using assms by (rule toml_file.load_save_all)

definition good_io :: io_env where
  "good_io = \<lparr>can_read = True, can_create_dir = True, can_write = True, can_rename = True,
     torn_write = Some\<rparr>"

theorem file_store_durable_witness:
  "toml_load ''/etc'' ''spectra'' (toml_file.save_all ''/etc'' ''spectra'' Map.empty
      [(good_io, ''a=1''), (good_io\<lparr>can_rename := False\<rparr>, ''a=2''),
       (good_io\<lparr>can_write := False, torn_write := (\<lambda>s. Some (take 1 s))\<rparr>, ''a=3'')])
   = Inr (Some ''a=1'')"
proof -
  have "toml_load ''/etc'' ''spectra'' Map.empty = Inr None"
    by (simp add: toml_load_def file_load_def)
  note r = file_store_durable [OF this, of "[(good_io, ''a=1''), (good_io\<lparr>can_rename := False\<rparr>, ''a=2''),
       (good_io\<lparr>can_write := False, torn_write := (\<lambda>s. Some (take 1 s))\<rparr>, ''a=3'')]"]
  show ?thesis unfolding r by (simp add: toml_save_def file_save_def good_io_def Let_def)
qed

lemma starts_with_Cons: "starts_with (c # s) (d # p) \<longleftrightarrow> c = d \<and> starts_with s p"
  by (simp add: starts_with_def)

lemma find_str_fresh:
  "d \<notin> set a \<Longrightarrow> find_str (d # p) (a @ (d # p) @ s) = Some (length a)"
proof (induction a)
  case Nil
  then show ?case by (simp add: starts_with_def)
next
  case (Cons c a)
  then show ?case by (auto simp: starts_with_Cons)
qed

text \<open>\<open>sanitize_url\<close>: of a connection URL whose user information contains no further
  at-sign, the log line keeps the scheme and the host and nothing of the credentials.\<close>

theorem sanitize_url_hides_credentials:
  assumes "CHR '':'' \<notin> set scheme" "CHR ''@'' \<notin> set scheme" "CHR ''@'' \<notin> set cred"
  shows "sanitize_url (scheme @ ''://'' @ cred @ ''@'' @ host) = scheme @ ''://*****@'' @ host"
proof -
  let ?raw = "scheme @ ''://'' @ cred @ ''@'' @ host"
  have "find_str ''@'' ((scheme @ ''://'' @ cred) @ ''@'' @ host) = Some (length (scheme @ ''://'' @ cred))"
    using assms by (intro find_str_fresh) auto
  then have at: "find_str ''@'' ?raw = Some (length scheme + 3 + length cred)"
    by (simp add: eval_nat_numeral)
  have proto: "find_str ''://'' ?raw = Some (length scheme)"
    using find_str_fresh [of "CHR '':''" scheme "''//''" "cred @ ''@'' @ host"] assms by simp
  have "take (length scheme + 3) ?raw = scheme @ ''://''" by simp
  moreover have "drop (length scheme + 3 + length cred) ?raw = ''@'' @ host"
    by (simp add: eval_nat_numeral)
  ultimately show ?thesis using at proto by (simp add: sanitize_url_def)
qed

theorem sanitize_url_hides_credentials_witness:
  "sanitize_url ''redis://u:pw@host:6379'' = ''redis://*****@host:6379''"
  using sanitize_url_hides_credentials [of "''redis''" "''u:pw''" "''host:6379''"] by simp

text \<open>The first at-sign of the URL is the one used: what follows it in a password is kept.\<close>

lemma sanitize_url_leaks_after_at:
  "sanitize_url ''redis://u:p@ss@host'' = ''redis://*****@ss@host''"
  by code_simp

end
