(* ===== verification/Wasm.thy ===== *)
theory Wasm
  imports Interceptors Config
begin

text \<open>
  \<open>interceptors/evaluators/wasm.rs\<close>: the circuit breaker, the registry of plugins, the call into
  a guest through its linear memory, the reading of its verdict and the failure modes.

  Wasmtime is an argument: \<open>compile\<close> turns bytes into a module, \<open>guest\<close> describes an instance of a
  module by its exports and its memory.  Times are milliseconds of the monotonic clock.  The
  text of an error is what \<open>to_string\<close> shows of it, the outermost context.
\<close>

section \<open>Circuit breaker\<close>

record breaker_config =
  failure_threshold :: u32
  cooloff_ms :: nat

definition default_breaker_config :: breaker_config where
  "default_breaker_config = \<lparr>failure_threshold = 5, cooloff_ms = 30000\<rparr>"

datatype circuit_state = Closed | Open | HalfOpen

datatype permission = Allow | Probe | Denied

record breaker =
  br_config :: breaker_config
  br_failures :: u32
  br_state :: circuit_state
  br_tripped_at :: "nat option"

definition breaker_new :: "breaker_config \<Rightarrow> breaker" where
  "breaker_new c = \<lparr>br_config = c, br_failures = 0, br_state = Closed, br_tripped_at = None\<rparr>"

definition can_execute :: "nat \<Rightarrow> breaker \<Rightarrow> permission \<times> breaker" where
  "can_execute now b =
     (case br_state b of
        Closed \<Rightarrow> (Allow, b)
      | Open \<Rightarrow>
          (case br_tripped_at b of
             Some t \<Rightarrow> if cooloff_ms (br_config b) \<le> now - t then (Probe, b\<lparr>br_state := HalfOpen\<rparr>)
                       else (Denied, b)
           | None \<Rightarrow> (Denied, b))
      | HalfOpen \<Rightarrow> (Probe, b))"

definition record_success :: "breaker \<Rightarrow> breaker" where
  "record_success b = b\<lparr>br_failures := 0, br_state := Closed\<rparr>"

definition record_failure :: "nat \<Rightarrow> breaker \<Rightarrow> breaker" where
  "record_failure now b =
     (let failures = br_failures b + 1; b1 = b\<lparr>br_failures := failures\<rparr>
      in if br_state b = HalfOpen \<or> failure_threshold (br_config b) \<le> failures
         then b1\<lparr>br_state := Open, br_tripped_at := Some now\<rparr> else b1)"

definition is_open :: "breaker \<Rightarrow> bool" where
  "is_open b = (br_state b = Open)"

section \<open>Plugins\<close>

record plugin_config =
  pc_timeout_ms :: nat
  pc_max_memory_bytes :: nat
  pc_fail_mode :: fail_mode
  pc_breaker :: breaker_config

definition default_plugin_config :: plugin_config where
  "default_plugin_config = \<lparr>pc_timeout_ms = 10, pc_max_memory_bytes = 16 * 1024 * 1024,
     pc_fail_mode = FailClosed, pc_breaker = default_breaker_config\<rparr>"

record engine_config =
  ec_strict_aot :: bool
  ec_allow_jit :: bool
  ec_tick_ms :: nat

record 'm plugin =
  pl_module :: 'm
  pl_config :: plugin_config
  pl_breaker :: breaker

type_synonym 'm plugins = "string \<rightharpoonup> 'm plugin"

definition register_plugin :: "string \<Rightarrow> 'm \<Rightarrow> plugin_config \<Rightarrow> 'm plugins \<Rightarrow> 'm plugins" where
  "register_plugin name md c ps =
     ps(name \<mapsto> \<lparr>pl_module = md, pl_config = c, pl_breaker = breaker_new (pc_breaker c)\<rparr>)"

definition load_cwasm_file ::
  "(string \<Rightarrow> 'm result) \<Rightarrow> string \<Rightarrow> string \<Rightarrow> plugin_config \<Rightarrow> 'm plugins \<Rightarrow> unit result \<times> 'm plugins" where
  "load_cwasm_file deserialize name path c ps =
     (case deserialize path of
        Inl e \<Rightarrow> (Inl (''Failed to deserialize precompiled .cwasm file from '' @ debug_str path), ps)
      | Inr md \<Rightarrow> (Inr (), register_plugin name md c ps))"

definition load_wasm_bytes ::
  "(string \<Rightarrow> 'm result) \<Rightarrow> engine_config \<Rightarrow> string \<Rightarrow> string \<Rightarrow> plugin_config \<Rightarrow> 'm plugins
     \<Rightarrow> unit result \<times> 'm plugins" where
  "load_wasm_bytes compile ec name bytes c ps =
     (if ec_strict_aot ec \<and> \<not> ec_allow_jit ec
      then (Inl (''Uncompiled WebAssembly binary provided for plugin '' @ quoted name
        @ ''. In production mode (strict_aot = true), precompiled AOT artifacts (.cwasm) are required to ''
        @ ''eliminate JIT compilation latency. Precompile using '' @ quoted ''evaluator.precompile(&bytes)''
        @ '' or configure '' @ quoted ''allow_jit = true'' @ '' for local development.''), ps)
      else case compile bytes of
        Inl e \<Rightarrow> (Inl (''Failed to compile WASM module for plugin '' @ quoted name), ps)
      | Inr md \<Rightarrow> (Inr (), register_plugin name md c ps))"

definition load_wat ::
  "(string \<Rightarrow> string result) \<Rightarrow> (string \<Rightarrow> 'm result) \<Rightarrow> engine_config \<Rightarrow> string \<Rightarrow> string \<Rightarrow> plugin_config
     \<Rightarrow> 'm plugins \<Rightarrow> unit result \<times> 'm plugins" where
  "load_wat parse_str compile ec name wat c ps =
     (case with_context ''Failed to parse WebAssembly text format (WAT)'' (parse_str wat) of
        Inl e \<Rightarrow> (Inl e, ps)
      | Inr bytes \<Rightarrow> load_wasm_bytes compile ec name bytes c ps)"

definition is_circuit_open :: "'m plugins \<Rightarrow> string \<Rightarrow> bool" where
  "is_circuit_open ps name = (case ps name of Some p \<Rightarrow> is_open (pl_breaker p) | None \<Rightarrow> False)"

section \<open>Calling a guest\<close>

text \<open>An instance: \<open>'g\<close> is the state of its memory.\<close>

record 'g guest =
  g_instantiate :: "nat \<Rightarrow> nat \<Rightarrow> 'g result"      \<comment> \<open>memory limit, deadline in ticks\<close>
  g_memory :: bool
  g_export :: "string \<Rightarrow> bool"
  g_alloc :: "'g \<Rightarrow> u32 \<Rightarrow> u32 result \<times> 'g"
  g_dealloc :: "'g \<Rightarrow> u32 \<Rightarrow> u32 \<Rightarrow> 'g"
  g_handler :: "string \<Rightarrow> 'g \<Rightarrow> u32 \<Rightarrow> u32 \<Rightarrow> u64 result \<times> 'g"
  g_write :: "'g \<Rightarrow> u32 \<Rightarrow> string \<Rightarrow> 'g result"
  g_read :: "'g \<Rightarrow> u32 \<Rightarrow> u32 \<Rightarrow> string result"

definition deadline_ticks :: "nat \<Rightarrow> nat \<Rightarrow> nat" where
  "deadline_ticks timeout_ms tick_ms = max (timeout_ms div max tick_ms 1) 1"

definition unpack_ptr :: "u64 \<Rightarrow> u32" where
  "unpack_ptr r = ucast (drop_bit 32 r)"

definition unpack_len :: "u64 \<Rightarrow> u32" where
  "unpack_len r = ucast (r AND 0xFFFFFFFF)"

definition invoke_guest ::
  "(json \<Rightarrow> string result) \<Rightarrow> (string \<Rightarrow> json result) \<Rightarrow> engine_config \<Rightarrow> plugin_config \<Rightarrow> 'g guest \<Rightarrow> string
     \<Rightarrow> json \<Rightarrow> json result" where
  "invoke_guest to_vec from_slice ec c g export input =
     (case g_instantiate g (pc_max_memory_bytes c) (deadline_ticks (pc_timeout_ms c) (ec_tick_ms ec)) of
        Inl e \<Rightarrow> Inl ''Failed to instantiate WASM plugin module''
      | Inr st \<Rightarrow>
     if \<not> g_memory g then Inl (''WASM plugin does not export '' @ quoted ''memory'')
     else if \<not> g_export g ''spectragql_allocate''
       then Inl (''WASM plugin does not export '' @ quoted ''spectragql_allocate'')
     else if \<not> g_export g ''spectragql_deallocate''
       then Inl (''WASM plugin does not export '' @ quoted ''spectragql_deallocate'')
     else if \<not> g_export g export then Inl (''WASM plugin does not export '' @ quoted export)
     else case to_vec input of
        Inl e \<Rightarrow> Inl e
      | Inr bytes \<Rightarrow>
          let input_len = word_of_nat (length bytes) :: u32
          in case g_alloc g st input_len of
               (Inl e, _) \<Rightarrow> Inl e
             | (Inr input_ptr, st1) \<Rightarrow>
                 (case g_write g st1 input_ptr bytes of
                    Inl e \<Rightarrow> Inl e
                  | Inr st2 \<Rightarrow>
                      (case g_handler g export st2 input_ptr input_len of
                         (Inl e, _) \<Rightarrow> Inl e
                       | (Inr packed, st3) \<Rightarrow>
                           let st4 = g_dealloc g st3 input_ptr input_len;
                               res_ptr = unpack_ptr packed; res_len = unpack_len packed
                           in case g_read g st4 res_ptr res_len of
                                Inl e \<Rightarrow> Inl e
                              | Inr res_bytes \<Rightarrow>
                                  (case from_slice res_bytes of
                                     Inl e \<Rightarrow> Inl ''Failed to parse JSON verdict returned by WASM guest''
                                   | Inr v \<Rightarrow> Inr v))))"

definition verdict_headers :: "(string \<times> json) list \<Rightarrow> header_map" where
  "verdict_headers obj = fold (\<lambda>(k, v) h.
     case (header_name_from_bytes k, header_value_from_str (unwrap_or (as_str v) [])) of
       (Some hn, Some hv) \<Rightarrow> header_insert h hn hv
     | _ \<Rightarrow> h) obj []"

text \<open>\<open>s as u16\<close> keeps the low sixteen bits.\<close>

definition parse_verdict :: "json \<Rightarrow> verdict" where
  "parse_verdict val =
     (let verdict_type = unwrap_or (get_str val ''verdict'') ''pass''
      in if verdict_type = ''reject'' then
           (let status = unwrap_or (Option.bind (Option.bind (json_get val ''status_code'') as_u64)
                            (\<lambda>s. status_from_u16 (s mod 2 ^ 16))) 400;
                rej = rejection_new status (unwrap_or (get_str val ''code'') ''WASM_REJECTED'')
                        (unwrap_or (get_str val ''message'') ''Request rejected by WASM interceptor'')
            in Reject (case json_get val ''details'' of Some d \<Rightarrow> with_details d rej | None \<Rightarrow> rej))
         else if verdict_type = ''transform'' then
           Transform (map_option verdict_headers (Option.bind (json_get val ''headers'') as_object))
                     (get_str val ''body'')
         else Pass)"

definition handle_execution_error :: "string \<Rightarrow> plugin_config \<Rightarrow> string \<Rightarrow> verdict" where
  "handle_execution_error name c err =
     (if contains_str err ''interrupt'' \<or> contains_str err ''epoch'' then
        (case pc_fail_mode c of
           FailOpen \<Rightarrow> Pass
         | FailClosed \<Rightarrow> Reject (rejection_new 504 ''WASM_EXECUTION_TIMEOUT''
             (''WASM plugin '' @ quoted name @ '' exceeded deadline of '' @ show_nat (pc_timeout_ms c) @ ''ms'')))
      else
        (case pc_fail_mode c of
           FailOpen \<Rightarrow> Pass
         | FailClosed \<Rightarrow> Reject (rejection_new 500 ''WASM_EXECUTION_ERROR''
             (''WASM plugin '' @ quoted name @ '' failed: '' @ err))))"

section \<open>Intercepting\<close>

text \<open>The part the two directions share: \<open>invoke\<close> is \<open>invoke_guest\<close> on the plugin's module, \<open>now\<close>
  the time of the check and \<open>done\<close> the time the guest returned.\<close>

definition run_plugin ::
  "('m \<Rightarrow> plugin_config \<Rightarrow> json result) \<Rightarrow> nat \<Rightarrow> nat \<Rightarrow> string \<Rightarrow> 'm plugins \<Rightarrow> verdict \<times> 'm plugins" where
  "run_plugin invoke now done_at name ps =
     (case ps name of
        None \<Rightarrow> (Reject (rejection_new 500 ''WASM_PLUGIN_NOT_FOUND''
                    (''WASM plugin '' @ quoted name @ '' is not registered'')), ps)
      | Some p \<Rightarrow>
          (case can_execute now (pl_breaker p) of
             (Denied, b) \<Rightarrow>
               ((case pc_fail_mode (pl_config p) of
                   FailOpen \<Rightarrow> Pass
                 | FailClosed \<Rightarrow> Reject (rejection_new 503 ''WASM_CIRCUIT_OPEN''
                     (''WASM plugin '' @ quoted name @ '' circuit is open due to consecutive failures''))),
                ps(name \<mapsto> p\<lparr>pl_breaker := b\<rparr>))
           | (_, b) \<Rightarrow>
               (case invoke (pl_module p) (pl_config p) of
                  Inr v \<Rightarrow> (parse_verdict v, ps(name \<mapsto> p\<lparr>pl_breaker := record_success b\<rparr>))
                | Inl e \<Rightarrow> (handle_execution_error name (pl_config p) e,
                            ps(name \<mapsto> p\<lparr>pl_breaker := record_failure done_at b\<rparr>)))))"

definition opt_json :: "('a \<Rightarrow> json) \<Rightarrow> 'a option \<Rightarrow> json" where
  "opt_json f x = (case x of None \<Rightarrow> JNull | Some y \<Rightarrow> f y)"

definition header_pairs_json :: "header_map \<Rightarrow> json" where
  "header_pairs_json hs = JArray (List.map_filter (\<lambda>(k, v).
     map_option (\<lambda>val. JArray [JString k, JString val]) (to_str v)) hs)"

definition wasm_request_payload :: "(uuid \<Rightarrow> string) \<Rightarrow> interceptor_context \<Rightarrow> http_parts \<Rightarrow> string \<Rightarrow> json" where
  "wasm_request_payload show_uuid c p body = JObject
     [(''request_id'', JString (show_uuid (ctx_request_id c))),
      (''operation_name'', opt_json JString (ctx_operation_name c)),
      (''operation_type'', opt_json (\<lambda>t. JString (operation_type_str t)) (ctx_operation_type c)),
      (''uri'', JString (uri p)), (''method'', JString (http_method p)),
      (''headers'', header_pairs_json (headers p)), (''body'', JString body)]"

definition wasm_intercept_request ::
  "('m \<Rightarrow> plugin_config \<Rightarrow> string \<Rightarrow> json \<Rightarrow> json result) \<Rightarrow> (uuid \<Rightarrow> string) \<Rightarrow> nat \<Rightarrow> nat \<Rightarrow> string
     \<Rightarrow> 'm plugins request_interceptor" where
  "wasm_intercept_request invoke show_uuid now done_at name ps c p body =
     (case run_plugin (\<lambda>md cfg. invoke md cfg ''spectragql_intercept_request''
             (wasm_request_payload show_uuid c p body)) now done_at name ps of
        (v, ps') \<Rightarrow> (v, ps', c, p))"

definition wasm_response_payload ::
  "(uuid \<Rightarrow> string) \<Rightarrow> interceptor_context \<Rightarrow> http_response_parts \<Rightarrow> string \<Rightarrow> json" where
  "wasm_response_payload show_uuid c p body = JObject
     [(''request_id'', JString (show_uuid (ctx_request_id c))),
      (''status_code'', JNumber (PosInt (resp_status p))),
      (''headers'', header_pairs_json (resp_headers p)), (''body'', JString (from_utf8_lossy body))]"

definition wasm_intercept_response ::
  "('m \<Rightarrow> plugin_config \<Rightarrow> string \<Rightarrow> json \<Rightarrow> json result) \<Rightarrow> (uuid \<Rightarrow> string) \<Rightarrow> nat \<Rightarrow> nat \<Rightarrow> string
     \<Rightarrow> 'm plugins response_interceptor" where
  "wasm_intercept_response invoke show_uuid now done_at name ps c p body =
     (case run_plugin (\<lambda>md cfg. invoke md cfg ''spectragql_intercept_response''
             (wasm_response_payload show_uuid c p body)) now done_at name ps of
        (v, ps') \<Rightarrow> (v, ps', p))"

interpretation wasm: request_port "wasm_intercept_request invoke show_uuid now done_at name"
  for invoke show_uuid now done_at name
  by unfold_locales (auto simp: wasm_intercept_request_def split: prod.splits)

section \<open>Properties\<close>

text \<open>What happens to a breaker, in time order: a request asks, an execution succeeds or fails.\<close>

datatype breaker_event = Ask nat | Succeed | Fail nat

fun breaker_step :: "breaker_event \<Rightarrow> breaker \<Rightarrow> permission option \<times> breaker" where
  "breaker_step (Ask now) b = (case can_execute now b of (p, b') \<Rightarrow> (Some p, b'))"
| "breaker_step Succeed b = (None, record_success b)"
| "breaker_step (Fail now) b = (None, record_failure now b)"

fun breaker_run :: "breaker_event list \<Rightarrow> breaker \<Rightarrow> permission option list \<times> breaker" where
  "breaker_run [] b = ([], b)"
| "breaker_run (e # es) b =
     (case breaker_step e b of (p, b1) \<Rightarrow> (case breaker_run es b1 of (ps, b2) \<Rightarrow> (p # ps, b2)))"

fun within :: "nat \<Rightarrow> nat \<Rightarrow> breaker_event \<Rightarrow> bool" where
  "within t cool (Ask now) = (t \<le> now \<and> now < t + cool)"
| "within t cool Succeed = False"
| "within t cool (Fail now) = (t \<le> now)"

lemma record_failure_fields [simp]:
  "br_config (record_failure now b) = br_config b"
  "br_failures (record_failure now b) = br_failures b + 1"
  "br_state (record_failure now b) =
     (if br_state b = HalfOpen \<or> failure_threshold (br_config b) \<le> br_failures b + 1 then Open else br_state b)"
  "br_tripped_at (record_failure now b) =
     (if br_state b = HalfOpen \<or> failure_threshold (br_config b) \<le> br_failures b + 1 then Some now else br_tripped_at b)"
  by (simp_all add: record_failure_def Let_def)

lemma open_window_aux:
  "br_state b = Open \<Longrightarrow> br_tripped_at b = Some t2 \<Longrightarrow> t \<le> t2 \<Longrightarrow>
   list_all (within t (cooloff_ms (br_config b))) es \<Longrightarrow>
   set (fst (breaker_run es b)) \<subseteq> {None, Some Denied} \<and> br_state (snd (breaker_run es b)) = Open"
proof (induction es arbitrary: b t2)
  case (Cons e es)
  show ?case
  proof (cases e)
    case (Ask now)
    with Cons.prems have "can_execute now b = (Denied, b)" by (auto simp: can_execute_def)
    with Ask Cons.IH [OF Cons.prems(1-3)] Cons.prems(4) show ?thesis by (auto split: prod.splits)
  next
    case Succeed
    with Cons.prems show ?thesis by simp
  next
    case (Fail now)
    let ?b = "record_failure now b"
    obtain t3 where "br_state ?b = Open" "br_tripped_at ?b = Some t3" "t \<le> t3" "br_config ?b = br_config b"
      using Cons.prems Fail by (cases "failure_threshold (br_config b) \<le> br_failures b + 1") auto
    with Fail Cons.IH [of ?b t3] Cons.prems(4) show ?thesis by (auto split: prod.splits)
  qed
qed simp

text \<open>An open circuit protects: once a failure at time \<open>t\<close> opened it, no request that asks
  before \<open>t\<close> plus the cool-off is let through, also while executions that started earlier go on
  failing, and the circuit stays open.\<close>

theorem breaker_open_denies:
  assumes "br_state (record_failure t b) = Open"
    and "list_all (within t (cooloff_ms (br_config b))) es"
    and "br_tripped_at (record_failure t b) = Some t"
  shows "set (fst (breaker_run es (record_failure t b))) \<subseteq> {None, Some Denied}
    \<and> br_state (snd (breaker_run es (record_failure t b))) = Open"
proof -
  have "br_config (record_failure t b) = br_config b" by simp
  with open_window_aux [OF assms(1,3) order_refl] assms(2) show ?thesis by simp
qed

theorem breaker_open_denies_witness:
  "set (fst (breaker_run [Ask 100, Fail 200, Ask 29000]
      (record_failure 50 (breaker_new \<lparr>failure_threshold = 1, cooloff_ms = 30000\<rparr>)))) \<subseteq> {None, Some Denied}"
  using breaker_open_denies [of 50 "breaker_new \<lparr>failure_threshold = 1, cooloff_ms = 30000\<rparr>" "[Ask 100, Fail 200, Ask 29000]"]
  by (simp add: record_failure_def breaker_new_def)

lemma failures_aux:
  assumes "br_state b = Closed" "unat (br_failures b) < unat (failure_threshold (br_config b))"
  shows "unat (br_failures b) + n < 2 ^ 32 \<Longrightarrow>
    (let b' = (record_failure now ^^ n) b
     in (br_state b' = Open \<longleftrightarrow> unat (failure_threshold (br_config b)) \<le> unat (br_failures b) + n)
      \<and> br_config b' = br_config b \<and> unat (br_failures b') = unat (br_failures b) + n
      \<and> br_state b' \<noteq> HalfOpen)"
proof (induction n)
  case (Suc n)
  define b' where "b' = (record_failure now ^^ n) b"
  have b': "br_state b' = Open \<longleftrightarrow> unat (failure_threshold (br_config b)) \<le> unat (br_failures b) + n"
    "br_config b' = br_config b" "unat (br_failures b') = unat (br_failures b) + n" "br_state b' \<noteq> HalfOpen"
    using Suc by (simp_all add: b'_def Let_def)
  have inc: "unat (br_failures b' + 1) = unat (br_failures b) + Suc n"
    using Suc.prems b'(3) by (simp add: unat_word_ariths)
  have "(record_failure now ^^ Suc n) b = record_failure now b'" by (simp add: b'_def)
  then show ?case
    using b' inc by (auto simp: word_le_nat_alt Let_def simp del: funpow.simps)
qed (use assms in auto)

text \<open>C25. The breaker trips exactly at its threshold: after a success, \<open>n\<close> failures in a row leave it
  closed while \<open>n\<close> is below the configured number and open from there on; when the cool-off is
  over the next request is let through as a probe, whose success closes the circuit and
  whose failure opens it again at once.\<close>

theorem breaker_threshold_and_recovery:
  assumes "0 < failure_threshold (br_config b)" "n < 2 ^ 32"
  shows "br_state ((record_failure now ^^ n) (record_success b)) =
      (if unat (failure_threshold (br_config b)) \<le> n then Open else Closed)
    \<and> (\<forall>b' t later. br_state b' = Open \<and> br_tripped_at b' = Some t \<and> t + cooloff_ms (br_config b') \<le> later \<longrightarrow>
         fst (can_execute later b') = Probe
         \<and> br_state (record_success (snd (can_execute later b'))) = Closed
         \<and> br_failures (record_success (snd (can_execute later b'))) = 0
         \<and> br_state (record_failure later (snd (can_execute later b'))) = Open)"
proof
  have "br_state (record_success b) = Closed" "br_failures (record_success b) = 0"
    "br_config (record_success b) = br_config b" by (simp_all add: record_success_def)
  with failures_aux [of "record_success b" n now] assms
  show "br_state ((record_failure now ^^ n) (record_success b)) =
      (if unat (failure_threshold (br_config b)) \<le> n then Open else Closed)"
    by (cases "br_state ((record_failure now ^^ n) (record_success b))") (auto simp: Let_def word_less_nat_alt)
qed (auto simp: can_execute_def record_success_def)

theorem breaker_threshold_and_recovery_witness:
  "br_state ((record_failure 9 ^^ 5) (record_success (breaker_new default_breaker_config))) = Open
   \<and> br_state ((record_failure 9 ^^ 4) (record_success (breaker_new default_breaker_config))) = Closed"
  using breaker_threshold_and_recovery [of "breaker_new default_breaker_config" 5 9]
    breaker_threshold_and_recovery [of "breaker_new default_breaker_config" 4 9]
  by (simp add: breaker_new_def default_breaker_config_def)

text \<open>After the cool-off every request that arrives before the first probe returns is a probe.\<close>

lemma half_open_admits_many: "br_state b = HalfOpen \<Longrightarrow> can_execute now b = (Probe, b)"
  by (simp add: can_execute_def)

text \<open>C24. Fail-closed means closed: for a plugin in that mode a verdict other than a rejection
  implies that the circuit let the request through and the guest returned a JSON value whose
  verdict is not \<open>reject\<close>; errors, deadlines, open circuits and missing plugins all reject.\<close>

theorem wasm_fail_closed:
  assumes "run_plugin invoke now done_at name ps = (v, ps')" "\<not> is_reject v"
    and "\<And>p. ps name = Some p \<Longrightarrow> pc_fail_mode (pl_config p) = FailClosed"
  shows "\<exists>p val. ps name = Some p \<and> fst (can_execute now (pl_breaker p)) \<noteq> Denied
     \<and> invoke (pl_module p) (pl_config p) = Inr val \<and> v = parse_verdict val
     \<and> get_str val ''verdict'' \<noteq> Some ''reject''"
proof -
  obtain p where p: "ps name = Some p"
    using assms(1,2) by (auto simp: run_plugin_def split: option.splits)
  obtain perm b where ce: "can_execute now (pl_breaker p) = (perm, b)" by fastforce
  have mode: "pc_fail_mode (pl_config p) = FailClosed" using assms(3) p by simp
  have perm: "perm \<noteq> Denied" using assms(1,2) p ce mode by (auto simp: run_plugin_def)
  have run: "run_plugin invoke now done_at name ps =
      (case invoke (pl_module p) (pl_config p) of
         Inr v \<Rightarrow> (parse_verdict v, ps(name \<mapsto> p\<lparr>pl_breaker := record_success b\<rparr>))
       | Inl e \<Rightarrow> (handle_execution_error name (pl_config p) e,
                   ps(name \<mapsto> p\<lparr>pl_breaker := record_failure done_at b\<rparr>)))"
    using p ce perm by (cases perm) (simp_all add: run_plugin_def)
  obtain val where val: "invoke (pl_module p) (pl_config p) = Inr val" "v = parse_verdict val"
    using assms(1,2) mode unfolding run
    by (cases "invoke (pl_module p) (pl_config p)") (auto simp: handle_execution_error_def split: if_splits)
  moreover have "get_str val ''verdict'' \<noteq> Some ''reject''"
    using assms(2) val(2) by (auto simp: parse_verdict_def Let_def)
  ultimately show ?thesis using p ce perm by auto
qed

definition passing_plugin :: "unit plugins" where
  "passing_plugin = register_plugin ''p'' () default_plugin_config Map.empty"

theorem wasm_fail_closed_witness:
  "\<exists>val. (\<lambda>_ _. Inr (JObject [(''verdict'', JString ''pass'')])) () default_plugin_config = Inr val
     \<and> fst (run_plugin (\<lambda>_ _. Inr (JObject [(''verdict'', JString ''pass'')])) 1 2 ''p'' passing_plugin) = parse_verdict val
     \<and> get_str val ''verdict'' \<noteq> Some ''reject''"
proof -
  let ?inv = "\<lambda>_ _. Inr (JObject [(''verdict'', JString ''pass'')]) :: json result"
  obtain v ps' where r: "run_plugin ?inv 1 2 ''p'' passing_plugin = (v, ps')" by fastforce
  then have v: "v = Pass"
    by (simp add: run_plugin_def passing_plugin_def register_plugin_def breaker_new_def can_execute_def parse_verdict_def)
  have m: "\<And>p. passing_plugin ''p'' = Some p \<Longrightarrow> pc_fail_mode (pl_config p) = FailClosed"
    by (auto simp: passing_plugin_def register_plugin_def default_plugin_config_def)
  have "\<not> is_reject v" using v by simp
  from wasm_fail_closed [OF r this m] r show ?thesis by fastforce
qed

text \<open>A guest that answers without a known verdict passes, in either mode.\<close>

lemma unknown_verdict_passes:
  "get_str val ''verdict'' \<notin> {Some ''reject'', Some ''transform''} \<Longrightarrow> parse_verdict val = Pass"
  by (cases "get_str val ''verdict''") (auto simp: parse_verdict_def Let_def)

text \<open>A time-out is recognised by the text of the error, and the context put around a failed
  instantiation hides it: a guest whose start function runs past the deadline is reported as
  failed, not as timed out.\<close>

lemma start_deadline_not_a_timeout:
  assumes "g_instantiate g (pc_max_memory_bytes c) (deadline_ticks (pc_timeout_ms c) (ec_tick_ms ec)) = Inl e"
    and "pc_fail_mode c = FailClosed"
  shows "\<exists>err msg. invoke_guest to_vec from_slice ec c g export input = Inl err
    \<and> handle_execution_error name c err = Reject (rejection_new 500 ''WASM_EXECUTION_ERROR'' msg)"
  using assms by (auto simp: invoke_guest_def handle_execution_error_def str_simps)

text \<open>The packed result of a guest: pointer and length are recovered exactly for every pair of
  32-bit values the guest packs.\<close>

lemma unpack_packed:
  "unpack_ptr ((push_bit 32 (ucast p) OR ucast l) :: u64) = p
   \<and> unpack_len ((push_bit 32 (ucast p) OR ucast l) :: u64) = l"
proof -
  have m: "(0xFFFFFFFF :: u64) = mask 32" by (simp add: mask_eq_exp_minus_1)
  have "bit (unpack_ptr ((push_bit 32 (ucast p) OR ucast l) :: u64)) i = bit p i" for i
    by (auto simp: unpack_ptr_def bit_simps dest: bit_imp_le_length)
  moreover have "bit (unpack_len ((push_bit 32 (ucast p) OR ucast l) :: u64)) i = bit l i" for i
    unfolding unpack_len_def m by (auto simp: bit_simps dest: bit_imp_le_length)
  ultimately show ?thesis by (simp add: bit_eq_iff)
qed

end
