(* ===== verification/Manager.thy ===== *)
theory Manager
  imports Auth Cel Wasm
begin

text \<open>
  \<open>interceptors/manager.rs\<close>: the interceptors declared in the configuration are built, checked and
  assembled into the global and the per-operation pipelines.

  A trait object is described by a constructor of \<open>request_int\<close> or \<open>response_int\<close>; \<open>run_request\<close> and
  \<open>run_response\<close> give what each does.  File access, CEL and Wasmtime are fields of \<open>int_env\<close>.
\<close>

section \<open>Interceptors and their state\<close>

datatype ('p, 'm) request_int =
    CelReq "'p cel_rule"
  | WasmReq string
  | SyntaxReq
  | HeaderReq
  | DeployReq "string option"
  | RbacReq string rbac

datatype ('p, 'm) response_int =
    CelResp "'p cel_rule"
  | WasmResp string
  | SensitiveResp sensitive_data

record ('p, 'm, 'c) int_env =
  ie_env :: "string \<Rightarrow> string option"
  ie_compile_cel :: "string \<Rightarrow> 'p result"
  ie_execute :: "'p cel_engine"
  ie_debug_cel :: "cel_value \<Rightarrow> string"
  ie_wasm_engine :: "unit result"
  ie_deserialize :: "string \<Rightarrow> 'm result"
  ie_compile_wasm :: "string \<Rightarrow> 'm result"
  ie_parse_wat :: "string \<Rightarrow> string result"
  ie_read_file :: "string \<Rightarrow> string result"
  ie_invoke :: "'m \<Rightarrow> plugin_config \<Rightarrow> string \<Rightarrow> json \<Rightarrow> json result"
  ie_from_str :: "string \<Rightarrow> json result"
  ie_apollo :: "string \<Rightarrow> string list \<times> gql_definition list"
  ie_show_uuid :: "uuid \<Rightarrow> string"
  ie_crypto :: crypto
  ie_lru :: "'c lru_ops"

text \<open>The state behind the locks: the plugins with their breakers, the token cache of each RBAC
  interceptor.  The clocks are read when an interceptor runs.\<close>

record ('m, 'c) int_world =
  iw_plugins :: "'m plugins"
  iw_caches :: "string \<Rightarrow> 'c"

record clocks =
  ck_instant :: nat
  ck_done :: nat
  ck_unix :: int

fun run_request ::
  "('p, 'm, 'c) int_env \<Rightarrow> clocks \<Rightarrow> ('p, 'm) request_int \<Rightarrow> ('m, 'c) int_world request_interceptor" where
  "run_request ie ck (CelReq r) w c p body =
     cel_intercept_request (ie_execute ie) (ie_debug_cel ie) (ie_from_str ie) r w c p body"
| "run_request ie ck (WasmReq n) w c p body =
     (case wasm_intercept_request (ie_invoke ie) (ie_show_uuid ie) (ck_instant ck) (ck_done ck) n (iw_plugins w) c p body of
        (v, ps, c', p') \<Rightarrow> (v, w\<lparr>iw_plugins := ps\<rparr>, c', p'))"
| "run_request ie ck SyntaxReq w c p body = syntax_interceptor (ie_from_str ie) (ie_apollo ie) w c p body"
| "run_request ie ck HeaderReq w c p body = header_validation_interceptor True w c p body"
| "run_request ie ck (DeployReq tok) w c p body = deploy_auth_interceptor tok w c p body"
| "run_request ie ck (RbacReq n r) w c p body =
     (case rbac_intercept_request (ie_lru ie) (ie_crypto ie) r (ck_instant ck) (ck_unix ck) (iw_caches w n) c p body of
        (v, cache, c', p') \<Rightarrow> (v, w\<lparr>iw_caches := (iw_caches w)(n := cache)\<rparr>, c', p'))"

fun run_response ::
  "('p, 'm, 'c) int_env \<Rightarrow> clocks \<Rightarrow> ('p, 'm) response_int \<Rightarrow> ('m, 'c) int_world response_interceptor" where
  "run_response ie ck (CelResp r) w c p body =
     cel_intercept_response (ie_execute ie) (ie_debug_cel ie) (ie_from_str ie) (ie_show_uuid ie) r w c p body"
| "run_response ie ck (WasmResp n) w c p body =
     (case wasm_intercept_response (ie_invoke ie) (ie_show_uuid ie) (ck_instant ck) (ck_done ck) n (iw_plugins w) c p body of
        (v, ps, p') \<Rightarrow> (v, w\<lparr>iw_plugins := ps\<rparr>, p'))"
| "run_response ie ck (SensitiveResp sd) w c p body = sensitive_data_interceptor (ie_from_str ie) sd w c p body"

section \<open>Building\<close>

record ('p, 'm) registry =
  reg_request :: "(string \<times> ('p, 'm) request_int) list"
  reg_response :: "(string \<times> ('p, 'm) response_int) list"
  reg_plugins :: "'m plugins"

definition build_cel ::
  "('p, 'm, 'c) int_env \<Rightarrow> string \<Rightarrow> interceptor_config \<Rightarrow> ('p, 'm) registry \<Rightarrow> ('p, 'm) registry result" where
  "build_cel ie name ic reg =
     (case ic_expression ic of
        None \<Rightarrow> Inl (''Missing '' @ quoted ''expression'' @ '' for CEL interceptor '' @ quoted name)
      | Some expr \<Rightarrow>
          (let st = map_option (\<lambda>c. unwrap_or (status_from_u16 c) 403) (ic_status_code ic);
               action = cel_action_from_str (ic_action ic)
           in case ic_stage ic of
                RequestStage \<Rightarrow>
                  (case cel_request_new (ie_compile_cel ie) name expr st (ic_code ic) (ic_message ic) action (ic_tag ic) of
                     Inl e \<Rightarrow> Inl (''Invalid CEL request rule '' @ quoted name @ '': '' @ e)
                   | Inr r \<Rightarrow> Inr (reg\<lparr>reg_request := alist_insert name (CelReq r) (reg_request reg)\<rparr>))
              | ResponseStage \<Rightarrow>
                  (case cel_response_new (ie_compile_cel ie) name expr st (ic_code ic) (ic_message ic) action (ic_tag ic) of
                     Inl e \<Rightarrow> Inl (''Invalid CEL response rule '' @ quoted name @ '': '' @ e)
                   | Inr r \<Rightarrow> Inr (reg\<lparr>reg_response := alist_insert name (CelResp r) (reg_response reg)\<rparr>))))"

definition load_plugin ::
  "('p, 'm, 'c) int_env \<Rightarrow> engine_config \<Rightarrow> string \<Rightarrow> string \<Rightarrow> plugin_config \<Rightarrow> 'm plugins \<Rightarrow> unit result \<times> 'm plugins" where
  "load_plugin ie ec name path cfg ps =
     (if ends_with path ''.cwasm'' then
        map_prod (with_context (''Failed to load precompiled .cwasm from '' @ quoted path)) id
          (load_cwasm_file (ie_deserialize ie) name path cfg ps)
      else if ends_with path ''.wat'' then
        (case ie_read_file ie path of
           Inl e \<Rightarrow> (Inl (''Failed to read WAT file from '' @ quoted path), ps)
         | Inr wat \<Rightarrow>
             map_prod (with_context (''Failed to load WAT from '' @ quoted path)) id
               (load_wat (ie_parse_wat ie) (ie_compile_wasm ie) ec name wat cfg ps))
      else
        (case ie_read_file ie path of
           Inl e \<Rightarrow> (Inl (''Failed to read WASM file from '' @ quoted path), ps)
         | Inr bytes \<Rightarrow>
             map_prod (with_context (''Failed to load WASM bytes from '' @ quoted path)) id
               (load_wasm_bytes (ie_compile_wasm ie) ec name bytes cfg ps)))"

definition build_wasm ::
  "('p, 'm, 'c) int_env \<Rightarrow> wasm_config \<Rightarrow> string \<Rightarrow> interceptor_config \<Rightarrow> ('p, 'm) registry \<Rightarrow> ('p, 'm) registry result" where
  "build_wasm ie wc name ic reg =
     (case ic_path ic of
        None \<Rightarrow> Inl (''Missing '' @ quoted ''path'' @ '' for WASM interceptor '' @ quoted name)
      | Some path \<Rightarrow>
          (let cfg = \<lparr>pc_timeout_ms = unwrap_or (ic_timeout_ms ic) (default_timeout_ms wc),
                      pc_max_memory_bytes = 16 * 1024 * 1024,
                      pc_fail_mode = unwrap_or (ic_fail_mode ic) FailClosed,
                      pc_breaker = \<lparr>failure_threshold = word_of_nat (unwrap_or (ic_failure_threshold ic) 5),
                                    cooloff_ms = unwrap_or (ic_cooloff_duration_secs ic) 30 * 1000\<rparr>\<rparr>;
               ec = \<lparr>ec_strict_aot = strict_aot wc, ec_allow_jit = allow_jit wc,
                     ec_tick_ms = epoch_tick_interval_ms wc\<rparr>
           in case load_plugin ie ec name path cfg (reg_plugins reg) of
                (Inl e, _) \<Rightarrow> Inl e
              | (Inr _, ps) \<Rightarrow>
                  (let reg1 = reg\<lparr>reg_plugins := ps\<rparr>
                   in Inr (case ic_stage ic of
                        RequestStage \<Rightarrow> reg1\<lparr>reg_request := alist_insert name (WasmReq name) (reg_request reg)\<rparr>
                      | ResponseStage \<Rightarrow> reg1\<lparr>reg_response := alist_insert name (WasmResp name) (reg_response reg)\<rparr>))))"

text \<open>The derived \<open>Debug\<close> of the stage.\<close>

fun stage_debug :: "interceptor_stage \<Rightarrow> string" where
  "stage_debug RequestStage = ''Request''"
| "stage_debug ResponseStage = ''Response''"

definition build_native ::
  "('p, 'm, 'c) int_env \<Rightarrow> admin_config \<Rightarrow> string \<Rightarrow> interceptor_config \<Rightarrow> ('p, 'm) registry \<Rightarrow> ('p, 'm) registry result" where
  "build_native ie ac name ic reg =
     (let kind = unwrap_or (ic_kind ic) name;
          add = (\<lambda>i. Inr (reg\<lparr>reg_request := alist_insert name i (reg_request reg)\<rparr>))
      in if ic_stage ic = RequestStage \<and> kind = ''graphql_syntax'' then add SyntaxReq
         else if ic_stage ic = RequestStage \<and> kind = ''header_validation'' then add HeaderReq
         else if ic_stage ic = RequestStage \<and> kind = ''deploy_auth'' then
           (let token = or_else (ic_token ic) (or_else (deploy_token ac)
                  (or_else (ie_env ie ''SPECTRA_DEPLOY_TOKEN'') (ie_env ie ''SPECTRAGQL_DEPLOY_TOKEN'')))
            in add (DeployReq (deploy_auth_new (ie_env ie) token)))
         else if ic_stage ic = ResponseStage \<and> kind = ''sensitive_data'' then
           Inr (reg\<lparr>reg_response := alist_insert name
                  (SensitiveResp \<lparr>sd_evaluator = None, sd_forbidden_tokens = []\<rparr>) (reg_response reg)\<rparr>)
         else Inl (''Unknown native interceptor kind '' @ quoted kind @ '' for stage '' @ quoted (stage_debug (ic_stage ic))
                @ '' in '' @ quoted name))"

definition build_rbac :: "interceptor_config \<Rightarrow> rbac" where
  "build_rbac ic =
     (let r0 = rbac_new;
          r1 = (case ic_jwks_url ic of
                  Some url \<Rightarrow> r0\<lparr>rb_provider := Some (Jwks url [])\<rparr>
                | None \<Rightarrow> (case ic_secret ic of
                             Some sec \<Rightarrow> r0\<lparr>rb_provider := Some (Hmac sec)\<rparr> | None \<Rightarrow> r0));
          r2 = with_policies (unwrap_or (map_option policy_mode_from_str (ic_mutations_default ic)) AuditOnly)
                 (unwrap_or (map_option policy_mode_from_str (ic_queries_default ic)) PassAll) r1;
          r3 = fold allow_unauthenticated (unwrap_or (ic_unauthenticated_ops ic) []) r2;
          mp = default_claims_mapping;
          r4 = r3\<lparr>rb_claims_mapping :=
                 \<lparr>subject_path = unwrap_or (ic_subject_path ic) (subject_path mp),
                  tenant_path = or_else (ic_tenant_path ic) (tenant_path mp),
                  roles_path = unwrap_or (ic_roles_path ic) (roles_path mp),
                  permissions_path = or_else (ic_permissions_path ic) (permissions_path mp)\<rparr>\<rparr>
      in fold (\<lambda>(role, ops). grant_role role ops) (unwrap_or (ic_roles ic) []) r4)"

fun build_interceptor ::
  "('p, 'm, 'c) int_env \<Rightarrow> spectra_config \<Rightarrow> string \<times> interceptor_config \<Rightarrow> ('p, 'm) registry \<Rightarrow> ('p, 'm) registry result" where
  "build_interceptor ie cfg (name, ic) reg =
     (case ic_type ic of
        CelType \<Rightarrow> build_cel ie name ic reg
      | WasmType \<Rightarrow> build_wasm ie (cfg_wasm cfg) name ic reg
      | NativeType \<Rightarrow> build_native ie (cfg_admin cfg) name ic reg
      | RbacType \<Rightarrow> Inr (reg\<lparr>reg_request := alist_insert name (RbacReq name (build_rbac ic)) (reg_request reg)\<rparr>)
      | AuthType \<Rightarrow> Inr (reg\<lparr>reg_request := alist_insert name (RbacReq name (build_rbac ic)) (reg_request reg)\<rparr>))"

fun build_all ::
  "('p, 'm, 'c) int_env \<Rightarrow> spectra_config \<Rightarrow> (string \<times> interceptor_config) list \<Rightarrow> ('p, 'm) registry
     \<Rightarrow> ('p, 'm) registry result" where
  "build_all ie cfg [] reg = Inr reg"
| "build_all ie cfg (ic # ics) reg =
     (case build_interceptor ie cfg ic reg of
        Inl e \<Rightarrow> Inl e
      | Inr reg' \<Rightarrow> build_all ie cfg ics reg')"

section \<open>Assembling\<close>

type_synonym ('p, 'm) pipes = "('p, 'm) request_int list \<times> ('p, 'm) response_int list"

fun assemble ::
  "(string \<Rightarrow> string) \<Rightarrow> ('p, 'm) registry \<Rightarrow> string list \<Rightarrow> ('p, 'm) pipes \<Rightarrow> ('p, 'm) pipes result" where
  "assemble msg reg [] ps = Inr ps"
| "assemble msg reg (n # ns) (rq, rs) =
     (case map_of (reg_request reg) n of
        Some i \<Rightarrow> assemble msg reg ns (rq @ [i], rs)
      | None \<Rightarrow>
          (case map_of (reg_response reg) n of
             Some i \<Rightarrow> assemble msg reg ns (rq, rs @ [i])
           | None \<Rightarrow> Inl (msg n)))"

record ('p, 'm) manager =
  global_request :: "('p, 'm) request_int list"
  global_response :: "('p, 'm) response_int list"
  route_request :: "(string \<times> ('p, 'm) request_int list) list"
  route_response :: "(string \<times> ('p, 'm) response_int list) list"

fun assemble_routes ::
  "('p, 'm) registry \<Rightarrow> (string \<times> route_config) list \<Rightarrow> ('p, 'm) manager \<Rightarrow> ('p, 'm) manager result" where
  "assemble_routes reg [] mg = Inr mg"
| "assemble_routes reg ((key, rc) # rs) mg =
     (case assemble (\<lambda>n. ''Route '' @ quoted key @ '' references unknown interceptor '' @ quoted n)
             reg (route_interceptors rc) ([], []) of
        Inl e \<Rightarrow> Inl e
      | Inr (rq, rp) \<Rightarrow>
          assemble_routes reg rs
            (mg\<lparr>route_request := (if rq = [] then route_request mg else alist_insert (r_operation rc) rq (route_request mg)),
                route_response := (if rp = [] then route_response mg else alist_insert (r_operation rc) rp (route_response mg))\<rparr>))"

definition manager_empty :: "('p, 'm) manager" where
  "manager_empty = \<lparr>global_request = [], global_response = [], route_request = [], route_response = []\<rparr>"

definition from_config ::
  "('p, 'm, 'c) int_env \<Rightarrow> spectra_config \<Rightarrow> (('p, 'm) manager \<times> 'm plugins) result" where
  "from_config ie cfg =
     (let has_wasm = list_ex (\<lambda>(n, ic). ic_type ic = WasmType) (cfg_interceptors cfg)
      in case (if has_wasm then ie_wasm_engine ie else Inr ()) of
           Inl e \<Rightarrow> Inl ''Failed to initialize WasmInterceptorEvaluator''
         | Inr _ \<Rightarrow>
             (case build_all ie cfg (cfg_interceptors cfg) \<lparr>reg_request = [], reg_response = [], reg_plugins = Map.empty\<rparr> of
                Inl e \<Rightarrow> Inl e
              | Inr reg \<Rightarrow>
                  (case assemble (\<lambda>n. ''Global interceptor '' @ quoted n @ '' is not registered in [interceptors]'')
                          reg (gql_interceptors (cfg_gql cfg)) ([], []) of
                     Inl e \<Rightarrow> Inl e
                   | Inr (rq, rp) \<Rightarrow>
                       (case assemble_routes reg (gql_routes (cfg_gql cfg))
                               (manager_empty\<lparr>global_request := rq, global_response := rp\<rparr>) of
                          Inl e \<Rightarrow> Inl e
                        | Inr mg \<Rightarrow> Inr (mg, reg_plugins reg)))))"

definition get_request_pipeline :: "('p, 'm) manager \<Rightarrow> string option \<Rightarrow> ('p, 'm) request_int list" where
  "get_request_pipeline mg op =
     global_request mg @ (case op of
        Some o' \<Rightarrow> unwrap_or (map_of (route_request mg) o') [] | None \<Rightarrow> [])"

definition get_response_pipeline :: "('p, 'm) manager \<Rightarrow> string option \<Rightarrow> ('p, 'm) response_int list" where
  "get_response_pipeline mg op =
     global_response mg @ (case op of
        Some o' \<Rightarrow> unwrap_or (map_of (route_response mg) o') [] | None \<Rightarrow> [])"

definition has_response_interceptors :: "('p, 'm) manager \<Rightarrow> string option \<Rightarrow> bool" where
  "has_response_interceptors mg op =
     (global_response mg \<noteq> [] \<or>
      (case op of
         Some o' \<Rightarrow> (case map_of (route_response mg) o' of Some rp \<Rightarrow> rp \<noteq> [] | None \<Rightarrow> False)
       | None \<Rightarrow> False))"

definition run_request_pipeline ::
  "('p, 'm, 'c) int_env \<Rightarrow> clocks \<Rightarrow> ('p, 'm) request_int list \<Rightarrow> ('m, 'c) int_world request_interceptor" where
  "run_request_pipeline ie ck is = request_pipeline (map (run_request ie ck) is) None"

definition run_response_pipeline ::
  "('p, 'm, 'c) int_env \<Rightarrow> clocks \<Rightarrow> ('p, 'm) response_int list \<Rightarrow> ('m, 'c) int_world response_interceptor" where
  "run_response_pipeline ie ck is = response_pipeline (map (run_response ie ck) is) empty_acc"

section \<open>Every configured interceptor is a port\<close>

interpretation configured: request_port "run_request ie ck i" for ie ck i
proof
  fix w c p b v w' c' p'
  assume run: "run_request ie ck i w c p b = (v, w', c', p')"
  show "same_request c p c' p'"
  proof (cases i)
    case (CelReq r)
    with run show ?thesis using cel.run_same_request by simp
  next
    case (WasmReq n)
    with run show ?thesis using wasm.run_same_request by (auto split: prod.splits)
  next
    case SyntaxReq
    with run show ?thesis using gql_syntax.run_same_request by simp
  next
    case HeaderReq
    with run show ?thesis using header_validation.run_same_request by simp
  next
    case (DeployReq tok)
    with run show ?thesis using deploy_auth.run_same_request by simp
  next
    case (RbacReq n r)
    with run show ?thesis using rbac.run_same_request by (auto split: prod.splits)
  qed
qed

interpretation configured_pipeline: request_port "run_request_pipeline ie ck is" for ie ck "is"
  unfolding run_request_pipeline_def
  by (rule request_pipeline_port) (auto intro: configured.request_port_axioms)

section \<open>Properties\<close>

definition reg_names :: "('p, 'm) registry \<Rightarrow> string set" where
  "reg_names reg = dom (map_of (reg_request reg)) \<union> dom (map_of (reg_response reg))"

lemma build_interceptor_names:
  "build_interceptor ie cfg (name, ic) reg = Inr reg' \<Longrightarrow> reg_names reg' = insert name (reg_names reg)"
  by (auto simp: reg_names_def build_cel_def build_wasm_def build_native_def Let_def
      split: interceptor_type.splits option.splits interceptor_stage.splits sum.splits prod.splits if_splits)

lemma build_all_names:
  "build_all ie cfg ics reg = Inr reg' \<Longrightarrow> reg_names reg' = fst ` set ics \<union> reg_names reg"
proof (induction ie cfg ics reg rule: build_all.induct)
  case (2 ie cfg ic ics reg)
  then obtain reg1 where b: "build_interceptor ie cfg ic reg = Inr reg1" and r: "build_all ie cfg ics reg1 = Inr reg'"
    by (auto split: sum.splits)
  obtain name c where ic: "ic = (name, c)" by fastforce
  from "2.IH" [OF b r] build_interceptor_names [OF b [unfolded ic]] ic show ?case by auto
qed simp

text \<open>The interceptors a list of names stands for: a name of both stages stands for the request interceptor.\<close>

definition request_stages :: "('p, 'm) registry \<Rightarrow> string list \<Rightarrow> ('p, 'm) request_int list" where
  "request_stages reg = List.map_filter (map_of (reg_request reg))"

definition response_stages :: "('p, 'm) registry \<Rightarrow> string list \<Rightarrow> ('p, 'm) response_int list" where
  "response_stages reg = List.map_filter (\<lambda>n. if map_of (reg_request reg) n = None then map_of (reg_response reg) n else None)"

text \<open>The pipeline of an operation among the routes: that of the last route for it whose pipeline is not empty.\<close>

definition last_or :: "'a list \<Rightarrow> 'a list list \<Rightarrow> 'a list" where
  "last_or d ls = (if ls = [] then d else last ls)"

definition route_pipelines :: "(string list \<Rightarrow> 'a list) \<Rightarrow> (string \<times> route_config) list \<Rightarrow> string \<Rightarrow> 'a list list" where
  "route_pipelines stages routes op =
     filter (\<lambda>l. l \<noteq> []) (map (\<lambda>(k, rc). stages (route_interceptors rc)) (filter (\<lambda>(k, rc). r_operation rc = op) routes))"

definition route_stages :: "(string list \<Rightarrow> 'a list) \<Rightarrow> (string \<times> route_config) list \<Rightarrow> string \<Rightarrow> 'a list" where
  "route_stages stages routes op = last_or [] (route_pipelines stages routes op)"

lemma last_or_simps [simp]: "last_or d [] = d" "last_or d (l # ls) = last_or l ls"
  by (simp_all add: last_or_def)

lemma route_pipelines_simps [simp]:
  "route_pipelines stages [] op = []"
  "route_pipelines stages ((k, rc) # rs) op =
     (if r_operation rc = op \<and> stages (route_interceptors rc) \<noteq> []
      then stages (route_interceptors rc) # route_pipelines stages rs op else route_pipelines stages rs op)"
  by (simp_all add: route_pipelines_def)

lemma route_stages_only:
  "filter (\<lambda>(k, rc). r_operation rc = op) routes = [(k, rc)] \<Longrightarrow> route_stages stages routes op = stages (route_interceptors rc)"
  by (simp add: route_stages_def route_pipelines_def)

text \<open>Every name a configuration refers to.\<close>

definition referenced :: "spectra_config \<Rightarrow> string set" where
  "referenced cfg = set (gql_interceptors (cfg_gql cfg))
     \<union> (\<Union>(k, rc) \<in> set (gql_routes (cfg_gql cfg)). set (route_interceptors rc))"

lemma stages_Cons [simp]:
  "request_stages reg [] = []" "response_stages reg [] = []"
  "request_stages reg (n # ns) = (case map_of (reg_request reg) n of Some i \<Rightarrow> i # request_stages reg ns | None \<Rightarrow> request_stages reg ns)"
  "response_stages reg (n # ns) =
     (case map_of (reg_request reg) n of
        Some i \<Rightarrow> response_stages reg ns
      | None \<Rightarrow> (case map_of (reg_response reg) n of Some i \<Rightarrow> i # response_stages reg ns | None \<Rightarrow> response_stages reg ns))"
  by (simp_all add: request_stages_def response_stages_def List.map_filter_def split: option.split)

lemma stages_complete:
  "set ns \<subseteq> reg_names reg \<Longrightarrow> length (request_stages reg ns) + length (response_stages reg ns) = length ns"
  by (induction ns) (auto simp: reg_names_def split: option.split)

lemma assemble_stages:
  "case assemble msg reg ns (rq, rs) of
     Inl e \<Rightarrow> \<not> set ns \<subseteq> reg_names reg
   | Inr p \<Rightarrow> set ns \<subseteq> reg_names reg \<and> p = (rq @ request_stages reg ns, rs @ response_stages reg ns)"
proof (induction ns arbitrary: rq rs)
  case (Cons n ns)
  show ?case
  proof (cases "map_of (reg_request reg) n")
    case (Some i)
    with Cons.IH [of "rq @ [i]" rs] show ?thesis by (auto simp: reg_names_def split: sum.splits)
  next
    case None
    then show ?thesis
    proof (cases "map_of (reg_response reg) n")
      case (Some i)
      with None Cons.IH [of rq "rs @ [i]"] show ?thesis by (auto simp: reg_names_def split: sum.splits)
    next
      case none: None
      with None have "n \<notin> reg_names reg" by (auto simp: reg_names_def)
      with None none show ?thesis by simp
    qed
  qed
qed simp

lemma assemble_routes_stages:
  "case assemble_routes reg rs mg of
     Inl e \<Rightarrow> \<not> (\<forall>(k, rc) \<in> set rs. set (route_interceptors rc) \<subseteq> reg_names reg)
   | Inr mg' \<Rightarrow> (\<forall>(k, rc) \<in> set rs. set (route_interceptors rc) \<subseteq> reg_names reg)
       \<and> global_request mg' = global_request mg \<and> global_response mg' = global_response mg
       \<and> (\<forall>op. unwrap_or (map_of (route_request mg') op) []
                = last_or (unwrap_or (map_of (route_request mg) op) []) (route_pipelines (request_stages reg) rs op)
              \<and> unwrap_or (map_of (route_response mg') op) []
                = last_or (unwrap_or (map_of (route_response mg) op) []) (route_pipelines (response_stages reg) rs op))"
proof (induction reg rs mg rule: assemble_routes.induct)
  case (2 reg key rc rs mg)
  let ?msg = "\<lambda>n. ''Route '' @ quoted key @ '' references unknown interceptor '' @ quoted n"
  note st = assemble_stages [where msg = ?msg and reg = reg and ns = "route_interceptors rc" and rq = "[]" and rs = "[]"]
  show ?case
  proof (cases "assemble ?msg reg (route_interceptors rc) ([], [])")
    case (Inl e)
    with st show ?thesis by auto
  next
    case (Inr p)
    then have p: "p = (request_stages reg (route_interceptors rc), response_stages reg (route_interceptors rc))"
      and sub: "set (route_interceptors rc) \<subseteq> reg_names reg" using st by simp_all
    let ?rq = "request_stages reg (route_interceptors rc)" and ?rp = "response_stages reg (route_interceptors rc)"
    define mg1 where "mg1 = mg\<lparr>route_request := (if ?rq = [] then route_request mg else alist_insert (r_operation rc) ?rq (route_request mg)),
                route_response := (if ?rp = [] then route_response mg else alist_insert (r_operation rc) ?rp (route_response mg))\<rparr>"
    have step: "assemble_routes reg ((key, rc) # rs) mg = assemble_routes reg rs mg1"
      using Inr p by (simp add: mg1_def)
    have same: "global_request mg1 = global_request mg" "global_response mg1 = global_response mg"
      "unwrap_or (map_of (route_request mg1) op) [] = (if r_operation rc = op \<and> ?rq \<noteq> [] then ?rq else unwrap_or (map_of (route_request mg) op) [])"
      "unwrap_or (map_of (route_response mg1) op) [] = (if r_operation rc = op \<and> ?rp \<noteq> [] then ?rp else unwrap_or (map_of (route_response mg) op) [])" for op
      by (simp_all add: mg1_def)
    note ih = "2.IH" [OF Inr [unfolded p] refl, folded mg1_def, unfolded same]
    show ?thesis
    proof (cases "assemble_routes reg rs mg1")
      case (Inl e)
      with ih step sub show ?thesis by simp
    next
      case (Inr mg')
      with ih step sub show ?thesis by simp
    qed
  qed
qed simp

text \<open>C37. \<open>InterceptorManager::from_config\<close> builds exactly what is configured.  It fails only when the WASM engine
  does not start, a declared interceptor cannot be built (a CEL expression that does not compile, a plugin
  that does not load), or a name is referred to, globally or on a route, that is not declared.  Otherwise
  every interceptor referred to is there, and the pipelines of every operation are the global ones in the
  order of the global list followed by those of its route in the order of the route's list.  Where several
  routes have one operation, the last with a non-empty pipeline for the stage counts, and the
  others' interceptors do not run.\<close>

theorem from_config_complete:
  "case from_config ie cfg of
     Inl e \<Rightarrow> ((\<exists>(n, ic) \<in> set (cfg_interceptors cfg). ic_type ic = WasmType) \<and> (\<exists>e'. ie_wasm_engine ie = Inl e'))
       \<or> (\<exists>e'. build_all ie cfg (cfg_interceptors cfg) \<lparr>reg_request = [], reg_response = [], reg_plugins = Map.empty\<rparr> = Inl e')
       \<or> \<not> referenced cfg \<subseteq> fst ` set (cfg_interceptors cfg)
   | Inr (mg, ps) \<Rightarrow> \<exists>reg. build_all ie cfg (cfg_interceptors cfg)
           \<lparr>reg_request = [], reg_response = [], reg_plugins = Map.empty\<rparr> = Inr reg
       \<and> ps = reg_plugins reg \<and> referenced cfg \<subseteq> fst ` set (cfg_interceptors cfg)
       \<and> (\<forall>n \<in> referenced cfg. map_of (reg_request reg) n \<noteq> None \<or> map_of (reg_response reg) n \<noteq> None)
       \<and> get_request_pipeline mg None = request_stages reg (gql_interceptors (cfg_gql cfg))
       \<and> get_response_pipeline mg None = response_stages reg (gql_interceptors (cfg_gql cfg))
       \<and> (\<forall>op. get_request_pipeline mg (Some op) = request_stages reg (gql_interceptors (cfg_gql cfg))
                  @ route_stages (request_stages reg) (gql_routes (cfg_gql cfg)) op
              \<and> get_response_pipeline mg (Some op) = response_stages reg (gql_interceptors (cfg_gql cfg))
                  @ route_stages (response_stages reg) (gql_routes (cfg_gql cfg)) op)"
proof -
  let ?reg0 = "\<lparr>reg_request = [], reg_response = [], reg_plugins = Map.empty\<rparr> :: ('a, 'b) registry"
  let ?msg = "\<lambda>n. ''Global interceptor '' @ quoted n @ '' is not registered in [interceptors]''"
  let ?names = "gql_interceptors (cfg_gql cfg)" and ?routes = "gql_routes (cfg_gql cfg)"
  let ?eng = "if list_ex (\<lambda>(n, ic). ic_type ic = WasmType) (cfg_interceptors cfg) then ie_wasm_engine ie else Inr ()"
  show ?thesis
  proof (cases "(\<exists>e'. ?eng = Inl e') \<or> (\<exists>e'. build_all ie cfg (cfg_interceptors cfg) ?reg0 = Inl e')")
    case True
    then have "\<exists>e. from_config ie cfg = Inl e"
      by (cases ?eng; cases "build_all ie cfg (cfg_interceptors cfg) ?reg0") (auto simp: from_config_def Let_def)
    then obtain e where "from_config ie cfg = Inl e" by blast
    then show ?thesis using True by (auto simp: list_ex_iff split: if_splits)
  next
    case False
    then obtain u reg where u: "?eng = Inr u" and b: "build_all ie cfg (cfg_interceptors cfg) ?reg0 = Inr reg"
      by (metis old.sum.exhaust)
    have names: "reg_names reg = fst ` set (cfg_interceptors cfg)"
      using build_all_names [OF b] by (simp add: reg_names_def)
    define mg0 where "mg0 = manager_empty\<lparr>global_request := request_stages reg ?names, global_response := response_stages reg ?names\<rparr>"
    have f: "from_config ie cfg =
        (if set ?names \<subseteq> reg_names reg then (case assemble_routes reg ?routes mg0 of Inl e \<Rightarrow> Inl e | Inr mg \<Rightarrow> Inr (mg, reg_plugins reg))
         else map_sum id undefined (assemble ?msg reg ?names ([], [])))"
      using u b assemble_stages [where msg = ?msg and reg = reg and ns = ?names and rq = "[]" and rs = "[]"]
      by (auto simp: from_config_def mg0_def Let_def split: sum.splits)
    have ref: "referenced cfg \<subseteq> reg_names reg \<longleftrightarrow> set ?names \<subseteq> reg_names reg
        \<and> (\<forall>(k, rc) \<in> set ?routes. set (route_interceptors rc) \<subseteq> reg_names reg)"
      by (auto simp: referenced_def)
    show ?thesis
    proof (cases "from_config ie cfg")
      case (Inl e)
      then have "\<not> referenced cfg \<subseteq> reg_names reg"
        using f ref assemble_routes_stages [where reg = reg and rs = ?routes and mg = mg0] by (auto split: if_splits sum.splits)
      then show ?thesis using Inl names by simp
    next
      case (Inr x)
      then have s: "set ?names \<subseteq> reg_names reg"
        using f assemble_stages [where msg = ?msg and reg = reg and ns = ?names and rq = "[]" and rs = "[]"] by (auto split: if_splits sum.splits)
      then obtain mg where mg: "assemble_routes reg ?routes mg0 = Inr mg" "x = (mg, reg_plugins reg)"
        using Inr f by (auto split: sum.splits)
      note rt = assemble_routes_stages [where reg = reg and rs = ?routes and mg = mg0, unfolded mg(1) sum.case]
      have "referenced cfg \<subseteq> reg_names reg" using ref s rt by blast
      then show ?thesis using Inr mg b rt names
        by (auto simp: get_request_pipeline_def get_response_pipeline_def route_stages_def mg0_def manager_empty_def reg_names_def)
    qed
  qed
qed

definition toy_env :: "(string, unit, unit) int_env" where
  "toy_env = \<lparr>ie_env = (\<lambda>_. None), ie_compile_cel = Inr, ie_execute = (\<lambda>_ _. Inr (CBool True)),
     ie_debug_cel = (\<lambda>_. []), ie_wasm_engine = Inr (), ie_deserialize = (\<lambda>_. Inr ()),
     ie_compile_wasm = (\<lambda>_. Inr ()), ie_parse_wat = Inr, ie_read_file = Inr,
     ie_invoke = (\<lambda>_ _ _ _. Inr JNull), ie_from_str = (\<lambda>_. Inl []), ie_apollo = (\<lambda>_. ([], [])),
     ie_show_uuid = (\<lambda>_. []), ie_crypto = toy_crypto, ie_lru = no_cache\<rparr>"

definition blank_interceptor :: "interceptor_type \<Rightarrow> interceptor_config" where
  "blank_interceptor t = \<lparr>ic_type = t, ic_stage = RequestStage, ic_expression = Some ''true'', ic_status_code = None,
     ic_code = None, ic_message = None, ic_action = None, ic_tag = None, ic_path = None, ic_timeout_ms = None,
     ic_fail_mode = None, ic_failure_threshold = None, ic_cooloff_duration_secs = None, ic_kind = None,
     ic_token = None, ic_provider = None, ic_jwks_url = None, ic_secret = None, ic_mutations_default = None,
     ic_queries_default = None, ic_unauthenticated_ops = None, ic_roles = None, ic_subject_path = None,
     ic_tenant_path = None, ic_roles_path = None, ic_permissions_path = None\<rparr>"

definition guarded_config :: spectra_config where
  "guarded_config = sample_config\<lparr>cfg_interceptors := [(''policy'', blank_interceptor CelType)],
     cfg_gql := (cfg_gql sample_config)\<lparr>gql_interceptors := [''policy'']\<rparr>\<rparr>"

theorem from_config_complete_witness:
  "\<exists>mg ps reg. from_config toy_env guarded_config = Inr (mg, ps)
     \<and> get_request_pipeline mg (Some ''pay'') = request_stages reg [''policy''] \<and> map_of (reg_request reg) ''policy'' \<noteq> None"
proof -
  obtain mg ps where f: "from_config toy_env guarded_config = Inr (mg, ps)"
    by (simp add: from_config_def guarded_config_def sample_config_def blank_interceptor_def build_cel_def
        cel_request_new_def cel_with_options_def toy_env_def alist_insert_def)
  obtain reg where b: "build_all toy_env guarded_config (cfg_interceptors guarded_config)
        \<lparr>reg_request = [], reg_response = [], reg_plugins = Map.empty\<rparr> = Inr reg"
    and g: "get_request_pipeline mg (Some ''pay'') = request_stages reg (gql_interceptors (cfg_gql guarded_config))
        @ route_stages (request_stages reg) (gql_routes (cfg_gql guarded_config)) ''pay''"
    using from_config_complete [where ie = toy_env and cfg = guarded_config] f by auto
  have "map_of (reg_request reg) ''policy'' \<noteq> None"
    using b by (auto simp: guarded_config_def blank_interceptor_def build_cel_def cel_request_new_def cel_with_options_def
        toy_env_def Let_def)
  moreover have "gql_interceptors (cfg_gql guarded_config) = [''policy'']" "gql_routes (cfg_gql guarded_config) = []"
    by (simp_all add: guarded_config_def sample_config_def)
  ultimately show ?thesis using f g by (auto simp: route_stages_def)
qed

text \<open>Of two routes for one operation the gateway may take one and run the interceptors of the other: routes match in
  order, pipelines are overwritten in order.\<close>

lemma routes_of_one_operation_overwrite:
  assumes "assemble_routes reg [(k1, rc1), (k2, rc2)] manager_empty = Inr mg"
    and "r_operation rc1 = op" "r_operation rc2 = op" "request_stages reg (route_interceptors rc2) \<noteq> []"
  shows "get_request_pipeline mg (Some op) = request_stages reg (route_interceptors rc2)"
  using assemble_routes_stages [where reg = reg and rs = "[(k1, rc1), (k2, rc2)]" and mg = manager_empty] assms
  by (auto simp: get_request_pipeline_def manager_empty_def)

text \<open>Bodies are buffered whenever they must be: \<open>has_response_interceptors\<close>, on which the gateway
  decides to stream a response unbuffered, is false exactly when the response pipeline of
  the operation is empty; and in every pipeline the global interceptors come first, so a
  route can add checks but not remove one.\<close>

theorem pipelines_global_first:
  "(has_response_interceptors mg op \<longleftrightarrow> get_response_pipeline mg op \<noteq> [])
   \<and> take (length (global_request mg)) (get_request_pipeline mg op) = global_request mg
   \<and> take (length (global_response mg)) (get_response_pipeline mg op) = global_response mg"
  by (auto simp: has_response_interceptors_def get_response_pipeline_def get_request_pipeline_def split: option.splits)

text \<open>The pipelines of a route are found under the exact text of its operation, while routes are
  matched without regard to case.\<close>

lemma route_pipeline_case_sensitive:
  "\<exists>op op'. eq_ignore_ascii_case op op' \<and>
     get_request_pipeline (manager_empty\<lparr>route_request := [(op, [SyntaxReq])]\<rparr>) (Some op') = []"
proof (intro exI conjI)
  show "eq_ignore_ascii_case ''pay'' ''Pay''" by code_simp
  show "get_request_pipeline (manager_empty\<lparr>route_request := [(''pay'', [SyntaxReq])]\<rparr>) (Some ''Pay'') = []"
    by (simp add: get_request_pipeline_def manager_empty_def)
qed

text \<open>The native \<open>sensitive_data\<close> interceptor is built without tokens and without an evaluator: it
  passes every response.\<close>

lemma configured_sensitive_data_passes:
  "fst (run_response ie ck (SensitiveResp \<lparr>sd_evaluator = None, sd_forbidden_tokens = []\<rparr>) w c p body) = Pass"
  by (simp add: sensitive_data_interceptor_def Let_def split: option.splits)

end
