(* ===== verification/Telemetry.thy ===== *)
theory Telemetry
  imports Protocol Config
begin

text \<open>
  \<open>telemetry/event.rs\<close> and \<open>telemetry/topic.rs\<close>: the completion event and the topics it is
  published on.
\<close>

section \<open>Events\<close>

record completion_event =
  ev_id :: uuid
  ev_hlc :: hlc_timestamp
  ev_status :: operation_outcome
  ev_duration_ms :: nat
  ev_operation_name :: "string option"
  ev_request :: "request_info sanitized_payload"
  ev_response :: "response_info option"
  ev_error :: "string option"
  ev_payload_type :: payload_type

text \<open>\<open>request: impl Into<SanitizedPayload<RequestInfo>>\<close>: a plain request is converted by
  \<open>From<RequestInfo>\<close>, which sanitises it; \<open>san\<close> is that conversion.\<close>

definition event_success ::
  "('r \<Rightarrow> request_info sanitized_payload) \<Rightarrow> uuid \<Rightarrow> hlc_timestamp \<Rightarrow> nat \<Rightarrow> string option \<Rightarrow> 'r \<Rightarrow> response_info
     \<Rightarrow> completion_event" where
  "event_success san i h d op req resp =
     \<lparr>ev_id = i, ev_hlc = h, ev_status = Success, ev_duration_ms = d, ev_operation_name = op,
      ev_request = san req, ev_response = Some resp, ev_error = None, ev_payload_type = ResponsePayload\<rparr>"

definition event_failure ::
  "('r \<Rightarrow> request_info sanitized_payload) \<Rightarrow> uuid \<Rightarrow> hlc_timestamp \<Rightarrow> nat \<Rightarrow> string option \<Rightarrow> 'r \<Rightarrow> response_info option
     \<Rightarrow> string \<Rightarrow> completion_event" where
  "event_failure san i h d op req resp err =
     \<lparr>ev_id = i, ev_hlc = h, ev_status = Failed, ev_duration_ms = d, ev_operation_name = op,
      ev_request = san req, ev_response = resp, ev_error = Some err, ev_payload_type = ResponsePayload\<rparr>"

definition event_rejected ::
  "('r \<Rightarrow> request_info sanitized_payload) \<Rightarrow> uuid \<Rightarrow> hlc_timestamp \<Rightarrow> nat \<Rightarrow> string option \<Rightarrow> 'r \<Rightarrow> string
     \<Rightarrow> completion_event" where
  "event_rejected san i h d op req reason =
     \<lparr>ev_id = i, ev_hlc = h, ev_status = Rejected, ev_duration_ms = d, ev_operation_name = op,
      ev_request = san req, ev_response = None, ev_error = Some reason, ev_payload_type = ResponsePayload\<rparr>"

section \<open>Topics\<close>

definition resolve_dispatch_topic :: "request_info \<Rightarrow> string" where
  "resolve_dispatch_topic r =
     (case ri_gql r of
        Some g \<Rightarrow>
          (let op_name = unwrap_or (or_else (gi_operation_name g)
                 (case gi_root_fields g of [] \<Rightarrow> None | f # _ \<Rightarrow> Some f)) ''anonymous''
           in to_lowercase (operation_type_str (gi_operation_type g) @ ''.'' @ op_name))
      | None \<Rightarrow>
          to_uppercase (http_method (ri_http r)) @ ''.'' @
          to_lowercase (replace_char CHR ''.'' CHR ''_'' (uri (ri_http r))))"

definition failed_topic :: "string \<Rightarrow> string" where
  "failed_topic t = t @ ''.failed''"

definition rejection_topic :: "string \<Rightarrow> string" where
  "rejection_topic op = ''interceptors.rejected.'' @ to_lowercase op"

section \<open>Properties\<close>

abbreviation dots :: "string \<Rightarrow> nat" where
  "dots s \<equiv> length (filter (\<lambda>c. c = CHR ''.'') s)"

lemma of_char_eq_dot: "c = CHR ''.'' \<longleftrightarrow> (of_char c :: nat) = 46"
proof
  assume "(of_char c :: nat) = 46"
  then have "(of_char c :: nat) = of_char CHR ''.''" by simp
  then show "c = CHR ''.''" by (simp only: of_char_eq_iff)
qed simp

lemma lower_char_dot [simp]: "lower_char c = CHR ''.'' \<longleftrightarrow> c = CHR ''.''"
  unfolding of_char_eq_dot by (auto simp: lower_char_def is_upper_ascii_def)

lemma upper_char_dot [simp]: "upper_char c = CHR ''.'' \<longleftrightarrow> c = CHR ''.''"
  unfolding of_char_eq_dot by (auto simp: upper_char_def is_lower_ascii_def)

lemma dots_to_lowercase [simp]: "dots (to_lowercase s) = dots s"
  by (induction s) (auto simp: to_lowercase_def)

lemma dots_to_uppercase [simp]: "dots (to_uppercase s) = dots s"
  by (induction s) (auto simp: to_uppercase_def)

lemma dots_replace [simp]: "dots (replace_char CHR ''.'' CHR ''_'' s) = 0"
  by (auto simp: replace_char_def filter_empty_conv)

text \<open>What the GraphQL grammar and HTTP give of names and methods: no dots.\<close>

definition dotless :: "request_info \<Rightarrow> bool" where
  "dotless r =
     (case ri_gql r of
        Some g \<Rightarrow> (\<forall>n. gi_operation_name g = Some n \<longrightarrow> dots n = 0) \<and> (\<forall>f \<in> set (gi_root_fields g). dots f = 0)
      | None \<Rightarrow> dots (http_method (ri_http r)) = 0)"

lemma dispatch_topic_dots: "dotless r \<Longrightarrow> dots (resolve_dispatch_topic r) = 1"
proof (cases "ri_gql r")
  case None
  then show "dotless r \<Longrightarrow> ?thesis" by (simp add: resolve_dispatch_topic_def dotless_def)
next
  case (Some g)
  have "dots (operation_type_str t) = 0" for t by (cases t) simp_all
  then show "dotless r \<Longrightarrow> ?thesis" using Some
    by (auto simp: resolve_dispatch_topic_def dotless_def Let_def or_else_def split: option.splits list.splits)
qed

text \<open>Topics are separated: the topic of a request has exactly two segments, so a failure topic
  (three segments) and a rejection topic (three) never coincide with the topic of any
  request: a consumer of successful events cannot receive failed or rejected ones.\<close>

theorem topics_disjoint:
  assumes "dotless r" "dotless r'"
  shows "failed_topic (resolve_dispatch_topic r) \<noteq> resolve_dispatch_topic r'
    \<and> rejection_topic op \<noteq> resolve_dispatch_topic r'"
proof -
  have "dots (failed_topic (resolve_dispatch_topic r)) = 2"
    using dispatch_topic_dots [OF assms(1)] by (simp add: failed_topic_def)
  moreover have "2 \<le> dots (rejection_topic op)" by (simp add: rejection_topic_def)
  ultimately show ?thesis using dispatch_topic_dots [OF assms(2)] by auto
qed

theorem topics_disjoint_witness:
  "dotless sample_request \<and> failed_topic (resolve_dispatch_topic sample_request) \<noteq> resolve_dispatch_topic sample_request"
proof -
  have d: "dotless sample_request"
    by (simp add: dotless_def sample_request_def request_info_new_def sample_parts_def)
  with topics_disjoint [OF d d] show ?thesis by blast
qed

end
