(* ===== verification/Brokers.thy ===== *)
theory Brokers
  imports Telemetry
begin

text \<open>
  The broker clients of \<open>telemetry/\<close>: NATS JetStream, Redis Streams, SierraDB, Kafka, RabbitMQ,
  Apache Iggy and the webhook, the choice between them and what each sends for a request,
  a response, a terminal event and a plain payload.

  A client is its settings (a record per broker, as the source has a struct per broker) and a
  state: the connection it keeps and the log of what it sent with the answer it got.  The
  client libraries are an argument \<open>net\<close> of every operation: their answers to a connection
  attempt, a send and an acknowledgement while that operation runs, so that a sequence of
  operations meets a sequence of nets.  The serialisers are an argument too.
\<close>

section \<open>Addresses and names\<close>

definition normalize_redis_url :: "string \<Rightarrow> string" where
  "normalize_redis_url addr =
     (let t = trim addr
      in if starts_with t ''redis://'' \<or> starts_with t ''rediss://'' then t
         else case strip_prefix ''sierradb://'' t of
           Some s \<Rightarrow> ''redis://'' @ s
         | None \<Rightarrow> (case strip_prefix ''valkey://'' t of
                      Some s \<Rightarrow> ''redis://'' @ s | None \<Rightarrow> ''redis://'' @ t))"

definition normalize_kafka_hosts :: "string \<Rightarrow> string list" where
  "normalize_kafka_hosts addr =
     (let t = trim addr;
          s = (case strip_prefix ''kafka://'' t of
                 Some s \<Rightarrow> s
               | None \<Rightarrow> unwrap_or (strip_prefix ''redpanda://'' t) t)
      in filter (\<lambda>h. h \<noteq> []) (map trim (split_on CHR '','' s)))"

definition normalize_amqp_url :: "string \<Rightarrow> string" where
  "normalize_amqp_url addr =
     (let t = trim addr
      in if starts_with t ''amqp://'' \<or> starts_with t ''amqps://'' then t
         else ''amqp://'' @ unwrap_or (strip_prefix ''rabbitmq://'' t) t)"

definition normalize_iggy_url :: "string \<Rightarrow> string" where
  "normalize_iggy_url addr =
     (let t = trim addr
      in if starts_with t ''iggy://'' \<or> starts_with t ''iggy+tcp://'' \<or> starts_with t ''iggy+http://'' then t
         else ''iggy://'' @ t)"

definition stream_key :: "string \<Rightarrow> string \<Rightarrow> string" where
  "stream_key prefix topic = prefix @ '':'' @ replace_char CHR ''.'' CHR '':'' topic"

definition kafka_topic :: "string \<Rightarrow> string \<Rightarrow> string" where
  "kafka_topic prefix topic = prefix @ ''.'' @ replace_char CHR '':'' CHR ''.'' topic"

definition routing_key :: "string \<Rightarrow> string \<Rightarrow> string" where
  "routing_key prefix topic = prefix @ ''.'' @ replace_char CHR '':'' CHR ''.'' topic"

text \<open>The delay before reconnection attempt \<open>n\<close>, in milliseconds of a \<open>u64\<close>.\<close>

definition reconnect_delay :: "nat \<Rightarrow> nat \<Rightarrow> nat \<Rightarrow> nat" where
  "reconnect_delay initial_ms max_ms attempts =
     min (min (initial_ms * 2 ^ min attempts 6) (2 ^ 64 - 1)) max_ms"

section \<open>What is sent, and the client libraries\<close>

text \<open>The newtypes of \<open>lapin\<close> and the identifiers of \<open>iggy\<close>.\<close>

datatype short_string = ShortString string
datatype amqp_value = LongString string
datatype iggy_identifier = Named string | Numeric nat

text \<open>\<open>rskafka::record::Record\<close>; the headers are a \<open>BTreeMap\<close>.\<close>

record kafka_record =
  kr_key :: "string option"
  kr_value :: "string option"
  kr_headers :: "string \<rightharpoonup> string"
  kr_timestamp :: nat

record basic_properties =
  bp_content_type :: short_string
  bp_delivery_mode :: nat
  bp_headers :: "short_string \<rightharpoonup> amqp_value"

text \<open>One message as the client library gets it; for the RESP servers the arguments of the command.\<close>

datatype wire =
    NatsMessage string string
  | RespCommand "string list"
  | KafkaProduce string int kafka_record
  | AmqpPublish short_string short_string basic_properties string
  | IggySend iggy_identifier iggy_identifier string
  | HttpPost string "(string \<times> string) list" string

text \<open>How the send of a message ended: confirmed by the server, sent and not confirmed, or not sent.\<close>

datatype delivery = Confirmed | Unconfirmed | SendFailed

text \<open>The JetStream configuration; \<open>js_rest\<close> holds the fields the source does not name.\<close>

datatype storage_type = FileStorage | MemoryStorage

record js_config =
  js_name :: string
  js_description :: "string option"
  js_subjects :: "string list"
  js_max_message_size :: int
  js_storage :: storage_type
  js_rest :: string

datatype js_call = UpdateStream js_config | GetOrCreateStream js_config

record 'k sink_state =
  sk_conn :: "'k option"
  sk_log :: "(wire \<times> delivery) list"
  sk_streams :: "js_call list"

definition sink_init :: "'k sink_state" where
  "sink_init = \<lparr>sk_conn = None, sk_log = [], sk_streams = []\<rparr>"

text \<open>\<open>pingora::Error::explain\<close>.\<close>

datatype error_type = ConnectError | WriteError | Custom string

type_synonym sink_error = "error_type \<times> string"
type_synonym 'k sink_step = "(sink_error + unit) \<times> 'k sink_state"

text \<open>The answers of the client libraries: reading an address, connecting, opening a channel or a
  partition, sending, waiting for the acknowledgement, posting over HTTP, managing the
  JetStream stream, and the check of \<open>iggy\<close> on a payload.\<close>

record 'k net =
  nt_open_url :: "string \<Rightarrow> unit result"
  nt_connect :: "string list \<Rightarrow> 'k result"
  nt_channel :: "'k \<Rightarrow> string \<Rightarrow> int \<Rightarrow> unit result"
  nt_send :: "'k \<Rightarrow> wire \<Rightarrow> unit result"
  nt_ack :: "'k \<Rightarrow> wire \<Rightarrow> unit result"
  nt_post :: "wire \<Rightarrow> nat result"
  nt_js_info :: "'k \<Rightarrow> js_config option"
  nt_js_apply :: "'k \<Rightarrow> js_call \<Rightarrow> unit result"
  nt_js_default :: js_config
  nt_message :: "string \<Rightarrow> unit result"
  nt_now :: nat

text \<open>The serialisers, formatters and the check of an \<open>iggy\<close> name the clients call.\<close>

record encoder =
  en_request :: "request_info \<Rightarrow> string result"
  en_event :: "completion_event \<Rightarrow> string result"
  en_response :: "response_info \<Rightarrow> string result"
  en_uuid :: "uuid \<Rightarrow> string"
  en_utf8_error :: "string \<Rightarrow> string"
  en_status :: "nat \<Rightarrow> string"
  en_named :: "string \<Rightarrow> bool"

text \<open>\<open>JsonEventEncoder\<close>.\<close>

definition encode_request :: "encoder \<Rightarrow> request_info \<Rightarrow> sink_error + string" where
  "encode_request en r =
     (case en_request en r of
        Inl e \<Rightarrow> Inl (Custom ''SerializationError'', ''Request serialization error: '' @ e)
      | Inr b \<Rightarrow> Inr b)"

definition encode_completion :: "encoder \<Rightarrow> completion_event \<Rightarrow> sink_error + string" where
  "encode_completion en ev =
     (case en_event en ev of
        Inl e \<Rightarrow> Inl (Custom ''SerializationError'', ''CompletionEvent serialization error: '' @ e)
      | Inr b \<Rightarrow> Inr b)"

definition encode_sanitized_request :: "encoder \<Rightarrow> request_info sanitized_payload \<Rightarrow> sink_error + string" where
  "encode_sanitized_request en r = encode_request en (payload_inner r)"

text \<open>Steps the clients share: \<open>OnceCell::get_or_try_init\<close>, failing with a context, and noting a send.\<close>

definition get_or_try_init :: "'k result \<Rightarrow> 'k sink_state \<Rightarrow> 'k result \<times> 'k sink_state" where
  "get_or_try_init init s =
     (case sk_conn s of
        Some k \<Rightarrow> (Inr k, s)
      | None \<Rightarrow> (case init of Inl e \<Rightarrow> (Inl e, s) | Inr k \<Rightarrow> (Inr k, s\<lparr>sk_conn := Some k\<rparr>)))"

definition map_err :: "('e \<Rightarrow> 'f) \<Rightarrow> 'e + 'a \<Rightarrow> 'f + 'a" where
  "map_err f r = (case r of Inl e \<Rightarrow> Inl (f e) | Inr a \<Rightarrow> Inr a)"

definition logged :: "wire \<Rightarrow> delivery \<Rightarrow> 'k sink_state \<Rightarrow> 'k sink_state" where
  "logged w d s = s\<lparr>sk_log := sk_log s @ [(w, d)]\<rparr>"

definition with_client ::
  "string \<Rightarrow> 'k result \<times> 'k sink_state \<Rightarrow> ('k \<Rightarrow> 'k sink_state \<Rightarrow> 'k sink_step) \<Rightarrow> 'k sink_step" where
  "with_client what c f =
     (case c of (Inl e, s) \<Rightarrow> (Inl (ConnectError, what @ e), s) | (Inr k, s) \<Rightarrow> f k s)"

definition send_once :: "string \<Rightarrow> wire \<Rightarrow> unit result \<Rightarrow> 'k sink_state \<Rightarrow> 'k sink_step" where
  "send_once what w answer s =
     (case answer of
        Inl e \<Rightarrow> (Inl (WriteError, what @ e), logged w SendFailed s)
      | Inr _ \<Rightarrow> (Inr (), logged w Confirmed s))"

text \<open>\<open>?\<close> on an encoding, and a result that is dropped.\<close>

definition encoded :: "sink_error + string \<Rightarrow> (string \<Rightarrow> 'k sink_step) \<Rightarrow> 'k sink_state \<Rightarrow> 'k sink_step" where
  "encoded r f s = (case r of Inl e \<Rightarrow> (Inl e, s) | Inr b \<Rightarrow> f b)"

definition ignore_result :: "'k sink_step \<Rightarrow> 'k sink_step" where
  "ignore_result st = (Inr (), snd st)"

definition debug_list :: "string list \<Rightarrow> string" where
  "debug_list xs = ''['' @ join '', '' (map debug_str xs) @ '']''"

fun debug_status :: "operation_outcome \<Rightarrow> string" where
  "debug_status Success = ''Success''"
| "debug_status Failed = ''Failed''"
| "debug_status Rejected = ''Rejected''"

text \<open>\<open>from_utf8(payload).unwrap_or("")\<close>.\<close>

abbreviation utf8_or_empty :: "string \<Rightarrow> string" where
  "utf8_or_empty p \<equiv> unwrap_or (from_utf8 p) ''''"

text \<open>The names the headers give to a request: its GraphQL operation or a default.\<close>

abbreviation operation_or :: "string \<Rightarrow> request_info \<Rightarrow> string" where
  "operation_or d r \<equiv> unwrap_or (Option.bind (ri_gql r) gi_operation_name) d"

definition command_headers :: "encoder \<Rightarrow> request_info \<Rightarrow> (string \<times> string) list" where
  "command_headers en r =
     [(''event_type'', ''Command''), (''request_id'', en_uuid en (ri_request_id r)),
      (''hlc'', to_compact_string (ri_hlc r)), (''operation'', operation_or ''unknown'' r)]"

definition response_headers :: "encoder \<Rightarrow> response_info \<Rightarrow> (string \<times> string) list" where
  "response_headers en r =
     [(''event_type'', ''Response''), (''request_id'', en_uuid en (rs_request_id r)),
      (''hlc'', to_compact_string (rs_hlc r))]"

definition terminal_headers :: "encoder \<Rightarrow> completion_event \<Rightarrow> (string \<times> string) list" where
  "terminal_headers en ev =
     [(''event_type'', ''TerminalEvent''), (''status'', debug_status (ev_status ev)),
      (''request_id'', en_uuid en (ri_request_id (payload_inner (ev_request ev)))),
      (''hlc'', to_compact_string (ev_hlc ev)),
      (''operation'', unwrap_or (ev_operation_name ev) ''unknown''),
      (''duration_ms'', show_nat (ev_duration_ms ev))]"

section \<open>NATS JetStream\<close>

record nats_dispatch =
  nd_addr :: string
  nd_initial_reconnect_ms :: nat
  nd_max_reconnect_ms :: nat

definition nats_new_with_options :: "string \<Rightarrow> nat \<Rightarrow> nat \<Rightarrow> nats_dispatch" where
  "nats_new_with_options addr initial mx =
     \<lparr>nd_addr = addr, nd_initial_reconnect_ms = initial, nd_max_reconnect_ms = mx\<rparr>"

definition nats_new :: "bool \<Rightarrow> string \<Rightarrow> nats_dispatch" where
  "nats_new tty addr = (if tty then nats_new_with_options addr 250 5000 else nats_new_with_options addr 10 2000)"

definition nats_supports :: "string \<Rightarrow> bool" where
  "nats_supports mtd = contains_str (to_lowercase mtd) ''nats''"

definition target_subjects :: "string list" where
  "target_subjects = [''mutation.>'', ''query.>'', ''subscription.>'', ''spectra.>'', ''interceptors.>'']"

fun add_subjects :: "string list \<Rightarrow> string list \<times> bool \<Rightarrow> string list \<times> bool" where
  "add_subjects [] acc = acc"
| "add_subjects (t # ts) (subjects, needs_update) =
     add_subjects ts (if t \<in> set subjects then (subjects, needs_update) else (subjects @ [t], True))"

definition default_stream :: "'k net \<Rightarrow> js_config" where
  "default_stream nt = (nt_js_default nt)
     \<lparr>js_name := ''mutations'', js_description := Some ''SpectraGQL mutation and telemetry stream'',
      js_subjects := target_subjects, js_max_message_size := 4 * 1024 * 1024\<rparr>"

definition ensure_default_streams :: "'k net \<Rightarrow> 'k \<Rightarrow> 'k sink_state \<Rightarrow> 'k sink_state" where
  "ensure_default_streams nt js s =
     (case nt_js_info nt js of
        Some cfg \<Rightarrow>
          (let (subjects, needs_update) = add_subjects target_subjects (js_subjects cfg, False)
           in if needs_update
              then s\<lparr>sk_streams := sk_streams s @ [UpdateStream (cfg\<lparr>js_subjects := subjects\<rparr>)]\<rparr> else s)
      | None \<Rightarrow>
          (let c = GetOrCreateStream (default_stream nt);
               m = GetOrCreateStream ((default_stream nt)\<lparr>js_storage := MemoryStorage\<rparr>)
           in case nt_js_apply nt js c of
                Inr _ \<Rightarrow> s\<lparr>sk_streams := sk_streams s @ [c]\<rparr>
              | Inl _ \<Rightarrow> s\<lparr>sk_streams := sk_streams s @ [c, m]\<rparr>))"

definition get_jetstream :: "nats_dispatch \<Rightarrow> 'k net \<Rightarrow> 'k sink_state \<Rightarrow> 'k result \<times> 'k sink_state" where
  "get_jetstream nd nt s =
     (case sk_conn s of
        Some js \<Rightarrow> (Inr js, s)
      | None \<Rightarrow>
          (case nt_connect nt [nd_addr nd] of
             Inl e \<Rightarrow> (Inl e, s)
           | Inr js \<Rightarrow> (Inr js, (ensure_default_streams nt js s)\<lparr>sk_conn := Some js\<rparr>)))"

definition evict_client :: "'k sink_state \<Rightarrow> 'k sink_state" where
  "evict_client s = s\<lparr>sk_conn := None\<rparr>"

definition write_to_nats :: "nats_dispatch \<Rightarrow> 'k net \<Rightarrow> string \<Rightarrow> string \<Rightarrow> 'k sink_state \<Rightarrow> 'k sink_step" where
  "write_to_nats nd nt subj msg s =
     with_client ''NATS connect error: '' (get_jetstream nd nt s) (\<lambda>js s1.
       let w = NatsMessage subj msg
       in case nt_send nt js w of
            Inl e \<Rightarrow> (Inl (WriteError, ''NATS publish error: '' @ e), evict_client (logged w SendFailed s1))
          | Inr _ \<Rightarrow>
              (case nt_ack nt js w of
                 Inl e \<Rightarrow> (Inl (WriteError, ''NATS ack error: '' @ e), logged w Unconfirmed s1)
               | Inr _ \<Rightarrow> (Inr (), logged w Confirmed s1)))"

definition nats_publish ::
  "nats_dispatch \<Rightarrow> encoder \<Rightarrow> 'k net \<Rightarrow> string \<Rightarrow> string \<Rightarrow> 'k sink_state \<Rightarrow> 'k sink_step" where
  "nats_publish nd en nt topic payload s =
     (case from_utf8 payload of
        None \<Rightarrow> (Inl (Custom ''Utf8Error'', ''Invalid UTF-8 payload: '' @ en_utf8_error en payload), s)
      | Some msg \<Rightarrow> write_to_nats nd nt topic msg s)"

definition nats_request ::
  "nats_dispatch \<Rightarrow> encoder \<Rightarrow> 'k net \<Rightarrow> request_info \<Rightarrow> 'k sink_state \<Rightarrow> 'k sink_step" where
  "nats_request nd en nt r s =
     encoded (encode_request en r) (\<lambda>payload. nats_publish nd en nt (resolve_dispatch_topic r) payload s) s"

definition nats_response ::
  "nats_dispatch \<Rightarrow> encoder \<Rightarrow> 'k net \<Rightarrow> string \<Rightarrow> response_info \<Rightarrow> 'k sink_state \<Rightarrow> 'k sink_step" where
  "nats_response nd en nt topic r s =
     (case en_response en r of
        Inl _ \<Rightarrow> (Inr (), s)
      | Inr payload \<Rightarrow> ignore_result (nats_publish nd en nt topic payload s))"

definition nats_terminal ::
  "nats_dispatch \<Rightarrow> encoder \<Rightarrow> 'k net \<Rightarrow> string \<Rightarrow> completion_event \<Rightarrow> 'k sink_state \<Rightarrow> 'k sink_step" where
  "nats_terminal nd en nt topic ev s =
     encoded (encode_completion en ev) (\<lambda>payload.
       case nats_publish nd en nt topic payload s of
         (Inl e, s1) \<Rightarrow> (Inl e, s1)
       | (Inr _, s1) \<Rightarrow>
           if ev_status ev = Failed
           then ignore_result (nats_publish nd en nt (failed_topic topic) payload s1) else (Inr (), s1)) s"

section \<open>Servers that speak RESP: Redis Streams and SierraDB\<close>

record resp_dispatch =
  rd_addr :: string
  rd_stream_prefix :: string

definition resp_with_prefix :: "string \<Rightarrow> string \<Rightarrow> resp_dispatch" where
  "resp_with_prefix addr prefix = \<lparr>rd_addr = normalize_redis_url addr, rd_stream_prefix = prefix\<rparr>"

definition redis_new :: "string \<Rightarrow> resp_dispatch" where
  "redis_new addr = resp_with_prefix addr ''spectra''"

definition sierra_new :: "string \<Rightarrow> resp_dispatch" where
  "sierra_new addr = resp_with_prefix addr ''spectra''"

definition redis_supports :: "string \<Rightarrow> bool" where
  "redis_supports mtd =
     (to_lowercase mtd \<in> {''redis'', ''redis_streams'', ''redis-streams'', ''valkey'', ''dragonfly''})"

definition sierra_supports :: "string \<Rightarrow> bool" where
  "sierra_supports mtd = (to_lowercase mtd \<in> {''sierradb'', ''sierra'', ''sierra-db''})"

definition resp_get_connection :: "resp_dispatch \<Rightarrow> 'k net \<Rightarrow> 'k sink_state \<Rightarrow> 'k result \<times> 'k sink_state" where
  "resp_get_connection rd nt s =
     get_or_try_init
       (case nt_open_url nt (rd_addr rd) of
          Inl e \<Rightarrow> Inl (''Failed to create RESP client for '' @ rd_addr rd @ '': '' @ e)
        | Inr _ \<Rightarrow>
            map_err (\<lambda>e. ''Failed to initialize RESP ConnectionManager for '' @ rd_addr rd @ '': '' @ e)
              (nt_connect nt [rd_addr rd])) s"

definition build_xadd_cmd :: "string \<Rightarrow> (string \<times> string) list \<Rightarrow> wire" where
  "build_xadd_cmd stream flds = RespCommand ([''XADD'', stream, ''*''] @ concat (map (\<lambda>(k, v). [k, v]) flds))"

definition write_to_stream ::
  "resp_dispatch \<Rightarrow> 'k net \<Rightarrow> string \<Rightarrow> (string \<times> string) list \<Rightarrow> 'k sink_state \<Rightarrow> 'k sink_step" where
  "write_to_stream rd nt stream flds s =
     with_client ''Redis connection error: '' (resp_get_connection rd nt s) (\<lambda>k.
       send_once ''Redis XADD error: '' (build_xadd_cmd stream flds) (nt_send nt k (build_xadd_cmd stream flds)))"

definition redis_publish :: "resp_dispatch \<Rightarrow> 'k net \<Rightarrow> string \<Rightarrow> string \<Rightarrow> 'k sink_state \<Rightarrow> 'k sink_step" where
  "redis_publish rd nt topic payload =
     write_to_stream rd nt (stream_key (rd_stream_prefix rd) topic)
       [(''event_type'', ''Event''), (''payload'', utf8_or_empty payload)]"

definition redis_request ::
  "resp_dispatch \<Rightarrow> encoder \<Rightarrow> 'k net \<Rightarrow> request_info \<Rightarrow> 'k sink_state \<Rightarrow> 'k sink_step" where
  "redis_request rd en nt r s =
     encoded (encode_request en r) (\<lambda>payload.
       write_to_stream rd nt (stream_key (rd_stream_prefix rd) (resolve_dispatch_topic r))
         (command_headers en r @ [(''payload'', from_utf8_lossy payload)]) s) s"

definition redis_response ::
  "resp_dispatch \<Rightarrow> encoder \<Rightarrow> 'k net \<Rightarrow> string \<Rightarrow> response_info \<Rightarrow> 'k sink_state \<Rightarrow> 'k sink_step" where
  "redis_response rd en nt topic r s =
     (case en_response en r of
        Inl _ \<Rightarrow> (Inr (), s)
      | Inr payload \<Rightarrow>
          write_to_stream rd nt (stream_key (rd_stream_prefix rd) topic)
            (response_headers en r @ [(''payload'', payload)]) s)"

definition redis_terminal ::
  "resp_dispatch \<Rightarrow> encoder \<Rightarrow> 'k net \<Rightarrow> string \<Rightarrow> completion_event \<Rightarrow> 'k sink_state \<Rightarrow> 'k sink_step" where
  "redis_terminal rd en nt topic ev s =
     encoded (encode_completion en ev) (\<lambda>payload.
       write_to_stream rd nt (stream_key (rd_stream_prefix rd) topic)
         (terminal_headers en ev @ [(''payload'', from_utf8_lossy payload)]) s) s"

definition build_eappend_cmd :: "string \<Rightarrow> string \<Rightarrow> string \<Rightarrow> wire" where
  "build_eappend_cmd stream event_type payload =
     RespCommand [''EAPPEND'', stream, event_type, ''EXPECTED_VERSION'', ''any'', ''PAYLOAD'', payload]"

definition append_event ::
  "resp_dispatch \<Rightarrow> 'k net \<Rightarrow> string \<Rightarrow> string \<Rightarrow> string \<Rightarrow> 'k sink_state \<Rightarrow> 'k sink_step" where
  "append_event rd nt stream event_type payload s =
     with_client ''SierraDB connection error: '' (resp_get_connection rd nt s) (\<lambda>k.
       send_once ''SierraDB EAPPEND error: '' (build_eappend_cmd stream event_type payload)
         (nt_send nt k (build_eappend_cmd stream event_type payload)))"

definition stream_id :: "string \<Rightarrow> string \<Rightarrow> string" where
  "stream_id prefix topic = prefix @ '':'' @ replace_char CHR ''.'' CHR '':'' topic"

definition sierra_publish :: "resp_dispatch \<Rightarrow> 'k net \<Rightarrow> string \<Rightarrow> string \<Rightarrow> 'k sink_state \<Rightarrow> 'k sink_step" where
  "sierra_publish rd nt topic payload =
     append_event rd nt (stream_id (rd_stream_prefix rd) topic) ''Event'' (utf8_or_empty payload)"

definition sierra_request ::
  "resp_dispatch \<Rightarrow> encoder \<Rightarrow> 'k net \<Rightarrow> request_info \<Rightarrow> 'k sink_state \<Rightarrow> 'k sink_step" where
  "sierra_request rd en nt r s =
     encoded (encode_request en r) (\<lambda>payload.
       append_event rd nt (stream_id (rd_stream_prefix rd) (resolve_dispatch_topic r))
         (operation_or ''Command'' r) (from_utf8_lossy payload) s) s"

definition sierra_response ::
  "resp_dispatch \<Rightarrow> encoder \<Rightarrow> 'k net \<Rightarrow> string \<Rightarrow> response_info \<Rightarrow> 'k sink_state \<Rightarrow> 'k sink_step" where
  "sierra_response rd en nt topic r s =
     (case en_response en r of
        Inl _ \<Rightarrow> (Inr (), s)
      | Inr payload \<Rightarrow> append_event rd nt (stream_id (rd_stream_prefix rd) topic) ''Response'' payload s)"

definition sierra_terminal ::
  "resp_dispatch \<Rightarrow> encoder \<Rightarrow> 'k net \<Rightarrow> string \<Rightarrow> completion_event \<Rightarrow> 'k sink_state \<Rightarrow> 'k sink_step" where
  "sierra_terminal rd en nt topic ev s =
     encoded (encode_completion en ev) (\<lambda>payload.
       append_event rd nt (stream_id (rd_stream_prefix rd) topic)
         (''TerminalEvent:'' @ debug_status (ev_status ev)) (from_utf8_lossy payload) s) s"

section \<open>Kafka\<close>

record kafka_dispatch =
  kd_hosts :: "string list"
  kd_topic_prefix :: string
  kd_partition :: int

definition kafka_with_prefix_and_partition :: "string \<Rightarrow> string \<Rightarrow> int \<Rightarrow> kafka_dispatch" where
  "kafka_with_prefix_and_partition addr prefix partn =
     \<lparr>kd_hosts = normalize_kafka_hosts addr, kd_topic_prefix = prefix, kd_partition = partn\<rparr>"

definition kafka_new :: "string \<Rightarrow> kafka_dispatch" where
  "kafka_new addr = kafka_with_prefix_and_partition addr ''spectra'' 0"

definition kafka_supports :: "string \<Rightarrow> bool" where
  "kafka_supports mtd = (to_lowercase mtd \<in> {''kafka'', ''redpanda'', ''kafka-cluster''})"

definition build_record :: "nat \<Rightarrow> string option \<Rightarrow> string \<Rightarrow> (string \<times> string) list \<Rightarrow> kafka_record" where
  "build_record now key payload hs =
     \<lparr>kr_key = key, kr_value = Some payload, kr_headers = fold (\<lambda>(k, v) m. m(k \<mapsto> v)) hs Map.empty,
      kr_timestamp = now\<rparr>"

definition kafka_get_client :: "kafka_dispatch \<Rightarrow> 'k net \<Rightarrow> 'k sink_state \<Rightarrow> 'k result \<times> 'k sink_state" where
  "kafka_get_client kd nt =
     get_or_try_init
       (map_err (\<lambda>e. ''Failed to connect to Kafka/Redpanda at '' @ debug_list (kd_hosts kd) @ '': '' @ e)
          (nt_connect nt (kd_hosts kd)))"

definition produce_record ::
  "kafka_dispatch \<Rightarrow> 'k net \<Rightarrow> string \<Rightarrow> kafka_record \<Rightarrow> 'k sink_state \<Rightarrow> 'k sink_step" where
  "produce_record kd nt topic rcd s =
     with_client ''Kafka connection error: '' (kafka_get_client kd nt s) (\<lambda>k s1.
       case nt_channel nt k topic (kd_partition kd) of
         Inl e \<Rightarrow> (Inl (ConnectError, ''Kafka partition error: '' @ e), s1)
       | Inr _ \<Rightarrow>
           send_once ''Kafka produce error: '' (KafkaProduce topic (kd_partition kd) rcd)
             (nt_send nt k (KafkaProduce topic (kd_partition kd) rcd)) s1)"

definition kafka_publish :: "kafka_dispatch \<Rightarrow> 'k net \<Rightarrow> string \<Rightarrow> string \<Rightarrow> 'k sink_state \<Rightarrow> 'k sink_step" where
  "kafka_publish kd nt topic payload =
     produce_record kd nt (kafka_topic (kd_topic_prefix kd) topic)
       (build_record (nt_now nt) None (utf8_or_empty payload) [])"

definition kafka_request ::
  "kafka_dispatch \<Rightarrow> encoder \<Rightarrow> 'k net \<Rightarrow> request_info \<Rightarrow> 'k sink_state \<Rightarrow> 'k sink_step" where
  "kafka_request kd en nt r s =
     encoded (encode_request en r) (\<lambda>payload.
       produce_record kd nt (kafka_topic (kd_topic_prefix kd) (resolve_dispatch_topic r))
         (build_record (nt_now nt) (Some (en_uuid en (ri_request_id r))) (from_utf8_lossy payload)
            (command_headers en r)) s) s"

definition kafka_response ::
  "kafka_dispatch \<Rightarrow> encoder \<Rightarrow> 'k net \<Rightarrow> string \<Rightarrow> response_info \<Rightarrow> 'k sink_state \<Rightarrow> 'k sink_step" where
  "kafka_response kd en nt topic r s =
     (case en_response en r of
        Inl _ \<Rightarrow> (Inr (), s)
      | Inr payload \<Rightarrow>
          produce_record kd nt (kafka_topic (kd_topic_prefix kd) topic)
            (build_record (nt_now nt) (Some (en_uuid en (rs_request_id r))) payload (response_headers en r)) s)"

definition kafka_terminal ::
  "kafka_dispatch \<Rightarrow> encoder \<Rightarrow> 'k net \<Rightarrow> string \<Rightarrow> completion_event \<Rightarrow> 'k sink_state \<Rightarrow> 'k sink_step" where
  "kafka_terminal kd en nt topic ev s =
     encoded (encode_completion en ev) (\<lambda>payload.
       produce_record kd nt (kafka_topic (kd_topic_prefix kd) topic)
         (build_record (nt_now nt) (Some (en_uuid en (ri_request_id (payload_inner (ev_request ev)))))
            (from_utf8_lossy payload) (terminal_headers en ev)) s) s"

section \<open>RabbitMQ\<close>

record rabbit_dispatch =
  qd_url :: string
  qd_exchange :: string
  qd_routing_prefix :: string

definition rabbit_with_exchange_and_prefix :: "string \<Rightarrow> string \<Rightarrow> string \<Rightarrow> rabbit_dispatch" where
  "rabbit_with_exchange_and_prefix addr exchange prefix =
     \<lparr>qd_url = normalize_amqp_url addr, qd_exchange = exchange, qd_routing_prefix = prefix\<rparr>"

definition rabbit_new :: "string \<Rightarrow> rabbit_dispatch" where
  "rabbit_new addr = rabbit_with_exchange_and_prefix addr ''amq.topic'' ''spectra''"

definition rabbit_supports :: "string \<Rightarrow> bool" where
  "rabbit_supports mtd = (to_lowercase mtd \<in> {''rabbitmq'', ''rabbit'', ''amqp'', ''amqps''})"

definition build_properties :: "string \<Rightarrow> (string \<times> string) list \<Rightarrow> basic_properties" where
  "build_properties content_type hs =
     \<lparr>bp_content_type = ShortString content_type, bp_delivery_mode = 2,
      bp_headers = fold (\<lambda>(k, v) m. m(ShortString k \<mapsto> LongString v)) hs Map.empty\<rparr>"

definition rabbit_get_connection :: "rabbit_dispatch \<Rightarrow> 'k net \<Rightarrow> 'k sink_state \<Rightarrow> 'k result \<times> 'k sink_state" where
  "rabbit_get_connection qd nt =
     get_or_try_init
       (map_err (\<lambda>e. ''Failed to connect to RabbitMQ at '' @ qd_url qd @ '': '' @ e) (nt_connect nt [qd_url qd]))"

text \<open>The confirmation is awaited and dropped.\<close>

definition publish_raw ::
  "rabbit_dispatch \<Rightarrow> 'k net \<Rightarrow> string \<Rightarrow> string \<Rightarrow> basic_properties \<Rightarrow> 'k sink_state \<Rightarrow> 'k sink_step" where
  "publish_raw qd nt rk payload props s =
     with_client ''RabbitMQ connection error: '' (rabbit_get_connection qd nt s) (\<lambda>k s1.
       case nt_channel nt k '''' 0 of
         Inl e \<Rightarrow> (Inl (ConnectError, ''RabbitMQ channel error: '' @ e), s1)
       | Inr _ \<Rightarrow>
           (let w = AmqpPublish (ShortString (qd_exchange qd)) (ShortString rk) props payload
            in case nt_send nt k w of
                 Inl e \<Rightarrow> (Inl (WriteError, ''RabbitMQ publish error: '' @ e), logged w SendFailed s1)
               | Inr _ \<Rightarrow>
                   (Inr (), logged w (case nt_ack nt k w of Inl _ \<Rightarrow> Unconfirmed | Inr _ \<Rightarrow> Confirmed) s1)))"

definition rabbit_publish :: "rabbit_dispatch \<Rightarrow> 'k net \<Rightarrow> string \<Rightarrow> string \<Rightarrow> 'k sink_state \<Rightarrow> 'k sink_step" where
  "rabbit_publish qd nt topic payload =
     publish_raw qd nt (routing_key (qd_routing_prefix qd) topic) (utf8_or_empty payload)
       (build_properties ''application/json'' [])"

definition rabbit_request ::
  "rabbit_dispatch \<Rightarrow> encoder \<Rightarrow> 'k net \<Rightarrow> request_info \<Rightarrow> 'k sink_state \<Rightarrow> 'k sink_step" where
  "rabbit_request qd en nt r s =
     encoded (encode_request en r) (\<lambda>payload.
       publish_raw qd nt (routing_key (qd_routing_prefix qd) (resolve_dispatch_topic r)) (from_utf8_lossy payload)
         (build_properties ''application/json'' (command_headers en r)) s) s"

definition rabbit_response ::
  "rabbit_dispatch \<Rightarrow> encoder \<Rightarrow> 'k net \<Rightarrow> string \<Rightarrow> response_info \<Rightarrow> 'k sink_state \<Rightarrow> 'k sink_step" where
  "rabbit_response qd en nt topic r s =
     (case en_response en r of
        Inl _ \<Rightarrow> (Inr (), s)
      | Inr payload \<Rightarrow>
          publish_raw qd nt (routing_key (qd_routing_prefix qd) topic) payload
            (build_properties ''application/json'' (response_headers en r)) s)"

definition rabbit_terminal ::
  "rabbit_dispatch \<Rightarrow> encoder \<Rightarrow> 'k net \<Rightarrow> string \<Rightarrow> completion_event \<Rightarrow> 'k sink_state \<Rightarrow> 'k sink_step" where
  "rabbit_terminal qd en nt topic ev s =
     encoded (encode_completion en ev) (\<lambda>payload.
       publish_raw qd nt (routing_key (qd_routing_prefix qd) topic) (from_utf8_lossy payload)
         (build_properties ''application/json'' (terminal_headers en ev)) s) s"

definition rabbit_payload :: "rabbit_dispatch \<Rightarrow> 'k net \<Rightarrow> string \<Rightarrow> string \<Rightarrow> 'k sink_state \<Rightarrow> 'k sink_step" where
  "rabbit_payload qd nt topic payload =
     publish_raw qd nt (routing_key (qd_routing_prefix qd) topic) payload (build_properties ''application/json'' [])"

section \<open>Apache Iggy\<close>

record iggy_dispatch =
  gd_url :: string
  gd_stream_id :: iggy_identifier
  gd_topic_prefix :: string

text \<open>\<open>Identifier::named(s).unwrap_or_else(|_| Identifier::numeric(1))\<close>; \<open>nm\<close> is the check of the library.\<close>

definition named_or_first :: "(string \<Rightarrow> bool) \<Rightarrow> string \<Rightarrow> iggy_identifier" where
  "named_or_first nm s = (if nm s then Named s else Numeric 1)"

definition iggy_with_stream_and_prefix :: "(string \<Rightarrow> bool) \<Rightarrow> string \<Rightarrow> string \<Rightarrow> string \<Rightarrow> iggy_dispatch" where
  "iggy_with_stream_and_prefix nm addr stream prefix =
     \<lparr>gd_url = normalize_iggy_url addr, gd_stream_id = named_or_first nm stream, gd_topic_prefix = prefix\<rparr>"

definition iggy_new :: "(string \<Rightarrow> bool) \<Rightarrow> string \<Rightarrow> iggy_dispatch" where
  "iggy_new nm addr = iggy_with_stream_and_prefix nm addr ''spectra'' ''spectra''"

definition iggy_supports :: "string \<Rightarrow> bool" where
  "iggy_supports mtd = (to_lowercase mtd \<in> {''iggy'', ''apache-iggy'', ''apache_iggy''})"

definition topic_id :: "iggy_dispatch \<Rightarrow> encoder \<Rightarrow> string \<Rightarrow> iggy_identifier" where
  "topic_id gd en topic = named_or_first (en_named en) (gd_topic_prefix gd @ ''.'' @ replace_char CHR '':'' CHR ''.'' topic)"

definition build_message :: "'k net \<Rightarrow> string \<Rightarrow> string result" where
  "build_message nt payload =
     (case nt_message nt payload of Inl e \<Rightarrow> Inl (''Failed to build IggyMessage: '' @ e) | Inr _ \<Rightarrow> Inr payload)"

definition iggy_get_client :: "iggy_dispatch \<Rightarrow> 'k net \<Rightarrow> 'k sink_state \<Rightarrow> 'k result \<times> 'k sink_state" where
  "iggy_get_client gd nt =
     get_or_try_init
       (case nt_open_url nt (gd_url gd) of
          Inl e \<Rightarrow> Inl (''Failed to parse Iggy connection string '' @ gd_url gd @ '': '' @ e)
        | Inr _ \<Rightarrow> map_err (\<lambda>e. ''Failed to connect to Iggy at '' @ gd_url gd @ '': '' @ e) (nt_connect nt [gd_url gd]))"

definition send_message ::
  "iggy_dispatch \<Rightarrow> encoder \<Rightarrow> 'k net \<Rightarrow> string \<Rightarrow> string \<Rightarrow> 'k sink_state \<Rightarrow> 'k sink_step" where
  "send_message gd en nt topic msg s =
     with_client ''Iggy connection error: '' (iggy_get_client gd nt s) (\<lambda>k.
       send_once ''Iggy send error: '' (IggySend (gd_stream_id gd) (topic_id gd en topic) msg)
         (nt_send nt k (IggySend (gd_stream_id gd) (topic_id gd en topic) msg)))"

definition iggy_publish ::
  "iggy_dispatch \<Rightarrow> encoder \<Rightarrow> 'k net \<Rightarrow> string \<Rightarrow> string \<Rightarrow> 'k sink_state \<Rightarrow> 'k sink_step" where
  "iggy_publish gd en nt topic payload s =
     (case build_message nt (utf8_or_empty payload) of
        Inl e \<Rightarrow> (Inl (Custom ''MessageBuildError'', ''Failed to build Iggy message: '' @ e), s)
      | Inr msg \<Rightarrow> send_message gd en nt topic msg s)"

definition iggy_request ::
  "iggy_dispatch \<Rightarrow> encoder \<Rightarrow> 'k net \<Rightarrow> request_info \<Rightarrow> 'k sink_state \<Rightarrow> 'k sink_step" where
  "iggy_request gd en nt r s =
     encoded (encode_request en r) (\<lambda>payload. iggy_publish gd en nt (resolve_dispatch_topic r) payload s) s"

definition iggy_response ::
  "iggy_dispatch \<Rightarrow> encoder \<Rightarrow> 'k net \<Rightarrow> string \<Rightarrow> response_info \<Rightarrow> 'k sink_state \<Rightarrow> 'k sink_step" where
  "iggy_response gd en nt topic r s =
     (case en_response en r of
        Inl _ \<Rightarrow> (Inr (), s) | Inr payload \<Rightarrow> ignore_result (iggy_publish gd en nt topic payload s))"

definition iggy_terminal ::
  "iggy_dispatch \<Rightarrow> encoder \<Rightarrow> 'k net \<Rightarrow> string \<Rightarrow> completion_event \<Rightarrow> 'k sink_state \<Rightarrow> 'k sink_step" where
  "iggy_terminal gd en nt topic ev s =
     encoded (encode_completion en ev) (\<lambda>payload. iggy_publish gd en nt topic payload s) s"

section \<open>Webhook\<close>

record webhook_dispatch = wd_url :: string

definition webhook_new :: "string \<Rightarrow> webhook_dispatch" where
  "webhook_new url = \<lparr>wd_url = url\<rparr>"

definition webhook_supports :: "string \<Rightarrow> bool" where
  "webhook_supports mtd = (contains_str (to_lowercase mtd) ''webhook'' \<or> contains_str (to_lowercase mtd) ''http'')"

definition is_success :: "nat \<Rightarrow> bool" where
  "is_success status = (200 \<le> status \<and> status < 300)"

definition posted :: "wire \<Rightarrow> nat result \<Rightarrow> 'k sink_state \<Rightarrow> 'k sink_state" where
  "posted w answer =
     logged w (case answer of Inl _ \<Rightarrow> SendFailed | Inr st \<Rightarrow> if is_success st then Confirmed else Unconfirmed)"

definition send_webhook ::
  "webhook_dispatch \<Rightarrow> encoder \<Rightarrow> 'k net \<Rightarrow> string \<Rightarrow> string \<Rightarrow> 'k sink_state \<Rightarrow> 'k sink_step" where
  "send_webhook wd en nt topic body s =
     (let w = HttpPost (wd_url wd) [(''content-type'', ''application/json''), (''x-spectra-topic'', topic)] body
      in case nt_post nt w of
           Inl e \<Rightarrow> (Inl (WriteError, ''Webhook request failed: '' @ e), posted w (nt_post nt w) s)
         | Inr st \<Rightarrow>
             if is_success st then (Inr (), posted w (nt_post nt w) s)
             else (Inl (Custom ''WebhookHTTPError'', ''Webhook returned status '' @ en_status en st),
                   posted w (nt_post nt w) s))"

definition webhook_publish ::
  "webhook_dispatch \<Rightarrow> encoder \<Rightarrow> 'k net \<Rightarrow> string \<Rightarrow> string \<Rightarrow> 'k sink_state \<Rightarrow> 'k sink_step" where
  "webhook_publish wd en nt topic payload s =
     (case from_utf8 payload of
        None \<Rightarrow> (Inl (Custom ''Utf8Error'', ''Invalid UTF-8 payload: '' @ en_utf8_error en payload), s)
      | Some body \<Rightarrow> send_webhook wd en nt topic body s)"

definition webhook_request ::
  "webhook_dispatch \<Rightarrow> encoder \<Rightarrow> 'k net \<Rightarrow> request_info \<Rightarrow> 'k sink_state \<Rightarrow> 'k sink_step" where
  "webhook_request wd en nt r s =
     encoded (encode_request en r) (\<lambda>payload. webhook_publish wd en nt (resolve_dispatch_topic r) payload s) s"

definition webhook_response ::
  "webhook_dispatch \<Rightarrow> encoder \<Rightarrow> 'k net \<Rightarrow> string \<Rightarrow> response_info \<Rightarrow> 'k sink_state \<Rightarrow> 'k sink_step" where
  "webhook_response wd en nt topic r s =
     (case en_response en r of
        Inl _ \<Rightarrow> (Inr (), s) | Inr payload \<Rightarrow> ignore_result (webhook_publish wd en nt topic payload s))"

fun status_name :: "operation_outcome \<Rightarrow> string" where
  "status_name Success = ''SUCCESS''"
| "status_name Failed = ''FAILED''"
| "status_name Rejected = ''REJECTED''"

definition webhook_terminal ::
  "webhook_dispatch \<Rightarrow> encoder \<Rightarrow> 'k net \<Rightarrow> string \<Rightarrow> completion_event \<Rightarrow> 'k sink_state \<Rightarrow> 'k sink_step" where
  "webhook_terminal wd en nt topic ev s =
     (case encode_completion en ev of
        Inl _ \<Rightarrow> (Inr (), s)
      | Inr payload \<Rightarrow>
          (let w = HttpPost (wd_url wd)
                 [(''content-type'', ''application/json''), (''x-spectra-topic'', topic),
                  (''x-spectra-id'', en_uuid en (ev_id ev)),
                  (''x-spectra-hlc'', to_compact_string (ev_hlc ev)), (''x-spectra-status'', status_name (ev_status ev))]
                 (from_utf8_lossy payload)
           in (Inr (), posted w (nt_post nt w) s)))"

section \<open>The choice of a broker\<close>

datatype dispatch_method =
    IggyMethod iggy_dispatch
  | KafkaMethod kafka_dispatch
  | NatsJetstream nats_dispatch
  | RabbitMqMethod rabbit_dispatch
  | RedisStreams resp_dispatch
  | SierraDb resp_dispatch
  | is_WebhookMethod: WebhookMethod webhook_dispatch

text \<open>\<open>tty\<close> is the answer of \<open>is_interactive\<close>, \<open>nm\<close> the check of \<open>iggy\<close> on a name.\<close>

definition find_dispatch_handler_by_method ::
  "bool \<Rightarrow> (string \<Rightarrow> bool) \<Rightarrow> string \<Rightarrow> string \<Rightarrow> dispatch_method result" where
  "find_dispatch_handler_by_method tty nm mtd endpoint =
     (if nats_supports mtd then Inr (NatsJetstream (nats_new tty endpoint))
      else if redis_supports mtd then Inr (RedisStreams (redis_new endpoint))
      else if sierra_supports mtd then Inr (SierraDb (sierra_new endpoint))
      else if kafka_supports mtd then Inr (KafkaMethod (kafka_new endpoint))
      else if rabbit_supports mtd then Inr (RabbitMqMethod (rabbit_new endpoint))
      else if iggy_supports mtd then Inr (IggyMethod (iggy_new nm endpoint))
      else if webhook_supports mtd then Inr (WebhookMethod (webhook_new endpoint))
      else Inl (''Unsupported dispatch method: '' @ mtd))"

fun sink_publish ::
  "dispatch_method \<Rightarrow> encoder \<Rightarrow> 'k net \<Rightarrow> string \<Rightarrow> string \<Rightarrow> 'k sink_state \<Rightarrow> 'k sink_step" where
  "sink_publish (IggyMethod gd) en nt topic payload s = iggy_publish gd en nt topic payload s"
| "sink_publish (KafkaMethod kd) en nt topic payload s = kafka_publish kd nt topic payload s"
| "sink_publish (NatsJetstream nd) en nt topic payload s = nats_publish nd en nt topic payload s"
| "sink_publish (RabbitMqMethod qd) en nt topic payload s = rabbit_publish qd nt topic payload s"
| "sink_publish (RedisStreams rd) en nt topic payload s = redis_publish rd nt topic payload s"
| "sink_publish (SierraDb rd) en nt topic payload s = sierra_publish rd nt topic payload s"
| "sink_publish (WebhookMethod wd) en nt topic payload s = webhook_publish wd en nt topic payload s"

text \<open>\<open>DispatchHandler\<close>, by \<open>enum_dispatch\<close>.\<close>

fun dispatch_request_info ::
  "dispatch_method \<Rightarrow> encoder \<Rightarrow> 'k net \<Rightarrow> request_info \<Rightarrow> 'k sink_state \<Rightarrow> 'k sink_step" where
  "dispatch_request_info (IggyMethod gd) en nt r s = iggy_request gd en nt r s"
| "dispatch_request_info (KafkaMethod kd) en nt r s = kafka_request kd en nt r s"
| "dispatch_request_info (NatsJetstream nd) en nt r s = nats_request nd en nt r s"
| "dispatch_request_info (RabbitMqMethod qd) en nt r s = rabbit_request qd en nt r s"
| "dispatch_request_info (RedisStreams rd) en nt r s = redis_request rd en nt r s"
| "dispatch_request_info (SierraDb rd) en nt r s = sierra_request rd en nt r s"
| "dispatch_request_info (WebhookMethod wd) en nt r s = webhook_request wd en nt r s"

fun dispatch_response_info ::
  "dispatch_method \<Rightarrow> encoder \<Rightarrow> 'k net \<Rightarrow> string \<Rightarrow> response_info \<Rightarrow> 'k sink_state \<Rightarrow> 'k sink_step" where
  "dispatch_response_info (IggyMethod gd) en nt topic r s = iggy_response gd en nt topic r s"
| "dispatch_response_info (KafkaMethod kd) en nt topic r s = kafka_response kd en nt topic r s"
| "dispatch_response_info (NatsJetstream nd) en nt topic r s = nats_response nd en nt topic r s"
| "dispatch_response_info (RabbitMqMethod qd) en nt topic r s = rabbit_response qd en nt topic r s"
| "dispatch_response_info (RedisStreams rd) en nt topic r s = redis_response rd en nt topic r s"
| "dispatch_response_info (SierraDb rd) en nt topic r s = sierra_response rd en nt topic r s"
| "dispatch_response_info (WebhookMethod wd) en nt topic r s = webhook_response wd en nt topic r s"

fun dispatch_terminal_event ::
  "dispatch_method \<Rightarrow> encoder \<Rightarrow> 'k net \<Rightarrow> string \<Rightarrow> completion_event \<Rightarrow> 'k sink_state \<Rightarrow> 'k sink_step" where
  "dispatch_terminal_event (IggyMethod gd) en nt topic ev s = iggy_terminal gd en nt topic ev s"
| "dispatch_terminal_event (KafkaMethod kd) en nt topic ev s = kafka_terminal kd en nt topic ev s"
| "dispatch_terminal_event (NatsJetstream nd) en nt topic ev s = nats_terminal nd en nt topic ev s"
| "dispatch_terminal_event (RabbitMqMethod qd) en nt topic ev s = rabbit_terminal qd en nt topic ev s"
| "dispatch_terminal_event (RedisStreams rd) en nt topic ev s = redis_terminal rd en nt topic ev s"
| "dispatch_terminal_event (SierraDb rd) en nt topic ev s = sierra_terminal rd en nt topic ev s"
| "dispatch_terminal_event (WebhookMethod wd) en nt topic ev s = webhook_terminal wd en nt topic ev s"

fun dispatch_payload ::
  "dispatch_method \<Rightarrow> encoder \<Rightarrow> 'k net \<Rightarrow> string \<Rightarrow> string \<Rightarrow> 'k sink_state \<Rightarrow> 'k sink_step" where
  "dispatch_payload (RabbitMqMethod qd) en nt topic payload s = rabbit_payload qd nt topic payload s"
| "dispatch_payload d en nt topic payload s = sink_publish d en nt topic payload s"

end
