(* ===== verification/Routing.thy ===== *)
theory Routing
  imports Manager Brokers
begin

text \<open>
  The routing half of \<open>gateway/\<close>: the hot-reloadable state, DNS rescans, the services and the
  path router, application and route resolution, and the command receipt
  (\<open>composite_service.rs\<close>, \<open>mod.rs\<close>, \<open>gql_service.rs\<close>, \<open>http_service.rs\<close>, \<open>filters/strategy.rs\<close>).

  The atomic pointer \<open>ArcSwap\<close> is the value it holds.  Arguments that stand for library code or the
  outside world: the resolver, the clock, the SHA-256 digest, the path router of \<open>matchit\<close> and
  the order in which a hash map yields its keys.
\<close>

section \<open>The hot-reloadable state\<close>

record ('p, 'm) gateway_state =
  named_upstreams :: "string \<rightharpoonup> socket_addr"
  upstream_targets :: "string \<rightharpoonup> string"
  gs_dns_config :: dns_config
  gs_mode_a :: mode_a_config
  gs_routes :: "(string \<times> route_config) list"
  gs_apps :: "app_config list"
  gs_default_app :: "string option"
  gs_manager :: "('p, 'm) manager"
  gs_error_capture :: error_capture_config
  gs_raw_config :: string
  gs_version :: u64
  updated_at_epoch_ms :: u64
  config_hash :: string

definition gateway_state_default :: "('p, 'm) gateway_state" where
  "gateway_state_default =
     \<lparr>named_upstreams = Map.empty, upstream_targets = Map.empty, gs_dns_config = default_dns,
      gs_mode_a = default_mode_a, gs_routes = [], gs_apps = [], gs_default_app = None,
      gs_manager = manager_empty, gs_error_capture = default_error_capture, gs_raw_config = [],
      gs_version = 1, updated_at_epoch_ms = 0, config_hash = []\<rparr>"

text \<open>The WASM plugins live in an evaluator of their own, made with the manager.\<close>

definition new_from_config ::
  "('p, 'm, 'c) int_env \<Rightarrow> (string \<Rightarrow> socket_addr list result) \<Rightarrow> (string \<Rightarrow> string) \<Rightarrow> u64 \<Rightarrow> spectra_config \<Rightarrow> string
     \<Rightarrow> u64 \<Rightarrow> (('p, 'm) gateway_state \<times> 'm plugins) result" where
  "new_from_config ie resolve sha256_hex now_ms cfg raw ver =
     (case resolve_all_upstreams_with_targets resolve cfg of
        Inl e \<Rightarrow> Inl e
      | Inr (ups, targets) \<Rightarrow>
          (case from_config ie cfg of
             Inl e \<Rightarrow> Inl e
           | Inr (mg, ps) \<Rightarrow>
               Inr (\<lparr>named_upstreams = ups, upstream_targets = targets, gs_dns_config = cfg_dns cfg,
                     gs_mode_a = gql_mode_a (cfg_gql cfg), gs_routes = gql_routes (cfg_gql cfg),
                     gs_apps = cfg_apps cfg, gs_default_app = cfg_default_app cfg, gs_manager = mg,
                     gs_error_capture = cfg_error_capture cfg, gs_raw_config = raw, gs_version = ver,
                     updated_at_epoch_ms = now_ms, config_hash = sha256_hex raw\<rparr>, ps)))"

definition reload_config ::
  "('p, 'm, 'c) int_env \<Rightarrow> (string \<Rightarrow> socket_addr list result) \<Rightarrow> (string \<Rightarrow> string) \<Rightarrow> u64 \<Rightarrow> spectra_config \<Rightarrow> string
     \<Rightarrow> ('p, 'm) gateway_state \<times> 'm plugins \<Rightarrow> unit result \<times> ('p, 'm) gateway_state \<times> 'm plugins" where
  "reload_config ie resolve sha256_hex now_ms cfg raw st =
     (case new_from_config ie resolve sha256_hex now_ms cfg raw (gs_version (fst st) + 1) of
        Inl e \<Rightarrow> (Inl e, st)
      | Inr st' \<Rightarrow> (Inr (), st'))"

section \<open>DNS\<close>

record dns_entry =
  de_name :: string
  de_target :: string
  de_current :: string
  de_previous :: "string option"
  de_changed :: bool

record dns_rescan_response =
  dr_total_upstreams :: nat
  dr_changed_count :: nat
  dr_upstreams :: "dns_entry list"

text \<open>The address a target resolves to now; \<open>None\<close> when resolution fails or is empty.\<close>

definition first_resolved :: "(string \<Rightarrow> socket_addr list result) \<Rightarrow> string \<Rightarrow> socket_addr option" where
  "first_resolved resolve target = (case resolve target of Inr (a # _) \<Rightarrow> Some a | _ \<Rightarrow> None)"

fun rescan_loop ::
  "(string \<Rightarrow> socket_addr list result) \<Rightarrow> (string \<rightharpoonup> socket_addr) \<Rightarrow> (string \<times> string) list
     \<Rightarrow> (string \<rightharpoonup> socket_addr) \<times> dns_entry list \<times> nat \<Rightarrow> (string \<rightharpoonup> socket_addr) \<times> dns_entry list \<times> nat" where
  "rescan_loop resolve prev [] acc = acc"
| "rescan_loop resolve prev ((name, target) # ts) (new, entries, changed) =
     rescan_loop resolve prev ts
       (case first_resolved resolve target of
          Some a \<Rightarrow>
            (let is_changed = (case prev name of Some p \<Rightarrow> p \<noteq> a | None \<Rightarrow> True)
             in (new(name \<mapsto> a),
                 entries @ [\<lparr>de_name = name, de_target = target, de_current = a, de_previous = prev name,
                             de_changed = is_changed\<rparr>],
                 if is_changed then Suc changed else changed))
        | None \<Rightarrow>
            (new,
             (case prev name of
                Some p \<Rightarrow> entries @ [\<lparr>de_name = name, de_target = target, de_current = p,
                                      de_previous = Some p, de_changed = False\<rparr>]
              | None \<Rightarrow> entries), changed))"

text \<open>\<open>order\<close> is the iteration order of the targets.\<close>

definition rescan_dns ::
  "(string \<Rightarrow> socket_addr list result) \<Rightarrow> string list \<Rightarrow> u64 \<Rightarrow> ('p, 'm) gateway_state
     \<Rightarrow> dns_rescan_response \<times> ('p, 'm) gateway_state" where
  "rescan_dns resolve order now_ms st =
     (let prev = named_upstreams st;
          (new, entries, changed) =
            rescan_loop resolve prev (map (\<lambda>n. (n, the (upstream_targets st n))) order) (prev, [], 0);
          st' = (if 0 < changed then st\<lparr>named_upstreams := new, updated_at_epoch_ms := now_ms\<rparr> else st)
      in (\<lparr>dr_total_upstreams = length order, dr_changed_count = changed,
           dr_upstreams = sort_key de_name entries\<rparr>, st'))"

definition get_dns_status :: "string list \<Rightarrow> ('p, 'm) gateway_state \<Rightarrow> bool \<times> nat \<times> dns_entry list" where
  "get_dns_status order st =
     (dns_enabled (gs_dns_config st), interval_secs (gs_dns_config st),
      sort_key de_name (map (\<lambda>n. \<lparr>de_name = n, de_target = the (upstream_targets st n),
        de_current = unwrap_or (named_upstreams st n) ''unresolved'', de_previous = None, de_changed = False\<rparr>) order))"

text \<open>One turn of the background refresher: the pause before it and what it does after.\<close>

definition refresher_pause :: "('p, 'm) gateway_state \<Rightarrow> nat" where
  "refresher_pause st =
     (if interval_secs (gs_dns_config st) = 0 then 15 else interval_secs (gs_dns_config st))"

definition refresher_turn ::
  "(string \<Rightarrow> socket_addr list result) \<Rightarrow> string list \<Rightarrow> u64 \<Rightarrow> ('p, 'm) gateway_state \<Rightarrow> ('p, 'm) gateway_state" where
  "refresher_turn resolve order now_ms st =
     (if dns_enabled (gs_dns_config st) then snd (rescan_dns resolve order now_ms st) else st)"

section \<open>Services and paths\<close>

datatype service_kind = HttpService | GraphQLService

record proxy_service =
  sv_kind :: service_kind
  sv_protocol :: protocol_decoder
  sv_dispatch :: dispatch_method

text \<open>\<open>None\<close> is the panic of \<open>unwrap\<close> on a dispatch method no broker supports; \<open>tty\<close> and \<open>nm\<close> as for
  the choice of a broker.\<close>

definition http_service_new :: "bool \<Rightarrow> (string \<Rightarrow> bool) \<Rightarrow> string \<Rightarrow> string \<Rightarrow> proxy_service option" where
  "http_service_new tty nm mtd endpoint =
     (case find_dispatch_handler_by_method tty nm mtd endpoint of
        Inr d \<Rightarrow> Some \<lparr>sv_kind = HttpService, sv_protocol = HttpDecoder, sv_dispatch = d\<rparr>
      | Inl _ \<Rightarrow> None)"

definition gql_service_new ::
  "bool \<Rightarrow> (string \<Rightarrow> bool) \<Rightarrow> string \<Rightarrow> string \<Rightarrow> (string \<rightharpoonup> string) \<Rightarrow> proxy_service option" where
  "gql_service_new tty nm mtd endpoint extra =
     (case find_dispatch_handler_by_method tty nm mtd endpoint of
        Inr d \<Rightarrow> Some \<lparr>sv_kind = GraphQLService,
           sv_protocol = GraphQLDecoder (decoder_new
             (unwrap_or (extra ''ops_to_dispatch'') ''query, mutation, subscription'')),
           sv_dispatch = d\<rparr>
      | Inl _ \<Rightarrow> None)"

definition new_proxy_service ::
  "bool \<Rightarrow> (string \<Rightarrow> bool) \<Rightarrow> string \<Rightarrow> string \<Rightarrow> string \<Rightarrow> (string \<rightharpoonup> string) \<Rightarrow> proxy_service result option" where
  "new_proxy_service tty nm service_type mtd endpoint extra =
     (let ty = to_lowercase service_type
      in if ty = ''http'' then map_option Inr (http_service_new tty nm mtd endpoint)
         else if ty = ''gql'' then map_option Inr (gql_service_new tty nm mtd endpoint extra)
         else Some (Inl (''Unsupported service type: '' @ service_type)))"

record service_config =
  sc_service :: proxy_service
  sc_upstream_addr :: socket_addr
  sc_upstream_routes :: string

definition service_config_try_new ::
  "bool \<Rightarrow> (string \<Rightarrow> bool) \<Rightarrow> (string \<Rightarrow> socket_addr list result) \<Rightarrow> string \<Rightarrow> string \<Rightarrow> string \<Rightarrow> string \<Rightarrow> string
     \<Rightarrow> (string \<rightharpoonup> string) \<Rightarrow> service_config result option" where
  "service_config_try_new tty nm resolve service_type upstream routes mtd endpoint extra =
     (case resolve upstream of
        Inl e \<Rightarrow> Some (Inl (''Failed to resolve upstream address '' @ quoted upstream @ '': '' @ e))
      | Inr [] \<Rightarrow> Some (Inl (''No socket address resolved for upstream '' @ quoted upstream))
      | Inr (a # _) \<Rightarrow>
          map_option (\<lambda>r. case r of
             Inl e \<Rightarrow> Inl e
           | Inr sv \<Rightarrow> Inr \<lparr>sc_service = sv, sc_upstream_addr = a, sc_upstream_routes = routes\<rparr>)
            (new_proxy_service tty nm service_type mtd endpoint extra))"

text \<open>The path router: \<open>matchit\<close> as its two methods.\<close>

record 'r router_ops =
  rt_insert :: "'r \<Rightarrow> string \<Rightarrow> nat \<Rightarrow> 'r result"
  rt_at :: "'r \<Rightarrow> string \<Rightarrow> nat option"

record 'r service_table =
  upstream_services :: "service_config list"
  path_router :: 'r

definition get_service_handle :: "'r router_ops \<Rightarrow> 'r service_table \<Rightarrow> string \<Rightarrow> nat option" where
  "get_service_handle ops t path = rt_at ops (path_router t) path"

fun add_routes :: "'r router_ops \<Rightarrow> nat \<Rightarrow> string list \<Rightarrow> 'r \<Rightarrow> 'r option" where
  "add_routes ops handle [] r = Some r"
| "add_routes ops handle (route # rs) r =
     (case rt_insert ops r (trim route) handle of Inl _ \<Rightarrow> None | Inr r' \<Rightarrow> add_routes ops handle rs r')"

text \<open>\<open>None\<close> is the panic of \<open>expect\<close> on a route the router refuses.\<close>

definition add_service_config :: "'r router_ops \<Rightarrow> service_config \<Rightarrow> 'r service_table \<Rightarrow> 'r service_table option" where
  "add_service_config ops sc t =
     map_option (\<lambda>r. \<lparr>upstream_services = upstream_services t @ [sc], path_router = r\<rparr>)
       (add_routes ops (length (upstream_services t)) (split_on CHR '','' (sc_upstream_routes sc)) (path_router t))"

text \<open>\<open>None\<close> is the error for a path without a service.  The index of \<open>get_service_config\<close> is one
  the router was given.\<close>

definition get_service_config_and_handle_by_path ::
  "'r router_ops \<Rightarrow> 'r service_table \<Rightarrow> string \<Rightarrow> (service_config \<times> nat) option" where
  "get_service_config_and_handle_by_path ops t path =
     map_option (\<lambda>h. (upstream_services t ! h, h)) (get_service_handle ops t path)"

section \<open>Applications and routes\<close>

definition resolve_app_with_apps ::
  "app_config list \<Rightarrow> string option \<Rightarrow> string option \<Rightarrow> string option \<Rightarrow> string \<Rightarrow> app_config option" where
  "resolve_app_with_apps apps default_app host header_app path =
     or_else (Option.bind header_app (\<lambda>h. List.find (\<lambda>a. eq_ignore_ascii_case (app_id a) h) apps))
    (or_else (Option.bind host (\<lambda>h.
               let clean = trim (hd (split_on CHR '':'' h))
               in List.find (\<lambda>a. list_ex (\<lambda>d. eq_ignore_ascii_case (trim (hd (split_on CHR '':'' d))) clean) (domains a)) apps))
    (or_else (List.find (\<lambda>a. list_ex (\<lambda>prefix.
               let clean = trim_end (\<lambda>c. c = CHR ''/'') prefix
               in path = clean \<or> starts_with path (clean @ ''/'')) (path_prefixes a)) apps)
    (or_else (Option.bind default_app (\<lambda>d. List.find (\<lambda>a. eq_ignore_ascii_case (app_id a) d) apps))
             (case apps of [] \<Rightarrow> None | a # _ \<Rightarrow> Some a))))"

definition match_route :: "(string \<times> route_config) list \<Rightarrow> request_info \<Rightarrow> route_config option" where
  "match_route routes r =
     Option.bind (ri_gql r) (\<lambda>g. List.find (\<lambda>rc. gi_matches_operation g (r_operation rc)) (map snd routes))"

definition resolve_mode_a_upstream :: "route_config \<Rightarrow> (string \<rightharpoonup> socket_addr) \<Rightarrow> socket_addr option" where
  "resolve_mode_a_upstream route ups = Option.bind (route_upstream route) ups"

section \<open>The command receipt\<close>

definition generate_command_receipt :: "(uuid \<Rightarrow> string) \<Rightarrow> string \<Rightarrow> uuid \<Rightarrow> hlc_timestamp \<Rightarrow> string \<Rightarrow> json" where
  "generate_command_receipt show_uuid field_or_op command_id h status =
     JObject [(''data'', JObject [(field_or_op,
       JObject [(''commandId'', JString (show_uuid command_id)), (''hlc'', JString (to_compact_string h)),
                (''status'', JString status)])])]"

section \<open>Properties\<close>

lemma or_else_case: "or_else x y = (case x of Some a \<Rightarrow> Some a | None \<Rightarrow> y)"
  by (cases x) simp_all

text \<open>The gateway's copy of the application lookup agrees with the configuration's.\<close>

lemma resolve_app_agrees:
  "resolve_app_with_apps (cfg_apps c) (cfg_default_app c) host header_app path = resolve_app c host header_app path"
proof -
  have p: "(\<lambda>prefix. let clean = trim_end (\<lambda>c. c = CHR ''/'') prefix
              in path = clean \<or> starts_with path (clean @ ''/'')) = path_matches path"
    by (simp add: path_matches_def fun_eq_iff)
  have i: "(\<lambda>h. List.find (\<lambda>a. eq_ignore_ascii_case (app_id a) h) (cfg_apps c)) = find_app_by_id (cfg_apps c)"
    by (simp add: find_app_by_id_def fun_eq_iff)
  have h: "(\<lambda>h. let clean = trim (hd (split_on CHR '':'' h))
               in List.find (\<lambda>a. list_ex (\<lambda>d. eq_ignore_ascii_case (trim (hd (split_on CHR '':'' d))) clean) (domains a))
                    (cfg_apps c)) = find_app_by_host (cfg_apps c)"
    by (simp add: find_app_by_host_def clean_host_def fun_eq_iff)
  show ?thesis
    unfolding resolve_app_with_apps_def resolve_app_def p i h or_else_case find_app_by_path_def ..
qed

lemma resolve_app_member:
  "resolve_app_with_apps apps d host header_app path = Some a \<Longrightarrow> a \<in> set apps"
  unfolding resolve_app_with_apps_def or_else_case Let_def
  by (auto dest!: find_Some_in split: option.splits list.splits simp: bind_eq_Some_conv)

lemma resolve_app_none: "resolve_app_with_apps apps d host header_app path = None \<longleftrightarrow> apps = []"
  unfolding resolve_app_with_apps_def or_else_case Let_def
  by (cases apps) (auto split: option.split bind_split)

lemma rescan_loop_new:
  "distinct (map fst ts) \<Longrightarrow> fst (rescan_loop resolve prev ts (new, es, k)) n =
     (case map_of ts n of
        Some t \<Rightarrow> (case first_resolved resolve t of Some a \<Rightarrow> Some a | None \<Rightarrow> new n)
      | None \<Rightarrow> new n)"
proof (induction ts arbitrary: new es k)
  case (Cons p ts)
  obtain name target where p: "p = (name, target)" by (cases p)
  have none: "map_of ts name = None" using Cons.prems p by (simp add: map_of_eq_None_iff)
  show ?case
    using Cons.IH Cons.prems p none by (cases "first_resolved resolve target") (auto simp: Let_def cong: option.case_cong)
qed simp

lemma rescan_loop_count:
  "snd (snd (rescan_loop resolve prev ts (new, es, k))) =
     k + length (filter (\<lambda>(n, t). first_resolved resolve t \<noteq> None \<and> first_resolved resolve t \<noteq> prev n) ts)"
proof (induction ts arbitrary: new es k)
  case (Cons p ts)
  obtain name target where p: "p = (name, target)" by (cases p)
  show ?case
    using Cons.IH p by (cases "first_resolved resolve target"; cases "prev name") (auto simp: Let_def)
qed simp

lemma map_of_order: "n \<in> set order \<Longrightarrow> map_of (map (\<lambda>n. (n, f n)) order) n = Some (f n)"
  by (induction order) auto

lemma map_of_order_none: "n \<notin> set order \<Longrightarrow> map_of (map (\<lambda>n. (n, f n)) order) n = None"
  by (induction order) auto

text \<open>A DNS rescan never loses an upstream: every upstream whose target resolves has the first
  address the resolver gives, every other keeps the address it had, names without a target
  are untouched, and the reported count is the number of upstreams whose address changed.
  Nothing else of the state changes but its time stamp, and with no change not even that.\<close>

theorem rescan_dns_updates:
  assumes "distinct order" and "set order = dom (upstream_targets st)"
  shows "let (resp, st') = rescan_dns resolve order now_ms st;
             new = (\<lambda>n. Option.bind (upstream_targets st n) (first_resolved resolve))
         in named_upstreams st' n = or_else (new n) (named_upstreams st n)
            \<and> dr_changed_count resp = card {n. new n \<noteq> None \<and> new n \<noteq> named_upstreams st n}
            \<and> st' = st\<lparr>named_upstreams := named_upstreams st', updated_at_epoch_ms := updated_at_epoch_ms st'\<rparr>
            \<and> (dr_changed_count resp = 0 \<longrightarrow> st' = st)"
proof -
  let ?ts = "map (\<lambda>n. (n, the (upstream_targets st n))) order" and ?prev = "named_upstreams st"
    and ?new = "\<lambda>n. Option.bind (upstream_targets st n) (first_resolved resolve)"
  obtain new es k where r: "rescan_loop resolve ?prev ?ts (?prev, [], 0) = (new, es, k)"
    by (cases "rescan_loop resolve ?prev ?ts (?prev, [], 0)")
  have t: "the (upstream_targets st m) = x \<longleftrightarrow> upstream_targets st m = Some x" if "m \<in> set order" for m x
    using that assms(2) by auto
  have new: "new m = or_else (?new m) (?prev m)" for m
  proof (cases "m \<in> set order")
    case True
    then obtain x where "upstream_targets st m = Some x" using assms(2) by auto
    then show ?thesis
      using rescan_loop_new [of ?ts resolve ?prev ?prev "[]" 0 m] r True assms(1)
      by (simp add: map_of_order comp_def or_else_case)
  next
    case False
    then have "upstream_targets st m = None" using assms(2) by auto
    then show ?thesis
      using rescan_loop_new [of ?ts resolve ?prev ?prev "[]" 0 m] r False assms(1)
      by (simp add: map_of_order_none comp_def or_else_case)
  qed
  let ?c = "\<lambda>m. ?new m \<noteq> None \<and> ?new m \<noteq> ?prev m"
  have "k = length (filter (\<lambda>(n, t). first_resolved resolve t \<noteq> None \<and> first_resolved resolve t \<noteq> ?prev n) ?ts)"
    using rescan_loop_count [of resolve ?prev ?ts ?prev "[]" 0] r by simp
  also have "\<dots> = length (filter ?c order)"
    using t by (simp add: filter_map comp_def) (intro arg_cong [where f = length] filter_cong, auto simp: assms(2))
  also have "\<dots> = card {m. ?c m}"
  proof -
    have "{m. ?c m} = set (filter ?c order)" using assms(2) by (auto split: bind_splits)
    then show ?thesis using assms(1) distinct_card [of "filter ?c order"] by simp
  qed
  finally have k: "k = card {m. ?c m}" .
  have none: "\<not> ?c m" if "k = 0" for m
  proof -
    have "{m. ?c m} \<subseteq> set order" unfolding assms(2) by (auto split: bind_splits)
    then have "finite {m. ?c m}" by (rule finite_subset) simp
    then show ?thesis using that k by auto
  qed
  have same: "new n = ?prev n" if "k = 0" using none [OF that, of n] new [of n] by (cases "?new n") (auto simp: or_else_case split: option.splits)
  show ?thesis
    unfolding rescan_dns_def Let_def r using new [of n] k same by simp
qed

definition sample_state :: "(unit, unit) gateway_state" where
  "sample_state = gateway_state_default\<lparr>named_upstreams := [''a'' \<mapsto> ''10.0.0.1:80'', ''b'' \<mapsto> ''10.0.0.2:80''],
     upstream_targets := [''a'' \<mapsto> ''a.svc:80'', ''b'' \<mapsto> ''b.svc:80'']\<rparr>"

theorem rescan_dns_updates_witness:
  "let resolve = (\<lambda>t. if t = ''a.svc:80'' then Inr [''10.0.0.9:80''] else Inl ''NXDOMAIN'');
       st' = snd (rescan_dns resolve [''a'', ''b''] 5 sample_state)
   in named_upstreams st' ''a'' = Some ''10.0.0.9:80'' \<and> named_upstreams st' ''b'' = Some ''10.0.0.2:80''"
proof -
  have d: "distinct [''a'', ''b'']" "set [''a'', ''b''] = dom (upstream_targets sample_state)"
    by (auto simp: sample_state_def)
  let ?r = "\<lambda>t. if t = ''a.svc:80'' then Inr [''10.0.0.9:80''] else Inl ''NXDOMAIN''"
  show ?thesis
    using rescan_dns_updates [OF d, of ?r 5 "''a''"] rescan_dns_updates [OF d, of ?r 5 "''b''"]
    by (auto simp: Let_def sample_state_def first_resolved_def case_prod_unfold)
qed

text \<open>A reload is all or nothing: a configuration that does not resolve or whose interceptors
  cannot be built leaves the running state; otherwise the version goes up by one and every part
  of the state comes from the new configuration.\<close>

lemma reload_config_atomic:
  "reload_config ie resolve sha now_ms cfg raw st = (res, st') \<Longrightarrow>
     (case res of
        Inl e \<Rightarrow> st' = st
      | Inr _ \<Rightarrow> gs_version (fst st') = gs_version (fst st) + 1
          \<and> resolve_all_upstreams_with_targets resolve cfg = Inr (named_upstreams (fst st'), upstream_targets (fst st'))
          \<and> from_config ie cfg = Inr (gs_manager (fst st'), snd st')
          \<and> gs_routes (fst st') = gql_routes (cfg_gql cfg) \<and> gs_apps (fst st') = cfg_apps cfg)"
  by (auto simp: reload_config_def new_from_config_def split: sum.splits)

text \<open>Routes are found by operation name or root field, upper and lower case alike.\<close>

lemma match_route_sound:
  "match_route routes r = Some rc \<Longrightarrow>
     \<exists>g. ri_gql r = Some g \<and> gi_matches_operation g (r_operation rc) \<and> rc \<in> snd ` set routes"
  by (auto simp: match_route_def bind_eq_Some_conv dest!: find_Some_in)

end
