(* ===== verification/Idempotency.thy ===== *)
theory Idempotency
  imports Protocol
begin

text \<open>
  \<open>idempotency/mod.rs\<close> and \<open>gateway/filters/idempotency.rs\<close>: the deduplication and replay table
  for mutations, its sharded in-memory back end, the decisions taken on the replies of Redis,
  and the filter that turns outcomes into responses.

  Library code is an argument: the LRU cache of the \<open>lru\<close> crate is a record of its operations
  with the behaviour its documentation gives (\<open>lru_cache_laws\<close>, over the order of \<open>iter\<close>, most
  recent first); the hash of a key is \<open>hash\<close> (\<open>DefaultHasher\<close> promises no particular function);
  SHA-256 and the printing of UUIDs are functions.  The clock is an argument.  An operation
  holds the lock of its shard throughout, so operations are steps; whether another shard's
  lock is free when \<open>try_lock\<close> asks is an argument too.
\<close>

section \<open>Records and outcomes\<close>

datatype idem_record =
    InProgress hlc_timestamp u64
  | Completed hlc_timestamp nat header_map string u64

datatype idem_outcome =
    NewOp
  | Conflict hlc_timestamp
  | Replay hlc_timestamp nat header_map string

definition NUM_MEMORY_SHARDS :: nat where
  "NUM_MEMORY_SHARDS = 32"

record 'c lru_cache =
  lc_new :: "nat \<Rightarrow> 'c"
  lc_iter :: "'c \<Rightarrow> (string \<times> idem_record) list"
  lc_cap :: "'c \<Rightarrow> nat"
  lc_get :: "'c \<Rightarrow> string \<Rightarrow> idem_record option \<times> 'c"
  lc_put :: "'c \<Rightarrow> string \<Rightarrow> idem_record \<Rightarrow> idem_record option \<times> 'c"
  lc_pop :: "'c \<Rightarrow> string \<Rightarrow> idem_record option \<times> 'c"
  lc_pop_lru :: "'c \<Rightarrow> (string \<times> idem_record) option \<times> 'c"

record 'c memory_backend =
  shards :: "'c list"
  mem_max_capacity :: u64
  mem_len :: u64

definition get_shard_index :: "(string \<Rightarrow> u64) \<Rightarrow> string \<Rightarrow> nat" where
  "get_shard_index hash key = unat (hash key) mod NUM_MEMORY_SHARDS"

definition engine_new :: "'c lru_cache \<Rightarrow> u64 \<Rightarrow> 'c memory_backend" where
  "engine_new lc cap =
     \<lparr>shards = replicate NUM_MEMORY_SHARDS (lc_new lc (max (unat cap) 1)),
      mem_max_capacity = cap, mem_len = 0\<rparr>"

section \<open>The memory back end\<close>

text \<open>The answer a live record gives; \<open>ttl\<close> is \<open>ttl.as_secs().max(1)\<close>.\<close>

definition live_outcome :: "u64 \<Rightarrow> u64 \<Rightarrow> idem_record option \<Rightarrow> idem_outcome option" where
  "live_outcome ttl now rec =
     (case rec of
        Some (InProgress h started) \<Rightarrow> if sat_sub now started < ttl then Some (Conflict h) else None
      | Some (Completed h st hs body at) \<Rightarrow>
          if sat_sub now at < ttl then Some (Replay h st hs body) else None
      | None \<Rightarrow> None)"

text \<open>The other shards, in order: the first whose lock is free and that holds an entry gives up
  its least recently used one.\<close>

fun evict_other ::
  "'c lru_cache \<Rightarrow> (nat \<Rightarrow> bool) \<Rightarrow> nat \<Rightarrow> nat list \<Rightarrow> 'c memory_backend \<Rightarrow> 'c memory_backend" where
  "evict_other lc free idx [] m = m"
| "evict_other lc free idx (i # is) m =
     (if i \<noteq> idx \<and> free i then
        (case lc_pop_lru lc (shards m ! i) of
           (Some _, c) \<Rightarrow> m\<lparr>shards := (shards m)[i := c], mem_len := mem_len m - 1\<rparr>
         | (None, c) \<Rightarrow> evict_other lc free idx is (m\<lparr>shards := (shards m)[i := c]\<rparr>))
      else evict_other lc free idx is m)"

definition make_room ::
  "'c lru_cache \<Rightarrow> (nat \<Rightarrow> bool) \<Rightarrow> nat \<Rightarrow> 'c memory_backend \<Rightarrow> 'c memory_backend" where
  "make_room lc free idx m =
     (if mem_max_capacity m \<le> mem_len m then
        (case lc_pop_lru lc (shards m ! idx) of
           (Some _, c) \<Rightarrow> m\<lparr>shards := (shards m)[idx := c], mem_len := mem_len m - 1\<rparr>
         | (None, c) \<Rightarrow>
             evict_other lc free idx [0 ..< NUM_MEMORY_SHARDS] (m\<lparr>shards := (shards m)[idx := c]\<rparr>))
      else m)"

definition put_record ::
  "'c lru_cache \<Rightarrow> nat \<Rightarrow> string \<Rightarrow> idem_record \<Rightarrow> 'c memory_backend \<Rightarrow> 'c memory_backend" where
  "put_record lc idx key rec m =
     (case lc_put lc (shards m ! idx) key rec of
        (old, c) \<Rightarrow> m\<lparr>shards := (shards m)[idx := c],
                      mem_len := (if old = None then mem_len m + 1 else mem_len m)\<rparr>)"

definition check_or_insert ::
  "'c lru_cache \<Rightarrow> (string \<Rightarrow> u64) \<Rightarrow> (nat \<Rightarrow> bool) \<Rightarrow> u64 \<Rightarrow> u64 \<Rightarrow> string \<Rightarrow> hlc_timestamp
     \<Rightarrow> 'c memory_backend \<Rightarrow> idem_outcome \<times> 'c memory_backend" where
  "check_or_insert lc hash free ttl now key h m =
     (let idx = get_shard_index hash key;
          (rec, c) = lc_get lc (shards m ! idx) key;
          m1 = m\<lparr>shards := (shards m)[idx := c]\<rparr>
      in case live_outcome (max ttl 1) now rec of
           Some out \<Rightarrow> (out, m1)
         | None \<Rightarrow> (NewOp, put_record lc idx key (InProgress h now) (make_room lc free idx m1)))"

definition kept_headers :: "header_map \<Rightarrow> header_map" where
  "kept_headers hs = List.map_filter (\<lambda>(k, v).
     let name = to_lowercase k
     in if name \<in> {''connection'', ''keep-alive'', ''transfer-encoding''} then None
        else map_option (\<lambda>val. (name, val)) (to_str v)) hs"

definition complete ::
  "'c lru_cache \<Rightarrow> (string \<Rightarrow> u64) \<Rightarrow> u64 \<Rightarrow> string \<Rightarrow> hlc_timestamp \<Rightarrow> nat \<Rightarrow> header_map \<Rightarrow> string
     \<Rightarrow> 'c memory_backend \<Rightarrow> 'c memory_backend" where
  "complete lc hash now key h st hs body m =
     put_record lc (get_shard_index hash key) key (Completed h st (kept_headers hs) body now) m"

definition remove_key ::
  "'c lru_cache \<Rightarrow> (string \<Rightarrow> u64) \<Rightarrow> string \<Rightarrow> 'c memory_backend \<Rightarrow> 'c memory_backend" where
  "remove_key lc hash key m =
     (let idx = get_shard_index hash key
      in case lc_pop lc (shards m ! idx) key of
           (old, c) \<Rightarrow> m\<lparr>shards := (shards m)[idx := c],
                         mem_len := (if old = None then mem_len m else mem_len m - 1)\<rparr>)"

definition active_record_count :: "'c memory_backend \<Rightarrow> u64" where
  "active_record_count m = mem_len m"

section \<open>The Redis back end\<close>

text \<open>The commands sent, and the outcome given the server's replies.\<close>

datatype redis_cmd = SetNx string string u64 | SetEx string string u64 | GetCmd string | DelCmd string

definition redis_check_or_insert ::
  "(idem_record \<Rightarrow> string result) \<Rightarrow> (string \<Rightarrow> idem_record result) \<Rightarrow> string \<Rightarrow> u64 \<Rightarrow> u64 \<Rightarrow> string
     \<Rightarrow> hlc_timestamp \<Rightarrow> bool \<Rightarrow> string option result \<Rightarrow> string option result
     \<Rightarrow> idem_outcome \<times> redis_cmd list" where
  "redis_check_or_insert to_json from_json prefix ttl now key h connected set_reply get_reply =
     (let redis_key = prefix @ '':'' @ key
      in case to_json (InProgress h now) of
           Inl _ \<Rightarrow> (NewOp, [])
         | Inr js \<Rightarrow>
             if \<not> connected then (NewOp, [])
             else let set_cmd = SetNx redis_key js (max ttl 1)
                  in case set_reply of
                       Inr (Some _) \<Rightarrow> (NewOp, [set_cmd])
                     | Inr None \<Rightarrow>
                         ((case get_reply of
                             Inr (Some raw) \<Rightarrow>
                               (case from_json raw of
                                  Inr (InProgress h' _) \<Rightarrow> Conflict h'
                                | Inr (Completed h' st hs body _) \<Rightarrow> Replay h' st hs body
                                | Inl _ \<Rightarrow> NewOp)
                           | _ \<Rightarrow> NewOp), [set_cmd, GetCmd redis_key])
                     | Inl _ \<Rightarrow> (NewOp, [set_cmd]))"

definition redis_complete ::
  "(idem_record \<Rightarrow> string result) \<Rightarrow> string \<Rightarrow> u64 \<Rightarrow> u64 \<Rightarrow> string \<Rightarrow> hlc_timestamp \<Rightarrow> nat \<Rightarrow> header_map \<Rightarrow> string
     \<Rightarrow> bool \<Rightarrow> redis_cmd list" where
  "redis_complete to_json prefix ttl now key h st hs body connected =
     (case to_json (Completed h st (kept_headers hs) body now) of
        Inr js \<Rightarrow> if connected then [SetEx (prefix @ '':'' @ key) js (max ttl 1)] else []
      | Inl _ \<Rightarrow> [])"

definition redis_remove :: "string \<Rightarrow> string \<Rightarrow> bool \<Rightarrow> redis_cmd list" where
  "redis_remove prefix key connected = (if connected then [DelCmd (prefix @ '':'' @ key)] else [])"

section \<open>Keys\<close>

definition nonblank_header :: "header_map \<Rightarrow> string \<Rightarrow> string option" where
  "nonblank_header hs n =
     (case header_str hs n of
        Some s \<Rightarrow> if trim s \<noteq> [] then Some (trim s) else None
      | None \<Rightarrow> None)"

definition extract_idempotency_key :: "header_map \<Rightarrow> string option" where
  "extract_idempotency_key hs =
     or_else (nonblank_header hs ''idempotency-key'') (nonblank_header hs ''x-idempotency-key'')"

definition compute_fingerprint :: "(string \<Rightarrow> string) \<Rightarrow> string \<Rightarrow> string option \<Rightarrow> string \<Rightarrow> string" where
  "compute_fingerprint sha256_hex client_id op body =
     ''sha256:'' @ sha256_hex (client_id @ '':'' @ unwrap_or op ''anonymous'' @ '':'' @ body)"

section \<open>The filter\<close>

record http_response =
  hr_status :: nat
  hr_headers :: header_map
  hr_body :: string

datatype intercept_result =
    ConflictSent http_response
  | ReplaySent http_response
  | NewKey string
  | NoKey

definition conflict_response ::
  "(json \<Rightarrow> string result) \<Rightarrow> (uuid \<Rightarrow> string) \<Rightarrow> uuid \<Rightarrow> hlc_timestamp \<Rightarrow> string option \<Rightarrow> hlc_timestamp \<Rightarrow> http_response" where
  "conflict_response to_string show_uuid rid h key conflict_hlc =
     (let body = error_to_json_string to_string (error_conflict key conflict_hlc)
      in \<lparr>hr_status = 409,
          hr_headers = [(''content-type'', ''application/json''), (''content-length'', show_nat (length body)),
                        (''x-spectra-request-id'', show_uuid rid), (''x-spectra-hlc'', to_compact_string h)],
          hr_body = body\<rparr>)"

definition insert_all :: "header_map \<Rightarrow> header_map \<Rightarrow> header_map" where
  "insert_all kvs h = fold (\<lambda>(k, v) acc. header_insert acc k v) kvs h"

definition replay_response ::
  "(uuid \<Rightarrow> string) \<Rightarrow> uuid \<Rightarrow> hlc_timestamp \<Rightarrow> nat \<Rightarrow> header_map \<Rightarrow> string \<Rightarrow> http_response" where
  "replay_response show_uuid rid h st hs body =
     \<lparr>hr_status = st,
      hr_headers = insert_all
        [(''content-type'', ''application/json''), (''content-length'', show_nat (length body)),
         (''access-control-allow-origin'', ''*''),
         (''access-control-expose-headers'',
          ''x-spectra-request-id, x-spectra-hlc, x-spectra-dispatch, x-spectra-idempotent-replay''),
         (''x-spectra-idempotent-replay'', ''true''),
         (''x-spectra-request-id'', show_uuid rid), (''x-spectra-hlc'', to_compact_string h)]
        (insert_all hs []),
      hr_body = body\<rparr>"

definition handle_outcome ::
  "(json \<Rightarrow> string result) \<Rightarrow> (uuid \<Rightarrow> string) \<Rightarrow> uuid \<Rightarrow> hlc_timestamp \<Rightarrow> string option \<Rightarrow> string \<Rightarrow> idem_outcome
     \<Rightarrow> intercept_result" where
  "handle_outcome to_string show_uuid rid h shown_key key out =
     (case out of
        Conflict ch \<Rightarrow> ConflictSent (conflict_response to_string show_uuid rid h shown_key ch)
      | Replay _ st hs body \<Rightarrow> ReplaySent (replay_response show_uuid rid h st hs body)
      | NewOp \<Rightarrow> NewKey key)"

text \<open>The engine is any function from a key and a time stamp to an outcome and a new state.\<close>

definition handle_explicit_key ::
  "(string \<Rightarrow> hlc_timestamp \<Rightarrow> 's \<Rightarrow> idem_outcome \<times> 's) \<Rightarrow> (json \<Rightarrow> string result) \<Rightarrow> (uuid \<Rightarrow> string)
     \<Rightarrow> header_map \<Rightarrow> uuid \<Rightarrow> hlc_timestamp \<Rightarrow> 's \<Rightarrow> intercept_result \<times> 's" where
  "handle_explicit_key check to_string show_uuid hs rid h s =
     (case extract_idempotency_key hs of
        Some key \<Rightarrow> (case check key h s of
                       (out, s') \<Rightarrow> (handle_outcome to_string show_uuid rid h (Some key) key out, s'))
      | None \<Rightarrow> (NoKey, s))"

definition handle_fingerprint ::
  "(string \<Rightarrow> hlc_timestamp \<Rightarrow> 's \<Rightarrow> idem_outcome \<times> 's) \<Rightarrow> (string \<Rightarrow> string) \<Rightarrow> (json \<Rightarrow> string result) \<Rightarrow> (uuid \<Rightarrow> string)
     \<Rightarrow> uuid \<Rightarrow> hlc_timestamp \<Rightarrow> string \<Rightarrow> string option \<Rightarrow> string \<Rightarrow> 's \<Rightarrow> intercept_result \<times> 's" where
  "handle_fingerprint check sha256_hex to_string show_uuid rid h client op body s =
     (let fp = compute_fingerprint sha256_hex client op body
      in case check fp h s of
           (out, s') \<Rightarrow> (handle_outcome to_string show_uuid rid h None fp out, s'))"

section \<open>The table the engine implements\<close>

datatype idem_op =
    CheckOp string hlc_timestamp u64
  | CompleteOp string hlc_timestamp nat header_map string u64
  | RemoveOp string

type_synonym idem_table = "string \<rightharpoonup> idem_record"

definition spec_check :: "u64 \<Rightarrow> u64 \<Rightarrow> string \<Rightarrow> hlc_timestamp \<Rightarrow> idem_table \<Rightarrow> idem_outcome \<times> idem_table" where
  "spec_check ttl now k h t =
     (case live_outcome (max ttl 1) now (t k) of
        Some out \<Rightarrow> (out, t)
      | None \<Rightarrow> (NewOp, t(k \<mapsto> InProgress h now)))"

fun spec_step :: "u64 \<Rightarrow> idem_op \<Rightarrow> idem_table \<Rightarrow> idem_outcome option \<times> idem_table" where
  "spec_step ttl (CheckOp k h now) t = (case spec_check ttl now k h t of (out, t') \<Rightarrow> (Some out, t'))"
| "spec_step ttl (CompleteOp k h st hs body now) t =
     (None, t(k \<mapsto> Completed h st (kept_headers hs) body now))"
| "spec_step ttl (RemoveOp k) t = (None, t(k := None))"

fun spec_run :: "u64 \<Rightarrow> idem_op list \<Rightarrow> idem_table \<Rightarrow> idem_outcome option list \<times> idem_table" where
  "spec_run ttl [] t = ([], t)"
| "spec_run ttl (p # ps) t =
     (case spec_step ttl p t of (out, t1) \<Rightarrow>
        (case spec_run ttl ps t1 of (outs, t2) \<Rightarrow> (out # outs, t2)))"

text \<open>The contract of an engine: while there is room for \<open>n\<close> more operations it is the table.\<close>

locale idempotency_table =
  fixes look :: "'s \<Rightarrow> idem_table"
    and step :: "'e \<Rightarrow> idem_op \<Rightarrow> 's \<Rightarrow> idem_outcome option \<times> 's"
    and ttl :: u64
    and room :: "nat \<Rightarrow> 's \<Rightarrow> bool"
  assumes step_out: "room (Suc n) s \<Longrightarrow> fst (step e p s) = fst (spec_step ttl p (look s))"
    and step_look: "room (Suc n) s \<Longrightarrow> look (snd (step e p s)) = snd (spec_step ttl p (look s))"
    and step_room: "room (Suc n) s \<Longrightarrow> room n (snd (step e p s))"
begin

fun run :: "('e \<times> idem_op) list \<Rightarrow> 's \<Rightarrow> idem_outcome option list \<times> 's" where
  "run [] s = ([], s)"
| "run ((e, p) # ps) s =
     (case step e p s of (out, s1) \<Rightarrow> (case run ps s1 of (outs, s2) \<Rightarrow> (out # outs, s2)))"

lemma run_refines:
  "room (length ps) s \<Longrightarrow>
   fst (run ps s) = fst (spec_run ttl (map snd ps) (look s))
   \<and> look (snd (run ps s)) = snd (spec_run ttl (map snd ps) (look s))"
proof (induction ps arbitrary: s)
  case (Cons x ps)
  obtain e p where x: "x = (e, p)" by fastforce
  have r: "room (Suc (length ps)) s" using Cons.prems by simp
  obtain out s1 where st: "step e p s = (out, s1)" by fastforce
  obtain t1 where sp: "spec_step ttl p (look s) = (out, t1)" "look s1 = t1"
    using step_out [OF r, of e p] step_look [OF r, of e p] st by (metis fst_conv snd_conv surj_pair)
  have "room (length ps) s1" using step_room [OF r, of e p] st by simp
  from Cons.IH [OF this] show ?case
    using x st sp by (auto split: prod.splits)
qed simp

end

section \<open>The memory back end implements the table\<close>

definition touch :: "string \<Rightarrow> (string \<times> idem_record) list \<Rightarrow> (string \<times> idem_record) list" where
  "touch k es = (case map_of es k of None \<Rightarrow> es | Some v \<Rightarrow> (k, v) # alist_remove k es)"

text \<open>The documented behaviour of \<open>lru::LruCache\<close>, in the order of \<open>iter\<close>.\<close>

definition lru_cache_laws :: "'c lru_cache \<Rightarrow> bool" where
  "lru_cache_laws lc =
     ((\<forall>n. lc_iter lc (lc_new lc n) = [] \<and> lc_cap lc (lc_new lc n) = n)
      \<and> (\<forall>c k. fst (lc_get lc c k) = map_of (lc_iter lc c) k
             \<and> lc_iter lc (snd (lc_get lc c k)) = touch k (lc_iter lc c)
             \<and> lc_cap lc (snd (lc_get lc c k)) = lc_cap lc c)
      \<and> (\<forall>c k v. fst (lc_put lc c k v) = map_of (lc_iter lc c) k
             \<and> lc_iter lc (snd (lc_put lc c k v)) =
                 (if map_of (lc_iter lc c) k \<noteq> None \<or> length (lc_iter lc c) < lc_cap lc c
                  then (k, v) # alist_remove k (lc_iter lc c) else (k, v) # butlast (lc_iter lc c))
             \<and> lc_cap lc (snd (lc_put lc c k v)) = lc_cap lc c)
      \<and> (\<forall>c k. fst (lc_pop lc c k) = map_of (lc_iter lc c) k
             \<and> lc_iter lc (snd (lc_pop lc c k)) = alist_remove k (lc_iter lc c)
             \<and> lc_cap lc (snd (lc_pop lc c k)) = lc_cap lc c)
      \<and> (\<forall>c. fst (lc_pop_lru lc c) = (if lc_iter lc c = [] then None else Some (last (lc_iter lc c)))
             \<and> lc_iter lc (snd (lc_pop_lru lc c)) = butlast (lc_iter lc c)
             \<and> lc_cap lc (snd (lc_pop_lru lc c)) = lc_cap lc c))"

definition mem_look :: "'c lru_cache \<Rightarrow> (string \<Rightarrow> u64) \<Rightarrow> 'c memory_backend \<Rightarrow> idem_table" where
  "mem_look lc hash m k = map_of (lc_iter lc (shards m ! get_shard_index hash k)) k"

definition shard_ok :: "'c lru_cache \<Rightarrow> nat \<Rightarrow> 'c \<Rightarrow> bool" where
  "shard_ok lc cap c = (distinct (map fst (lc_iter lc c)) \<and> lc_cap lc c = cap)"

definition total_records :: "'c lru_cache \<Rightarrow> 'c list \<Rightarrow> nat" where
  "total_records lc cs = sum_list (map (\<lambda>c. length (lc_iter lc c)) cs)"

definition mem_ok :: "'c lru_cache \<Rightarrow> 'c memory_backend \<Rightarrow> bool" where
  "mem_ok lc m =
     (lru_cache_laws lc \<and> length (shards m) = NUM_MEMORY_SHARDS
      \<and> list_all (shard_ok lc (max (unat (mem_max_capacity m)) 1)) (shards m)
      \<and> total_records lc (shards m) \<le> unat (mem_len m))"

definition mem_room :: "'c lru_cache \<Rightarrow> nat \<Rightarrow> 'c memory_backend \<Rightarrow> bool" where
  "mem_room lc n m = (mem_ok lc m \<and> unat (mem_len m) + n \<le> unat (mem_max_capacity m))"

fun mem_step ::
  "'c lru_cache \<Rightarrow> (string \<Rightarrow> u64) \<Rightarrow> u64 \<Rightarrow> (nat \<Rightarrow> bool) \<Rightarrow> idem_op \<Rightarrow> 'c memory_backend
     \<Rightarrow> idem_outcome option \<times> 'c memory_backend" where
  "mem_step lc hash ttl free (CheckOp k h now) m =
     (case check_or_insert lc hash free ttl now k h m of (out, m') \<Rightarrow> (Some out, m'))"
| "mem_step lc hash ttl free (CompleteOp k h st hs body now) m = (None, complete lc hash now k h st hs body m)"
| "mem_step lc hash ttl free (RemoveOp k) m = (None, remove_key lc hash k m)"

lemma shard_index_less [simp]: "get_shard_index hash k < NUM_MEMORY_SHARDS"
  by (simp add: get_shard_index_def NUM_MEMORY_SHARDS_def)

lemma lru_get:
  "lru_cache_laws lc \<Longrightarrow> lc_get lc c k = (r, c') \<Longrightarrow>
   r = map_of (lc_iter lc c) k \<and> lc_iter lc c' = touch k (lc_iter lc c) \<and> lc_cap lc c' = lc_cap lc c"
  unfolding lru_cache_laws_def by (metis fst_conv snd_conv)

lemma lru_put:
  "lru_cache_laws lc \<Longrightarrow> lc_put lc c k v = (r, c') \<Longrightarrow>
   r = map_of (lc_iter lc c) k \<and> lc_cap lc c' = lc_cap lc c \<and>
   lc_iter lc c' = (if map_of (lc_iter lc c) k \<noteq> None \<or> length (lc_iter lc c) < lc_cap lc c
                    then (k, v) # alist_remove k (lc_iter lc c) else (k, v) # butlast (lc_iter lc c))"
  unfolding lru_cache_laws_def by (metis fst_conv snd_conv)

lemma lru_pop:
  "lru_cache_laws lc \<Longrightarrow> lc_pop lc c k = (r, c') \<Longrightarrow>
   r = map_of (lc_iter lc c) k \<and> lc_iter lc c' = alist_remove k (lc_iter lc c) \<and> lc_cap lc c' = lc_cap lc c"
  unfolding lru_cache_laws_def by (metis fst_conv snd_conv)

lemma alist_remove_keys: "map fst (alist_remove k es) = filter (\<lambda>x. x \<noteq> k) (map fst es)"
  by (induction es) (auto simp: alist_remove_def)

lemma length_alist_remove:
  "distinct (map fst es) \<Longrightarrow> length (alist_remove k es) = length es - (if map_of es k = None then 0 else 1)"
proof (induction es)
  case (Cons e es)
  have fresh: "length (alist_remove k es) = length es" if "k \<notin> fst ` set es"
  proof -
    have "\<forall>p \<in> set es. fst p \<noteq> k" using that by force
    then have "filter (\<lambda>p. fst p \<noteq> k) es = es" by (simp add: filter_id_conv)
    then show ?thesis by (simp add: alist_remove_def)
  qed
  show ?case
  proof (cases "fst e = k")
    case True
    with Cons.prems fresh show ?thesis by (auto simp: alist_remove_def)
  next
    case False
    have "map_of es k \<noteq> None \<Longrightarrow> es \<noteq> []" by auto
    with False Cons show ?thesis by (cases es) (auto simp: alist_remove_def)
  qed
qed (simp add: alist_remove_def)

lemma touch_facts:
  assumes "distinct (map fst es)"
  shows "map_of (touch k es) = map_of es" "length (touch k es) = length es" "distinct (map fst (touch k es))"
proof -
  have pos: "map_of es k \<noteq> None \<Longrightarrow> 0 < length es" by auto
  show "map_of (touch k es) = map_of es" by (auto simp: touch_def split: option.splits)
  show "length (touch k es) = length es"
    using length_alist_remove [OF assms, of k] pos by (auto simp: touch_def split: option.splits)
  show "distinct (map fst (touch k es))"
    using assms by (auto simp: touch_def alist_remove_keys split: option.splits)
qed

lemma total_update:
  "i < length cs \<Longrightarrow> total_records lc (cs[i := c]) = total_records lc cs + length (lc_iter lc c) - length (lc_iter lc (cs ! i))"
  by (simp add: total_records_def map_update sum_list_update)

lemma shard_le_total: "i < length cs \<Longrightarrow> length (lc_iter lc (cs ! i)) \<le> total_records lc cs"
  unfolding total_records_def by (metis (no_types, lifting) elem_le_sum_list length_map nth_map)

text \<open>Replacing one shard.\<close>

lemma mem_ok_update:
  assumes "mem_ok lc m" "i < NUM_MEMORY_SHARDS"
    and "distinct (map fst (lc_iter lc c))" "lc_cap lc c = lc_cap lc (shards m ! i)"
    and "total_records lc (shards m) + length (lc_iter lc c) - length (lc_iter lc (shards m ! i)) \<le> unat l"
  shows "mem_ok lc (m\<lparr>shards := (shards m)[i := c], mem_len := l\<rparr>)"
  using assms unfolding mem_ok_def
  by (auto simp: total_update list_all_length shard_ok_def nth_list_update)

lemma mem_ok_shard: "mem_ok lc m \<Longrightarrow> i < NUM_MEMORY_SHARDS \<Longrightarrow> distinct (map fst (lc_iter lc (shards m ! i)))"
  by (simp add: mem_ok_def list_all_length shard_ok_def)

lemma mem_ok_cap: "mem_ok lc m \<Longrightarrow> i < NUM_MEMORY_SHARDS \<Longrightarrow> lc_cap lc (shards m ! i) = max (unat (mem_max_capacity m)) 1"
  by (simp add: mem_ok_def list_all_length shard_ok_def)

lemma mem_look_update:
  assumes "length (shards m) = NUM_MEMORY_SHARDS"
    and "map_of (lc_iter lc c) = (map_of (lc_iter lc (shards m ! get_shard_index hash k)))(k := v)"
  shows "mem_look lc hash (m\<lparr>shards := (shards m)[get_shard_index hash k := c], mem_len := l\<rparr>) = (mem_look lc hash m)(k := v)"
proof
  fix j
  show "mem_look lc hash (m\<lparr>shards := (shards m)[get_shard_index hash k := c], mem_len := l\<rparr>) j = ((mem_look lc hash m)(k := v)) j"
    using assms by (cases "get_shard_index hash j = get_shard_index hash k") (auto simp: mem_look_def)
qed

lemma mem_room_mono: "mem_room lc n m \<Longrightarrow> k \<le> n \<Longrightarrow> mem_room lc k m"
  by (simp add: mem_room_def)

lemma get_step:
  assumes ok: "mem_ok lc m" and g: "lc_get lc (shards m ! get_shard_index hash k) k = (r, c)"
  shows "r = mem_look lc hash m k"
    and "mem_ok lc (m\<lparr>shards := (shards m)[get_shard_index hash k := c]\<rparr>)"
    and "mem_look lc hash (m\<lparr>shards := (shards m)[get_shard_index hash k := c]\<rparr>) = mem_look lc hash m"
proof -
  let ?i = "get_shard_index hash k"
  have laws: "lru_cache_laws lc" and len: "length (shards m) = NUM_MEMORY_SHARDS"
    and tot: "total_records lc (shards m) \<le> unat (mem_len m)" using ok by (auto simp: mem_ok_def)
  note it = lru_get [OF laws g]
  note facts = touch_facts [OF mem_ok_shard [OF ok shard_index_less], of _ hash k]
  show r: "r = mem_look lc hash m k" using it by (simp add: mem_look_def)
  have "mem_ok lc (m\<lparr>shards := (shards m)[?i := c], mem_len := mem_len m\<rparr>)"
    using ok it facts tot by (intro mem_ok_update) auto
  then show "mem_ok lc (m\<lparr>shards := (shards m)[?i := c]\<rparr>)" by simp
  have "mem_look lc hash (m\<lparr>shards := (shards m)[?i := c], mem_len := mem_len m\<rparr>) = (mem_look lc hash m)(k := mem_look lc hash m k)"
    using len it facts by (intro mem_look_update) (auto simp: mem_look_def)
  then show "mem_look lc hash (m\<lparr>shards := (shards m)[?i := c]\<rparr>) = mem_look lc hash m" by simp
qed

lemma put_step:
  assumes room: "mem_room lc (Suc n) m"
  shows "mem_room lc n (put_record lc (get_shard_index hash k) k v m)"
    and "mem_look lc hash (put_record lc (get_shard_index hash k) k v m) = (mem_look lc hash m)(k \<mapsto> v)"
proof -
  let ?i = "get_shard_index hash k"
  have ok: "mem_ok lc m" and lt: "unat (mem_len m) + Suc n \<le> unat (mem_max_capacity m)"
    using room by (auto simp: mem_room_def)
  have laws: "lru_cache_laws lc" and len: "length (shards m) = NUM_MEMORY_SHARDS"
    and tot: "total_records lc (shards m) \<le> unat (mem_len m)" using ok by (auto simp: mem_ok_def)
  obtain old c where p: "lc_put lc (shards m ! ?i) k v = (old, c)" by fastforce
  note dist = mem_ok_shard [OF ok shard_index_less, of hash k]
  have fits: "length (lc_iter lc (shards m ! ?i)) < lc_cap lc (shards m ! ?i)"
    using shard_le_total [of ?i "shards m" lc] tot lt len mem_ok_cap [OF ok shard_index_less, of hash k] by simp
  with lru_put [OF laws p] have it: "old = map_of (lc_iter lc (shards m ! ?i)) k" "lc_cap lc c = lc_cap lc (shards m ! ?i)"
    "lc_iter lc c = (k, v) # alist_remove k (lc_iter lc (shards m ! ?i))" by auto
  let ?l = "if old = None then mem_len m + 1 else mem_len m"
  have up: "put_record lc ?i k v m = m\<lparr>shards := (shards m)[?i := c], mem_len := ?l\<rparr>"
    using p by (simp add: put_record_def)
  have "unat (mem_max_capacity m) < 2 ^ 64" by (rule order_less_le_trans [OF unsigned_less]) simp
  then have len1: "unat (mem_len m + 1) = unat (mem_len m) + 1"
    using lt by (simp add: unat_word_ariths)
  have pos: "map_of (lc_iter lc (shards m ! ?i)) k \<noteq> None \<Longrightarrow> 0 < length (lc_iter lc (shards m ! ?i))" by auto
  have bound: "total_records lc (shards m) + length (lc_iter lc c) - length (lc_iter lc (shards m ! ?i)) \<le> unat ?l"
  proof (cases old)
    case None
    with it tot length_alist_remove [OF dist, of k] len1 show ?thesis by simp
  next
    case (Some r)
    then have "length (lc_iter lc c) = length (lc_iter lc (shards m ! ?i))"
      using it pos length_alist_remove [OF dist, of k] by simp
    with tot Some show ?thesis by simp
  qed
  have "mem_ok lc (m\<lparr>shards := (shards m)[?i := c], mem_len := ?l\<rparr>)"
    using ok it dist bound by (intro mem_ok_update) (simp_all add: alist_remove_keys)
  then show "mem_room lc n (put_record lc ?i k v m)"
    unfolding up using lt len1 by (simp add: mem_room_def)
  show "mem_look lc hash (put_record lc ?i k v m) = (mem_look lc hash m)(k \<mapsto> v)"
    unfolding up using len it by (intro mem_look_update) auto
qed

lemma remove_step:
  assumes room: "mem_room lc n m"
  shows "mem_room lc n (remove_key lc hash k m)"
    and "mem_look lc hash (remove_key lc hash k m) = (mem_look lc hash m)(k := None)"
proof -
  let ?i = "get_shard_index hash k"
  have ok: "mem_ok lc m" and lt: "unat (mem_len m) + n \<le> unat (mem_max_capacity m)"
    using room by (auto simp: mem_room_def)
  have laws: "lru_cache_laws lc" and len: "length (shards m) = NUM_MEMORY_SHARDS"
    and tot: "total_records lc (shards m) \<le> unat (mem_len m)" using ok by (auto simp: mem_ok_def)
  obtain old c where p: "lc_pop lc (shards m ! ?i) k = (old, c)" by fastforce
  note dist = mem_ok_shard [OF ok shard_index_less, of hash k]
  note it = lru_pop [OF laws p]
  let ?l = "if old = None then mem_len m else mem_len m - 1"
  have up: "remove_key lc hash k m = m\<lparr>shards := (shards m)[?i := c], mem_len := ?l\<rparr>"
    using p by (simp add: remove_key_def)
  have pos: "old \<noteq> None \<Longrightarrow> 0 < length (lc_iter lc (shards m ! ?i))" using it by auto
  have shard: "length (lc_iter lc (shards m ! ?i)) \<le> total_records lc (shards m)"
    using len by (simp add: shard_le_total)
  have len1: "unat (mem_len m - 1) = unat (mem_len m) - 1" if "old \<noteq> None"
    using pos [OF that] shard tot by (intro unat_minus_one) auto
  have bound: "total_records lc (shards m) + length (lc_iter lc c) - length (lc_iter lc (shards m ! ?i)) \<le> unat ?l"
  proof (cases old)
    case None
    with it tot length_alist_remove [OF dist, of k] show ?thesis by simp
  next
    case (Some r)
    define L where "L = length (lc_iter lc (shards m ! ?i))"
    have "length (lc_iter lc c) = L - 1" "0 < L" "L \<le> total_records lc (shards m)"
      using it Some length_alist_remove [OF dist, of k] pos shard by (auto simp: L_def)
    with tot len1 Some show ?thesis by (simp flip: L_def)
  qed
  have "mem_ok lc (m\<lparr>shards := (shards m)[?i := c], mem_len := ?l\<rparr>)"
    using ok it dist bound by (intro mem_ok_update) (simp_all add: alist_remove_keys)
  then show "mem_room lc n (remove_key lc hash k m)"
    unfolding up using lt len1 by (auto simp: mem_room_def)
  show "mem_look lc hash (remove_key lc hash k m) = (mem_look lc hash m)(k := None)"
    unfolding up using len it by (intro mem_look_update) auto
qed

lemma check_step:
  assumes room: "mem_room lc (Suc n) m"
  shows "(case check_or_insert lc hash free ttl now k h m of (out, m') \<Rightarrow>
           (out, mem_look lc hash m') = spec_check ttl now k h (mem_look lc hash m) \<and> mem_room lc n m')"
proof -
  let ?i = "get_shard_index hash k"
  obtain r c where g: "lc_get lc (shards m ! ?i) k = (r, c)" by fastforce
  let ?m1 = "m\<lparr>shards := (shards m)[?i := c]\<rparr>"
  have ok: "mem_ok lc m" using room by (simp add: mem_room_def)
  note gs = get_step [OF ok g]
  have room1: "mem_room lc (Suc n) ?m1" using room gs(2) by (simp add: mem_room_def)
  have "mem_len m < mem_max_capacity m" using room by (simp add: mem_room_def word_less_nat_alt)
  then have mk: "make_room lc free ?i ?m1 = ?m1" by (simp add: make_room_def)
  show ?thesis
  proof (cases "live_outcome (max ttl 1) now r")
    case None
    with g mk put_step [OF room1, of hash k "InProgress h now"] gs show ?thesis
      by (simp add: check_or_insert_def spec_check_def Let_def)
  next
    case (Some out)
    with g gs mem_room_mono [OF room1, of n] show ?thesis
      by (simp add: check_or_insert_def spec_check_def Let_def)
  qed
qed

lemma mem_step_refines:
  assumes room: "mem_room lc (Suc n) m"
  shows "fst (mem_step lc hash ttl free p m) = fst (spec_step ttl p (mem_look lc hash m))
    \<and> mem_look lc hash (snd (mem_step lc hash ttl free p m)) = snd (spec_step ttl p (mem_look lc hash m))
    \<and> mem_room lc n (snd (mem_step lc hash ttl free p m))"
proof (cases p)
  case (CheckOp k h now)
  obtain out m' where c: "check_or_insert lc hash free ttl now k h m = (out, m')" by fastforce
  with check_step [OF room, of hash ttl now k h free]
  have "spec_check ttl now k h (mem_look lc hash m) = (out, mem_look lc hash m')" "mem_room lc n m'" by auto
  with CheckOp c show ?thesis by simp
next
  case (CompleteOp k h st hs body now)
  then show ?thesis using put_step [OF room] by (simp add: complete_def)
next
  case (RemoveOp k)
  then show ?thesis using remove_step [OF mem_room_mono [OF room, of n]] by simp
qed

interpretation mem_engine: idempotency_table "mem_look lc hash" "mem_step lc hash ttl" ttl "mem_room lc"
  for lc hash ttl
  by unfold_locales (simp_all add: mem_step_refines)

section \<open>Properties\<close>

text \<open>C11. \<open>IdempotencyEngine\<close> (memory): over every sequence of \<open>check_or_insert\<close>, \<open>complete\<close> and
  \<open>remove\<close> that the capacity can hold, the sharded LRU engine gives exactly the outcomes, and
  ends with exactly the records, of one table from keys to records with a time to live.  The
  hypothesis \<open>mem_room\<close> holds of a fresh engine for as many operations as its capacity.\<close>

theorem memory_engine_refines_table:
  assumes "mem_room lc (length ps) m"
  shows "fst (mem_engine.run lc hash ttl ps m) = fst (spec_run ttl (map snd ps) (mem_look lc hash m))
    \<and> mem_look lc hash (snd (mem_engine.run lc hash ttl ps m)) = snd (spec_run ttl (map snd ps) (mem_look lc hash m))"
  using assms by (rule mem_engine.run_refines)

text \<open>The list that the documentation of the cache describes.\<close>

definition list_lru :: "(nat \<times> (string \<times> idem_record) list) lru_cache" where
  "list_lru = \<lparr>lc_new = (\<lambda>n. (n, [])), lc_iter = snd, lc_cap = fst,
     lc_get = (\<lambda>c k. (map_of (snd c) k, (fst c, touch k (snd c)))),
     lc_put = (\<lambda>c k v. (map_of (snd c) k, (fst c,
        if map_of (snd c) k \<noteq> None \<or> length (snd c) < fst c then (k, v) # alist_remove k (snd c)
        else (k, v) # butlast (snd c)))),
     lc_pop = (\<lambda>c k. (map_of (snd c) k, (fst c, alist_remove k (snd c)))),
     lc_pop_lru = (\<lambda>c. (if snd c = [] then None else Some (last (snd c)), (fst c, butlast (snd c))))\<rparr>"

lemma list_lru_laws: "lru_cache_laws list_lru"
  by (simp add: lru_cache_laws_def list_lru_def)

lemma engine_new_room: "lru_cache_laws lc \<Longrightarrow> n \<le> unat cap \<Longrightarrow> mem_room lc n (engine_new lc cap)"
  by (simp add: mem_room_def mem_ok_def engine_new_def shard_ok_def total_records_def list_all_length
      lru_cache_laws_def sum_list_replicate)

lemma engine_new_look: "lru_cache_laws lc \<Longrightarrow> mem_look lc hash (engine_new lc cap) = Map.empty"
  by (rule ext) (simp add: mem_look_def engine_new_def lru_cache_laws_def)

abbreviation ts :: "u64 \<Rightarrow> hlc_timestamp" where
  "ts p \<equiv> \<lparr>physical = p, logical = 0\<rparr>"

theorem memory_engine_refines_table_witness:
  "lru_cache_laws list_lru \<and>
   fst (mem_engine.run list_lru (\<lambda>_. 7) 300
     [(\<lambda>_. True, CheckOp ''k'' (ts 1) 10), (\<lambda>_. True, CheckOp ''k'' (ts 2) 20),
      (\<lambda>_. True, CompleteOp ''k'' (ts 1) 200 [] ''ok'' 30), (\<lambda>_. True, CheckOp ''k'' (ts 3) 40)]
     (engine_new list_lru 100))
   = [Some NewOp, Some (Conflict (ts 1)), None, Some (Replay (ts 1) 200 [] ''ok'')]"
proof (intro conjI list_lru_laws)
  let ?ps = "[(\<lambda>_ :: nat. True, CheckOp ''k'' (ts 1) 10), (\<lambda>_. True, CheckOp ''k'' (ts 2) 20),
      (\<lambda>_. True, CompleteOp ''k'' (ts 1) 200 [] ''ok'' 30), (\<lambda>_. True, CheckOp ''k'' (ts 3) 40)]"
  have "mem_room list_lru (length ?ps) (engine_new list_lru 100)"
    by (rule engine_new_room [OF list_lru_laws]) simp
  from memory_engine_refines_table [OF this, of "\<lambda>_. 7" 300]
  have "fst (mem_engine.run list_lru (\<lambda>_. 7) 300 ?ps (engine_new list_lru 100)) = fst (spec_run 300 (map snd ?ps) Map.empty)"
    unfolding engine_new_look [OF list_lru_laws] by blast
  also have "\<dots> = [Some NewOp, Some (Conflict (ts 1)), None, Some (Replay (ts 1) 200 [] ''ok'')]"
    by (simp add: spec_check_def live_outcome_def sat_sub_def kept_headers_def List.map_filter_def)
  finally show "fst (mem_engine.run list_lru (\<lambda>_. 7) 300 ?ps (engine_new list_lru 100))
    = [Some NewOp, Some (Conflict (ts 1)), None, Some (Replay (ts 1) 200 [] ''ok'')]" .
qed

text \<open>The operations that leave the record of \<open>k\<close> alone: all but its completion and removal, and
  checks of it that find it alive.\<close>

fun keeps :: "u64 \<Rightarrow> string \<Rightarrow> idem_record \<Rightarrow> idem_op \<Rightarrow> bool" where
  "keeps ttl k rec (CheckOp j h now) = (j = k \<longrightarrow> live_outcome (max ttl 1) now (Some rec) \<noteq> None)"
| "keeps ttl k rec (CompleteOp j h st hs body now) = (j \<noteq> k)"
| "keeps ttl k rec (RemoveOp j) = (j \<noteq> k)"

fun answer :: "u64 \<Rightarrow> string \<Rightarrow> idem_record \<Rightarrow> idem_op \<Rightarrow> idem_outcome option \<Rightarrow> bool" where
  "answer ttl k rec (CheckOp j h now) out = (j = k \<longrightarrow> out = live_outcome (max ttl 1) now (Some rec))"
| "answer ttl k rec _ out = True"

lemma spec_run_keeps:
  "t k = Some rec \<Longrightarrow> list_all (keeps ttl k rec) ps \<Longrightarrow>
   snd (spec_run ttl ps t) k = Some rec \<and> list_all2 (answer ttl k rec) ps (fst (spec_run ttl ps t))"
proof (induction ps arbitrary: t)
  case (Cons p ps)
  obtain out t1 where st: "spec_step ttl p t = (out, t1)" by fastforce
  have "t1 k = Some rec \<and> answer ttl k rec p out"
    using st Cons.prems by (cases p) (auto simp: spec_check_def split: option.splits prod.splits)
  moreover from this Cons.IH [of t1] Cons.prems
  have "snd (spec_run ttl ps t1) k = Some rec \<and> list_all2 (answer ttl k rec) ps (fst (spec_run ttl ps t1))" by simp
  ultimately show ?case using st by (auto split: prod.splits)
qed simp

lemma engine_keeps:
  assumes "mem_room lc (length ps) m" "mem_look lc hash m k = Some rec"
    and "list_all (keeps ttl k rec) (map snd ps)"
  shows "mem_look lc hash (snd (mem_engine.run lc hash ttl ps m)) k = Some rec
    \<and> list_all2 (answer ttl k rec) (map snd ps) (fst (mem_engine.run lc hash ttl ps m))"
  using mem_engine.run_refines [OF assms(1), of hash ttl] spec_run_keeps [of "mem_look lc hash m" k rec ttl "map snd ps"] assms(2,3) by simp

text \<open>C2. At most one execution in flight: once a mutation holds the key since \<open>t0\<close>, every later
  check of that key within the time to live, however many requests on this and other keys
  are interleaved, is refused with the holder's time stamp, as long as nobody completes the key or
  gives it up and the engine has room for all of them: at capacity the record of the holder
  can be evicted.\<close>

theorem idempotency_exclusive:
  assumes "mem_room lc (length ps) m" "mem_look lc hash m k = Some (InProgress h0 t0)"
    and "\<forall>p \<in> snd ` set ps. (\<forall>h st hs b now. p \<noteq> CompleteOp k h st hs b now) \<and> p \<noteq> RemoveOp k
           \<and> (\<forall>h now. p = CheckOp k h now \<longrightarrow> sat_sub now t0 < max ttl 1)"
    and "i < length ps" "snd (ps ! i) = CheckOp k h now"
  shows "fst (mem_engine.run lc hash ttl ps m) ! i = Some (Conflict h0)"
proof -
  have "keeps ttl k (InProgress h0 t0) p" if "p \<in> snd ` set ps" for p
    using bspec [OF assms(3) that] by (cases p) (auto simp: live_outcome_def)
  then have "list_all (keeps ttl k (InProgress h0 t0)) (map snd ps)" by (simp add: list_all_iff)
  from engine_keeps [OF assms(1,2) this] assms(4)
  have "answer ttl k (InProgress h0 t0) (snd (ps ! i)) (fst (mem_engine.run lc hash ttl ps m) ! i)"
    by (auto simp: list_all2_conv_all_nth)
  moreover have "snd (ps ! i) \<in> snd ` set ps" using assms(4) by simp
  ultimately show ?thesis using assms(3,5) by (simp add: live_outcome_def)
qed

lemma check_new_look:
  assumes "mem_room lc 1 m" "check_or_insert lc hash free ttl now k h m = (NewOp, m')"
  shows "mem_look lc hash m' k = Some (InProgress h now)"
proof -
  have "(NewOp, mem_look lc hash m') = spec_check ttl now k h (mem_look lc hash m)"
    using check_step [of lc 0 m hash ttl now k h free] assms by simp
  then show ?thesis
    by (auto simp: spec_check_def live_outcome_def split: option.splits idem_record.splits if_splits)
qed

theorem idempotency_exclusive_witness:
  "fst (mem_engine.run list_lru (\<lambda>_. 7) 300
     [(\<lambda>_. True, CheckOp ''other'' (ts 2) 20), (\<lambda>_. True, CheckOp ''k'' (ts 3) 30)]
     (snd (check_or_insert list_lru (\<lambda>_. 7) (\<lambda>_. True) 300 10 ''k'' (ts 1) (engine_new list_lru 100)))) ! 1
   = Some (Conflict (ts 1))"
proof -
  let ?m0 = "engine_new list_lru 100 :: (nat \<times> (string \<times> idem_record) list) memory_backend"
  obtain out m where c: "check_or_insert list_lru (\<lambda>_. 7) (\<lambda>_. True) 300 10 ''k'' (ts 1) ?m0 = (out, m)" by fastforce
  have room: "mem_room list_lru 3 ?m0" by (rule engine_new_room [OF list_lru_laws]) simp
  have spec: "(out, mem_look list_lru (\<lambda>_. 7) m) = (NewOp, [''k'' \<mapsto> InProgress (ts 1) 10])" "mem_room list_lru 2 m"
    using check_step [of list_lru 2 ?m0 "\<lambda>_. 7" 300 10 "''k''" "ts 1" "\<lambda>_. True"] room c
    by (simp_all add: engine_new_look [OF list_lru_laws] spec_check_def live_outcome_def)
  have two: "mem_room list_lru (length [(\<lambda>_ :: nat. True, CheckOp ''other'' (ts 2) 20), (\<lambda>_. True, CheckOp ''k'' (ts 3) 30)]) m"
    using spec(2) by (simp add: eval_nat_numeral)
  have look: "mem_look list_lru (\<lambda>_. 7) m ''k'' = Some (InProgress (ts 1) 10)" using spec(1) by simp
  have "fst (mem_engine.run list_lru (\<lambda>_. 7) 300
     [(\<lambda>_. True, CheckOp ''other'' (ts 2) 20), (\<lambda>_. True, CheckOp ''k'' (ts 3) 30)] m) ! 1 = Some (Conflict (ts 1))"
    by (rule idempotency_exclusive [OF two look, where h = "ts 3" and now = 30]) (auto simp: sat_sub_def)
  with c show ?thesis by simp
qed

text \<open>C26. Replay is faithful: after \<open>complete\<close> stored a response at \<open>t0\<close>, every check of the key within
  the time to live, whatever other keys do meanwhile, returns that response, as long as the key is
  neither completed again nor removed and the engine has room (a record can be evicted at
  capacity): its status, its body and its headers without the hop-by-hop ones.\<close>

theorem idempotency_replay:
  assumes "mem_room lc (Suc (length ps)) m"
    and "\<forall>p \<in> snd ` set ps. (\<forall>h st hs b now. p \<noteq> CompleteOp k h st hs b now) \<and> p \<noteq> RemoveOp k
           \<and> (\<forall>h now. p = CheckOp k h now \<longrightarrow> sat_sub now t0 < max ttl 1)"
    and "i < length ps" "snd (ps ! i) = CheckOp k h now"
  shows "fst (mem_engine.run lc hash ttl ps (complete lc hash t0 k h0 st0 hs0 body0 m)) ! i
    = Some (Replay h0 st0 (kept_headers hs0) body0)"
proof -
  let ?rec = "Completed h0 st0 (kept_headers hs0) body0 t0"
  let ?m = "complete lc hash t0 k h0 st0 hs0 body0 m"
  have room: "mem_room lc (length ps) ?m" and look: "mem_look lc hash ?m k = Some ?rec"
    using put_step [OF assms(1), of hash k ?rec] by (simp_all add: complete_def)
  have "keeps ttl k ?rec p" if "p \<in> snd ` set ps" for p
    using bspec [OF assms(2) that] by (cases p) (auto simp: live_outcome_def)
  then have "list_all (keeps ttl k ?rec) (map snd ps)" by (simp add: list_all_iff)
  from engine_keeps [OF room look this] assms(3)
  have "answer ttl k ?rec (snd (ps ! i)) (fst (mem_engine.run lc hash ttl ps ?m) ! i)"
    by (auto simp: list_all2_conv_all_nth)
  moreover have "snd (ps ! i) \<in> snd ` set ps" using assms(3) by simp
  ultimately show ?thesis using assms(2,4) by (simp add: live_outcome_def)
qed

theorem idempotency_replay_witness:
  "fst (mem_engine.run list_lru (\<lambda>_. 7) 300 [(\<lambda>_. True, CheckOp ''k'' (ts 3) 30)]
     (complete list_lru (\<lambda>_. 7) 20 ''k'' (ts 1) 200 [(''Connection'', ''close''), (''etag'', ''x'')] ''ok''
        (engine_new list_lru 100))) ! 0
   = Some (Replay (ts 1) 200 (kept_headers [(''Connection'', ''close''), (''etag'', ''x'')]) ''ok'')"
proof (rule idempotency_replay [where h = "ts 3" and now = 30])
  show "mem_room list_lru (Suc (length [(\<lambda>_ :: nat. True, CheckOp ''k'' (ts 3) 30)])) (engine_new list_lru 100)"
    by (rule engine_new_room [OF list_lru_laws]) simp
qed (auto simp: sat_sub_def)

text \<open>Beyond the capacity the locks of running mutations are evicted like any other entry: with room
  for one record, a second key frees the first, and the first may run again.\<close>

lemma eviction_drops_lock:
  "(let free = (\<lambda>_. True); hash = (\<lambda>_. 7);
        (o1, m1) = check_or_insert list_lru hash free 300 10 ''a'' (ts 1) (engine_new list_lru 1);
        (o2, m2) = check_or_insert list_lru hash free 300 11 ''b'' (ts 2) m1;
        (o3, m3) = check_or_insert list_lru hash free 300 12 ''a'' (ts 3) m2
    in [o1, o2, o3]) = [NewOp, NewOp, NewOp]"
  by code_simp

text \<open>Completing an evicted key in a full shard counts a record that replaced another one.\<close>

lemma complete_after_eviction_overcounts:
  "(let free = (\<lambda>_. True); hash = (\<lambda>_. 7);
        (o1, m1) = check_or_insert list_lru hash free 300 10 ''a'' (ts 1) (engine_new list_lru 1);
        (o2, m2) = check_or_insert list_lru hash free 300 11 ''b'' (ts 2) m1;
        m3 = complete list_lru hash 12 ''a'' (ts 1) 200 [] ''ok'' m2
    in (active_record_count m3, total_records list_lru (shards m3))) = (2, 1)"
  by code_simp

text \<open>The Redis back end fails open: without a connection, on an error of \<open>SET NX\<close> or on an
  unreadable stored record the operation is executed as new; it is refused or replayed only
  on a record that was read back.\<close>

theorem redis_fails_open:
  "fst (redis_check_or_insert to_json from_json prefix ttl now key h connected set_reply get_reply) \<noteq> NewOp \<longleftrightarrow>
     (connected \<and> set_reply = Inr None \<and> (\<exists>js. to_json (InProgress h now) = Inr js)
      \<and> (\<exists>raw rec. get_reply = Inr (Some raw) \<and> from_json raw = Inr rec))"
  by (auto simp: redis_check_or_insert_def Let_def split: sum.splits option.splits idem_record.splits)

end
