(* ===== verification/Subscriptions.thy ===== *)
theory Subscriptions
  imports Protocol
begin

text \<open>
  \<open>subscriptions/\<close>: the graphql-transport-ws messages, the subscription hub (topics to
  registrations, connections to their subscriptions), the topic a subscription query asks for,
  the connection actor and the WebSocket handshake.

  A channel of tokio's \<open>mpsc\<close> is a bounded queue with a closed flag, and the senders the hub
  keeps are addresses into a store of channels, because several registrations of a connection
  share one channel.  Arguments that stand for library code: \<open>apollo\<close> (the syntax tree of a
  query, with the arguments of its fields), \<open>from_str\<close> and \<open>to_string\<close> (serde_json), \<open>to_text\<close>
  (tungstenite's reading of a frame as text), \<open>show_num\<close> (serde_json's printing of a number),
  \<open>accept_key\<close> (the RFC 6455 hash).
\<close>

section \<open>Messages\<close>

definition BAD_REQUEST :: nat where "BAD_REQUEST = 4400"
definition UNAUTHORIZED :: nat where "UNAUTHORIZED = 4401"
definition SUBSCRIBER_ALREADY_EXISTS :: nat where "SUBSCRIBER_ALREADY_EXISTS = 4409"

lemmas close_codes = BAD_REQUEST_def UNAUTHORIZED_def SUBSCRIBER_ALREADY_EXISTS_def

record subscribe_payload =
  sp_query :: string
  sp_variables :: "json option"
  sp_operation_name :: "string option"
  sp_extensions :: "json option"

datatype client_message =
    ConnectionInit "json option"
  | CPing "json option"
  | CPong "json option"
  | Subscribe string subscribe_payload
  | CComplete string

record execution_result =
  er_data :: "json option"
  er_errors :: "json list option"
  er_extensions :: "json option"

datatype server_message =
    ConnectionAck "json option"
  | SPing "json option"
  | SPong "json option"
  | Next string execution_result
  | ErrorMsg string "json list"
  | SComplete string

definition with_data :: "json \<Rightarrow> execution_result" where
  "with_data d = \<lparr>er_data = Some d, er_errors = None, er_extensions = None\<rparr>"

definition with_error :: "string \<Rightarrow> execution_result" where
  "with_error message =
     \<lparr>er_data = None, er_errors = Some [JObject [(''message'', JString message)]], er_extensions = None\<rparr>"

definition is_websocket_upgrade :: "header_map \<Rightarrow> bool" where
  "is_websocket_upgrade hs =
     ((case header_get hs ''upgrade'' of
         Some v \<Rightarrow> eq_ignore_ascii_case v ''websocket'' | None \<Rightarrow> False)
      \<and> (case header_get hs ''connection'' of
           Some v \<Rightarrow> list_ex (\<lambda>part. eq_ignore_ascii_case (trim part) ''upgrade'')
                       (split_on (CHR '','') (unwrap_or (to_str v) []))
         | None \<Rightarrow> False))"

section \<open>Channels\<close>

type_synonym chan_id = uuid

record channel =
  ch_queue :: "server_message list"
  ch_capacity :: nat
  ch_closed :: bool

datatype send_result = SendOk | SendClosed | SendFull

definition try_send :: "(chan_id \<Rightarrow> channel) \<Rightarrow> chan_id \<Rightarrow> server_message \<Rightarrow> send_result \<times> (chan_id \<Rightarrow> channel)" where
  "try_send chs ch msg =
     (let c = chs ch
      in if ch_closed c then (SendClosed, chs)
         else if ch_capacity c \<le> length (ch_queue c) then (SendFull, chs)
         else (SendOk, chs(ch := c\<lparr>ch_queue := ch_queue c @ [msg]\<rparr>)))"

section \<open>The hub\<close>

record registration =
  rg_conn :: uuid
  rg_sub :: string
  rg_topic :: string
  rg_root_field :: string
  rg_tx :: chan_id

record hub =
  topics :: "(string \<times> registration list) list"
  connections :: "(uuid \<times> (string \<times> string) list) list"

definition hub_new :: hub where
  "hub_new = \<lparr>topics = [], connections = []\<rparr>"

definition same_sub :: "uuid \<Rightarrow> string \<Rightarrow> registration \<Rightarrow> bool" where
  "same_sub c s r = (rg_conn r = c \<and> rg_sub r = s)"

definition topic_list :: "hub \<Rightarrow> string \<Rightarrow> registration list" where
  "topic_list h t = unwrap_or (map_of (topics h) t) []"

definition conn_list :: "hub \<Rightarrow> uuid \<Rightarrow> (string \<times> string) list" where
  "conn_list h c = unwrap_or (map_of (connections h) c) []"

text \<open>\<open>register\<close> is two critical sections, one per lock.\<close>

definition register_topic :: "registration \<Rightarrow> hub \<Rightarrow> hub" where
  "register_topic r h =
     h\<lparr>topics := alist_insert (rg_topic r)
         (filter (\<lambda>q. \<not> same_sub (rg_conn r) (rg_sub r) q) (topic_list h (rg_topic r)) @ [r]) (topics h)\<rparr>"

definition register_connection :: "registration \<Rightarrow> hub \<Rightarrow> hub" where
  "register_connection r h =
     h\<lparr>connections := alist_insert (rg_conn r)
         (filter (\<lambda>p. fst p \<noteq> rg_sub r) (conn_list h (rg_conn r)) @ [(rg_sub r, rg_topic r)]) (connections h)\<rparr>"

definition register :: "registration \<Rightarrow> hub \<Rightarrow> hub" where
  "register r h = register_connection r (register_topic r h)"

text \<open>The removal from the topic map that \<open>deregister\<close> and \<open>deregister_connection\<close> share.\<close>

definition drop_from_topic :: "uuid \<Rightarrow> string \<Rightarrow> string \<Rightarrow> hub \<Rightarrow> hub" where
  "drop_from_topic c s t h =
     (case map_of (topics h) t of
        None \<Rightarrow> h
      | Some subs \<Rightarrow>
          let subs' = filter (\<lambda>r. \<not> same_sub c s r) subs
          in if subs' = [] then h\<lparr>topics := alist_remove t (topics h)\<rparr>
             else h\<lparr>topics := alist_insert t subs' (topics h)\<rparr>)"

text \<open>\<open>position\<close> and \<open>remove\<close> of the connection's list: the first entry of the id goes.\<close>

fun remove_first :: "string \<Rightarrow> (string \<times> string) list \<Rightarrow> (string \<times> string) list" where
  "remove_first s [] = []"
| "remove_first s (p # ps) = (if fst p = s then ps else p # remove_first s ps)"

definition deregister :: "uuid \<Rightarrow> string \<Rightarrow> hub \<Rightarrow> hub" where
  "deregister c s h =
     (case map_of (connections h) c of
        None \<Rightarrow> h
      | Some l \<Rightarrow>
          (case map_of l s of
             None \<Rightarrow> h
           | Some t \<Rightarrow> drop_from_topic c s t
                         (h\<lparr>connections := alist_insert c (remove_first s l) (connections h)\<rparr>)))"

definition deregister_connection :: "uuid \<Rightarrow> hub \<Rightarrow> hub" where
  "deregister_connection c h =
     (case map_of (connections h) c of
        None \<Rightarrow> h
      | Some l \<Rightarrow> fold (\<lambda>(s, t). drop_from_topic c s t) l
                    (h\<lparr>connections := alist_remove c (connections h)\<rparr>))"

definition active_subscriptions_count :: "hub \<Rightarrow> nat" where
  "active_subscriptions_count h = sum_list (map (\<lambda>(t, subs). length subs) (topics h))"

definition has_subscription :: "uuid \<Rightarrow> string \<Rightarrow> hub \<Rightarrow> bool" where
  "has_subscription c s h =
     (case map_of (connections h) c of Some l \<Rightarrow> list_ex (\<lambda>(i, t). i = s) l | None \<Rightarrow> False)"

definition active_connection_count :: "hub \<Rightarrow> nat" where
  "active_connection_count h = length (connections h)"

definition active_topics :: "hub \<Rightarrow> string list" where
  "active_topics h = map fst (topics h)"

definition next_message :: "json \<Rightarrow> registration \<Rightarrow> server_message" where
  "next_message payload r =
     Next (rg_sub r) (with_data
       (case as_object payload of
          Some obj \<Rightarrow> if ''data'' \<in> set (map fst obj) then payload
                      else JObject [(rg_root_field r, payload)]
        | None \<Rightarrow> JObject [(rg_root_field r, payload)]))"

fun send_all ::
  "json \<Rightarrow> registration list \<Rightarrow> (chan_id \<Rightarrow> channel) \<Rightarrow> nat \<times> (uuid \<times> string) list \<times> (chan_id \<Rightarrow> channel)" where
  "send_all payload [] chs = (0, [], chs)"
| "send_all payload (r # rs) chs =
     (let (res, chs') = try_send chs (rg_tx r) (next_message payload r);
          (n, dead, chs'') = send_all payload rs chs'
      in case res of
           SendOk \<Rightarrow> (Suc n, dead, chs'')
         | SendClosed \<Rightarrow> (n, (rg_conn r, rg_sub r) # dead, chs'')
         | SendFull \<Rightarrow> (n, dead, chs''))"

definition broadcast ::
  "string \<Rightarrow> json \<Rightarrow> hub \<Rightarrow> (chan_id \<Rightarrow> channel) \<Rightarrow> nat \<times> hub \<times> (chan_id \<Rightarrow> channel)" where
  "broadcast topic payload h chs =
     (case map_of (topics h) topic of
        None \<Rightarrow> (0, h, chs)
      | Some subs \<Rightarrow>
          let (n, dead, chs') = send_all payload subs chs
          in (n, fold (\<lambda>(c, s). deregister c s) dead h, chs'))"

section \<open>The topic of a subscription\<close>

text \<open>What the apollo parser gives of a subscription document.\<close>

datatype arg_value =
    VariableValue "string option"
  | StringValue string
  | IntValue string
  | EnumValue "string option"
  | OtherValue

datatype sub_selection = SubField "string option" "(string option \<times> arg_value option) list option" | SubOther

datatype sub_definition = SubOperation "op_token option" "sub_selection list option" | SubOtherDefinition

definition variable_text :: "(json_number \<Rightarrow> string) \<Rightarrow> json option \<Rightarrow> string \<Rightarrow> string option" where
  "variable_text show_num vars name =
     Option.bind vars (\<lambda>v. Option.bind (json_get v name) (\<lambda>val.
       case val of JString s \<Rightarrow> Some s | JNumber n \<Rightarrow> Some (show_num n) | _ \<Rightarrow> None))"

fun arg_text :: "(json_number \<Rightarrow> string) \<Rightarrow> json option \<Rightarrow> arg_value option \<Rightarrow> string option" where
  "arg_text show_num vars (Some (VariableValue n)) = variable_text show_num vars (unwrap_or n [])"
| "arg_text show_num vars (Some (StringValue s)) =
     Some (trim_end (\<lambda>c. c = CHR 0x22) (trim_start (\<lambda>c. c = CHR 0x22) s))"
| "arg_text show_num vars (Some (IntValue i)) = Some i"
| "arg_text show_num vars (Some (EnumValue n)) = n"
| "arg_text show_num vars _ = None"

definition is_identity_arg :: "string \<Rightarrow> bool" where
  "is_identity_arg name =
     (let lower = to_lowercase name in lower = ''id'' \<or> ends_with lower ''id'' \<or> lower = ''topic'')"

text \<open>The loop over the arguments; the second argument is \<open>primary_arg\<close>.\<close>

fun primary_arg ::
  "(arg_value option \<Rightarrow> string option) \<Rightarrow> string option \<Rightarrow> (string option \<times> arg_value option) list \<Rightarrow> string option" where
  "primary_arg txt acc [] = acc"
| "primary_arg txt acc ((n, v) # args) =
     (case txt v of
        None \<Rightarrow> primary_arg txt acc args
      | Some val \<Rightarrow>
          if is_identity_arg (unwrap_or n []) then Some val
          else primary_arg txt (if acc = None then Some val else acc) args)"

definition topic_of :: "string \<Rightarrow> string \<Rightarrow> string option \<Rightarrow> string" where
  "topic_of prefix root_field arg =
     prefix @ ''.events.'' @ to_lowercase root_field @ (case arg of Some a \<Rightarrow> ''.'' @ a | None \<Rightarrow> [])"

fun first_field ::
  "(arg_value option \<Rightarrow> string option) \<Rightarrow> string \<Rightarrow> sub_selection list \<Rightarrow> (string \<times> string) result option" where
  "first_field txt prefix [] = None"
| "first_field txt prefix (SubOther # ss) = first_field txt prefix ss"
| "first_field txt prefix (SubField None args # ss) = Some (Inl ''Field missing name'')"
| "first_field txt prefix (SubField (Some f) args # ss) =
     Some (Inr (topic_of prefix f (primary_arg txt None (unwrap_or args [])), f))"

fun scan_subscriptions ::
  "(arg_value option \<Rightarrow> string option) \<Rightarrow> string \<Rightarrow> sub_definition list \<Rightarrow> (string \<times> string) result" where
  "scan_subscriptions txt prefix [] = Inl ''No subscription operation found in query''"
| "scan_subscriptions txt prefix (SubOtherDefinition # ds) = scan_subscriptions txt prefix ds"
| "scan_subscriptions txt prefix (SubOperation ty sels # ds) =
     (if ty \<noteq> Some SubscriptionToken then Inl ''Operation must be a subscription''
      else case first_field txt prefix (unwrap_or sels []) of
             Some res \<Rightarrow> res
           | None \<Rightarrow> scan_subscriptions txt prefix ds)"

definition derive_subscription_topic ::
  "(string \<Rightarrow> string list \<times> sub_definition list) \<Rightarrow> (json_number \<Rightarrow> string) \<Rightarrow> string \<Rightarrow> string
     \<Rightarrow> json option \<Rightarrow> (string \<times> string) result" where
  "derive_subscription_topic apollo show_num prefix query vars =
     (let (errors, defs) = apollo query
      in if errors \<noteq> [] then Inl (''GraphQL subscription syntax error: '' @ join ''; '' errors)
         else scan_subscriptions (arg_text show_num vars) prefix defs)"

section \<open>The connection actor\<close>

datatype ws_frame =
    WsText string | WsBinary string | WsPing string | WsPong string | WsClose "(nat \<times> string) option"

datatype out_frame = OutText string | OutPong string | OutClose nat string

text \<open>What the three branches of the select loop can yield: a message of the connection's own
  channel, a tick of the keepalive timer (each with whether the sink accepted the frame), and
  the next item of the WebSocket stream.\<close>

datatype actor_event =
    Outgoing bool
  | PingTick bool
  | Incoming ws_frame
  | ReadError
  | StreamEnd

record ws_env =
  we_from_str :: "string \<Rightarrow> client_message result"
  we_to_string :: "server_message \<Rightarrow> string result"
  we_to_text :: "ws_frame \<Rightarrow> string option"
  we_apollo :: "string \<Rightarrow> string list \<times> sub_definition list"
  we_show_num :: "json_number \<Rightarrow> string"
  we_prefix :: string
  we_capacity :: nat

record actor =
  ac_initialized :: bool
  ac_sent :: "out_frame list"

definition send_frame :: "out_frame \<Rightarrow> actor \<Rightarrow> actor" where
  "send_frame f ac = ac\<lparr>ac_sent := ac_sent ac @ [f]\<rparr>"

definition send_msg :: "ws_env \<Rightarrow> server_message \<Rightarrow> actor \<Rightarrow> actor" where
  "send_msg env m ac = (case we_to_string env m of Inr j \<Rightarrow> send_frame (OutText j) ac | Inl _ \<Rightarrow> ac)"

text \<open>The match on the client message: whether the loop goes on, the actor and the hub.  The
  connection's channel has the connection's id as its address.\<close>

fun handle_message ::
  "ws_env \<Rightarrow> uuid \<Rightarrow> client_message \<Rightarrow> actor \<Rightarrow> hub \<Rightarrow> bool \<times> actor \<times> hub" where
  "handle_message env c (ConnectionInit p) ac h =
     (True, send_msg env (ConnectionAck None) (ac\<lparr>ac_initialized := True\<rparr>), h)"
| "handle_message env c (CPing p) ac h = (True, send_msg env (SPong p) ac, h)"
| "handle_message env c (CPong p) ac h = (True, ac, h)"
| "handle_message env c (Subscribe i p) ac h =
     (if \<not> ac_initialized ac then
        (False, send_frame (OutClose UNAUTHORIZED ''Unauthorized: connection_init required'') ac, h)
      else if has_subscription c i h then
        (False, send_frame (OutClose SUBSCRIBER_ALREADY_EXISTS
                              (''Subscriber for '' @ quoted i @ '' already exists'')) ac, h)
      else case derive_subscription_topic (we_apollo env) (we_show_num env) (we_prefix env)
                  (sp_query p) (sp_variables p) of
             Inr (topic, root_field) \<Rightarrow>
               (True, ac, register \<lparr>rg_conn = c, rg_sub = i, rg_topic = topic,
                                     rg_root_field = root_field, rg_tx = c\<rparr> h)
           | Inl e \<Rightarrow> (True, send_msg env (ErrorMsg i [JObject [(''message'', JString e)]]) ac, h))"
| "handle_message env c (CComplete i) ac h = (True, ac, deregister c i h)"

definition handle_text :: "ws_env \<Rightarrow> uuid \<Rightarrow> string \<Rightarrow> actor \<Rightarrow> hub \<Rightarrow> bool \<times> actor \<times> hub" where
  "handle_text env c text ac h =
     (case we_from_str env text of
        Inl _ \<Rightarrow> (False, send_frame (OutClose BAD_REQUEST ''Invalid JSON'') ac, h)
      | Inr m \<Rightarrow> handle_message env c m ac h)"

definition handle_frame :: "ws_env \<Rightarrow> uuid \<Rightarrow> ws_frame \<Rightarrow> actor \<Rightarrow> hub \<Rightarrow> bool \<times> actor \<times> hub" where
  "handle_frame env c fr ac h =
     (case fr of
        WsClose _ \<Rightarrow> (False, ac, h)
      | WsPing d \<Rightarrow> (True, send_frame (OutPong d) ac, h)
      | _ \<Rightarrow> (case we_to_text env fr of
                None \<Rightarrow> (True, ac, h)
              | Some text \<Rightarrow> handle_text env c text ac h))"

text \<open>One turn of the loop.  \<open>recv\<close> on an empty channel stays pending, and never yields \<open>None\<close>:
  the loop itself owns a sender.\<close>

fun actor_turn ::
  "ws_env \<Rightarrow> uuid \<Rightarrow> actor_event \<Rightarrow> actor \<Rightarrow> hub \<Rightarrow> channel \<Rightarrow> bool \<times> actor \<times> hub \<times> channel" where
  "actor_turn env c (Outgoing ok) ac h ch =
     (case ch_queue ch of
        [] \<Rightarrow> (True, ac, h, ch)
      | m # ms \<Rightarrow>
          (case we_to_string env m of
             Inl _ \<Rightarrow> (True, ac, h, ch\<lparr>ch_queue := ms\<rparr>)
           | Inr j \<Rightarrow> (ok, if ok then send_frame (OutText j) ac else ac, h, ch\<lparr>ch_queue := ms\<rparr>)))"
| "actor_turn env c (PingTick ok) ac h ch =
     (case we_to_string env (SPing None) of
        Inl _ \<Rightarrow> (True, ac, h, ch)
      | Inr j \<Rightarrow> (ok, if ok then send_frame (OutText j) ac else ac, h, ch))"
| "actor_turn env c (Incoming fr) ac h ch =
     (let (go, ac', h') = handle_frame env c fr ac h in (go, ac', h', ch))"
| "actor_turn env c ReadError ac h ch = (False, ac, h, ch)"
| "actor_turn env c StreamEnd ac h ch = (False, ac, h, ch)"

text \<open>The loop on a sequence of events, with no other connection between them, and the cleanup
  after it.\<close>

fun actor_run ::
  "ws_env \<Rightarrow> uuid \<Rightarrow> actor_event list \<Rightarrow> actor \<Rightarrow> hub \<Rightarrow> channel \<Rightarrow> bool \<times> actor \<times> hub \<times> channel" where
  "actor_run env c [] ac h ch = (True, ac, h, ch)"
| "actor_run env c (ev # evs) ac h ch =
     (case actor_turn env c ev ac h ch of
        (True, ac', h', ch') \<Rightarrow> actor_run env c evs ac' h' ch'
      | (False, ac', h', ch') \<Rightarrow> (False, ac', deregister_connection c h', ch'\<lparr>ch_closed := True\<rparr>))"

section \<open>The handshake\<close>

datatype handshake = HandshakeRefused nat string | HandshakeAccepted header_map

definition subprotocol_header :: "string option \<Rightarrow> header_map" where
  "subprotocol_header requested =
     (case requested of
        None \<Rightarrow> []
      | Some p \<Rightarrow>
          if contains_str p ''graphql-transport-ws''
          then [(''sec-websocket-protocol'', ''graphql-transport-ws'')]
          else [(''sec-websocket-protocol'', trim (hd (split_on (CHR '','') p)))])"

definition websocket_handshake :: "(string \<Rightarrow> string) \<Rightarrow> header_map \<Rightarrow> handshake" where
  "websocket_handshake accept_key hs =
     (let sec_key = unwrap_or (header_str hs ''sec-websocket-key'') []
      in if sec_key = [] then HandshakeRefused 400 ''Missing Sec-WebSocket-Key''
         else HandshakeAccepted ([(''connection'', ''Upgrade''), (''upgrade'', ''websocket''),
                         (''sec-websocket-accept'', accept_key sec_key)]
                        @ subprotocol_header (header_str hs ''sec-websocket-protocol'')))"

section \<open>Connections side by side\<close>

text \<open>The hub is shared by the actors of all connections and by the consumers that broadcast.
  \<open>Connect\<close> is the start of an actor under a fresh id, \<open>Turn\<close> a turn of a running actor (with
  the cleanup and the drop of the receiver when its loop ends), \<open>Abort\<close> the handler's abort of
  the actor when the pump to the client ends first, \<open>Publish\<close> a broadcast.  A turn with its
  registration or cleanup, and a broadcast, are one step here; \<open>HubSections\<close> splits them into their
  critical sections, where others run and the abort can hit.\<close>

record world =
  w_hub :: hub
  w_chans :: "chan_id \<Rightarrow> channel"
  w_actors :: "uuid \<Rightarrow> actor option"
  w_used :: "uuid list"

datatype world_event =
    Connect uuid
  | Turn uuid actor_event
  | Abort uuid
  | Publish string json

definition world_new :: world where
  "world_new = \<lparr>w_hub = hub_new, w_chans = (\<lambda>_. \<lparr>ch_queue = [], ch_capacity = 0, ch_closed = True\<rparr>),
                w_actors = (\<lambda>_. None), w_used = []\<rparr>"

fun world_step :: "ws_env \<Rightarrow> world_event \<Rightarrow> world \<Rightarrow> world" where
  "world_step env (Connect c) w =
     (if c \<in> set (w_used w) then w
      else w\<lparr>w_chans := (w_chans w)(c := \<lparr>ch_queue = [], ch_capacity = we_capacity env, ch_closed = False\<rparr>),
             w_actors := (w_actors w)(c \<mapsto> \<lparr>ac_initialized = False, ac_sent = []\<rparr>),
             w_used := c # w_used w\<rparr>)"
| "world_step env (Turn c ev) w =
     (case w_actors w c of
        None \<Rightarrow> w
      | Some ac \<Rightarrow>
          (case actor_turn env c ev ac (w_hub w) (w_chans w c) of
             (True, ac', h', ch') \<Rightarrow>
               w\<lparr>w_hub := h', w_chans := (w_chans w)(c := ch'), w_actors := (w_actors w)(c \<mapsto> ac')\<rparr>
           | (False, ac', h', ch') \<Rightarrow>
               w\<lparr>w_hub := deregister_connection c h',
                 w_chans := (w_chans w)(c := ch'\<lparr>ch_closed := True\<rparr>), w_actors := (w_actors w)(c := None)\<rparr>))"
| "world_step env (Abort c) w =
     (case w_actors w c of
        None \<Rightarrow> w
      | Some ac \<Rightarrow> w\<lparr>w_chans := (w_chans w)(c := (w_chans w c)\<lparr>ch_closed := True\<rparr>),
                     w_actors := (w_actors w)(c := None)\<rparr>)"
| "world_step env (Publish topic payload) w =
     (case broadcast topic payload (w_hub w) (w_chans w) of
        (n, h', chs') \<Rightarrow> w\<lparr>w_hub := h', w_chans := chs'\<rparr>)"

inductive reachable_world :: "ws_env \<Rightarrow> world \<Rightarrow> bool" for env where
  init: "reachable_world env world_new"
| step: "reachable_world env w \<Longrightarrow> reachable_world env (world_step env ev w)"

section \<open>The two indices agree\<close>

definition keys_ok :: "hub \<Rightarrow> bool" where
  "keys_ok h = (distinct (map fst (topics h)) \<and> distinct (map fst (connections h))
     \<and> [] \<notin> snd ` set (topics h))"

definition hub_ok :: "hub \<Rightarrow> bool" where
  "hub_ok h = (keys_ok h
     \<and> (\<forall>t. \<forall>r \<in> set (topic_list h t). rg_topic r = t)
     \<and> (\<forall>t. distinct (map (\<lambda>r. (rg_conn r, rg_sub r)) (topic_list h t)))
     \<and> (\<forall>c. distinct (map fst (conn_list h c)))
     \<and> (\<forall>c s t. (s, t) \<in> set (conn_list h c) \<longleftrightarrow> (\<exists>r \<in> set (topic_list h t). same_sub c s r)))"

definition hub_view :: "hub \<Rightarrow> uuid \<times> string \<Rightarrow> registration option" where
  "hub_view h = (\<lambda>(c, s). Option.bind (map_of (conn_list h c) s) (\<lambda>t. List.find (same_sub c s) (topic_list h t)))"

lemma topic_list_register [simp]:
  "topic_list (register r h) t =
     (if t = rg_topic r then filter (\<lambda>q. \<not> same_sub (rg_conn r) (rg_sub r) q) (topic_list h t) @ [r]
      else topic_list h t)"
  by (simp add: register_def register_topic_def register_connection_def topic_list_def)

lemma conn_list_register [simp]:
  "conn_list (register r h) c =
     (if c = rg_conn r then filter (\<lambda>p. fst p \<noteq> rg_sub r) (conn_list h c) @ [(rg_sub r, rg_topic r)]
      else conn_list h c)"
  by (simp add: register_def register_topic_def register_connection_def conn_list_def)

lemma topic_list_drop [simp]:
  "topic_list (drop_from_topic c s t h) t' =
     (if t' = t then filter (\<lambda>r. \<not> same_sub c s r) (topic_list h t) else topic_list h t')"
  by (auto simp: drop_from_topic_def topic_list_def Let_def split: option.splits)

lemma conn_list_drop [simp]: "conn_list (drop_from_topic c s t h) = conn_list h"
  by (auto simp: drop_from_topic_def conn_list_def Let_def split: option.splits)

lemma connections_drop [simp]: "connections (drop_from_topic c s t h) = connections h"
  by (auto simp: drop_from_topic_def Let_def split: option.splits)

lemma topic_list_connections [simp]: "topic_list (h\<lparr>connections := x\<rparr>) = topic_list h"
  by (simp add: topic_list_def fun_eq_iff)

lemma conn_list_deregister [simp]:
  "conn_list (deregister c s h) c' = (if c' = c then remove_first s (conn_list h c) else conn_list h c')"
proof -
  have "map_of l s = None \<Longrightarrow> remove_first s l = l" for l by (induction l) auto
  then show ?thesis by (auto simp: deregister_def split: option.splits) (auto simp: conn_list_def)
qed

lemma topic_list_deregister:
  "topic_list (deregister c s h) t =
     (if map_of (conn_list h c) s = Some t then filter (\<lambda>r. \<not> same_sub c s r) (topic_list h t)
      else topic_list h t)"
  by (auto simp: deregister_def conn_list_def split: option.splits)

lemma topic_list_fold_drop:
  "topic_list (fold (\<lambda>(s, t). drop_from_topic c s t) l h) t =
     filter (\<lambda>r. \<not> (\<exists>s. (s, t) \<in> set l \<and> same_sub c s r)) (topic_list h t)"
proof (induction l arbitrary: h)
  case (Cons p l)
  then show ?case by (cases p) (auto simp: filter_filter intro: filter_cong)
qed simp

lemma connections_fold_drop [simp]:
  "connections (fold (\<lambda>(s, t). drop_from_topic c s t) l h) = connections h"
  by (induction l arbitrary: h) auto

lemma conn_list_deregister_connection [simp]:
  "conn_list (deregister_connection c h) c' = (if c' = c then [] else conn_list h c')"
  by (auto simp: deregister_connection_def conn_list_def split: option.splits)

lemma topic_list_deregister_connection:
  "topic_list (deregister_connection c h) t =
     filter (\<lambda>r. \<not> (\<exists>s. (s, t) \<in> set (conn_list h c) \<and> same_sub c s r)) (topic_list h t)"
  by (auto simp: deregister_connection_def conn_list_def topic_list_fold_drop split: option.splits)

subsection \<open>Keys stay distinct and no topic is kept empty\<close>

lemma distinct_alist_remove [simp]: "distinct (map fst xs) \<Longrightarrow> distinct (map fst (alist_remove k xs))"
  by (simp add: alist_remove_def distinct_map_filter)

lemma keys_ok_new [simp]: "keys_ok hub_new"
  by (simp add: keys_ok_def hub_new_def)

lemma keys_ok_connections:
  "keys_ok h \<Longrightarrow> distinct (map fst l) \<Longrightarrow> keys_ok (h\<lparr>connections := l\<rparr>)"
  by (simp add: keys_ok_def)

lemma keys_ok_topics_insert:
  assumes "keys_ok h" and "v \<noteq> []"
  shows "keys_ok (h\<lparr>topics := alist_insert t v (topics h)\<rparr>)"
  using assms by (auto simp: keys_ok_def alist_insert_def distinct_map_filter)

lemma keys_ok_topics_remove: "keys_ok h \<Longrightarrow> keys_ok (h\<lparr>topics := alist_remove t (topics h)\<rparr>)"
  by (auto simp: keys_ok_def alist_remove_def distinct_map_filter)

lemma keys_ok_distinct [dest]: "keys_ok h \<Longrightarrow> distinct (map fst (connections h))"
  by (simp add: keys_ok_def)

lemma keys_ok_register: "keys_ok h \<Longrightarrow> keys_ok (register r h)"
  unfolding register_def register_connection_def register_topic_def
  by (intro keys_ok_connections keys_ok_topics_insert distinct_alist_insert) (auto simp: keys_ok_def)

lemma keys_ok_drop: "keys_ok h \<Longrightarrow> keys_ok (drop_from_topic c s t h)"
  by (simp add: drop_from_topic_def Let_def keys_ok_topics_insert keys_ok_topics_remove split: option.split)

lemma keys_ok_fold_drop: "keys_ok h \<Longrightarrow> keys_ok (fold (\<lambda>(s, t). drop_from_topic c s t) l h)"
  by (induction l arbitrary: h) (auto intro: keys_ok_drop)

lemma keys_ok_deregister: "keys_ok h \<Longrightarrow> keys_ok (deregister c s h)"
  by (auto simp: deregister_def split: option.split intro!: keys_ok_drop keys_ok_connections distinct_alist_insert)

lemma keys_ok_deregister_connection: "keys_ok h \<Longrightarrow> keys_ok (deregister_connection c h)"
  by (auto simp: deregister_connection_def split: option.split
      intro!: keys_ok_fold_drop keys_ok_connections distinct_alist_remove)

subsection \<open>The invariant and the abstract table\<close>

lemma hub_okD:
  assumes "hub_ok h"
  shows "keys_ok h"
    and "r \<in> set (topic_list h t) \<Longrightarrow> rg_topic r = t"
    and "distinct (map (\<lambda>r. (rg_conn r, rg_sub r)) (topic_list h t))"
    and "distinct (map fst (conn_list h c))"
    and "(s, t) \<in> set (conn_list h c) \<longleftrightarrow> (\<exists>r \<in> set (topic_list h t). same_sub c s r)"
  using assms by (auto simp: hub_ok_def)

lemma hub_okI:
  assumes "keys_ok h"
    and "\<And>t r. r \<in> set (topic_list h t) \<Longrightarrow> rg_topic r = t"
    and "\<And>t. distinct (map (\<lambda>r. (rg_conn r, rg_sub r)) (topic_list h t))"
    and "\<And>c. distinct (map fst (conn_list h c))"
    and "\<And>c s t. (s, t) \<in> set (conn_list h c) \<longleftrightarrow> (\<exists>r \<in> set (topic_list h t). same_sub c s r)"
  shows "hub_ok h"
  using assms unfolding hub_ok_def by blast

lemma hub_ok_new [simp]: "hub_ok hub_new"
  by (rule hub_okI) (simp_all add: topic_list_def conn_list_def hub_new_def keys_ok_def)

lemma map_of_conn_list:
  "hub_ok h \<Longrightarrow> map_of (conn_list h c) s = Some t \<longleftrightarrow> (\<exists>r \<in> set (topic_list h t). same_sub c s r)"
  using hub_okD(4) [of h c] hub_okD(5) [of h s t c] by (simp add: map_of_eq_Some_iff)

lemma hub_view_iff:
  assumes ok: "hub_ok h"
  shows "hub_view h (c, s) = Some r \<longleftrightarrow> same_sub c s r \<and> r \<in> set (topic_list h (rg_topic r))"
proof
  assume "hub_view h (c, s) = Some r"
  then obtain t where "List.find (same_sub c s) (topic_list h t) = Some r"
    by (auto simp: hub_view_def bind_eq_Some_conv)
  then have "r \<in> set (topic_list h t) \<and> same_sub c s r" by (rule find_Some_in)
  with hub_okD(2) [OF ok] show "same_sub c s r \<and> r \<in> set (topic_list h (rg_topic r))" by metis
next
  assume r: "same_sub c s r \<and> r \<in> set (topic_list h (rg_topic r))"
  then have t: "map_of (conn_list h c) s = Some (rg_topic r)" using map_of_conn_list [OF ok] by blast
  from r obtain q where q: "List.find (same_sub c s) (topic_list h (rg_topic r)) = Some q"
    by (metis find_None_iff_none not_None_eq)
  then have "q \<in> set (topic_list h (rg_topic r))" "same_sub c s q" by (simp_all add: find_Some_in)
  with r hub_okD(3) [OF ok, of "rg_topic r"] have "q = r"
    by (auto simp: distinct_map inj_on_def same_sub_def)
  with t q show "hub_view h (c, s) = Some r" by (simp add: hub_view_def)
qed

lemma has_subscription_iff: "hub_ok h \<Longrightarrow> has_subscription c s h \<longleftrightarrow> hub_view h (c, s) \<noteq> None"
proof -
  assume ok: "hub_ok h"
  have "has_subscription c s h \<longleftrightarrow> (\<exists>t. (s, t) \<in> set (conn_list h c))"
    by (auto simp: has_subscription_def conn_list_def list_ex_iff split: option.splits)
  also have "\<dots> \<longleftrightarrow> (\<exists>r. same_sub c s r \<and> r \<in> set (topic_list h (rg_topic r)))"
    using hub_okD(2,5) [OF ok] by metis
  finally show ?thesis using hub_view_iff [OF ok] by blast
qed

text \<open>What registering may rely on: the id is not in use on another topic.\<close>

definition fresh_for :: "registration \<Rightarrow> hub \<Rightarrow> bool" where
  "fresh_for r h = (\<forall>t. t \<noteq> rg_topic r \<longrightarrow> (rg_sub r, t) \<notin> set (conn_list h (rg_conn r)))"

lemma fresh_forI: "\<not> has_subscription (rg_conn r) (rg_sub r) h \<Longrightarrow> fresh_for r h"
  by (auto simp: fresh_for_def has_subscription_def conn_list_def list_ex_iff split: option.splits)

lemma hub_ok_register:
  assumes ok: "hub_ok h" and fresh: "fresh_for r h"
  shows "hub_ok (register r h)"
proof (rule hub_okI)
  show "keys_ok (register r h)" using hub_okD(1) [OF ok] by (rule keys_ok_register)
  show "rg_topic q = t" if "q \<in> set (topic_list (register r h) t)" for q t
    using that hub_okD(2) [OF ok] by (auto split: if_splits)
  show "distinct (map (\<lambda>r. (rg_conn r, rg_sub r)) (topic_list (register r h) t))" for t
    using hub_okD(3) [OF ok, of t] by (auto simp: same_sub_def distinct_map_filter)
  show "distinct (map fst (conn_list (register r h) c))" for c
    using hub_okD(4) [OF ok, of c] by (auto simp: distinct_map_filter)
  show "(s, t) \<in> set (conn_list (register r h) c)
        \<longleftrightarrow> (\<exists>q \<in> set (topic_list (register r h) t). same_sub c s q)" for s t c
  proof (cases "c = rg_conn r \<and> s = rg_sub r")
    case True
    then show ?thesis using fresh hub_okD(5) [OF ok, of s t c]
      by (auto simp: fresh_for_def same_sub_def)
  next
    case False
    then show ?thesis using hub_okD(5) [OF ok, of s t c] by (auto simp: same_sub_def)
  qed
qed

lemma topic_list_deregister_ok:
  assumes ok: "hub_ok h"
  shows "topic_list (deregister c s h) t = filter (\<lambda>r. \<not> same_sub c s r) (topic_list h t)"
proof (cases "map_of (conn_list h c) s = Some t")
  case False
  then have "\<forall>r \<in> set (topic_list h t). \<not> same_sub c s r" using map_of_conn_list [OF ok] by blast
  then show ?thesis using False by (simp add: topic_list_deregister)
qed (simp add: topic_list_deregister)

lemma topic_list_deregister_connection_ok:
  assumes ok: "hub_ok h"
  shows "topic_list (deregister_connection c h) t = filter (\<lambda>r. rg_conn r \<noteq> c) (topic_list h t)"
  unfolding topic_list_deregister_connection
  by (rule filter_cong) (use hub_okD(5) [OF ok] in \<open>auto simp: same_sub_def\<close>)

lemma remove_first_filter: "distinct (map fst l) \<Longrightarrow> remove_first s l = filter (\<lambda>p. fst p \<noteq> s) l"
  by (induction l) (auto simp: image_iff intro!: filter_True [symmetric])

lemma hub_ok_deregister: "hub_ok h \<Longrightarrow> hub_ok (deregister c s h)"
proof -
  assume ok: "hub_ok h"
  show ?thesis
  proof (rule hub_okI)
    show "keys_ok (deregister c s h)" using hub_okD(1) [OF ok] by (rule keys_ok_deregister)
    show "distinct (map fst (conn_list (deregister c s h) c'))" for c'
      using hub_okD(4) [OF ok, of c'] by (auto simp: remove_first_filter distinct_map_filter)
    show "(s', t) \<in> set (conn_list (deregister c s h) c')
          \<longleftrightarrow> (\<exists>r \<in> set (topic_list (deregister c s h) t). same_sub c' s' r)" for s' t c'
      using hub_okD(5) [OF ok, of s' t c'] hub_okD(4) [OF ok, of c']
      by (auto simp: remove_first_filter topic_list_deregister_ok [OF ok] same_sub_def)
  qed (use hub_okD(2,3) [OF ok] in \<open>auto simp: topic_list_deregister_ok [OF ok] distinct_map_filter\<close>)
qed

lemma hub_ok_deregister_connection: "hub_ok h \<Longrightarrow> hub_ok (deregister_connection c h)"
proof -
  assume ok: "hub_ok h"
  show ?thesis
  proof (rule hub_okI)
    show "keys_ok (deregister_connection c h)" using hub_okD(1) [OF ok] by (rule keys_ok_deregister_connection)
    show "(s, t) \<in> set (conn_list (deregister_connection c h) c')
          \<longleftrightarrow> (\<exists>r \<in> set (topic_list (deregister_connection c h) t). same_sub c' s r)" for s t c'
      using hub_okD(5) [OF ok, of s t c']
      by (auto simp: topic_list_deregister_connection_ok [OF ok] same_sub_def)
  qed (use hub_okD(2,3,4) [OF ok] in \<open>auto simp: topic_list_deregister_connection_ok [OF ok] distinct_map_filter\<close>)
qed

subsection \<open>The operations on the abstract table\<close>

lemma option_eqI: "(\<And>r. x = Some r \<longleftrightarrow> y = Some r) \<Longrightarrow> x = y"
  by (cases x; cases y) auto

lemma hub_view_register:
  assumes ok: "hub_ok h" and fresh: "fresh_for r h"
  shows "hub_view (register r h) = (hub_view h)((rg_conn r, rg_sub r) \<mapsto> r)"
proof (rule ext, rule option_eqI)
  fix k :: "uuid \<times> string" and q
  obtain c s where k: "k = (c, s)" by (cases k)
  have "q \<in> set (topic_list (register r h) (rg_topic q)) \<longleftrightarrow> q = r" if "same_sub (rg_conn r) (rg_sub r) q"
    using that fresh hub_okD(5) [OF ok, of "rg_sub r" "rg_topic q" "rg_conn r"] by (auto simp: fresh_for_def)
  moreover have "q \<in> set (topic_list (register r h) (rg_topic q)) \<longleftrightarrow> q \<in> set (topic_list h (rg_topic q))"
    if "\<not> same_sub (rg_conn r) (rg_sub r) q"
    using that by (auto simp: same_sub_def)
  ultimately show "hub_view (register r h) k = Some q \<longleftrightarrow> ((hub_view h)((rg_conn r, rg_sub r) \<mapsto> r)) k = Some q"
    unfolding k using hub_view_iff [OF ok] hub_view_iff [OF hub_ok_register [OF ok fresh]]
    by (auto simp: same_sub_def)
qed

lemma hub_view_deregister:
  assumes ok: "hub_ok h"
  shows "hub_view (deregister c s h) = (hub_view h)((c, s) := None)"
proof (rule ext, rule option_eqI)
  fix k q
  show "hub_view (deregister c s h) k = Some q \<longleftrightarrow> ((hub_view h)((c, s) := None)) k = Some q"
    using hub_view_iff [OF ok] hub_view_iff [OF hub_ok_deregister [OF ok]]
    by (cases k) (auto simp: topic_list_deregister_ok [OF ok] same_sub_def)
qed

lemma hub_view_deregister_connection:
  assumes ok: "hub_ok h"
  shows "hub_view (deregister_connection c h) = (\<lambda>k. if fst k = c then None else hub_view h k)"
proof (rule ext, rule option_eqI)
  fix k q
  show "hub_view (deregister_connection c h) k = Some q \<longleftrightarrow> (if fst k = c then None else hub_view h k) = Some q"
    using hub_view_iff [OF ok] hub_view_iff [OF hub_ok_deregister_connection [OF ok]]
    by (cases k) (auto simp: topic_list_deregister_connection_ok [OF ok] same_sub_def)
qed

lemma hub_view_new [simp]: "hub_view hub_new = (\<lambda>_. None)"
  by (auto simp: hub_view_def conn_list_def hub_new_def)

section \<open>The interface of the hub\<close>

text \<open>What the actors and the broadcasters rely on: a table from connection and subscription id
  to the registration.\<close>

datatype hub_cmd =
    CmdRegister registration
  | CmdDeregister uuid string
  | CmdDisconnect uuid

fun table_apply ::
  "hub_cmd \<Rightarrow> (uuid \<times> string \<Rightarrow> registration option) \<Rightarrow> uuid \<times> string \<Rightarrow> registration option" where
  "table_apply (CmdRegister r) m =
     (if m (rg_conn r, rg_sub r) = None then m((rg_conn r, rg_sub r) \<mapsto> r) else m)"
| "table_apply (CmdDeregister c s) m = m((c, s) := None)"
| "table_apply (CmdDisconnect c) m = (\<lambda>k. if fst k = c then None else m k)"

text \<open>The commands on the hub, with the actor's test before it registers.\<close>

fun hub_apply :: "hub_cmd \<Rightarrow> hub \<Rightarrow> hub" where
  "hub_apply (CmdRegister r) h = (if has_subscription (rg_conn r) (rg_sub r) h then h else register r h)"
| "hub_apply (CmdDeregister c s) h = deregister c s h"
| "hub_apply (CmdDisconnect c) h = deregister_connection c h"

locale subscription_table =
  fixes inv :: "'h \<Rightarrow> bool"
    and view :: "'h \<Rightarrow> uuid \<times> string \<Rightarrow> registration option"
    and app :: "hub_cmd \<Rightarrow> 'h \<Rightarrow> 'h"
  assumes inv_app: "inv h \<Longrightarrow> inv (app cmd h)"
    and view_app: "inv h \<Longrightarrow> view (app cmd h) = table_apply cmd (view h)"
begin

lemma inv_run: "inv h \<Longrightarrow> inv (fold app cmds h)"
  by (induction cmds arbitrary: h) (simp_all add: inv_app)

lemma view_run: "inv h \<Longrightarrow> view (fold app cmds h) = fold table_apply cmds (view h)"
  by (induction cmds arbitrary: h) (simp_all add: inv_app view_app)

lemma disconnected_empty:
  assumes "inv h" and "\<forall>cmd \<in> set cmds. \<forall>r. cmd = CmdRegister r \<longrightarrow> rg_conn r \<noteq> c"
  shows "view (fold app (CmdDisconnect c # cmds) h) (c, s) = None"
proof -
  have "m (c, s) = None \<Longrightarrow> fold table_apply cmds m (c, s) = None" for m
    using assms(2)
  proof (induction cmds arbitrary: m)
    case (Cons cmd cmds)
    then have "table_apply cmd m (c, s) = None" by (cases cmd) auto
    then show ?case using Cons by simp
  qed simp
  then show ?thesis using view_run [OF assms(1), of "CmdDisconnect c # cmds"] by simp
qed

end

interpretation subscription_hub: subscription_table hub_ok hub_view hub_apply
proof
  fix h cmd
  assume ok: "hub_ok h"
  show "hub_ok (hub_apply cmd h)"
    by (cases cmd) (auto simp: ok fresh_forI hub_ok_register hub_ok_deregister hub_ok_deregister_connection)
  show "hub_view (hub_apply cmd h) = table_apply cmd (hub_view h)"
    using has_subscription_iff [OF ok]
    by (cases cmd) (auto simp: ok fresh_forI hub_view_register hub_view_deregister hub_view_deregister_connection)
qed

lemma distinct_concat_keys:
  assumes "distinct (map fst xs)" and "[] \<notin> snd ` set xs"
    and "\<And>k l r. (k, l) \<in> set xs \<Longrightarrow> r \<in> set l \<Longrightarrow> tp (g r) = Some k"
    and "\<And>k l. (k, l) \<in> set xs \<Longrightarrow> distinct (map g l)"
  shows "distinct (map g (concat (map snd xs)))"
  using assms
proof (induction xs)
  case (Cons p xs)
  obtain k l where p: "p = (k, l)" by (cases p)
  have "distinct (map g (concat (map snd xs)))"
  proof (rule Cons.IH)
    show "distinct (map g l')" if "(k', l') \<in> set xs" for k' l' using that by (intro Cons.prems(4) [of k']) simp
    show "tp (g r) = Some k'" if "(k', l') \<in> set xs" "r \<in> set l'" for k' l' r
      using that by (intro Cons.prems(3) [of k' l']) simp_all
  qed (use Cons.prems(1,2) in auto)
  moreover have "g r \<noteq> g q" if "r \<in> set l" "(k', l') \<in> set xs" "q \<in> set l'" for r k' l' q
  proof
    assume "g r = g q"
    then have "k = k'" using Cons.prems(3) [of k l r] Cons.prems(3) [of k' l' q] that p by simp
    then show False using Cons.prems(1) that(2) p by force
  qed
  ultimately show ?case using Cons.prems(4) [of k l] p by fastforce
qed simp

lemma active_subscriptions_count_card:
  assumes ok: "hub_ok h"
  shows "active_subscriptions_count h = card (dom (hub_view h))"
proof -
  let ?g = "\<lambda>r. (rg_conn r, rg_sub r)" and ?all = "concat (map snd (topics h))"
  have tl: "topic_list h k = l" if "(k, l) \<in> set (topics h)" for k l
    using that hub_okD(1) [OF ok] by (simp add: topic_list_def keys_ok_def)
  have "distinct (map ?g ?all)"
  proof (rule distinct_concat_keys [where tp = "\<lambda>k. map_option rg_topic (hub_view h k)"])
    fix k l r assume "(k, l) \<in> set (topics h)" "r \<in> set l"
    then have "hub_view h (?g r) = Some r" "rg_topic r = k"
      using tl hub_okD(2) [OF ok] hub_view_iff [OF ok] by (auto simp: same_sub_def)
    then show "map_option rg_topic (hub_view h (?g r)) = Some k" by simp
  qed (use hub_okD(1,3) [OF ok] tl in \<open>auto simp: keys_ok_def\<close>)
  then have "length ?all = card (set (map ?g ?all))" using distinct_card by fastforce
  moreover have "set (map ?g ?all) = dom (hub_view h)"
  proof (intro equalityI subsetI)
    fix k assume "k \<in> set (map ?g ?all)"
    then obtain t l r where "(t, l) \<in> set (topics h)" "r \<in> set l" "k = ?g r" by auto
    then have "hub_view h k = Some r"
      using tl hub_okD(2) [OF ok] hub_view_iff [OF ok] by (auto simp: same_sub_def)
    then show "k \<in> dom (hub_view h)" by blast
  next
    fix k assume "k \<in> dom (hub_view h)"
    then obtain r where r: "hub_view h k = Some r" by auto
    then have mem: "r \<in> set (topic_list h (rg_topic r))" "k = ?g r"
      using hub_view_iff [OF ok] by (cases k, auto simp: same_sub_def)+
    then obtain l where "map_of (topics h) (rg_topic r) = Some l" "r \<in> set l"
      by (auto simp: topic_list_def split: option.splits) (metis empty_iff empty_set not_None_eq unwrap_or_simps)
    then show "k \<in> set (map ?g ?all)" using mem(2) by (force dest!: map_of_SomeD)
  qed
  moreover have "active_subscriptions_count h = length ?all"
    by (simp add: active_subscriptions_count_def length_concat comp_def case_prod_unfold)
  ultimately show ?thesis by simp
qed

text \<open>C14. Whatever the order in which connections subscribe, complete and disconnect, the two indices
  of the hub together are one table from connection and subscription id to the registration: the hub
  holds the registration the history asks for, \<open>has_subscription\<close> is membership in it, the topic map
  lists it under its own topic only, and \<open>active_subscriptions_count\<close> is its size.\<close>

theorem hub_refines_table:
  "let h = fold hub_apply cmds hub_new; m = fold table_apply cmds (\<lambda>_. None)
   in hub_view h = m \<and> has_subscription c s h = (m (c, s) \<noteq> None)
      \<and> (r \<in> set (topic_list h t)) = (rg_topic r = t \<and> m (rg_conn r, rg_sub r) = Some r)
      \<and> active_subscriptions_count h = card (dom m)"
proof -
  let ?h = "fold hub_apply cmds hub_new"
  have ok: "hub_ok ?h" by (rule subscription_hub.inv_run) simp
  have m: "hub_view ?h = fold table_apply cmds (\<lambda>_. None)"
    using subscription_hub.view_run [OF hub_ok_new, of cmds] by simp
  have "(r \<in> set (topic_list ?h t)) = (rg_topic r = t \<and> hub_view ?h (rg_conn r, rg_sub r) = Some r)"
    using hub_okD(2) [OF ok] by (auto simp: hub_view_iff [OF ok] same_sub_def)
  then show ?thesis
    unfolding Let_def m [symmetric] using has_subscription_iff [OF ok] active_subscriptions_count_card [OF ok]
    by blast
qed

section \<open>Broadcasts\<close>

lemma next_message_text:
  "next_message payload = (\<lambda>r. Next (rg_sub r) \<lparr>er_data = Some (if \<exists>obj. payload = JObject obj \<and> ''data'' \<in> fst ` set obj
     then payload else JObject [(rg_root_field r, payload)]), er_errors = None, er_extensions = None\<rparr>)"
  by (rule ext) (cases payload, simp_all add: next_message_def with_data_def)

lemma send_all_Cons:
  obtains (closed) "ch_closed (chs (rg_tx r))"
      "send_all payload (r # rs) chs = (case send_all payload rs chs of (n, dead, chs') \<Rightarrow> (n, (rg_conn r, rg_sub r) # dead, chs'))"
  | (full) "\<not> ch_closed (chs (rg_tx r))" "ch_capacity (chs (rg_tx r)) - length (ch_queue (chs (rg_tx r))) = 0"
      "send_all payload (r # rs) chs = send_all payload rs chs"
  | (ok) "\<not> ch_closed (chs (rg_tx r))" "length (ch_queue (chs (rg_tx r))) < ch_capacity (chs (rg_tx r))"
      "send_all payload (r # rs) chs =
         (case send_all payload rs (chs(rg_tx r := (chs (rg_tx r))
                \<lparr>ch_queue := ch_queue (chs (rg_tx r)) @ [next_message payload r]\<rparr>)) of
            (n, dead, chs') \<Rightarrow> (Suc n, dead, chs'))"
proof -
  consider "ch_closed (chs (rg_tx r))"
    | "\<not> ch_closed (chs (rg_tx r))" "ch_capacity (chs (rg_tx r)) \<le> length (ch_queue (chs (rg_tx r)))"
    | "\<not> ch_closed (chs (rg_tx r))" "\<not> ch_capacity (chs (rg_tx r)) \<le> length (ch_queue (chs (rg_tx r)))"
    by blast
  then show ?thesis
  proof cases
    case 1 then show ?thesis by (intro closed) (simp_all add: try_send_def)
  next
    case 2 then show ?thesis by (intro full) (simp_all add: try_send_def Let_def split: prod.split)
  next
    case 3 then show ?thesis by (intro ok) (simp_all add: try_send_def Let_def)
  qed
qed

text \<open>The channel after the messages for the registrations \<open>rs\<close> went to it.\<close>

definition delivered :: "json \<Rightarrow> registration list \<Rightarrow> channel \<Rightarrow> channel" where
  "delivered payload rs c =
     (if ch_closed c then c
      else c\<lparr>ch_queue := ch_queue c @ map (next_message payload) (take (ch_capacity c - length (ch_queue c)) rs)\<rparr>)"

lemma delivered_Nil [simp]: "delivered payload [] c = c"
  by (simp add: delivered_def)

lemma delivered_Cons:
  "\<not> ch_closed c \<Longrightarrow> length (ch_queue c) < ch_capacity c \<Longrightarrow>
     delivered payload (r # rs) c = delivered payload rs (c\<lparr>ch_queue := ch_queue c @ [next_message payload r]\<rparr>)"
  by (cases "ch_capacity c - length (ch_queue c)") (auto simp: delivered_def Suc_diff_Suc diff_Suc)

lemma delivered_stuck:
  "ch_closed c \<or> ch_capacity c - length (ch_queue c) = 0 \<Longrightarrow> delivered payload rs c = c"
  by (auto simp: delivered_def)

lemma send_all_channels:
  "send_all payload rs chs = (n, dead, chs') \<Longrightarrow>
     chs' ch = delivered payload (filter (\<lambda>r. rg_tx r = ch) rs) (chs ch)"
proof (induction rs arbitrary: chs n dead)
  case (Cons r rs)
  show ?case
  proof (rule send_all_Cons [of chs r payload rs], goal_cases)
    case 1 then show ?case using Cons by (auto simp: delivered_stuck split: prod.splits)
  next
    case 2 then show ?case using Cons by (auto simp: delivered_stuck)
  next
    case 3 then show ?case using Cons by (auto simp: delivered_Cons split: prod.splits)
  qed
qed simp

lemma send_all_dead:
  "send_all payload rs chs = (n, dead, chs') \<Longrightarrow>
     dead = map (\<lambda>r. (rg_conn r, rg_sub r)) (filter (\<lambda>r. ch_closed (chs (rg_tx r))) rs)"
proof (induction rs arbitrary: chs n dead)
  case (Cons r rs)
  show ?case
  proof (rule send_all_Cons [of chs r payload rs], goal_cases)
    case 1 then show ?case using Cons by (auto split: prod.splits)
  next
    case 2 then show ?case using Cons by auto
  next
    case 3
    let ?chs = "chs(rg_tx r := (chs (rg_tx r))\<lparr>ch_queue := ch_queue (chs (rg_tx r)) @ [next_message payload r]\<rparr>)"
    have "ch_closed (?chs x) = ch_closed (chs x)" for x by simp
    moreover obtain m where "send_all payload rs ?chs = (m, dead, chs')"
      using 3(3) Cons.prems by (auto simp del: send_all.simps split: prod.splits)
    ultimately show ?case using 3(1) Cons.IH [of ?chs] by (simp del: fun_upd_apply)
  qed
qed simp

lemma sum_bump:
  assumes "finite C" and "x \<in> C" and "f' x = Suc (f x)" and "\<And>y. y \<noteq> x \<Longrightarrow> f' y = f y"
  shows "sum f' C = Suc (sum f C)"
  using sum.remove [OF assms(1,2), of f] sum.remove [OF assms(1,2), of f'] assms(3,4) by simp

lemma send_all_count:
  "send_all payload rs chs = (n, dead, chs') \<Longrightarrow> finite C \<Longrightarrow> rg_tx ` set rs \<subseteq> C \<Longrightarrow>
     (\<Sum>ch\<in>C. length (ch_queue (chs' ch))) = (\<Sum>ch\<in>C. length (ch_queue (chs ch))) + n"
proof (induction rs arbitrary: chs n dead)
  case (Cons r rs)
  show ?case
  proof (rule send_all_Cons [of chs r payload rs], goal_cases)
    case 1 then show ?case using Cons by (auto split: prod.splits)
  next
    case 2 then show ?case using Cons by auto
  next
    case 3
    let ?chs = "chs(rg_tx r := (chs (rg_tx r))\<lparr>ch_queue := ch_queue (chs (rg_tx r)) @ [next_message payload r]\<rparr>)"
    have "(\<Sum>ch\<in>C. length (ch_queue (?chs ch))) = Suc (\<Sum>ch\<in>C. length (ch_queue (chs ch)))"
      using Cons.prems(2,3) by (intro sum_bump [where x = "rg_tx r"]) auto
    then show ?case using 3 Cons.prems Cons.IH [of ?chs] by (auto simp del: fun_upd_apply split: prod.splits)
  qed
qed simp

lemma fold_deregister:
  assumes "hub_ok h"
  shows "hub_ok (fold (\<lambda>(c, s). deregister c s) dead h)
    \<and> hub_view (fold (\<lambda>(c, s). deregister c s) dead h) = (\<lambda>k. if k \<in> set dead then None else hub_view h k)"
  using assms
proof (induction dead arbitrary: h)
  case (Cons k dead)
  obtain c s where k: "k = (c, s)" by (cases k)
  show ?case using Cons.IH [OF hub_ok_deregister [OF Cons.prems, of c s]] hub_view_deregister [OF Cons.prems, of c s] k
    by (auto simp: fun_eq_iff)
qed simp

lemma broadcast_hub:
  assumes ok: "hub_ok h" and b: "broadcast topic payload h chs = (n, h', chs')"
  shows "hub_ok h'"
    and "hub_view h' = (\<lambda>k. case hub_view h k of
           Some r \<Rightarrow> if rg_topic r = topic \<and> ch_closed (chs (rg_tx r)) then None else Some r | None \<Rightarrow> None)"
    and "\<exists>dead. send_all payload (topic_list h topic) chs = (n, dead, chs')"
proof -
  obtain n1 dead chs1 where s: "send_all payload (topic_list h topic) chs = (n1, dead, chs1)"
    by (cases "send_all payload (topic_list h topic) chs")
  have eq: "n = n1" "chs' = chs1" "h' = fold (\<lambda>(c, s). deregister c s) dead h"
    using b s by (auto simp: broadcast_def topic_list_def split: option.splits)
  note f = fold_deregister [OF ok, of dead]
  show "hub_ok h'" using f eq by simp
  show "\<exists>dead. send_all payload (topic_list h topic) chs = (n, dead, chs')" using s eq by blast
  have "k \<in> set dead \<longleftrightarrow> (\<exists>r. hub_view h k = Some r \<and> rg_topic r = topic \<and> ch_closed (chs (rg_tx r)))" for k
    using send_all_dead [OF s] hub_view_iff [OF ok] hub_okD(2) [OF ok]
    by (cases k) (auto simp: same_sub_def)
  then show "hub_view h' = (\<lambda>k. case hub_view h k of
           Some r \<Rightarrow> if rg_topic r = topic \<and> ch_closed (chs (rg_tx r)) then None else Some r | None \<Rightarrow> None)"
    using f eq(3) by (auto simp: fun_eq_iff split: option.splits)
qed


section \<open>The life of a connection\<close>

lemma sent_frame_initialized [simp]:
  "ac_initialized (send_frame f ac) = ac_initialized ac" "ac_initialized (send_msg env m ac) = ac_initialized ac"
  by (simp_all add: send_frame_def send_msg_def split: sum.split)

text \<open>What one turn of an actor can do to the hub.\<close>

definition hub_effect :: "uuid \<Rightarrow> actor \<Rightarrow> hub \<Rightarrow> hub \<Rightarrow> bool" where
  "hub_effect c ac h h' = (h' = h \<or> (\<exists>i. h' = deregister c i h)
     \<or> (\<exists>r. ac_initialized ac \<and> rg_conn r = c \<and> rg_tx r = c
           \<and> \<not> has_subscription c (rg_sub r) h \<and> h' = register r h))"

lemma hub_effect_refl [simp]: "hub_effect c ac h h"
  by (simp add: hub_effect_def)

lemma hub_effect_register:
  "ac_initialized ac \<Longrightarrow> rg_conn r = c \<Longrightarrow> rg_tx r = c \<Longrightarrow> \<not> has_subscription c (rg_sub r) h \<Longrightarrow>
     hub_effect c ac h (register r h)"
  unfolding hub_effect_def by blast

lemma handle_message_effect:
  "handle_message env c m ac h = (go, ac', h') \<Longrightarrow>
     hub_effect c ac h h' \<and> (ac_initialized ac \<longrightarrow> ac_initialized ac')"
proof (cases m)
  case (Subscribe i p)
  assume "handle_message env c m ac h = (go, ac', h')"
  then show ?thesis
    unfolding Subscribe by (auto intro: hub_effect_register split: if_splits sum.splits)
next
  case (CComplete i)
  then show "handle_message env c m ac h = (go, ac', h') \<Longrightarrow> ?thesis" by (auto simp: hub_effect_def)
qed auto

lemma handle_frame_effect:
  "handle_frame env c fr ac h = (go, ac', h') \<Longrightarrow>
     hub_effect c ac h h' \<and> (ac_initialized ac \<longrightarrow> ac_initialized ac')"
  using handle_message_effect [of env c _ ac h go ac' h']
  by (auto simp: handle_frame_def handle_text_def split: ws_frame.splits option.splits sum.splits)

lemma actor_turn_effect:
  "actor_turn env c ev ac h ch = (go, ac', h', ch') \<Longrightarrow>
     hub_effect c ac h h' \<and> (ac_initialized ac \<longrightarrow> ac_initialized ac') \<and> ch_closed ch' = ch_closed ch"
proof (cases ev)
  case (Incoming fr)
  assume t: "actor_turn env c ev ac h ch = (go, ac', h', ch')"
  then have "handle_frame env c fr ac h = (go, ac', h')" "ch' = ch"
    using Incoming by (auto split: prod.splits)
  then show ?thesis using handle_frame_effect by blast
qed (auto split: list.splits sum.splits if_splits)

lemma hub_effect_ok: "hub_effect c ac h h' \<Longrightarrow> hub_ok h \<Longrightarrow> hub_ok h'"
  by (auto simp: hub_effect_def intro: hub_ok_register hub_ok_deregister fresh_forI)

lemma hub_effect_view:
  "hub_effect c ac h h' \<Longrightarrow> hub_ok h \<Longrightarrow> hub_view h' (d, s) = Some r \<Longrightarrow>
     hub_view h (d, s) = Some r \<or> d = c \<and> rg_tx r = c \<and> ac_initialized ac"
  by (auto simp: hub_effect_def hub_view_register hub_view_deregister fresh_forI split: if_splits)

lemma hub_effect_other:
  "hub_effect c ac h h' \<Longrightarrow> hub_ok h \<Longrightarrow> d \<noteq> c \<Longrightarrow> hub_view h' (d, s) = hub_view h (d, s)"
  by (auto simp: hub_effect_def hub_view_register hub_view_deregister fresh_forI)

text \<open>The state of the connection a registration belongs to.\<close>

definition live_or_closed :: "world \<Rightarrow> uuid \<Rightarrow> bool" where
  "live_or_closed w c = (case w_actors w c of
     Some ac \<Rightarrow> ac_initialized ac \<and> \<not> ch_closed (w_chans w c)
   | None \<Rightarrow> ch_closed (w_chans w c))"

definition world_ok :: "world \<Rightarrow> bool" where
  "world_ok w = (hub_ok (w_hub w)
     \<and> (\<forall>c. c \<notin> set (w_used w) \<longrightarrow> w_actors w c = None)
     \<and> (\<forall>c ac. w_actors w c = Some ac \<longrightarrow> \<not> ch_closed (w_chans w c))
     \<and> (\<forall>c s r. hub_view (w_hub w) (c, s) = Some r \<longrightarrow>
           rg_tx r = c \<and> c \<in> set (w_used w) \<and> live_or_closed w c))"

lemma world_okD:
  assumes "world_ok w"
  shows "hub_ok (w_hub w)" and "c \<notin> set (w_used w) \<Longrightarrow> w_actors w c = None"
    and "w_actors w c = Some ac \<Longrightarrow> \<not> ch_closed (w_chans w c)"
    and "hub_view (w_hub w) (c, s) = Some r \<Longrightarrow> rg_tx r = c \<and> c \<in> set (w_used w) \<and> live_or_closed w c"
  using assms by (auto simp: world_ok_def)

lemma world_ok_new: "world_ok world_new"
  by (simp add: world_ok_def world_new_def)

lemma broadcast_closed:
  assumes "hub_ok h" and "broadcast topic payload h chs = (n, h', chs')"
  shows "ch_closed (chs' ch) = ch_closed (chs ch)"
proof -
  obtain dead where "send_all payload (topic_list h topic) chs = (n, dead, chs')"
    using broadcast_hub(3) [OF assms] by blast
  then show ?thesis by (simp add: send_all_channels [of payload "topic_list h topic" chs n dead] delivered_def)
qed

lemma live_or_closed_other:
  "d \<noteq> c \<Longrightarrow> live_or_closed (w\<lparr>w_hub := h', w_chans := (w_chans w)(c := ch'), w_actors := (w_actors w)(c := a')\<rparr>) d
     = live_or_closed w d"
  by (simp add: live_or_closed_def cong: option.case_cong)

text \<open>A change of one connection, its channel and the hub.\<close>

lemma world_ok_update:
  assumes w: "world_ok w" and c: "c \<in> set (w_used w)" and h': "hub_ok h'"
    and other: "\<And>d s r. d \<noteq> c \<Longrightarrow> hub_view h' (d, s) = Some r \<Longrightarrow> hub_view (w_hub w) (d, s) = Some r"
    and own: "\<And>s r. hub_view h' (c, s) = Some r \<Longrightarrow> rg_tx r = c \<and> (\<forall>x. a' = Some x \<longrightarrow> ac_initialized x)"
    and chan: "ch_closed ch' \<longleftrightarrow> a' = None"
  shows "world_ok (w\<lparr>w_hub := h', w_chans := (w_chans w)(c := ch'), w_actors := (w_actors w)(c := a')\<rparr>)"
    (is "world_ok ?w")
  unfolding world_ok_def
proof (intro conjI allI impI)
  show "hub_ok (w_hub ?w)" using h' by simp
  show "w_actors ?w d = None" if "d \<notin> set (w_used ?w)" for d using that c world_okD(2) [OF w] by auto
  show "\<not> ch_closed (w_chans ?w d)" if "w_actors ?w d = Some ac" for d ac
    using that chan world_okD(3) [OF w] by (auto split: if_splits)
  fix d s r
  assume v: "hub_view (w_hub ?w) (d, s) = Some r"
  have "rg_tx r = d \<and> d \<in> set (w_used w) \<and> live_or_closed ?w d"
  proof (cases "d = c")
    case True
    then show ?thesis using v own [of s r] c chan by (cases a') (auto simp: live_or_closed_def)
  next
    case False
    then show ?thesis using v other [of d s r] world_okD(4) [OF w, of d s r] live_or_closed_other [of d c] by auto
  qed
  then show "rg_tx r = d" "d \<in> set (w_used ?w)" "live_or_closed ?w d" by simp_all
qed

lemma world_ok_turn:
  assumes w: "world_ok w" and ac: "w_actors w c = Some ac"
    and t: "actor_turn env c ev ac (w_hub w) (w_chans w c) = (go, ac', h', ch')"
  shows "world_ok (world_step env (Turn c ev) w)"
proof -
  note ok = world_okD(1) [OF w]
  have eff: "hub_effect c ac (w_hub w) h'" "ac_initialized ac \<longrightarrow> ac_initialized ac'" "\<not> ch_closed ch'"
    using actor_turn_effect [OF t] world_okD(3) [OF w ac] by simp_all
  have h': "hub_ok h'" using eff(1) ok hub_effect_ok by blast
  have c: "c \<in> set (w_used w)" using world_okD(2) [OF w, of c] ac by auto
  have other: "hub_view (w_hub w) (d, s) = Some r" if "d \<noteq> c" "hub_view h' (d, s) = Some r" for d s r
    using hub_effect_other [OF eff(1) ok that(1)] that(2) by simp
  have own: "rg_tx r = c \<and> ac_initialized ac" if "hub_view h' (c, s) = Some r" for s r
    using hub_effect_view [OF eff(1) ok that] world_okD(4) [OF w, of c s r] ac by (auto simp: live_or_closed_def)
  show ?thesis
  proof (cases go)
    case True
    have "world_ok (w\<lparr>w_hub := h', w_chans := (w_chans w)(c := ch'), w_actors := (w_actors w)(c := Some ac')\<rparr>)"
      using own eff(2,3) by (intro world_ok_update [OF w c h' other]) auto
    then show ?thesis using True ac t by simp
  next
    case False
    have "world_ok (w\<lparr>w_hub := deregister_connection c h', w_chans := (w_chans w)(c := ch'\<lparr>ch_closed := True\<rparr>),
                      w_actors := (w_actors w)(c := None)\<rparr>)"
      using h' other by (intro world_ok_update [OF w c])
        (auto simp: hub_ok_deregister_connection hub_view_deregister_connection split: if_splits)
    then show ?thesis using False ac t by simp
  qed
qed

lemma world_ok_step: "world_ok w \<Longrightarrow> world_ok (world_step env ev w)"
proof -
  assume w: "world_ok w"
  note ok = world_okD(1) [OF w]
  show ?thesis
  proof (cases ev)
    case (Turn c e)
    then show ?thesis
      using world_ok_turn [OF w] w by (cases "w_actors w c"; cases "actor_turn env c e (the (w_actors w c)) (w_hub w) (w_chans w c)") auto
  next
    case (Connect c)
    have "hub_view (w_hub w) (c, s) = None" if "c \<notin> set (w_used w)" for s
      using world_okD(4) [OF w, of c s] that by (cases "hub_view (w_hub w) (c, s)") auto
    then show ?thesis unfolding Connect
      using w by (auto simp: world_ok_def live_or_closed_def cong: option.case_cong)
  next
    case (Abort c)
    then show ?thesis using w
      by (cases "w_actors w c") (auto simp: world_ok_def live_or_closed_def cong: option.case_cong)
  next
    case (Publish topic payload)
    obtain n h' chs' where b: "broadcast topic payload (w_hub w) (w_chans w) = (n, h', chs')"
      by (cases "broadcast topic payload (w_hub w) (w_chans w)")
    have "hub_view (w_hub w) (c, s) = Some r" if "hub_view h' (c, s) = Some r" for c s r
      using that broadcast_hub(2) [OF ok b] by (auto split: option.splits if_splits)
    note sub = this
    have live: "live_or_closed (w\<lparr>w_hub := h', w_chans := chs'\<rparr>) c = live_or_closed w c" for c
      using broadcast_closed [OF ok b] by (simp add: live_or_closed_def cong: option.case_cong)
    have "world_ok (w\<lparr>w_hub := h', w_chans := chs'\<rparr>)"
      using broadcast_hub(1) [OF ok b] broadcast_closed [OF ok b] world_okD(2,3) [OF w] world_okD(4) [OF w sub]
      by (simp add: world_ok_def live)
    then show ?thesis unfolding Publish using b by simp
  qed
qed

lemma reachable_world_ok: "reachable_world env w \<Longrightarrow> world_ok w"
  by (induction rule: reachable_world.induct) (auto intro: world_ok_new world_ok_step)

lemma reachable_fold: "reachable_world env w \<Longrightarrow> reachable_world env (fold (world_step env) evs w)"
  by (induction evs arbitrary: w) (auto intro: reachable_world.step)

text \<open>A connection without an actor stays without one, and with nothing registered it stays so.\<close>

lemma gone_step:
  assumes w: "world_ok w" and c: "c \<in> set (w_used w)" "w_actors w c = None" "\<And>s. hub_view (w_hub w) (c, s) = None"
  shows "c \<in> set (w_used (world_step env ev w)) \<and> w_actors (world_step env ev w) c = None
    \<and> (\<forall>s. hub_view (w_hub (world_step env ev w)) (c, s) = None)"
proof (cases ev)
  case (Turn d e)
  show ?thesis
  proof (cases "w_actors w d")
    case None then show ?thesis using c Turn by simp
  next
    case (Some ac)
    obtain go ac' h' ch' where t: "actor_turn env d e ac (w_hub w) (w_chans w d) = (go, ac', h', ch')"
      by (cases "actor_turn env d e ac (w_hub w) (w_chans w d)")
    have d: "d \<noteq> c" using Some c(2) by auto
    have eff: "hub_effect d ac (w_hub w) h'" using actor_turn_effect [OF t] by simp
    have "hub_view h' (c, s) = None" for s
      using hub_effect_other [OF eff world_okD(1) [OF w]] c(3) d by metis
    then show ?thesis using Turn Some t c d hub_effect_ok [OF eff world_okD(1) [OF w]]
      by (cases go) (auto simp: hub_view_deregister_connection)
  qed
next
  case (Publish t p)
  obtain n h' chs' where b: "broadcast t p (w_hub w) (w_chans w) = (n, h', chs')"
    by (cases "broadcast t p (w_hub w) (w_chans w)")
  then show ?thesis using Publish c broadcast_hub(2) [OF world_okD(1) [OF w] b] by simp
qed (use c in \<open>auto split: option.splits\<close>)

lemma gone_forever:
  assumes "world_ok w" "c \<in> set (w_used w)" "w_actors w c = None" "\<And>s. hub_view (w_hub w) (c, s) = None"
  shows "hub_view (w_hub (fold (world_step env) evs w)) (c, s) = None"
  using assms
proof (induction evs arbitrary: w)
  case (Cons ev evs)
  show ?case using Cons.IH [OF world_ok_step [OF Cons.prems(1)]] gone_step [OF Cons.prems] by simp
qed simp


section \<open>Examples\<close>

definition sample_env :: ws_env where
  "sample_env =
     \<lparr>we_from_str = (\<lambda>t. if t = ''init'' then Inr (ConnectionInit None)
                         else if t = ''sub'' then Inr (Subscribe ''1'' \<lparr>sp_query = ''q'', sp_variables = None,
                                 sp_operation_name = None, sp_extensions = None\<rparr>)
                         else if t = ''done'' then Inr (CComplete ''1'') else Inl ''expected value''),
      we_to_string = (\<lambda>m. Inr ''{}''),
      we_to_text = (\<lambda>f. case f of WsText t \<Rightarrow> Some t | WsBinary b \<Rightarrow> Some b | WsPing b \<Rightarrow> Some b
                                  | WsPong b \<Rightarrow> Some b | WsClose _ \<Rightarrow> Some []),
      we_apollo = (\<lambda>q. ([], [SubOperation (Some SubscriptionToken) (Some [SubField (Some ''orders'') None])])),
      we_show_num = (\<lambda>n. ''0''), we_prefix = ''p'', we_capacity = 2\<rparr>"

definition sample_events :: "world_event list" where
  "sample_events = [Connect 7, Turn 7 (Incoming (WsText ''init'')), Turn 7 (Incoming (WsText ''sub''))]"

definition sample_registration :: registration where
  "sample_registration = \<lparr>rg_conn = 7, rg_sub = ''1'', rg_topic = ''p.events.orders'', rg_root_field = ''orders'', rg_tx = 7\<rparr>"

lemma sample_world_reachable: "reachable_world sample_env (fold (world_step sample_env) sample_events world_new)"
  by (rule reachable_fold) (rule reachable_world.init)

lemma sample_world_registered:
  "sample_registration \<in> set (topic_list (w_hub (fold (world_step sample_env) sample_events world_new)) ''p.events.orders'')"
  by code_simp

lemma sample_world_ends:
  "(\<exists>ac. w_actors (fold (world_step sample_env) sample_events world_new) 7 = Some ac)
   \<and> w_actors (world_step sample_env (Turn 7 (Incoming (WsText ''sub'')))
        (fold (world_step sample_env) sample_events world_new)) 7 = None"
proof -
  have "w_actors (fold (world_step sample_env) sample_events world_new) 7
          = Some \<lparr>ac_initialized = True, ac_sent = [OutText ''{}'']\<rparr>" by code_simp
  moreover have "w_actors (world_step sample_env (Turn 7 (Incoming (WsText ''sub'')))
        (fold (world_step sample_env) sample_events world_new)) 7 = None" by code_simp
  ultimately show ?thesis by blast
qed


text \<open>A subscription before \<open>connection_init\<close> ends the connection with code 4401 and a second one
  under an id in use with 4409; neither reaches the hub.\<close>

lemma subscribe_guards:
  "\<not> ac_initialized ac \<Longrightarrow>
     handle_message env c (Subscribe i p) ac h
       = (False, send_frame (OutClose 4401 ''Unauthorized: connection_init required'') ac, h)"
  "ac_initialized ac \<Longrightarrow> has_subscription c i h \<Longrightarrow>
     \<exists>reason. handle_message env c (Subscribe i p) ac h = (False, send_frame (OutClose 4409 reason) ac, h)"
  by (auto simp: close_codes)

text \<open>The topic prefers an identifying argument wherever it stands.\<close>

lemma primary_arg_identity:
  assumes "txt v = Some val" and "is_identity_arg (unwrap_or n [])"
    and "\<forall>(m, u) \<in> set before. is_identity_arg (unwrap_or m []) \<longrightarrow> txt u = None"
  shows "primary_arg txt acc (before @ (n, v) # rest) = Some val"
  using assms(3)
proof (induction before arbitrary: acc)
  case (Cons p before)
  then show ?case by (cases p) (auto split: option.split)
qed (use assms(1,2) in simp)

text \<open>The guard before \<open>register\<close> is needed: registering an id again under another topic leaves the
  old registration in the topic map, where no later \<open>deregister\<close> finds it.\<close>

lemma reregister_leaves_orphan:
  "let r = sample_registration; h = register (r\<lparr>rg_topic := ''p.events.users''\<rparr>) (register r hub_new)
   in topic_list (deregister 7 ''1'' h) ''p.events.orders'' = [r] \<and> \<not> has_subscription 7 ''1'' (deregister 7 ''1'' h)"
  by code_simp

text \<open>The handler aborts the actor when the client goes away first, and the cleanup after the loop
  does not run: the subscriptions stay until a broadcast on their topic, the connection's entry
  for ever.\<close>

lemma aborted_connection_leaks:
  "let w = fold (world_step sample_env) (sample_events @ [Abort 7]) world_new;
       w' = world_step sample_env (Publish ''p.events.orders'' JNull) w
   in active_subscriptions_count (w_hub w) = 1 \<and> active_subscriptions_count (w_hub w') = 0
      \<and> active_connection_count (w_hub w') = 1"
  by code_simp

text \<open>A payload that already has the form of a result is wrapped a second time.\<close>

lemma broadcast_wraps_twice:
  "next_message (JObject [(''data'', d)]) r
     = Next (rg_sub r) \<lparr>er_data = Some (JObject [(''data'', d)]), er_errors = None, er_extensions = None\<rparr>"
  by (simp add: next_message_def with_data_def)

text \<open>A WebSocket pong frame whose payload reads as text that is no JSON ends the connection as a
  bad request.\<close>

lemma pong_frame_ends_connection:
  assumes "we_to_text env (WsPong d) = Some d" and "we_from_str env d = Inl e"
  shows "handle_frame env c (WsPong d) ac h = (False, send_frame (OutClose 4400 ''Invalid JSON'') ac, h)"
  using assms by (simp add: handle_frame_def handle_text_def close_codes)

end
