(* ===== verification/Gateway.thy ===== *)
theory Gateway
  imports Routing Idempotency Subscriptions
begin

text \<open>
  The life of a request in \<open>gateway/composite_service.rs\<close>, with \<open>filters/\<close>: the phases \<open>new_ctx\<close>,
  \<open>early_request_filter\<close>, \<open>request_filter\<close>, \<open>upstream_peer\<close>, \<open>response_filter\<close>,
  \<open>response_body_filter\<close> and \<open>logging\<close>.

  One record \<open>call\<close> holds what a phase can change: the proxy context, the request head of the
  session, the idempotency engine, the state of the interceptors, the messages handed to the
  broker, the recorded traffic and the response written to the client.  Arguments that stand
  for library code or the outside world are the fields of \<open>gw_env\<close>.  The idempotency engine is
  used through its three methods, so the same phases run on the memory and the Redis back end.
  Requests for the admin console and WebSocket upgrades are handed over: the result says so.
\<close>

section \<open>The context of a request\<close>

record proxy_ctx =
  px_request_id :: uuid
  px_hlc :: hlc_timestamp
  px_request_topic :: string
  px_request_info :: "request_info option"
  px_response_parts :: "http_response_parts option"
  px_response_body :: "response_body option"
  px_buffer :: string
  px_idempotency_key :: "string option"
  px_is_replay :: bool
  px_target :: "socket_addr option"
  px_mode_b :: bool
  px_policy :: dispatch_policy
  px_active_operation :: "string option"
  px_intercepted :: bool
  px_query_preview :: "string option"
  px_variables_preview :: "string option"
  px_app_id :: string
  px_audit_tag :: "string option"
  px_audit_rule :: "string option"
  px_response_preview :: "string option"
  px_error_preview :: "string option"
  px_service_handle :: "nat option"
  px_service :: "proxy_service option"

definition new_ctx :: "('p, 'm) gateway_state \<Rightarrow> uuid \<Rightarrow> hlc_timestamp \<Rightarrow> proxy_ctx" where
  "new_ctx st rid h =
     \<lparr>px_request_id = rid, px_hlc = h, px_request_topic = ''spectra'', px_request_info = None,
      px_response_parts = None, px_response_body = None, px_buffer = [], px_idempotency_key = None,
      px_is_replay = False, px_target = None, px_mode_b = False,
      px_policy = ma_dispatch_policy (gs_mode_a st), px_active_operation = None, px_intercepted = False,
      px_query_preview = None, px_variables_preview = None,
      px_app_id = unwrap_or (gs_default_app st) ''default'', px_audit_tag = None, px_audit_rule = None,
      px_response_preview = None, px_error_preview = None, px_service_handle = None, px_service = None\<rparr>"

section \<open>The environment\<close>

record 'e idem_ops =
  io_check :: "string \<Rightarrow> hlc_timestamp \<Rightarrow> 'e \<Rightarrow> idem_outcome \<times> 'e"
  io_complete :: "string \<Rightarrow> hlc_timestamp \<Rightarrow> nat \<Rightarrow> header_map \<Rightarrow> string \<Rightarrow> 'e \<Rightarrow> 'e"
  io_remove :: "string \<Rightarrow> 'e \<Rightarrow> 'e"

text \<open>The memory back end at one moment.\<close>

definition memory_ops ::
  "'c lru_cache \<Rightarrow> (string \<Rightarrow> u64) \<Rightarrow> (nat \<Rightarrow> bool) \<Rightarrow> u64 \<Rightarrow> u64 \<Rightarrow> 'c memory_backend idem_ops" where
  "memory_ops lc hash free ttl now =
     \<lparr>io_check = check_or_insert lc hash free ttl now, io_complete = complete lc hash now,
      io_remove = remove_key lc hash\<rparr>"

text \<open>What is handed to the broker.\<close>

datatype published =
    PublishedRequest "request_info sanitized_payload"
  | PublishedEvent string completion_event
  | PublishedPayload string string

record traffic_record =
  tr_id :: string
  tr_hlc :: string
  tr_timestamp_epoch_ms :: nat
  tr_client_ip :: string
  tr_method :: string
  tr_path :: string
  tr_app_id :: string
  tr_operation_name :: "string option"
  tr_operation_type :: string
  tr_mode :: string
  tr_status_code :: nat
  tr_receipt_status :: "string option"
  tr_target :: string
  tr_query_preview :: "string option"
  tr_variables_preview :: "string option"
  tr_audit_tag :: "string option"
  tr_audit_rule :: "string option"
  tr_response_preview :: "string option"
  tr_error_preview :: "string option"

text \<open>\<open>std::net::IpAddr\<close> by its number.\<close>

datatype ip_addr = V4 u32 | V6 "128 word"

record ('p, 'm, 'c, 'e) gw_env =
  gv_ie :: "('p, 'm, 'c) int_env"
  gv_clocks :: clocks
  gv_idem :: "'e idem_ops"
  gv_to_string :: "json \<Rightarrow> string result"
  gv_show_json :: "json \<Rightarrow> string"
  gv_show_status :: "nat \<Rightarrow> string"
  gv_redact :: "string \<Rightarrow> string"
  gv_sha256_hex :: "string \<Rightarrow> string"
  gv_parse_ip :: "string \<Rightarrow> ip_addr option"
  gv_show_ip :: "ip_addr \<Rightarrow> string"
  gv_socket_ip :: "ip_addr option"
  gv_broker_ok :: "published \<Rightarrow> bool"
  gv_write_ok :: bool
  gv_now_ms :: nat
  gv_elapsed_ms :: nat
  gv_pkg_version :: string
  gv_favicon :: string

record ('m, 'c, 'e) call =
  cl_ctx :: proxy_ctx
  cl_req :: http_parts
  cl_engine :: 'e
  cl_int :: "('m, 'c) int_world"
  cl_published :: "published list"
  cl_traffic :: "traffic_record list"
  cl_response :: "http_response option"

datatype delegate = ToAdmin | ToWebSocket

datatype filter_result =
    FilterErr string
  | Responded
  | Delegated delegate
  | Proceed

text \<open>A stage either settles the request or lets the next one run.\<close>

definition and_then ::
  "('s \<Rightarrow> filter_result option \<times> 's) \<Rightarrow> ('s \<Rightarrow> filter_result option \<times> 's) \<Rightarrow> 's \<Rightarrow> filter_result option \<times> 's" where
  "and_then f g s = (case f s of (Some r, s') \<Rightarrow> (Some r, s') | (None, s') \<Rightarrow> g s')"

definition set_ctx :: "(proxy_ctx \<Rightarrow> proxy_ctx) \<Rightarrow> ('m, 'c, 'e) call \<Rightarrow> ('m, 'c, 'e) call" where
  "set_ctx f s = s\<lparr>cl_ctx := f (cl_ctx s)\<rparr>"

definition respond :: "nat \<Rightarrow> header_map \<Rightarrow> string \<Rightarrow> ('m, 'c, 'e) call \<Rightarrow> ('m, 'c, 'e) call" where
  "respond st hs body s = s\<lparr>cl_response := Some \<lparr>hr_status = st, hr_headers = hs, hr_body = body\<rparr>\<rparr>"

definition publish :: "published \<Rightarrow> ('m, 'c, 'e) call \<Rightarrow> ('m, 'c, 'e) call" where
  "publish m s = s\<lparr>cl_published := cl_published s @ [m]\<rparr>"

definition extract_client_ip ::
  "(string \<Rightarrow> ip_addr option) \<Rightarrow> ip_addr option \<Rightarrow> http_parts \<Rightarrow> ip_addr" where
  "extract_client_ip parse_ip socket_ip p =
     unwrap_or
       (or_else (Option.bind (header_str (headers p) ''x-forwarded-for'')
                   (\<lambda>x. parse_ip (trim (hd (split_on CHR '','' x)))))
       (or_else (Option.bind (header_str (headers p) ''x-real-ip'') (\<lambda>x. parse_ip (trim x)))
                socket_ip))
       (V4 0x7F000001)"

definition client_ip_text :: "('p, 'm, 'c, 'e) gw_env \<Rightarrow> http_parts \<Rightarrow> string" where
  "client_ip_text gv p = gv_show_ip gv (extract_client_ip (gv_parse_ip gv) (gv_socket_ip gv) p)"

record traffic_details =
  td_operation_name :: "string option"
  td_operation_type :: string
  td_mode :: string
  td_status_code :: nat
  td_receipt_status :: "string option"
  td_target :: string
  td_query_preview :: "string option"
  td_variables_preview :: "string option"
  td_audit_tag :: "string option"
  td_audit_rule :: "string option"
  td_response_preview :: "string option"
  td_error_preview :: "string option"

definition default_details :: traffic_details where
  "default_details = \<lparr>td_operation_name = None, td_operation_type = [], td_mode = [], td_status_code = 0,
     td_receipt_status = None, td_target = [], td_query_preview = None, td_variables_preview = None,
     td_audit_tag = None, td_audit_rule = None, td_response_preview = None, td_error_preview = None\<rparr>"

text \<open>The latency and the formatted time, which only the console shows, are left out.\<close>

definition record_traffic_event ::
  "('p, 'm, 'c, 'e) gw_env \<Rightarrow> traffic_details \<Rightarrow> ('m, 'c, 'e) call \<Rightarrow> ('m, 'c, 'e) call" where
  "record_traffic_event gv d s =
     (let x = cl_ctx s
      in s\<lparr>cl_traffic := cl_traffic s @
            [\<lparr>tr_id = ie_show_uuid (gv_ie gv) (px_request_id x), tr_hlc = to_compact_string (px_hlc x),
              tr_timestamp_epoch_ms = gv_now_ms gv, tr_client_ip = client_ip_text gv (cl_req s),
              tr_method = http_method (cl_req s), tr_path = uri_path (cl_req s), tr_app_id = px_app_id x,
              tr_operation_name = td_operation_name d, tr_operation_type = td_operation_type d,
              tr_mode = td_mode d, tr_status_code = td_status_code d, tr_receipt_status = td_receipt_status d,
              tr_target = td_target d,
              tr_query_preview = or_else (td_query_preview d) (px_query_preview x),
              tr_variables_preview = or_else (td_variables_preview d) (px_variables_preview x),
              tr_audit_tag = or_else (td_audit_tag d) (px_audit_tag x),
              tr_audit_rule = or_else (td_audit_rule d) (px_audit_rule x),
              tr_response_preview = or_else (td_response_preview d) (px_response_preview x),
              tr_error_preview = or_else (td_error_preview d) (px_error_preview x)\<rparr>]\<rparr>)"

section \<open>Edge filters\<close>

definition is_health_probe :: "string \<Rightarrow> bool" where
  "is_health_probe path = (path = ''/healthz'' \<or> path = ''/livez'')"

definition health_response :: "('p, 'm, 'c, 'e) gw_env \<Rightarrow> string \<Rightarrow> http_response option" where
  "health_response gv path =
     (let answer = (\<lambda>j. let body = gv_show_json gv j
            in Some \<lparr>hr_status = 200, hr_headers = [(''content-type'', ''application/json''),
                     (''content-length'', show_nat (length body)), (''cache-control'', ''no-store'')], hr_body = body\<rparr>)
      in if path = ''/healthz'' then
           answer (JObject [(''status'', JString ''ok''), (''service'', JString ''spectragql''),
                            (''version'', JString (gv_pkg_version gv))])
         else if path = ''/livez'' then
           answer (JObject [(''status'', JString ''live''), (''gateway'', JString ''ready''),
                            (''broker'', JString ''connected'')])
         else None)"

definition is_favicon_request :: "string \<Rightarrow> bool" where
  "is_favicon_request path =
     (path \<in> {''/favicon.ico'', ''/favicon.svg'', ''/admin/favicon.ico'', ''/admin/favicon.svg'',
              ''/apple-touch-icon.png'', ''/apple-touch-icon-precomposed.png''})"

definition favicon_response :: "('p, 'm, 'c, 'e) gw_env \<Rightarrow> http_response" where
  "favicon_response gv =
     \<lparr>hr_status = 200, hr_headers = [(''content-type'', ''image/svg+xml''),
        (''content-length'', show_nat (length (gv_favicon gv))),
        (''cache-control'', ''public, max-age=86400, immutable'')], hr_body = gv_favicon gv\<rparr>"

definition is_admin_request :: "admin_config option \<Rightarrow> string \<Rightarrow> bool" where
  "is_admin_request admin path =
     (case admin of
        Some a \<Rightarrow> admin_enabled a \<and> (path = path_prefix a \<or> starts_with path (path_prefix a @ ''/''))
      | None \<Rightarrow> False)"

section \<open>Early request filter and upstream\<close>

definition early_request_filter ::
  "admin_config option \<Rightarrow> 'r router_ops \<Rightarrow> 'r service_table \<Rightarrow> ('p, 'm) gateway_state \<Rightarrow> http_parts \<Rightarrow> proxy_ctx
     \<Rightarrow> unit result \<times> proxy_ctx" where
  "early_request_filter admin ops tbl st req x =
     (let path = uri_path req
      in if is_health_probe path \<or> is_favicon_request path \<or> is_admin_request admin path then (Inr (), x)
         else
           (let host = header_str (headers req) ''host'';
                header_app = Option.bind (or_else (header_get (headers req) ''x-app-id'')
                                                  (header_get (headers req) ''x-tenant-id'')) to_str;
                target = (\<lambda>a x. case named_upstreams st (app_upstream a) of
                                  Some addr \<Rightarrow> x\<lparr>px_target := Some addr\<rparr> | None \<Rightarrow> x);
                x1 = (case resolve_app_with_apps (gs_apps st) (gs_default_app st) host header_app path of
                        Some a \<Rightarrow> target a (x\<lparr>px_app_id := app_id a\<rparr>)
                      | None \<Rightarrow>
                          (case gs_default_app st of
                             Some d \<Rightarrow>
                               (case List.find (\<lambda>a. app_id a = d) (gs_apps st) of
                                  Some a \<Rightarrow> target a (x\<lparr>px_app_id := d\<rparr>)
                                | None \<Rightarrow> x\<lparr>px_app_id := d\<rparr>)
                           | None \<Rightarrow>
                               (case named_upstreams st ''default'' of
                                  Some addr \<Rightarrow> x\<lparr>px_target := Some addr\<rparr> | None \<Rightarrow> x)))
            in case get_service_config_and_handle_by_path ops tbl path of
                 Some (sc, h) \<Rightarrow> (Inr (), x1\<lparr>px_service_handle := Some h, px_service := Some (sc_service sc)\<rparr>)
               | None \<Rightarrow> (Inl (''No route configured for '' @ path @ ''.''), x1)))"

definition upstream_peer :: "'r service_table \<Rightarrow> ('p, 'm) gateway_state \<Rightarrow> proxy_ctx \<Rightarrow> socket_addr result" where
  "upstream_peer tbl st x =
     (case px_target x of
        Some a \<Rightarrow> Inr a
      | None \<Rightarrow>
          (case named_upstreams st ''default'' of
             Some a \<Rightarrow> Inr a
           | None \<Rightarrow>
               (case px_service_handle x of
                  Some h \<Rightarrow> Inr (sc_upstream_addr (upstream_services tbl ! h))
                | None \<Rightarrow> Inl ''No upstream peer available.'')))"

section \<open>Request filter\<close>

subsection \<open>Before the body\<close>

definition edge_stage ::
  "('p, 'm, 'c, 'e) gw_env \<Rightarrow> admin_config option \<Rightarrow> subscriptions_config \<Rightarrow> ('m, 'c, 'e) call
     \<Rightarrow> filter_result option \<times> ('m, 'c, 'e) call" where
  "edge_stage gv admin subs s =
     (let path = uri_path (cl_req s)
      in case health_response gv path of
           Some r \<Rightarrow> (Some Responded, s\<lparr>cl_response := Some r\<rparr>)
         | None \<Rightarrow>
             if is_favicon_request path then (Some Responded, s\<lparr>cl_response := Some (favicon_response gv)\<rparr>)
             else if is_admin_request admin path then (Some (Delegated ToAdmin), s)
             else if sub_enabled subs \<and> is_websocket_upgrade (headers (cl_req s))
                  \<and> (starts_with path ''/graphql'' \<or> starts_with path ''/gql'')
             then (Some (Delegated ToWebSocket), s)
             else (None, s))"

definition append_text :: "string \<Rightarrow> string \<Rightarrow> http_parts \<Rightarrow> http_parts" where
  "append_text n v p =
     (case header_value_from_str v of Some b \<Rightarrow> p\<lparr>headers := header_append (headers p) n b\<rparr> | None \<Rightarrow> p)"

definition stamp_request :: "('p, 'm, 'c, 'e) gw_env \<Rightarrow> ('m, 'c, 'e) call \<Rightarrow> ('m, 'c, 'e) call" where
  "stamp_request gv s =
     (let x = cl_ctx s
      in s\<lparr>cl_req := append_text ''x-spectra-app'' (px_app_id x)
             (append_text ''x-spectra-hlc'' (to_compact_string (px_hlc x))
               (append_text ''x-spectra-request-id'' (ie_show_uuid (gv_ie gv) (px_request_id x)) (cl_req s)))\<rparr>)"

text \<open>What follows a check of the idempotency engine, for an explicit key and for a fingerprint.\<close>

definition idempotency_stage ::
  "('p, 'm, 'c, 'e) gw_env \<Rightarrow> traffic_details \<Rightarrow> intercept_result \<times> 'e \<Rightarrow> ('m, 'c, 'e) call
     \<Rightarrow> filter_result option \<times> ('m, 'c, 'e) call" where
  "idempotency_stage gv d res s =
     (let s1 = s\<lparr>cl_engine := snd res\<rparr>
      in case fst res of
           ConflictSent r \<Rightarrow> (Some Responded, s1\<lparr>cl_response := Some r\<rparr>)
         | ReplaySent r \<Rightarrow>
             (Some Responded, record_traffic_event gv d
                (set_ctx (\<lambda>x. x\<lparr>px_is_replay := True\<rparr>) (s1\<lparr>cl_response := Some r\<rparr>)))
         | NewKey k \<Rightarrow> (None, set_ctx (\<lambda>x. x\<lparr>px_idempotency_key := Some k\<rparr>) s1)
         | NoKey \<Rightarrow> (None, s1))"

definition explicit_key_stage ::
  "('p, 'm, 'c, 'e) gw_env \<Rightarrow> ('m, 'c, 'e) call \<Rightarrow> filter_result option \<times> ('m, 'c, 'e) call" where
  "explicit_key_stage gv s =
     idempotency_stage gv
       (default_details\<lparr>td_operation_type := ''Mutation'', td_mode := ''Replay (Idempotency)'', td_status_code := 200,
          td_receipt_status := Some ''REPLAY'', td_target := ''Idempotency Cache''\<rparr>)
       (handle_explicit_key (io_check (gv_idem gv)) (gv_to_string gv) (ie_show_uuid (gv_ie gv))
          (headers (cl_req s)) (px_request_id (cl_ctx s)) (px_hlc (cl_ctx s)) (cl_engine s)) s"

definition MAX_GATEWAY_BODY_BYTES :: nat where
  "MAX_GATEWAY_BODY_BYTES = 10 * 1024 * 1024"

text \<open>The loop that reads the body: an error of the transport, or whether the limit was hit; and the
  buffer so far.\<close>

fun read_chunks :: "string result list \<Rightarrow> string \<Rightarrow> bool result \<times> string" where
  "read_chunks [] buf = (Inr False, buf)"
| "read_chunks (Inl e # cs) buf = (Inl e, buf)"
| "read_chunks (Inr c # cs) buf =
     (if MAX_GATEWAY_BODY_BYTES < length buf + length c then (Inr True, buf) else read_chunks cs (buf @ c))"

definition payload_too_large_body :: string where
  \<open>payload_too_large_body = ''{"errors":[{"message":"Payload Too Large: request body exceeds 10MB limit"}]}''\<close>

definition release_key :: "('p, 'm, 'c, 'e) gw_env \<Rightarrow> ('m, 'c, 'e) call \<Rightarrow> ('m, 'c, 'e) call" where
  "release_key gv s =
     (case px_idempotency_key (cl_ctx s) of
        Some k \<Rightarrow> set_ctx (\<lambda>x. x\<lparr>px_idempotency_key := None\<rparr>) (s\<lparr>cl_engine := io_remove (gv_idem gv) k (cl_engine s)\<rparr>)
      | None \<Rightarrow> s)"

definition stamp_headers :: "('p, 'm, 'c, 'e) gw_env \<Rightarrow> proxy_ctx \<Rightarrow> header_map" where
  "stamp_headers gv x =
     [(''x-spectra-request-id'', ie_show_uuid (gv_ie gv) (px_request_id x)), (''x-spectra-hlc'', to_compact_string (px_hlc x))]"

text \<open>\<open>chunks\<close> are the pieces of the body in the order they arrive.\<close>

definition body_stage ::
  "('p, 'm, 'c, 'e) gw_env \<Rightarrow> string result list \<Rightarrow> ('m, 'c, 'e) call \<Rightarrow> filter_result option \<times> ('m, 'c, 'e) call" where
  "body_stage gv chunks s =
     (if http_method (cl_req s) \<noteq> ''POST'' then (None, s)
      else
        (let (res, buf) = read_chunks chunks (px_buffer (cl_ctx s)); s1 = set_ctx (\<lambda>x. x\<lparr>px_buffer := buf\<rparr>) s
         in case res of
              Inl e \<Rightarrow> (Some (FilterErr e), s1)
            | Inr False \<Rightarrow> (None, s1)
            | Inr True \<Rightarrow>
                (let s2 = respond 413
                       ([(''content-type'', ''application/json''),
                         (''content-length'', show_nat (length payload_too_large_body))] @ stamp_headers gv (cl_ctx s))
                       payload_too_large_body s1
                 in (Some Responded, if gv_write_ok gv then release_key gv s2 else s2))))"

subsection \<open>The decoded request\<close>

definition app_prefix :: "('p, 'm) gateway_state \<Rightarrow> string \<Rightarrow> string option" where
  "app_prefix st app =
     or_else (map_option effective_subject_prefix (List.find (\<lambda>a. app_id a = app) (gs_apps st)))
             (if app \<noteq> [] then Some (''mutation.'' @ app) else None)"

text \<open>\<open>trim_start_matches\<close> of a non-empty text removes it as often as it stands in front.\<close>

function trim_start_matches :: "string \<Rightarrow> string \<Rightarrow> string" where
  "trim_start_matches pat s =
     (if pat \<noteq> [] \<and> starts_with s pat then trim_start_matches pat (drop (length pat) s) else s)"
  by pat_completeness auto

termination
  by (relation "measure (\<lambda>(p, s). length s)") (auto simp: starts_with_iff)

definition request_topic :: "string option \<Rightarrow> string \<Rightarrow> string" where
  "request_topic prefix base =
     (case prefix of
        None \<Rightarrow> base
      | Some p \<Rightarrow>
          (case split_once CHR ''.'' base of
             Some (kind, op) \<Rightarrow>
               if kind = ''query'' \<and> starts_with p ''mutation.''
               then ''query.'' @ trim_start_matches ''mutation.'' p @ ''.'' @ op
               else if kind = ''subscription'' \<and> starts_with p ''mutation.''
               then ''subscription.'' @ trim_start_matches ''mutation.'' p @ ''.'' @ op
               else p @ ''.'' @ op
           | None \<Rightarrow> p @ ''.'' @ base))"

definition variables_text :: "('p, 'm, 'c, 'e) gw_env \<Rightarrow> json \<Rightarrow> string option" where
  "variables_text gv vars = (if vars = JNull \<or> vars = JObject [] then None else Some (gv_show_json gv vars))"

definition previews :: "('p, 'm, 'c, 'e) gw_env \<Rightarrow> request_info \<Rightarrow> string \<Rightarrow> string option \<times> string option" where
  "previews gv info body =
     (case ri_gql info of
        Some g \<Rightarrow> (Option.bind (json_get (gi_json_body g) ''query'') as_str,
                   Option.bind (json_get (gi_json_body g) ''variables'') (variables_text gv))
      | None \<Rightarrow> if body \<noteq> [] then (Some (take_chars 500 body), None) else (None, None))"

definition info_operation :: "request_info \<Rightarrow> string option" where
  "info_operation info = Option.bind (ri_gql info) gi_operation_name"

definition info_type_text :: "request_info \<Rightarrow> string" where
  "info_type_text info = (case ri_gql info of Some g \<Rightarrow> operation_type_str (gi_operation_type g) | None \<Rightarrow> ''GQL'')"

definition decoded_ctx ::
  "('p, 'm, 'c, 'e) gw_env \<Rightarrow> ('p, 'm) gateway_state \<Rightarrow> request_info \<Rightarrow> string \<Rightarrow> proxy_ctx \<Rightarrow> proxy_ctx" where
  "decoded_ctx gv st info body x =
     x\<lparr>px_request_topic := request_topic (app_prefix st (px_app_id x)) (resolve_dispatch_topic info),
       px_request_info := Some info, px_active_operation := info_operation info,
       px_query_preview := fst (previews gv info body), px_variables_preview := snd (previews gv info body)\<rparr>"

definition interceptor_ctx :: "proxy_ctx \<Rightarrow> request_info \<Rightarrow> interceptor_context" where
  "interceptor_ctx x info =
     (let c = context_new (px_request_id x) (px_hlc x)
      in case ri_gql info of
           Some g \<Rightarrow> c\<lparr>ctx_operation_name := gi_operation_name g, ctx_operation_type := Some (gi_operation_type g),
                       ctx_json_body := Some (gi_json_body g)\<rparr>
         | None \<Rightarrow> c)"

definition opt_json :: "string option \<Rightarrow> json" where
  "opt_json v = (case v of Some t \<Rightarrow> JString t | None \<Rightarrow> JNull)"

definition rejection_payload :: "('p, 'm, 'c, 'e) gw_env \<Rightarrow> request_info \<Rightarrow> rejection \<Rightarrow> ('m, 'c, 'e) call \<Rightarrow> json" where
  "rejection_payload gv info rej s =
     (let x = cl_ctx s
      in JObject
        [(''requestId'', JString (ie_show_uuid (gv_ie gv) (px_request_id x))),
         (''hlc'', JString (to_compact_string (px_hlc x))),
         (''operationName'', opt_json (info_operation info)), (''operationType'', JString (info_type_text info)),
         (''rejectionCode'', JString (rej_code rej)), (''statusCode'', JNumber (PosInt (rej_status rej))),
         (''reason'', JString (rej_message rej)), (''clientIp'', JString (client_ip_text gv (cl_req s))),
         (''timestamp'', JNumber (PosInt (gv_now_ms gv))),
         (''queryPreview'', opt_json (px_query_preview x)), (''variablesPreview'', opt_json (px_variables_preview x))])"

definition reject_request ::
  "('p, 'm, 'c, 'e) gw_env \<Rightarrow> request_info \<Rightarrow> rejection \<Rightarrow> ('m, 'c, 'e) call \<Rightarrow> ('m, 'c, 'e) call" where
  "reject_request gv info rej s =
     (let body = to_graphql_response (gv_to_string gv) rej;
          s1 = respond (rej_status rej) ([(''content-type'', ''application/json'')] @ stamp_headers gv (cl_ctx s)
                 @ [(''content-length'', show_nat (length body))]) body (release_key gv s);
          topic = rejection_topic (to_lowercase (unwrap_or (info_operation info) ''anonymous''))
      in if \<not> gv_write_ok gv then s1
         else record_traffic_event gv
           (default_details\<lparr>td_operation_name := info_operation info, td_operation_type := info_type_text info,
              td_mode := ''Rejected (Edge)'', td_status_code := rej_status rej,
              td_receipt_status := Some ''REJECTED'', td_target := ''Sink: '' @ topic,
              td_error_preview := Some (rej_code rej @ '': '' @ rej_message rej)\<rparr>)
           (publish (PublishedPayload topic (gv_show_json gv (rejection_payload gv info rej s1))) s1))"

text \<open>Iterating a header map yields the name only with its first value; the others are skipped.\<close>

fun first_values :: "header_map \<Rightarrow> header_map" where
  "first_values [] = []"
| "first_values ((k, v) # hs) = (k, v) # filter (\<lambda>p. fst p \<noteq> k) (first_values hs)"

text \<open>The request interceptors: the request and body they see are copies, and only a transformed
  head is written back to the session.  The text of the body goes on to the fingerprint.\<close>

definition request_interceptor_stage ::
  "('p, 'm, 'c, 'e) gw_env \<Rightarrow> ('p, 'm) gateway_state \<Rightarrow> request_info \<Rightarrow> string \<Rightarrow> ('m, 'c, 'e) call
     \<Rightarrow> (filter_result option \<times> string) \<times> ('m, 'c, 'e) call" where
  "request_interceptor_stage gv st info body s =
     (let pipeline = get_request_pipeline (gs_manager st) (info_operation info)
      in if pipeline = [] then ((None, body), s)
         else case run_request_pipeline (gv_ie gv) (gv_clocks gv) pipeline (cl_int s)
                     (interceptor_ctx (cl_ctx s) info) (cl_req s) body of
           (v, iw, _, _) \<Rightarrow>
             (let s1 = s\<lparr>cl_int := iw\<rparr>
              in case v of
                   Pass \<Rightarrow> ((None, body), s1)
                 | Audit rule tag reason \<Rightarrow>
                     ((None, body), set_ctx (\<lambda>x. x\<lparr>px_audit_tag := tag, px_audit_rule := Some rule\<rparr>) s1)
                 | Reject rej \<Rightarrow> ((Some Responded, body), reject_request gv info rej s1)
                 | Transform hs b \<Rightarrow>
                     ((None, case b of Some t \<Rightarrow> unwrap_or (from_utf8 t) body | None \<Rightarrow> body),
                      set_ctx (\<lambda>x. case b of Some t \<Rightarrow> x\<lparr>px_buffer := t\<rparr> | None \<Rightarrow> x)
                        (s1\<lparr>cl_req := (cl_req s1)\<lparr>headers :=
                              fold (\<lambda>(k, w) h. header_insert h k (unwrap_or (to_str w) [])) (first_values (unwrap_or hs []))
                                (headers (cl_req s1))\<rparr>\<rparr>))))"

definition is_mutation :: "request_info \<Rightarrow> bool" where
  "is_mutation info = (case ri_gql info of Some g \<Rightarrow> gi_operation_type g = Mutation | None \<Rightarrow> False)"

definition fingerprint_stage ::
  "('p, 'm, 'c, 'e) gw_env \<Rightarrow> request_info \<Rightarrow> string \<Rightarrow> ('m, 'c, 'e) call
     \<Rightarrow> filter_result option \<times> ('m, 'c, 'e) call" where
  "fingerprint_stage gv info body s =
     (if px_idempotency_key (cl_ctx s) = None \<and> is_mutation info then
        idempotency_stage gv
          (default_details\<lparr>td_operation_name := info_operation info, td_operation_type := ''Mutation'',
             td_mode := ''Replay (Fingerprint)'', td_status_code := 200,
             td_receipt_status := Some ''REPLAY'', td_target := ''Idempotency Cache''\<rparr>)
          (handle_fingerprint (io_check (gv_idem gv)) (gv_sha256_hex gv) (gv_to_string gv) (ie_show_uuid (gv_ie gv))
             (px_request_id (cl_ctx s)) (px_hlc (cl_ctx s))
             (unwrap_or (header_str (headers (cl_req s)) ''x-forwarded-for'') ''client'')
             (info_operation info) body (cl_engine s)) s
      else (None, s))"

definition gw_sanitized :: "('p, 'm, 'c, 'e) gw_env \<Rightarrow> request_info \<Rightarrow> request_info sanitized_payload" where
  "gw_sanitized gv = into_sanitized (ie_from_str (gv_ie gv)) (gv_to_string gv) (gv_redact gv)"

definition receipt_field :: "route_config \<Rightarrow> request_info \<Rightarrow> string" where
  "receipt_field route info =
     unwrap_or (or_else (Option.bind (ri_gql info) (\<lambda>g. case gi_root_fields g of [] \<Rightarrow> None | f # _ \<Rightarrow> Some f))
                        (info_operation info)) (r_operation route)"

text \<open>Mode B: the command goes to the broker and the client gets a receipt.\<close>

definition handle_mode_b_edge ::
  "('p, 'm, 'c, 'e) gw_env \<Rightarrow> route_config \<Rightarrow> request_info \<Rightarrow> ('m, 'c, 'e) call \<Rightarrow> ('m, 'c, 'e) call" where
  "handle_mode_b_edge gv route info s =
     (let m = PublishedRequest (gw_sanitized gv info);
          s1 = publish m (set_ctx (\<lambda>x. x\<lparr>px_mode_b := True\<rparr>) s);
          dispatch_ok = gv_broker_ok gv m;
          x = cl_ctx s1;
          status = (if dispatch_ok then receipt_status route else ''DISPATCH_FAILED'');
          body = gv_show_json gv (generate_command_receipt (ie_show_uuid (gv_ie gv)) (receipt_field route info)
                   (px_request_id x) (px_hlc x) status);
          s2 = (case px_idempotency_key x of
                  Some k \<Rightarrow>
                    s1\<lparr>cl_engine :=
                         (if dispatch_ok then
                            io_complete (gv_idem gv) k (px_hlc x) 200
                              ([(''content-type'', ''application/json'')] @ stamp_headers gv x) body (cl_engine s1)
                          else io_remove (gv_idem gv) k (cl_engine s1))\<rparr>
                | None \<Rightarrow> s1)
      in respond 200
           ([(''content-type'', ''application/json''), (''content-length'', show_nat (length body)),
             (''access-control-allow-origin'', ''*''),
             (''access-control-expose-headers'',
              ''x-spectra-request-id, x-spectra-hlc, x-spectra-dispatch, x-spectra-idempotent-replay'')]
            @ stamp_headers gv x
            @ (if dispatch_ok then [] else [(''x-spectra-dispatch'', ''failed'')])) body s2)"

definition disabled_route ::
  "('p, 'm, 'c, 'e) gw_env \<Rightarrow> route_config \<Rightarrow> request_info \<Rightarrow> ('m, 'c, 'e) call \<Rightarrow> ('m, 'c, 'e) call" where
  "disabled_route gv route info s =
     (let msg = ''Operation '' @ quoted (r_operation route) @ '' is disabled by gateway policy'';
          body = gv_show_json gv (JObject [(''errors'', JArray [JObject [(''message'', JString msg),
                   (''extensions'', JObject [(''code'', JString ''ROUTE_DISABLED''),
                                             (''operation'', JString (r_operation route))])]])]);
          s1 = respond 403 [(''content-type'', ''application/json''), (''content-length'', show_nat (length body))] body s
      in if \<not> gv_write_ok gv then s1
         else record_traffic_event gv
           (default_details\<lparr>td_operation_name := info_operation info, td_operation_type := ''Mutation'',
              td_mode := ''Rejected (Disabled Route)'', td_status_code := 403,
              td_receipt_status := Some ''DISABLED'', td_target := ''Route Policy'',
              td_error_preview := Some msg\<rparr>) s1)"

definition handle_mode_a_dispatch_policy ::
  "('p, 'm, 'c, 'e) gw_env \<Rightarrow> dispatch_policy \<Rightarrow> request_info \<Rightarrow> ('m, 'c, 'e) call \<Rightarrow> ('m, 'c, 'e) call" where
  "handle_mode_a_dispatch_policy gv policy info s =
     (if policy = RawAudit then publish (PublishedRequest (gw_sanitized gv info)) s else s)"

definition route_stage ::
  "('p, 'm, 'c, 'e) gw_env \<Rightarrow> ('p, 'm) gateway_state \<Rightarrow> request_info \<Rightarrow> ('m, 'c, 'e) call
     \<Rightarrow> filter_result option \<times> ('m, 'c, 'e) call" where
  "route_stage gv st info s =
     (case match_route (gs_routes st) info of
        Some route \<Rightarrow>
          if \<not> route_enabled route then (Some Responded, disabled_route gv route info s)
          else if is_async_edge_command (r_mode route) then
            (Some Responded,
             (let s1 = handle_mode_b_edge gv route info s
              in record_traffic_event gv
                (default_details\<lparr>td_operation_name := info_operation info, td_operation_type := ''Mutation'',
                   td_mode := ''Async (Receipt)'', td_status_code := 200,
                   td_receipt_status := Some (receipt_status route),
                   td_target := ''NATS: '' @ px_request_topic (cl_ctx s1)\<rparr>) s1))
          else
            (let s1 = set_ctx (\<lambda>x. x\<lparr>px_target := or_else (resolve_mode_a_upstream route (named_upstreams st)) (px_target x),
                                      px_policy := unwrap_or (route_dispatch_policy route) (px_policy x)\<rparr>) s
             in (None, handle_mode_a_dispatch_policy gv (px_policy (cl_ctx s1)) info s1))
      | None \<Rightarrow> (None, handle_mode_a_dispatch_policy gv (px_policy (cl_ctx s)) info s))"

definition handle_decoded ::
  "('p, 'm, 'c, 'e) gw_env \<Rightarrow> ('p, 'm) gateway_state \<Rightarrow> request_info \<Rightarrow> string \<Rightarrow> ('m, 'c, 'e) call
     \<Rightarrow> filter_result option \<times> ('m, 'c, 'e) call" where
  "handle_decoded gv st info body s =
     (case request_interceptor_stage gv st info body (set_ctx (decoded_ctx gv st info body) s) of
        ((Some r, _), s1) \<Rightarrow> (Some r, s1)
      | ((None, body'), s1) \<Rightarrow> and_then (fingerprint_stage gv info body') (route_stage gv st info) s1)"

definition decode_stage ::
  "('p, 'm, 'c, 'e) gw_env \<Rightarrow> ('p, 'm) gateway_state \<Rightarrow> ('m, 'c, 'e) call
     \<Rightarrow> filter_result option \<times> ('m, 'c, 'e) call" where
  "decode_stage gv st s =
     (let x = cl_ctx s
      in if px_buffer x = [] then (None, s)
         else case from_utf8 (px_buffer x) of
           None \<Rightarrow> (None, s)
         | Some body \<Rightarrow>
             (case px_service x of
                None \<Rightarrow> (None, s)
              | Some sv \<Rightarrow>
                  (case decode_request (ie_from_str (gv_ie gv)) (ie_apollo (gv_ie gv)) (sv_protocol sv)
                          (px_request_id x) (px_hlc x) (cl_req s) body of
                     Inl _ \<Rightarrow> (None, s)
                   | Inr info \<Rightarrow> handle_decoded gv st info body s)))"

definition request_filter ::
  "('p, 'm, 'c, 'e) gw_env \<Rightarrow> admin_config option \<Rightarrow> subscriptions_config \<Rightarrow> ('p, 'm) gateway_state
     \<Rightarrow> string result list \<Rightarrow> ('m, 'c, 'e) call \<Rightarrow> filter_result \<times> ('m, 'c, 'e) call" where
  "request_filter gv admin subs st chunks s =
     (case and_then (edge_stage gv admin subs)
             (and_then (\<lambda>s. explicit_key_stage gv (stamp_request gv s))
               (and_then (body_stage gv chunks) (decode_stage gv st))) s of
        (Some r, s') \<Rightarrow> (r, s')
      | (None, s') \<Rightarrow> (Proceed, s'))"

section \<open>Response phases\<close>

definition request_body_filter :: "string option \<Rightarrow> proxy_ctx \<Rightarrow> proxy_ctx" where
  "request_body_filter body x =
     (if px_request_info x \<noteq> None then x else x\<lparr>px_buffer := px_buffer x @ unwrap_or body []\<rparr>)"

definition append_resp :: "string \<Rightarrow> string \<Rightarrow> http_response_parts \<Rightarrow> http_response_parts" where
  "append_resp n v p =
     (case header_value_from_str v of Some b \<Rightarrow> p\<lparr>resp_headers := header_append (resp_headers p) n b\<rparr> | None \<Rightarrow> p)"

definition response_filter ::
  "('p, 'm, 'c, 'e) gw_env \<Rightarrow> ('p, 'm) gateway_state \<Rightarrow> http_response_parts \<Rightarrow> proxy_ctx \<Rightarrow> http_response_parts \<times> proxy_ctx" where
  "response_filter gv st resp x =
     (let r1 = append_resp ''x-spectra-hlc'' (to_compact_string (px_hlc x))
                 (append_resp ''x-spectra-request-id'' (ie_show_uuid (gv_ie gv) (px_request_id x)) resp);
          x1 = x\<lparr>px_buffer := [], px_response_parts := Some r1\<rparr>
      in if has_response_interceptors (gs_manager st) (px_active_operation x)
         then (r1\<lparr>resp_headers := alist_remove ''content-length'' (resp_headers r1)\<rparr>, x1\<lparr>px_intercepted := True\<rparr>)
         else (r1, x1))"

definition MAX_TELEMETRY_RESPONSE_BYTES :: nat where
  "MAX_TELEMETRY_RESPONSE_BYTES = 64 * 1024"

definition is_error_status :: "proxy_ctx \<Rightarrow> bool" where
  "is_error_status x =
     (case px_response_parts x of
        Some p \<Rightarrow> is_client_error (resp_status p) \<or> is_server_error (resp_status p) | None \<Rightarrow> False)"

definition capture :: "nat \<Rightarrow> string \<Rightarrow> string \<Rightarrow> string" where
  "capture limit buf b = (if length buf < limit then buf @ take (min (limit - length buf) (length b)) b else buf)"

definition response_body_of :: "('p, 'm, 'c, 'e) gw_env \<Rightarrow> proxy_ctx \<Rightarrow> string \<Rightarrow> response_body" where
  "response_body_of gv x text =
     response_body_new (ie_from_str (gv_ie gv)) (gv_to_string gv)
       (case px_response_parts x of Some p \<Rightarrow> resp_headers p | None \<Rightarrow> []) text"

text \<open>Without response interceptors the chunks stream through; a copy is kept for telemetry.\<close>

definition stream_chunk ::
  "('p, 'm, 'c, 'e) gw_env \<Rightarrow> ('p, 'm) gateway_state \<Rightarrow> string option \<Rightarrow> bool \<Rightarrow> proxy_ctx \<Rightarrow> string option \<times> proxy_ctx" where
  "stream_chunk gv st body end_of_stream x =
     (let capturing = is_error_status x \<and> capture_enabled (gs_error_capture st);
          x1 = (case body of
                  None \<Rightarrow> x
                | Some b \<Rightarrow>
                    if capturing then x\<lparr>px_buffer := capture (max_body_bytes (gs_error_capture st)) (px_buffer x) b\<rparr>
                    else if px_policy x \<noteq> ResponseOnly \<and> px_policy x \<noteq> NoDispatch
                    then x\<lparr>px_buffer := capture MAX_TELEMETRY_RESPONSE_BYTES (px_buffer x) b\<rparr>
                    else x)
      in if end_of_stream then
           (let text = unwrap_or (from_utf8 (px_buffer x1)) [];
                x2 = (if capturing then x1\<lparr>px_error_preview := Some text\<rparr> else x1)
            in (body, x2\<lparr>px_response_body := Some (response_body_of gv x2 text), px_buffer := []\<rparr>))
         else (body, x1))"

definition preview_of :: "nat \<Rightarrow> string \<Rightarrow> string" where
  "preview_of limit buf =
     from_utf8_lossy (take (min (length buf) limit) buf) @ (if limit < length buf then ''... [truncated]'' else [])"

text \<open>With response interceptors the chunks are held back until the end.  \<open>static\<close> is the error
  capture configuration the proxy was built with.\<close>

definition intercept_chunk ::
  "('p, 'm, 'c, 'e) gw_env \<Rightarrow> ('p, 'm) gateway_state \<Rightarrow> error_capture_config \<Rightarrow> string option \<Rightarrow> bool \<Rightarrow> ('m, 'c) int_world
     \<Rightarrow> proxy_ctx \<Rightarrow> string option \<times> ('m, 'c) int_world \<times> proxy_ctx" where
  "intercept_chunk gv st static body end_of_stream iw x =
     (let x1 = x\<lparr>px_buffer := px_buffer x @ unwrap_or body []\<rparr>
      in if \<not> end_of_stream then (None, iw, x1)
         else
           (let ictx = (context_new (px_request_id x) (px_hlc x))\<lparr>ctx_duration_ms := gv_elapsed_ms gv,
                          ctx_operation_name := px_active_operation x\<rparr>;
                parts = unwrap_or (px_response_parts x) \<lparr>resp_status = 200, resp_headers = []\<rparr>
            in case run_response_pipeline (gv_ie gv) (gv_clocks gv)
                      (get_response_pipeline (gs_manager st) (px_active_operation x)) iw ictx parts (px_buffer x1) of
                 (v, iw', _) \<Rightarrow>
                   (let (final, x2) =
                      (case v of
                         Pass \<Rightarrow> (px_buffer x1, x1)
                       | Transform _ b \<Rightarrow> (unwrap_or b (px_buffer x1), x1)
                       | Reject rej \<Rightarrow> (to_graphql_response (gv_to_string gv) rej,
                                       x1\<lparr>px_error_preview := Some (rej_code rej @ '': '' @ rej_message rej)\<rparr>)
                       | Audit rule tag reason \<Rightarrow>
                           (px_buffer x1, x1\<lparr>px_audit_tag := tag, px_audit_rule := Some rule,
                              px_response_preview := Some (preview_of (max_body_bytes static) (px_buffer x1))\<rparr>))
                    in (Some final, iw',
                        x2\<lparr>px_response_body := Some (response_body_of gv x2 (unwrap_or (from_utf8 final) [])),
                           px_buffer := []\<rparr>))))"

definition response_body_filter ::
  "('p, 'm, 'c, 'e) gw_env \<Rightarrow> ('p, 'm) gateway_state \<Rightarrow> error_capture_config \<Rightarrow> string option \<Rightarrow> bool \<Rightarrow> ('m, 'c) int_world
     \<Rightarrow> proxy_ctx \<Rightarrow> string option \<times> ('m, 'c) int_world \<times> proxy_ctx" where
  "response_body_filter gv st static body end_of_stream iw x =
     (if \<not> px_intercepted x then (case stream_chunk gv st body end_of_stream x of (b, x') \<Rightarrow> (b, iw, x'))
      else intercept_chunk gv st static body end_of_stream iw x)"

text \<open>The chunks of a response in turn; the last one ends the stream.\<close>

fun response_bodies ::
  "('p, 'm, 'c, 'e) gw_env \<Rightarrow> ('p, 'm) gateway_state \<Rightarrow> error_capture_config \<Rightarrow> string list \<Rightarrow> ('m, 'c) int_world
     \<Rightarrow> proxy_ctx \<Rightarrow> string option list \<times> ('m, 'c) int_world \<times> proxy_ctx" where
  "response_bodies gv st static [] iw x = ([], iw, x)"
| "response_bodies gv st static (b # bs) iw x =
     (case response_body_filter gv st static (Some b) (bs = []) iw x of
        (out, iw', x') \<Rightarrow>
          (case response_bodies gv st static bs iw' x' of (outs, iw'', x'') \<Rightarrow> (out # outs, iw'', x'')))"

section \<open>Logging\<close>

definition clear_buffer :: "('m, 'c, 'e) call \<Rightarrow> ('m, 'c, 'e) call" where
  "clear_buffer s = set_ctx (\<lambda>x. x\<lparr>px_buffer := []\<rparr>) s"

text \<open>The topic of the terminal event; \<open>None\<close> when there is none and nothing is dispatched.\<close>

definition final_topic :: "request_info \<Rightarrow> proxy_ctx \<Rightarrow> string option" where
  "final_topic info x =
     (if px_request_topic x \<noteq> ''spectra'' then Some (px_request_topic x)
      else case px_active_operation x of
             Some op \<Rightarrow> Some (''operation.'' @ to_lowercase op)
           | None \<Rightarrow> if ri_gql info \<noteq> None then Some (resolve_dispatch_topic info) else None)"

definition drop_key :: "('p, 'm, 'c, 'e) gw_env \<Rightarrow> ('m, 'c, 'e) call \<Rightarrow> ('m, 'c, 'e) call" where
  "drop_key gv s =
     (case px_idempotency_key (cl_ctx s) of
        Some k \<Rightarrow> s\<lparr>cl_engine := io_remove (gv_idem gv) k (cl_engine s)\<rparr> | None \<Rightarrow> s)"

definition suppressed_on_failure :: "dispatch_policy \<Rightarrow> bool" where
  "suppressed_on_failure p = (p = ResponseOnly \<or> p = NoDispatch)"

definition publish_failure ::
  "('p, 'm, 'c, 'e) gw_env \<Rightarrow> string \<Rightarrow> request_info \<Rightarrow> response_info option \<Rightarrow> string \<Rightarrow> ('m, 'c, 'e) call
     \<Rightarrow> ('m, 'c, 'e) call" where
  "publish_failure gv topic info resp err s =
     (let x = cl_ctx s
      in if suppressed_on_failure (px_policy x) then s
         else publish (PublishedEvent (failed_topic topic)
                (event_failure (gw_sanitized gv) (px_request_id x) (px_hlc x) (gv_elapsed_ms gv)
                   (info_operation info) info resp err)) s)"

definition log_response ::
  "('p, 'm, 'c, 'e) gw_env \<Rightarrow> string \<Rightarrow> request_info \<Rightarrow> ('m, 'c, 'e) call \<Rightarrow> ('m, 'c, 'e) call" where
  "log_response gv topic info s =
     (let x = cl_ctx s;
          hs = (case px_response_parts x of Some p \<Rightarrow> resp_headers p | None \<Rightarrow> []);
          body = unwrap_or (px_response_body x)
                   (response_body_new (ie_from_str (gv_ie gv)) (gv_to_string gv) hs []);
          resp = response_info_new (px_request_id x) (px_hlc x) body hs;
          s1 = set_ctx (\<lambda>x. x\<lparr>px_response_body := None\<rparr>) s
      in case px_response_parts x of
           None \<Rightarrow> publish_failure gv topic info (Some resp) ''No upstream response received'' (drop_key gv s1)
         | Some p \<Rightarrow>
             if is_client_error (resp_status p) \<or> is_server_error (resp_status p)
             then publish_failure gv topic info (Some resp) (''HTTP '' @ gv_show_status gv (resp_status p)) (drop_key gv s1)
             else
               (let s2 = (case px_idempotency_key x of
                       Some k \<Rightarrow> s1\<lparr>cl_engine := io_complete (gv_idem gv) k (px_hlc x) (resp_status p) hs
                                     (unwrap_or (rb_text body) (rb_json body)) (cl_engine s1)\<rparr>
                     | None \<Rightarrow> s1)
                in if px_policy x = NoDispatch then s2
                   else publish (PublishedEvent topic
                          (event_success (gw_sanitized gv) (px_request_id x) (px_hlc x) (gv_elapsed_ms gv)
                             (info_operation info) info resp)) s2))"

definition dispatch_logging ::
  "('p, 'm, 'c, 'e) gw_env \<Rightarrow> string option \<Rightarrow> ('m, 'c, 'e) call \<Rightarrow> ('m, 'c, 'e) call" where
  "dispatch_logging gv err s =
     (let x = cl_ctx s
      in if px_is_replay x \<or> px_mode_b x \<or> http_method (cl_req s) = ''OPTIONS'' \<or> http_method (cl_req s) = ''HEAD''
         then clear_buffer s
         else
           (let info = unwrap_or (px_request_info x) (request_info_new (px_request_id x) (px_hlc x) (cl_req s));
                s1 = set_ctx (\<lambda>x. x\<lparr>px_request_info := None\<rparr>) s
            in case final_topic info x of
                 None \<Rightarrow> clear_buffer s1
               | Some topic \<Rightarrow>
                   (let s2 = set_ctx (\<lambda>x. x\<lparr>px_request_topic := topic\<rparr>) s1
                    in clear_buffer
                         (case err of
                            Some e \<Rightarrow> publish_failure gv topic info None e (drop_key gv s2)
                          | None \<Rightarrow> log_response gv topic info s2))))"

definition logged_target :: "'r service_table \<Rightarrow> proxy_ctx \<Rightarrow> string" where
  "logged_target tbl x =
     (case px_target x of
        Some t \<Rightarrow> ''Upstream: '' @ t
      | None \<Rightarrow> (case px_service_handle x of
                   Some h \<Rightarrow> ''Upstream: '' @ sc_upstream_addr (upstream_services tbl ! h) | None \<Rightarrow> ''Upstream''))"

definition log_traffic ::
  "('p, 'm, 'c, 'e) gw_env \<Rightarrow> 'r service_table \<Rightarrow> string option \<Rightarrow> ('m, 'c, 'e) call \<Rightarrow> ('m, 'c, 'e) call" where
  "log_traffic gv tbl err s =
     (let x = cl_ctx s; path = uri_path (cl_req s);
          gql = Option.bind (px_request_info x) ri_gql
      in if px_mode_b x \<or> px_is_replay x \<or> \<not> (starts_with path ''/gql'' \<or> starts_with path ''/graphql'') then s
         else
           (let s1 = (case err of Some e \<Rightarrow> set_ctx (\<lambda>x. x\<lparr>px_error_preview := Some e\<rparr>) s | None \<Rightarrow> s)
            in record_traffic_event gv
              (default_details\<lparr>
                 td_operation_name := or_else (px_active_operation x) (Option.bind gql gi_operation_name),
                 td_operation_type := unwrap_or (map_option (\<lambda>g. operation_type_str (gi_operation_type g)) gql) ''Query'',
                 td_mode := ''Sync (Proxy)'',
                 td_status_code := unwrap_or (map_option resp_status (px_response_parts x)) (if err \<noteq> None then 502 else 200),
                 td_target := logged_target tbl x,
                 td_query_preview :=
                   (if px_query_preview x \<noteq> None then px_query_preview x
                    else Option.bind (px_request_info x) (\<lambda>r.
                           if unwrap_or (uri_query (ri_http r)) [] \<noteq> [] then Some (uri (ri_http r)) else None)),
                 td_variables_preview := (if px_query_preview x \<noteq> None then px_variables_preview x else None)\<rparr>) s1))"

definition logging ::
  "('p, 'm, 'c, 'e) gw_env \<Rightarrow> 'r service_table \<Rightarrow> string option \<Rightarrow> ('m, 'c, 'e) call \<Rightarrow> ('m, 'c, 'e) call" where
  "logging gv tbl err s =
     (if px_service (cl_ctx s) = None then s else dispatch_logging gv err (log_traffic gv tbl err s))"

section \<open>What each step leaves alone\<close>

lemma set_ctx_simps [simp]:
  "cl_ctx (set_ctx f s) = f (cl_ctx s)" "cl_req (set_ctx f s) = cl_req s" "cl_engine (set_ctx f s) = cl_engine s"
  "cl_int (set_ctx f s) = cl_int s" "cl_published (set_ctx f s) = cl_published s"
  "cl_response (set_ctx f s) = cl_response s"
  by (simp_all add: set_ctx_def)

lemma respond_simps [simp]:
  "cl_ctx (respond st hs b s) = cl_ctx s" "cl_req (respond st hs b s) = cl_req s"
  "cl_engine (respond st hs b s) = cl_engine s" "cl_published (respond st hs b s) = cl_published s"
  "cl_response (respond st hs b s) = Some \<lparr>hr_status = st, hr_headers = hs, hr_body = b\<rparr>"
  by (simp_all add: respond_def)

lemma publish_simps [simp]:
  "cl_ctx (publish m s) = cl_ctx s" "cl_req (publish m s) = cl_req s" "cl_engine (publish m s) = cl_engine s"
  "cl_published (publish m s) = cl_published s @ [m]" "cl_response (publish m s) = cl_response s"
  by (simp_all add: publish_def)

lemma record_traffic_simps [simp]:
  "cl_ctx (record_traffic_event gv d s) = cl_ctx s" "cl_req (record_traffic_event gv d s) = cl_req s"
  "cl_engine (record_traffic_event gv d s) = cl_engine s"
  "cl_published (record_traffic_event gv d s) = cl_published s"
  "cl_response (record_traffic_event gv d s) = cl_response s"
  by (simp_all add: record_traffic_event_def Let_def)

lemma release_key_simps [simp]:
  "cl_req (release_key gv s) = cl_req s" "cl_published (release_key gv s) = cl_published s"
  "cl_engine (release_key gv s) =
     (case px_idempotency_key (cl_ctx s) of Some k \<Rightarrow> io_remove (gv_idem gv) k (cl_engine s) | None \<Rightarrow> cl_engine s)"
  "px_idempotency_key (cl_ctx (release_key gv s)) = None"
  "px_request_info (cl_ctx (release_key gv s)) = px_request_info (cl_ctx s)"
  "px_response_parts (cl_ctx (release_key gv s)) = px_response_parts (cl_ctx s)"
  by (simp_all add: release_key_def split: option.split)

lemma drop_key_simps [simp]:
  "cl_ctx (drop_key gv s) = cl_ctx s" "cl_published (drop_key gv s) = cl_published s"
  "cl_engine (drop_key gv s) =
     (case px_idempotency_key (cl_ctx s) of Some k \<Rightarrow> io_remove (gv_idem gv) k (cl_engine s) | None \<Rightarrow> cl_engine s)"
  by (simp_all add: drop_key_def split: option.split)

lemma publish_failure_engine [simp]: "cl_engine (publish_failure gv t i r e s) = cl_engine s"
  by (simp add: publish_failure_def Let_def)

lemma publish_failure_req [simp]: "cl_req (publish_failure gv t i r e s) = cl_req s"
  by (simp add: publish_failure_def Let_def)

lemma drop_key_req [simp]: "cl_req (drop_key gv s) = cl_req s"
  by (simp add: drop_key_def split: option.split)

lemma clear_buffer_simps [simp]:
  "cl_engine (clear_buffer s) = cl_engine s" "cl_published (clear_buffer s) = cl_published s"
  "cl_req (clear_buffer s) = cl_req s"
  by (simp_all add: clear_buffer_def)

lemma log_traffic_simps [simp]:
  "cl_engine (log_traffic gv tbl err s) = cl_engine s" "cl_published (log_traffic gv tbl err s) = cl_published s"
  "cl_req (log_traffic gv tbl err s) = cl_req s"
  "cl_ctx (log_traffic gv tbl err s) = (cl_ctx s)\<lparr>px_error_preview := px_error_preview (cl_ctx (log_traffic gv tbl err s))\<rparr>"
  by (simp_all add: log_traffic_def Let_def split: option.split)

section \<open>Rejection\<close>

lemma interceptor_ctx_decoded [simp]: "interceptor_ctx (decoded_ctx gv st info body x) info' = interceptor_ctx x info'"
  by (simp add: interceptor_ctx_def decoded_ctx_def)

lemma decoded_ctx_fields:
  "px_request_info (decoded_ctx gv st info body x) = Some info"
  "px_response_parts (decoded_ctx gv st info body x) = px_response_parts x"
  by (simp_all add: decoded_ctx_def)

lemma decoded_ctx_key [simp]: "px_idempotency_key (decoded_ctx gv st info body x) = px_idempotency_key x"
  by (simp add: decoded_ctx_def)

text \<open>What the logging phase can do for a decoded request that has no upstream response and holds no key: at
  most the failure event goes to the broker, with the sanitised request.\<close>

definition failure_notice :: "('p, 'm, 'c, 'e) gw_env \<Rightarrow> proxy_ctx \<Rightarrow> request_info \<Rightarrow> published \<Rightarrow> bool" where
  "failure_notice gv x info m =
     (\<exists>topic resp reason. final_topic info x = Some topic
        \<and> m = PublishedEvent (failed_topic topic)
            (event_failure (gw_sanitized gv) (px_request_id x) (px_hlc x) (gv_elapsed_ms gv) (info_operation info) info resp reason))"

lemma publish_failure_published:
  "cl_published (publish_failure gv topic info resp e s) = cl_published s
   \<or> cl_published (publish_failure gv topic info resp e s) = cl_published s
       @ [PublishedEvent (failed_topic topic) (event_failure (gw_sanitized gv) (px_request_id (cl_ctx s)) (px_hlc (cl_ctx s))
            (gv_elapsed_ms gv) (info_operation info) info resp e)]"
  by (simp add: publish_failure_def Let_def)

lemma logging_unanswered:
  assumes "px_response_parts (cl_ctx s) = None" "px_idempotency_key (cl_ctx s) = None" "px_request_info (cl_ctx s) = Some info"
  shows "cl_engine (logging gv tbl err s) = cl_engine s \<and> cl_req (logging gv tbl err s) = cl_req s
    \<and> (\<exists>fs. cl_published (logging gv tbl err s) = cl_published s @ fs \<and> length fs \<le> 1
         \<and> (\<forall>m \<in> set fs. failure_notice gv (cl_ctx s) info m))"
proof -
  define s0 where "s0 = log_traffic gv tbl err s"
  obtain e where x: "cl_ctx s0 = (cl_ctx s)\<lparr>px_error_preview := e\<rparr>" using log_traffic_simps(4) s0_def by metis
  have same: "cl_engine s0 = cl_engine s" "cl_req s0 = cl_req s" "cl_published s0 = cl_published s" by (simp_all add: s0_def)
  have ft: "final_topic info ((cl_ctx s)\<lparr>px_error_preview := e\<rparr>) = final_topic info (cl_ctx s)"
    by (simp add: final_topic_def cong: option.case_cong)
  have "\<exists>fs. cl_published (dispatch_logging gv err s0) = cl_published s @ fs \<and> length fs \<le> 1
      \<and> (\<forall>m \<in> set fs. failure_notice gv (cl_ctx s) info m)"
  proof (cases "cl_published (dispatch_logging gv err s0) = cl_published s")
    case False
    then obtain topic resp reason where "final_topic info (cl_ctx s) = Some topic"
      "cl_published (dispatch_logging gv err s0) = cl_published s @ [PublishedEvent (failed_topic topic)
         (event_failure (gw_sanitized gv) (px_request_id (cl_ctx s)) (px_hlc (cl_ctx s)) (gv_elapsed_ms gv) (info_operation info) info resp reason)]"
      using assms same ft
      by (auto simp: dispatch_logging_def log_response_def publish_failure_def Let_def x split: option.splits if_splits)
    then show ?thesis by (auto simp: failure_notice_def)
  qed auto
  moreover have "cl_engine (dispatch_logging gv err s0) = cl_engine s" "cl_req (dispatch_logging gv err s0) = cl_req s"
    using assms same by (auto simp: dispatch_logging_def log_response_def Let_def x split: option.splits)
  ultimately show ?thesis by (auto simp: logging_def s0_def)
qed

text \<open>C3. A rejection at the edge is final: when the interceptors of the operation reject a request, the
  gateway answers with the rejection's status and GraphQL envelope, does not forward the request and
  releases the idempotency key so that the client can try again.  The request phase hands the broker at most
  the notice on the rejection topic; the logging phase, which runs for this request too, at most one
  failure event on the failure topic of the request, with the request sanitised, and leaves
  the idempotency table alone.  No event of success and nothing on the topic of the request goes out.\<close>

theorem rejected_request_isolated:
  assumes "get_request_pipeline (gs_manager st) (info_operation info) \<noteq> []"
    and "run_request_pipeline (gv_ie gv) (gv_clocks gv) (get_request_pipeline (gs_manager st) (info_operation info))
           (cl_int s) (interceptor_ctx (cl_ctx s) info) (cl_req s) body = (Reject rej, iw, c', p')"
    and "px_response_parts (cl_ctx s) = None"
  shows "let (r, s') = handle_decoded gv st info body s; s'' = logging gv tbl err s'
         in r = Some Responded
          \<and> map_option hr_status (cl_response s') = Some (rej_status rej)
          \<and> map_option hr_body (cl_response s') = Some (to_graphql_response (gv_to_string gv) rej)
          \<and> cl_req s'' = cl_req s
          \<and> (\<exists>notices failures. cl_published s' = cl_published s @ notices \<and> cl_published s'' = cl_published s @ notices @ failures
               \<and> length notices \<le> 1 \<and> length failures \<le> 1
               \<and> (\<forall>m \<in> set notices. \<exists>j. m = PublishedPayload
                     (rejection_topic (unwrap_or (info_operation info) ''anonymous'')) j)
               \<and> (\<forall>m \<in> set failures. failure_notice gv (cl_ctx s') info m))
          \<and> px_idempotency_key (cl_ctx s') = None
          \<and> cl_engine s'' = (case px_idempotency_key (cl_ctx s) of
               Some k \<Rightarrow> io_remove (gv_idem gv) k (cl_engine s) | None \<Rightarrow> cl_engine s)"
proof -
  have t: "rejection_topic (to_lowercase o') = rejection_topic o'" for o' by (simp add: rejection_topic_def)
  obtain r s' where h: "handle_decoded gv st info body s = (r, s')" by fastforce
  have s': "r = Some Responded \<and> map_option hr_status (cl_response s') = Some (rej_status rej)
      \<and> map_option hr_body (cl_response s') = Some (to_graphql_response (gv_to_string gv) rej) \<and> cl_req s' = cl_req s
      \<and> (\<exists>notices. cl_published s' = cl_published s @ notices \<and> length notices \<le> 1
           \<and> (\<forall>m \<in> set notices. \<exists>j. m = PublishedPayload (rejection_topic (unwrap_or (info_operation info) ''anonymous'')) j))
      \<and> px_idempotency_key (cl_ctx s') = None
      \<and> cl_engine s' = (case px_idempotency_key (cl_ctx s) of
           Some k \<Rightarrow> io_remove (gv_idem gv) k (cl_engine s) | None \<Rightarrow> cl_engine s)"
    using assms(1,2) h by (auto simp: handle_decoded_def request_interceptor_stage_def Let_def reject_request_def t
        cong: option.case_cong)
  have "px_response_parts (cl_ctx s') = None" "px_request_info (cl_ctx s') = Some info"
    using assms h by (auto simp: handle_decoded_def request_interceptor_stage_def Let_def reject_request_def
        decoded_ctx_fields)
  from logging_unanswered [OF this(1) _ this(2), of gv tbl err] s' show ?thesis unfolding h Let_def by fastforce
qed

section \<open>The idempotency key of a request\<close>

text \<open>What the gateway relies on of an engine: how the three methods change the table.\<close>

locale idem_port =
  fixes ops :: "'e idem_ops"
    and look :: "'e \<Rightarrow> idem_table"
    and ready :: "'e \<Rightarrow> bool"
  assumes complete_look: "ready e \<Longrightarrow>
      \<exists>t. look (io_complete ops k h st hs b e) = (look e)(k \<mapsto> Completed h st (kept_headers hs) b t)"
    and remove_look: "ready e \<Longrightarrow> look (io_remove ops k e) = (look e)(k := None)"
    and check_look: "ready e \<Longrightarrow> io_check ops k h e = (out, e') \<Longrightarrow>
      (case out of NewOp \<Rightarrow> \<exists>t. look e' = (look e)(k \<mapsto> InProgress h t) | _ \<Rightarrow> look e' = look e)"
begin

lemma release_look:
  "gv_idem gv = ops \<Longrightarrow> ready (cl_engine s) \<Longrightarrow> px_idempotency_key (cl_ctx s) = Some k \<Longrightarrow>
     look (cl_engine (drop_key gv s)) = (look (cl_engine s))(k := None)"
  by (simp add: remove_look)

lemma not_new_look:
  "ready e \<Longrightarrow> io_check ops k h e = (out, e') \<Longrightarrow> out \<noteq> NewOp \<Longrightarrow> look e' = look e"
  using check_look by (cases out) fastforce+

end

interpretation memory_port: idem_port "memory_ops lc hash free ttl now" "mem_look lc hash" "mem_room lc 1"
  for lc hash free ttl now
proof
  fix e k h st hs b out e'
  assume room: "mem_room lc 1 e"
  then have r: "mem_room lc (Suc 0) e" by simp
  show "\<exists>t. mem_look lc hash (io_complete (memory_ops lc hash free ttl now) k h st hs b e)
            = (mem_look lc hash e)(k \<mapsto> Completed h st (kept_headers hs) b t)"
    using mem_engine.step_look [OF r, of hash ttl free "CompleteOp k h st hs b now"]
    by (auto simp: memory_ops_def)
  show "mem_look lc hash (io_remove (memory_ops lc hash free ttl now) k e) = (mem_look lc hash e)(k := None)"
    using mem_engine.step_look [OF r, of hash ttl free "RemoveOp k"] by (simp add: memory_ops_def)
  assume c: "io_check (memory_ops lc hash free ttl now) k h e = (out, e')"
  then have "mem_look lc hash e' = snd (spec_check ttl now k h (mem_look lc hash e))"
    "out = fst (spec_check ttl now k h (mem_look lc hash e))"
    using mem_engine.step_look [OF r, of hash ttl free "CheckOp k h now"]
      mem_engine.step_out [OF r, of hash ttl free "CheckOp k h now"]
    by (auto simp: memory_ops_def split: prod.splits)
  then show "case out of NewOp \<Rightarrow> \<exists>t. mem_look lc hash e' = (mem_look lc hash e)(k \<mapsto> InProgress h t)
               | _ \<Rightarrow> mem_look lc hash e' = mem_look lc hash e"
    by (auto simp: spec_check_def live_outcome_def split: option.splits idem_record.splits if_splits idem_outcome.splits)
qed

definition succeeded :: "string option \<Rightarrow> proxy_ctx \<Rightarrow> bool" where
  "succeeded err x = (err = None \<and> (case px_response_parts x of
     Some p \<Rightarrow> \<not> is_client_error (resp_status p) \<and> \<not> is_server_error (resp_status p) | None \<Rightarrow> False))"

text \<open>The text the response phase kept of the response.\<close>

definition kept_body :: "('p, 'm, 'c, 'e) gw_env \<Rightarrow> proxy_ctx \<Rightarrow> string" where
  "kept_body gv x =
     (let body = (case px_response_body x of
           Some b \<Rightarrow> b
         | None \<Rightarrow> response_body_new (ie_from_str (gv_ie gv)) (gv_to_string gv)
                     (case px_response_parts x of Some p \<Rightarrow> resp_headers p | None \<Rightarrow> []) [])
      in unwrap_or (rb_text body) (rb_json body))"

definition logs_outcome :: "('m, 'c, 'e) call \<Rightarrow> bool" where
  "logs_outcome s = (let x = cl_ctx s in px_service x \<noteq> None \<and> \<not> px_is_replay x \<and> \<not> px_mode_b x
     \<and> http_method (cl_req s) \<noteq> ''OPTIONS'' \<and> http_method (cl_req s) \<noteq> ''HEAD''
     \<and> final_topic (unwrap_or (px_request_info x) (request_info_new (px_request_id x) (px_hlc x) (cl_req s))) x \<noteq> None)"

lemma final_topic_preview [simp]: "final_topic info (x\<lparr>px_error_preview := e\<rparr>) = final_topic info x"
  by (simp add: final_topic_def cong: option.case_cong)

lemma log_response_engine:
  assumes "px_idempotency_key (cl_ctx s) = Some k"
  shows "if succeeded None (cl_ctx s)
         then \<exists>st hs. px_response_parts (cl_ctx s) = Some \<lparr>resp_status = st, resp_headers = hs\<rparr>
              \<and> cl_engine (log_response gv topic info s)
                = io_complete (gv_idem gv) k (px_hlc (cl_ctx s)) st hs (kept_body gv (cl_ctx s)) (cl_engine s)
         else cl_engine (log_response gv topic info s) = io_remove (gv_idem gv) k (cl_engine s)"
proof (cases "px_response_parts (cl_ctx s)")
  case None
  then show ?thesis using assms by (simp add: succeeded_def log_response_def Let_def)
next
  case (Some p)
  then show ?thesis using assms
    by (cases p; cases "px_response_body (cl_ctx s)") (auto simp: succeeded_def log_response_def kept_body_def Let_def)
qed

lemma logging_engine:
  assumes "logs_outcome s" and "px_idempotency_key (cl_ctx s) = Some k"
  shows "if succeeded err (cl_ctx s)
         then \<exists>st hs. px_response_parts (cl_ctx s) = Some \<lparr>resp_status = st, resp_headers = hs\<rparr>
              \<and> cl_engine (logging gv tbl err s)
                = io_complete (gv_idem gv) k (px_hlc (cl_ctx s)) st hs (kept_body gv (cl_ctx s)) (cl_engine s)
         else cl_engine (logging gv tbl err s) = io_remove (gv_idem gv) k (cl_engine s)"
proof -
  define s0 where "s0 = log_traffic gv tbl err s"
  obtain e where x: "cl_ctx s0 = (cl_ctx s)\<lparr>px_error_preview := e\<rparr>" using log_traffic_simps(4) s0_def by metis
  have same: "cl_engine s0 = cl_engine s" "cl_req s0 = cl_req s" by (simp_all add: s0_def)
  let ?info = "unwrap_or (px_request_info (cl_ctx s)) (request_info_new (px_request_id (cl_ctx s)) (px_hlc (cl_ctx s)) (cl_req s))"
  obtain topic where t: "final_topic ?info (cl_ctx s) = Some topic"
    using assms(1) by (auto simp: logs_outcome_def Let_def)
  define s2 where "s2 = set_ctx (\<lambda>x. x\<lparr>px_request_topic := topic\<rparr>) (set_ctx (\<lambda>x. x\<lparr>px_request_info := None\<rparr>) s0)"
  have f: "px_request_info (cl_ctx s0) = px_request_info (cl_ctx s)" "px_request_id (cl_ctx s0) = px_request_id (cl_ctx s)"
    "px_hlc (cl_ctx s0) = px_hlc (cl_ctx s)" "px_is_replay (cl_ctx s0) = px_is_replay (cl_ctx s)"
    "px_mode_b (cl_ctx s0) = px_mode_b (cl_ctx s)" "\<And>i. final_topic i (cl_ctx s0) = final_topic i (cl_ctx s)"
    by (simp_all add: x)
  have d: "dispatch_logging gv err s0 = clear_buffer (case err of
        Some e \<Rightarrow> publish_failure gv topic ?info None e (drop_key gv s2) | None \<Rightarrow> log_response gv topic ?info s2)"
    using assms(1) t same f by (simp add: dispatch_logging_def logs_outcome_def Let_def s2_def cong: option.case_cong)
  have l: "logging gv tbl err s = dispatch_logging gv err s0"
    using assms(1) by (auto simp: logging_def logs_outcome_def Let_def s0_def)
  have k: "px_idempotency_key (cl_ctx s2) = Some k" "px_hlc (cl_ctx s2) = px_hlc (cl_ctx s)"
    "px_response_parts (cl_ctx s2) = px_response_parts (cl_ctx s)" "cl_engine s2 = cl_engine s"
    "kept_body gv (cl_ctx s2) = kept_body gv (cl_ctx s)"
    using assms(2) x same by (simp_all add: s2_def kept_body_def cong: option.case_cong)
  show ?thesis
  proof (cases err)
    case (Some e')
    then show ?thesis using l d k by (simp add: succeeded_def)
  next
    case None
    moreover have "succeeded None (cl_ctx s2) = succeeded None (cl_ctx s)" using k(3) by (simp add: succeeded_def)
    ultimately show ?thesis
      unfolding l d using log_response_engine [OF k(1), of gv topic ?info] unfolding k(2-5) by (auto split: if_splits)
  qed
qed

context idem_port
begin

lemma logging_settles:
  assumes "gv_idem gv = ops" "ready (cl_engine s)" "logs_outcome s" "px_idempotency_key (cl_ctx s) = Some k"
  shows "\<exists>rec. look (cl_engine (logging gv tbl err s)) = (look (cl_engine s))(k := rec)
    \<and> (if succeeded err (cl_ctx s)
       then \<exists>st hs t. rec = Some (Completed (px_hlc (cl_ctx s)) st (kept_headers hs) (kept_body gv (cl_ctx s)) t)
              \<and> px_response_parts (cl_ctx s) = Some \<lparr>resp_status = st, resp_headers = hs\<rparr>
       else rec = None)"
proof (cases "succeeded err (cl_ctx s)")
  case True
  then obtain st hs where "px_response_parts (cl_ctx s) = Some \<lparr>resp_status = st, resp_headers = hs\<rparr>"
    "cl_engine (logging gv tbl err s) = io_complete ops k (px_hlc (cl_ctx s)) st hs (kept_body gv (cl_ctx s)) (cl_engine s)"
    using logging_engine [OF assms(3,4), of err gv tbl] assms(1) by auto
  then show ?thesis using True complete_look [OF assms(2), of k "px_hlc (cl_ctx s)" st hs "kept_body gv (cl_ctx s)"] by auto
next
  case False
  then show ?thesis using logging_engine [OF assms(3,4), of err gv tbl] remove_look [OF assms(2)] assms(1) by auto
qed

end

text \<open>C13. A proxied request that holds an idempotency key settles it when it is logged, if there is a topic to
  log it under (which every decoded request has) and it is no preflight or HEAD request: after a
  successful response the key holds the status and headers of that response and the text the response
  phase kept of its body, under the request's own time stamp; after an error of any kind it is
  free again; and the records of all other keys are as before.  Here for the memory engine with room for
  one more operation.\<close>

theorem logging_settles_key:
  assumes "gv_idem gv = memory_ops lc hash free ttl now" and "mem_room lc 1 (cl_engine s)"
    and "logs_outcome s" and "px_idempotency_key (cl_ctx s) = Some k"
  shows "\<exists>rec. mem_look lc hash (cl_engine (logging gv tbl err s)) = (mem_look lc hash (cl_engine s))(k := rec)
    \<and> (if succeeded err (cl_ctx s)
       then \<exists>st hs t. rec = Some (Completed (px_hlc (cl_ctx s)) st (kept_headers hs) (kept_body gv (cl_ctx s)) t)
              \<and> px_response_parts (cl_ctx s) = Some \<lparr>resp_status = st, resp_headers = hs\<rparr>
       else rec = None)"
  using assms by (rule memory_port.logging_settles)

section \<open>Duplicates\<close>

lemma stamp_request_simps [simp]:
  "cl_ctx (stamp_request gv s) = cl_ctx s" "cl_engine (stamp_request gv s) = cl_engine s"
  "cl_published (stamp_request gv s) = cl_published s" "http_method (cl_req (stamp_request gv s)) = http_method (cl_req s)"
  by (simp_all add: stamp_request_def Let_def append_text_def split: option.split)

lemma append_text_get: "header_get (headers p) n = Some v \<Longrightarrow> header_get (headers (append_text m t p)) n = Some v"
  by (auto simp: append_text_def header_append_def header_get_def map_add_def split: option.split)

lemma append_text_other: "m \<noteq> n \<Longrightarrow> header_get (headers (append_text m t p)) n = header_get (headers p) n"
  by (auto simp: append_text_def header_append_def header_get_def map_add_def split: option.split)

lemma stamp_request_key [simp]:
  "extract_idempotency_key (headers (cl_req (stamp_request gv s))) = extract_idempotency_key (headers (cl_req s))"
  by (simp add: extract_idempotency_key_def nonblank_header_def stamp_request_def Let_def append_text_other)

text \<open>A request as the phases find it before its body is read.\<close>

definition fresh_call :: "('m, 'c, 'e) call \<Rightarrow> bool" where
  "fresh_call s = (let x = cl_ctx s in px_request_topic x = ''spectra'' \<and> px_active_operation x = None
     \<and> px_request_info x = None \<and> px_idempotency_key x = None)"

lemma logging_idle:
  assumes "fresh_call (s\<lparr>cl_ctx := (cl_ctx s)\<lparr>px_is_replay := b\<rparr>\<rparr>)"
  shows "cl_engine (logging gv tbl err s) = cl_engine s \<and> cl_published (logging gv tbl err s) = cl_published s"
proof -
  define s0 where "s0 = log_traffic gv tbl err s"
  obtain e where x: "cl_ctx s0 = (cl_ctx s)\<lparr>px_error_preview := e\<rparr>" using log_traffic_simps(4) s0_def by metis
  have f: "px_request_topic (cl_ctx s0) = ''spectra''" "px_active_operation (cl_ctx s0) = None"
    "px_request_info (cl_ctx s0) = None"
    using assms by (simp_all add: x fresh_call_def Let_def)
  then have "final_topic (request_info_new i h r) (cl_ctx s0) = None" for i h r
    by (simp add: final_topic_def request_info_new_def)
  then have "cl_engine (dispatch_logging gv err s0) = cl_engine s0 \<and> cl_published (dispatch_logging gv err s0) = cl_published s0"
    using f by (simp add: dispatch_logging_def Let_def)
  then show ?thesis by (simp add: logging_def s0_def)
qed

text \<open>C20. A duplicate goes no further than the idempotency engine: when the engine answers a request's
  explicit key with a conflict or a recorded response, the gateway replies with status 409 or with the
  recorded status and body, does not forward the request, and neither then nor when the
  request is logged does it publish anything or touch the record of the request that holds the key.\<close>

theorem duplicate_request_stops:
  assumes "edge_stage gv admin subs s = (None, s)" and "fresh_call s"
    and "extract_idempotency_key (headers (cl_req s)) = Some k"
    and "io_check (gv_idem gv) k (px_hlc (cl_ctx s)) (cl_engine s) = (out, e)" and "out \<noteq> NewOp"
  shows "let (r, s') = request_filter gv admin subs st chunks s; s'' = logging gv tbl err s'
         in r = Responded
          \<and> (case out of
               Replay h' status hs body \<Rightarrow> map_option hr_status (cl_response s') = Some status
                 \<and> map_option hr_body (cl_response s') = Some body
             | _ \<Rightarrow> map_option hr_status (cl_response s') = Some 409)
          \<and> cl_engine s'' = e \<and> cl_published s'' = cl_published s"
proof -
  let ?s1 = "stamp_request gv s"
  let ?res = "(handle_outcome (gv_to_string gv) (ie_show_uuid (gv_ie gv)) (px_request_id (cl_ctx s)) (px_hlc (cl_ctx s)) (Some k) k out, e)"
  have h: "handle_explicit_key (io_check (gv_idem gv)) (gv_to_string gv) (ie_show_uuid (gv_ie gv))
      (headers (cl_req ?s1)) (px_request_id (cl_ctx s)) (px_hlc (cl_ctx s)) (cl_engine s) = ?res"
    using assms(3,4) by (simp add: handle_explicit_key_def)
  obtain s' where e: "explicit_key_stage gv ?s1 = (Some Responded, s')"
    and s': "cl_engine s' = e" "cl_published s' = cl_published s"
      "cl_ctx s' = (cl_ctx s)\<lparr>px_is_replay := px_is_replay (cl_ctx s')\<rparr>"
    and resp: "case out of Replay h' status hs body \<Rightarrow> map_option hr_status (cl_response s') = Some status
                 \<and> map_option hr_body (cl_response s') = Some body
             | _ \<Rightarrow> map_option hr_status (cl_response s') = Some 409"
    using assms(5) h
    by (cases out) (auto simp: explicit_key_stage_def idempotency_stage_def handle_outcome_def Let_def
        conflict_response_def replay_response_def)
  have f: "request_filter gv admin subs st chunks s = (Responded, s')"
    using assms(1) e by (simp add: request_filter_def and_then_def)
  have "fresh_call (s'\<lparr>cl_ctx := (cl_ctx s')\<lparr>px_is_replay := px_is_replay (cl_ctx s)\<rparr>\<rparr>)"
    using assms(2) by (subst s'(3)) (simp add: fresh_call_def Let_def)
  from logging_idle [OF this, of gv tbl err] show ?thesis using f s' resp by (simp add: Let_def)
qed

section \<open>Response bodies\<close>

lemma capture_length: "length buf \<le> limit \<Longrightarrow> length (capture limit buf b) \<le> limit"
  by (auto simp: capture_def)

text \<open>The body the client gets for a verdict on the whole of it.\<close>

definition verdict_body :: "('p, 'm, 'c, 'e) gw_env \<Rightarrow> verdict \<Rightarrow> string \<Rightarrow> string" where
  "verdict_body gv v buf =
     (case v of
        Transform _ b \<Rightarrow> unwrap_or b buf
      | Reject rej \<Rightarrow> to_graphql_response (gv_to_string gv) rej
      | _ \<Rightarrow> buf)"

definition response_verdict ::
  "('p, 'm, 'c, 'e) gw_env \<Rightarrow> ('p, 'm) gateway_state \<Rightarrow> ('m, 'c) int_world \<Rightarrow> proxy_ctx \<Rightarrow> string \<Rightarrow> verdict" where
  "response_verdict gv st iw x buf =
     fst (run_response_pipeline (gv_ie gv) (gv_clocks gv) (get_response_pipeline (gs_manager st) (px_active_operation x)) iw
       ((context_new (px_request_id x) (px_hlc x))\<lparr>ctx_duration_ms := gv_elapsed_ms gv, ctx_operation_name := px_active_operation x\<rparr>)
       (unwrap_or (px_response_parts x) \<lparr>resp_status = 200, resp_headers = []\<rparr>) buf)"

lemma stream_chunk_out: "stream_chunk gv st body eos x = (out, x') \<Longrightarrow> out = body \<and> px_intercepted x' = px_intercepted x"
  by (auto simp: stream_chunk_def Let_def split: if_splits option.splits)

lemma response_bodies_stream:
  "\<not> px_intercepted x \<Longrightarrow> fst (response_bodies gv st static bs iw x) = map Some bs"
proof (induction bs arbitrary: x)
  case (Cons b bs)
  obtain out x' where s: "stream_chunk gv st (Some b) (bs = []) x = (out, x')" by fastforce
  from stream_chunk_out [OF s] Cons.IH [of x'] Cons.prems s show ?case
    by (auto simp: response_body_filter_def split: prod.split)
qed simp

lemma intercept_last:
  "intercept_chunk gv st static (Some b) True iw x = (out, iw', x') \<Longrightarrow>
     out = Some (verdict_body gv (response_verdict gv st iw x (px_buffer x @ b)) (px_buffer x @ b))"
  by (auto simp: intercept_chunk_def response_verdict_def verdict_body_def Let_def split: prod.splits verdict.splits)

lemma intercept_more:
  "intercept_chunk gv st static (Some b) False iw x = (None, iw, x\<lparr>px_buffer := px_buffer x @ b\<rparr>)"
  by (simp add: intercept_chunk_def)

lemma response_bodies_intercept:
  "px_intercepted x \<Longrightarrow> bs \<noteq> [] \<Longrightarrow>
     fst (response_bodies gv st static bs iw x) = replicate (length bs - 1) None
       @ [Some (verdict_body gv (response_verdict gv st iw x (px_buffer x @ concat bs)) (px_buffer x @ concat bs))]"
proof (induction bs arbitrary: x)
  case (Cons b bs)
  show ?case
  proof (cases "bs = []")
    case True
    obtain out iw' x' where i: "intercept_chunk gv st static (Some b) True iw x = (out, iw', x')"
      by (cases "intercept_chunk gv st static (Some b) True iw x")
    then show ?thesis using True Cons.prems(1) intercept_last [OF i] by (simp add: response_body_filter_def)
  next
    case False
    have v: "response_verdict gv st iw (x\<lparr>px_buffer := t\<rparr>) = response_verdict gv st iw x" for t
      by (simp add: response_verdict_def fun_eq_iff)
    have "replicate (length bs) None = None # replicate (length bs - 1) (None :: string option)"
      using False by (cases bs) auto
    then show ?thesis
      using False Cons.prems(1) Cons.IH [of "x\<lparr>px_buffer := px_buffer x @ b\<rparr>"]
      by (auto simp: response_body_filter_def intercept_more v split: prod.split)
  qed
qed simp

text \<open>C19. What reaches the client of a response: without response interceptors every chunk goes through
  as it came; with them nothing goes out before the end, and then the whole body at once if
  the verdict passes or audits it, the transformed body if it transforms it, and on a rejection
  only the error envelope, with no byte of the upstream's answer.  The copy kept for
  telemetry stays within its limit.\<close>

theorem response_delivery:
  "(\<not> px_intercepted x \<longrightarrow> fst (response_bodies gv st static bs iw x) = map Some bs)
   \<and> (px_intercepted x \<and> bs \<noteq> [] \<and> px_buffer x = [] \<longrightarrow>
        fst (response_bodies gv st static bs iw x) = replicate (length bs - 1) None
          @ [Some (verdict_body gv (response_verdict gv st iw x (concat bs)) (concat bs))])
   \<and> (\<forall>buf b. length buf \<le> limit \<longrightarrow> length (capture limit buf b) \<le> limit)"
  using response_bodies_stream [of x gv st static bs iw] response_bodies_intercept [of x bs gv st static iw]
    capture_length by simp

text \<open>What is kept of a response for its record: the whole body, if it streams through under a policy that keeps it
  and is no longer than the limit.\<close>

lemma stream_kept:
  assumes "\<not> px_intercepted x" "px_policy x \<notin> {ResponseOnly, NoDispatch}" "\<not> is_error_status x"
    and "length (px_buffer x @ concat bs) \<le> MAX_TELEMETRY_RESPONSE_BYTES" "bs \<noteq> []"
  shows "px_response_body (snd (snd (response_bodies gv st static bs iw x)))
    = Some (response_body_of gv x (unwrap_or (from_utf8 (px_buffer x @ concat bs)) []))"
  using assms
proof (induction bs arbitrary: x)
  case (Cons b bs)
  have keep: "capture MAX_TELEMETRY_RESPONSE_BYTES (px_buffer x) b = px_buffer x @ b"
    using Cons.prems(4) by (cases b) (auto simp: capture_def)
  have body: "response_body_of gv (x\<lparr>px_buffer := t\<rparr>) = response_body_of gv x" for t
    by (simp add: response_body_of_def fun_eq_iff)
  show ?case
  proof (cases "bs = []")
    case True
    then show ?thesis using Cons.prems(1-3) keep body
      by (simp add: response_body_filter_def stream_chunk_def Let_def)
  next
    case False
    let ?x = "x\<lparr>px_buffer := px_buffer x @ b\<rparr>"
    have "stream_chunk gv st (Some b) False x = (Some b, ?x)"
      using Cons.prems(2,3) keep by (simp add: stream_chunk_def Let_def)
    moreover have "\<not> is_error_status ?x" using Cons.prems(3) by (simp add: is_error_status_def)
    ultimately show ?thesis using Cons.IH [of ?x] Cons.prems False body
      by (auto simp: response_body_filter_def split: prod.splits)
  qed
qed simp

section \<open>Examples\<close>

definition sample_gw :: "(string, unit, unit, (nat \<times> (string \<times> idem_record) list) memory_backend) gw_env" where
  "sample_gw = \<lparr>gv_ie = toy_env, gv_clocks = \<lparr>ck_instant = 0, ck_done = 0, ck_unix = 0\<rparr>,
     gv_idem = memory_ops list_lru (\<lambda>_. 0) (\<lambda>_. True) 300 7, gv_to_string = (\<lambda>j. Inr ''{}''), gv_show_json = (\<lambda>j. ''{}''),
     gv_show_status = show_nat, gv_redact = id, gv_sha256_hex = id, gv_parse_ip = (\<lambda>_. None), gv_show_ip = (\<lambda>_. ''127.0.0.1''), gv_socket_ip = None,
     gv_broker_ok = (\<lambda>_. True), gv_write_ok = True, gv_now_ms = 0, gv_elapsed_ms = 3, gv_pkg_version = ''0.1.0'',
     gv_favicon = ''<svg/>''\<rparr>"

definition sample_gw_state :: "(string, unit) gateway_state" where
  "sample_gw_state = gateway_state_default\<lparr>gs_manager := manager_empty\<lparr>global_request := [HeaderReq]\<rparr>\<rparr>"

definition sample_gw_parts :: http_parts where
  "sample_gw_parts = \<lparr>http_method = ''POST'', uri = ''/graphql'', uri_path = ''/graphql'', uri_query = None,
     http_version = ''HTTP/1.1'', headers = [(''idempotency-key'', ''k1'')]\<rparr>"

definition sample_gw_ctx :: proxy_ctx where
  "sample_gw_ctx = (new_ctx sample_gw_state 5 (hlc_new 1000 0))
     \<lparr>px_service := Some \<lparr>sv_kind = HttpService, sv_protocol = HttpDecoder, sv_dispatch = NatsJetstream (nats_new True ''n'')\<rparr>\<rparr>"

definition sample_call :: "(unit, unit, (nat \<times> (string \<times> idem_record) list) memory_backend) call" where
  "sample_call = \<lparr>cl_ctx = sample_gw_ctx, cl_req = sample_gw_parts, cl_engine = engine_new list_lru 10,
     cl_int = \<lparr>iw_plugins = Map.empty, iw_caches = (\<lambda>_. ())\<rparr>, cl_published = [], cl_traffic = [], cl_response = None\<rparr>"

lemma sample_call_parts [simp]:
  "cl_ctx sample_call = sample_gw_ctx" "cl_req sample_call = sample_gw_parts"
  "cl_engine sample_call = engine_new list_lru 10" "cl_published sample_call = []"
  by (simp_all add: sample_call_def)

theorem rejected_request_isolated_witness:
  "let info = request_info_new 5 (hlc_new 1000 0) sample_gw_parts;
       (r, s') = handle_decoded sample_gw sample_gw_state info ''x'' sample_call
   in r = Some Responded \<and> map_option hr_status (cl_response s') = Some 415"
proof -
  let ?info = "request_info_new 5 (hlc_new 1000 0) sample_gw_parts"
  have ne: "get_request_pipeline (gs_manager sample_gw_state) (info_operation ?info) \<noteq> []"
    by (simp add: sample_gw_state_def get_request_pipeline_def)
  obtain iw c' p' where run: "run_request_pipeline (gv_ie sample_gw) (gv_clocks sample_gw)
      (get_request_pipeline (gs_manager sample_gw_state) (info_operation ?info)) (cl_int sample_call)
      (interceptor_ctx (cl_ctx sample_call) ?info) (cl_req sample_call) ''x''
      = (Reject (rejection_new 415 ''INVALID_CONTENT_TYPE'' ''Content-Type must be application/json''), iw, c', p')"
    by (simp add: sample_gw_state_def get_request_pipeline_def run_request_pipeline_def info_operation_def
        request_info_new_def manager_empty_def header_validation_interceptor_def Let_def sample_gw_parts_def header_get_def)
  have none: "px_response_parts (cl_ctx sample_call) = None" by (simp add: sample_gw_ctx_def new_ctx_def)
  show ?thesis
    using rejected_request_isolated [OF ne run none, of "\<lparr>upstream_services = [], path_router = ()\<rparr>" None]
    by (auto simp: Let_def rejection_new_def split: prod.splits)
qed

definition sample_logged :: "(unit, unit, (nat \<times> (string \<times> idem_record) list) memory_backend) call" where
  "sample_logged = sample_call\<lparr>cl_ctx := sample_gw_ctx\<lparr>px_idempotency_key := Some ''k1'', px_request_topic := ''mutation.pay'',
     px_response_parts := Some \<lparr>resp_status = 200, resp_headers = []\<rparr>\<rparr>\<rparr>"

theorem logging_settles_key_witness:
  "\<exists>st hs t. mem_look list_lru (\<lambda>_. 0) (cl_engine (logging sample_gw \<lparr>upstream_services = [], path_router = ()\<rparr> None sample_logged)) ''k1''
     = Some (Completed (hlc_new 1000 0) st (kept_headers hs) (kept_body sample_gw (cl_ctx sample_logged)) t)"
proof -
  have idem: "gv_idem sample_gw = memory_ops list_lru (\<lambda>_. 0) (\<lambda>_. True) 300 7" by (simp add: sample_gw_def)
  have room: "mem_room list_lru 1 (cl_engine sample_logged)"
    by (simp add: sample_logged_def engine_new_room [OF list_lru_laws])
  have out: "logs_outcome sample_logged"
    by (simp add: logs_outcome_def sample_logged_def sample_gw_ctx_def sample_gw_parts_def final_topic_def new_ctx_def)
  have k: "px_idempotency_key (cl_ctx sample_logged) = Some ''k1''" by (simp add: sample_logged_def)
  have suc: "succeeded None (cl_ctx sample_logged)"
    by (simp add: succeeded_def sample_logged_def is_client_error_def is_server_error_def)
  have h: "px_hlc (cl_ctx sample_logged) = hlc_new 1000 0" by (simp add: sample_logged_def sample_gw_ctx_def new_ctx_def)
  show ?thesis
    using logging_settles_key [OF idem room out k, of "\<lparr>upstream_services = [], path_router = ()\<rparr>" None] suc h by auto
qed

definition sample_busy :: "(unit, unit, (nat \<times> (string \<times> idem_record) list) memory_backend) call" where
  "sample_busy = sample_call\<lparr>cl_engine := snd (check_or_insert list_lru (\<lambda>_. 0) (\<lambda>_. True) 300 7 ''k1'' (hlc_new 900 0) (engine_new list_lru 10))\<rparr>"

theorem duplicate_request_stops_witness:
  "let (r, s') = request_filter sample_gw None default_subscriptions sample_gw_state [Inr ''x''] sample_busy
   in r = Responded \<and> map_option hr_status (cl_response s') = Some 409"
proof -
  have edge: "edge_stage sample_gw None default_subscriptions sample_busy = (None, sample_busy)"
    by (simp add: edge_stage_def sample_busy_def sample_call_def sample_gw_parts_def health_response_def is_favicon_request_def
        is_admin_request_def is_websocket_upgrade_def header_get_def Let_def)
  have fresh: "fresh_call sample_busy"
    by (simp add: fresh_call_def sample_busy_def sample_call_def sample_gw_ctx_def new_ctx_def)
  have key: "extract_idempotency_key (headers (cl_req sample_busy)) = Some ''k1''" by code_simp
  obtain e where chk: "io_check (gv_idem sample_gw) ''k1'' (px_hlc (cl_ctx sample_busy)) (cl_engine sample_busy)
      = (Conflict (hlc_new 900 0), e)"
  proof -
    have "fst (io_check (gv_idem sample_gw) ''k1'' (px_hlc (cl_ctx sample_busy)) (cl_engine sample_busy)) = Conflict (hlc_new 900 0)"
      by code_simp
    then show ?thesis using that by (metis prod.collapse)
  qed
  show ?thesis
    using duplicate_request_stops [OF edge fresh key chk, of sample_gw_state "[Inr ''x'']" "\<lparr>upstream_services = [], path_router = ()\<rparr>" None]
    by (auto simp: Let_def split: prod.splits)
qed

theorem response_delivery_witness:
  "fst (response_bodies sample_gw sample_gw_state default_error_capture [''ab'', ''c''] (cl_int sample_call)
          (sample_gw_ctx\<lparr>px_intercepted := True\<rparr>)) = [None, Some ''abc'']
   \<and> fst (response_bodies sample_gw sample_gw_state default_error_capture [''ab'', ''c''] (cl_int sample_call) sample_gw_ctx)
       = [Some ''ab'', Some ''c'']"
proof -
  have "verdict_body sample_gw (response_verdict sample_gw sample_gw_state (cl_int sample_call) (sample_gw_ctx\<lparr>px_intercepted := True\<rparr>) t) t = t" for t
    by (simp add: verdict_body_def response_verdict_def run_response_pipeline_def get_response_pipeline_def
        sample_gw_state_def manager_empty_def gateway_state_default_def empty_acc_def sample_gw_ctx_def new_ctx_def)
  then show ?thesis
    using response_delivery [of "sample_gw_ctx\<lparr>px_intercepted := True\<rparr>" sample_gw sample_gw_state default_error_capture "[''ab'', ''c'']" "cl_int sample_call" 1]
      response_delivery [of sample_gw_ctx sample_gw sample_gw_state default_error_capture "[''ab'', ''c'']" "cl_int sample_call" 1]
    by (simp add: sample_gw_ctx_def new_ctx_def)
qed

section \<open>Behaviours worth knowing\<close>

text \<open>Identity headers are appended: a header of the same name sent by the client stays in front.\<close>

lemma client_app_header_survives:
  "header_get (headers (cl_req s)) ''x-spectra-app'' = Some v \<Longrightarrow>
     header_get (headers (cl_req (stamp_request gv s))) ''x-spectra-app'' = Some v"
  by (simp add: stamp_request_def Let_def append_text_get append_text_other)

text \<open>The interceptors work on a copy of the request head: what they add on a pass is lost.\<close>

lemma passed_request_head_unchanged:
  "fst (fst (request_interceptor_stage gv st info body s)) = None \<Longrightarrow>
   fst (run_request_pipeline (gv_ie gv) (gv_clocks gv) (get_request_pipeline (gs_manager st) (info_operation info))
          (cl_int s) (interceptor_ctx (cl_ctx s) info) (cl_req s) body) = Pass \<Longrightarrow>
   cl_req (snd (request_interceptor_stage gv st info body s)) = cl_req s"
  by (auto simp: request_interceptor_stage_def Let_def split: prod.splits)

text \<open>Routes match on root fields, route interceptors only on the operation name: the anonymous form
  of a guarded operation takes the route without its interceptors.\<close>

lemma route_interceptors_bypassed:
  "let st = gateway_state_default\<lparr>gs_routes := [(''pay'', route_of_operation ''pay'')],
              gs_manager := manager_empty\<lparr>route_request := [(''pay'', [SyntaxReq])]\<rparr>\<rparr>;
       info = (request_info_new 5 (hlc_new 1000 0) sample_gw_parts)\<lparr>ri_gql := Some
                \<lparr>gi_operation_type = Mutation, gi_operation_name = None, gi_root_fields = [''pay''],
                 gi_raw_body = None, gi_json_body = JNull, gi_parsed_body = None\<rparr>\<rparr>
   in match_route (gs_routes st) info = Some (route_of_operation ''pay'')
      \<and> get_request_pipeline (gs_manager st) (info_operation info) = []"
  by (simp add: Let_def match_route_def gi_matches_operation_def matches_operation_def route_of_operation_def
      info_operation_def get_request_pipeline_def manager_empty_def)

text \<open>The notice of a rejection carries the variables as the client sent them, unredacted.\<close>

lemma rejection_notice_unredacted:
  "ri_gql info = Some g \<Longrightarrow> json_get (gi_json_body g) ''variables'' = Some vars \<Longrightarrow> vars \<noteq> JNull \<Longrightarrow> vars \<noteq> JObject [] \<Longrightarrow>
   json_get (rejection_payload gv info rej (set_ctx (decoded_ctx gv st info body) s)) ''variablesPreview''
     = Some (JString (gv_show_json gv vars))"
  by (simp add: rejection_payload_def Let_def decoded_ctx_def previews_def variables_text_def opt_json_def)

text \<open>A request that takes a key and is never decoded leaves the key in progress when it is logged.\<close>

lemma undecoded_key_stays_locked:
  "px_request_topic (cl_ctx s) = ''spectra'' \<Longrightarrow> px_active_operation (cl_ctx s) = None \<Longrightarrow>
   px_request_info (cl_ctx s) = None \<Longrightarrow> cl_engine (dispatch_logging gv err s) = cl_engine s"
  by (simp add: dispatch_logging_def Let_def final_topic_def request_info_new_def)

text \<open>Under the policies that do not buffer the response, the recorded body is empty.\<close>

lemma unbuffered_policy_records_empty_body:
  "px_policy x \<in> {ResponseOnly, NoDispatch} \<Longrightarrow> \<not> is_error_status x \<Longrightarrow> px_buffer x = [] \<Longrightarrow>
   px_response_body (snd (stream_chunk gv st (Some b) True x)) = Some (response_body_of gv x [])"
  by (auto simp: stream_chunk_def Let_def from_utf8_def response_body_of_def)

text \<open>The traffic record of a command whose dispatch failed shows the receipt status of success.\<close>

lemma failed_dispatch_recorded_as_accepted:
  assumes "match_route (gs_routes st) info = Some route" and "route_enabled route"
    and "is_async_edge_command (r_mode route)"
  shows "tr_receipt_status (last (cl_traffic (snd (route_stage gv st info s)))) = Some (receipt_status route)"
  using assms by (simp add: route_stage_def record_traffic_event_def Let_def)

end
