(* ===== verification/AdminAccess.thy ===== *)
theory AdminAccess
  imports Gateway
begin

text \<open>
  Who reaches which handler of the admin console: the allowlist of client addresses and the write
  token (\<open>is_ip_allowed\<close>, \<open>is_write_authorized\<close> in \<open>admin/mod.rs\<close>) and the router
  (\<open>admin/router.rs\<close>).

  Arguments: the parser of addresses, the environment, and the path router of \<open>matchit\<close>.
\<close>

section \<open>Client addresses\<close>

fun parse_digits :: "nat \<Rightarrow> string \<Rightarrow> nat option" where
  "parse_digits n [] = Some n"
| "parse_digits n (c # cs) = (if in_range 48 57 c then parse_digits (10 * n + ((of_char c :: nat) - 48)) cs else None)"

text \<open>\<open>str::parse::<u32>\<close>: an optional plus sign and digits, within the range.\<close>

definition parse_u32 :: "string \<Rightarrow> nat option" where
  "parse_u32 s =
     (let ds = (case s of c # cs \<Rightarrow> if c = CHR ''+'' then cs else s | [] \<Rightarrow> s)
      in if ds = [] then None
         else Option.bind (parse_digits 0 ds) (\<lambda>n. if n < 2 ^ 32 then Some n else None))"

definition v4_mask :: "nat \<Rightarrow> u32" where
  "v4_mask prefix_len = ucast (NOT (push_bit (32 - prefix_len) 1 - 1 :: u64))"

definition v6_mask :: "nat \<Rightarrow> 128 word" where
  "v6_mask prefix_len = NOT (push_bit (128 - prefix_len) 1 - 1)"

definition entry_allows :: "(string \<Rightarrow> ip_addr option) \<Rightarrow> ip_addr \<Rightarrow> string \<Rightarrow> bool" where
  "entry_allows parse_ip client raw =
     (let entry = trim raw
      in if entry = [] then False
         else
           (case split_once CHR ''/'' entry of
              Some (net_str, prefix_str) \<Rightarrow>
                (case parse_u32 prefix_str of
                   None \<Rightarrow> False
                 | Some prefix_len \<Rightarrow>
                     (case (client, parse_ip net_str) of
                        (V4 c, Some (V4 n)) \<Rightarrow>
                          if 32 < prefix_len then False
                          else if prefix_len = 0 then True
                          else c AND v4_mask prefix_len = n AND v4_mask prefix_len
                      | (V6 c, Some (V6 n)) \<Rightarrow>
                          if 128 < prefix_len then False
                          else if prefix_len = 0 then True
                          else c AND v6_mask prefix_len = n AND v6_mask prefix_len
                      | _ \<Rightarrow> False))
            | None \<Rightarrow> (case parse_ip entry of Some allowed \<Rightarrow> client = allowed | None \<Rightarrow> False)))"

fun is_ip_allowed :: "(string \<Rightarrow> ip_addr option) \<Rightarrow> ip_addr \<Rightarrow> string list \<Rightarrow> bool" where
  "is_ip_allowed parse_ip client [] = False"
| "is_ip_allowed parse_ip client (e # es) =
     (if entry_allows parse_ip client e then True else is_ip_allowed parse_ip client es)"

section \<open>The router\<close>

datatype admin_route =
    Dashboard | Favicon | Status | Routes | Schema | SchemaRefresh | SubscriptionsRoute | IdempotencyRoute | Eventsink
  | Traffic | TrafficClear | TelemetryReport | Workers | WorkerLogs | ConfigGet | ConfigValidate | ConfigUpdate
  | ConfigReload | DnsStatus | DnsRescan | AuthVerify

text \<open>\<open>matchit::Router\<close> as its methods; an insertion that is refused leaves the router.\<close>

record 'r admin_router_ops =
  ro_empty :: 'r
  ro_insert :: "'r \<Rightarrow> string \<Rightarrow> admin_route \<Rightarrow> 'r option"
  ro_at :: "'r \<Rightarrow> string \<Rightarrow> (admin_route \<times> (string \<times> string) list) option"

record 'r admin_router =
  get_router :: 'r
  post_router :: 'r
  put_router :: 'r
  router_prefix :: string

definition clean_prefix :: "string \<Rightarrow> string" where
  "clean_prefix p = (if p = [] \<or> p = ''/'' then ''/admin'' else trim_end (\<lambda>c. c = CHR ''/'') p)"

text \<open>\<open>replacen(pat, with, 1)\<close>.\<close>

definition replace_first :: "string \<Rightarrow> string \<Rightarrow> string \<Rightarrow> string" where
  "replace_first pat with_str s =
     (case find_str pat s of
        None \<Rightarrow> s
      | Some i \<Rightarrow> take i s @ with_str @ drop (i + length pat) s)"

definition try_insert :: "'r admin_router_ops \<Rightarrow> string \<times> admin_route \<Rightarrow> 'r \<Rightarrow> 'r" where
  "try_insert ro pr r = unwrap_or (ro_insert ro r (fst pr) (snd pr)) r"

definition ui_routes :: "string \<Rightarrow> (string \<times> admin_route) list" where
  "ui_routes p =
     [(p, Dashboard), (p @ ''/'', Dashboard), (p @ ''/index.html'', Dashboard)]
     @ (if p \<noteq> ''/admin'' then [(''/admin'', Dashboard), (''/admin/'', Dashboard), (''/admin/index.html'', Dashboard)] else [])
     @ [(p @ ''/favicon.svg'', Favicon), (p @ ''/favicon.ico'', Favicon)]
     @ (if p \<noteq> ''/admin'' then [(''/admin/favicon.svg'', Favicon), (''/admin/favicon.ico'', Favicon)] else [])"

definition get_routes :: "(string \<times> admin_route) list" where
  "get_routes =
     [(''/admin/api/v1/status'', Status), (''/admin/api/status'', Status),
      (''/admin/api/v1/routes'', Routes), (''/admin/api/routes'', Routes),
      (''/admin/api/v1/schema'', Schema), (''/admin/api/schema'', Schema),
      (''/admin/api/v1/subscriptions'', SubscriptionsRoute), (''/admin/api/subscriptions'', SubscriptionsRoute),
      (''/admin/api/v1/idempotency'', IdempotencyRoute), (''/admin/api/idempotency'', IdempotencyRoute),
      (''/admin/api/v1/eventsink'', Eventsink), (''/admin/api/eventsink'', Eventsink),
      (''/admin/api/v1/traffic'', Traffic), (''/admin/api/traffic'', Traffic),
      (''/admin/api/v1/workers'', Workers), (''/admin/api/workers'', Workers),
      (''/admin/api/v1/workers/{id}/logs'', WorkerLogs), (''/admin/api/workers/{id}/logs'', WorkerLogs),
      (''/admin/api/v1/config'', ConfigGet), (''/admin/api/config'', ConfigGet),
      (''/admin/api/v1/dns'', DnsStatus), (''/admin/api/dns'', DnsStatus),
      (''/admin/api/v1/auth/verify'', AuthVerify), (''/admin/api/auth/verify'', AuthVerify)]"

definition post_routes :: "(string \<times> admin_route) list" where
  "post_routes =
     [(''/admin/api/v1/schema/refresh'', SchemaRefresh), (''/admin/api/schema/refresh'', SchemaRefresh),
      (''/admin/api/v1/traffic/clear'', TrafficClear), (''/admin/api/traffic/clear'', TrafficClear),
      (''/admin/api/v1/telemetry/report'', TelemetryReport), (''/admin/api/telemetry/report'', TelemetryReport),
      (''/admin/api/v1/config/validate'', ConfigValidate), (''/admin/api/config/validate'', ConfigValidate),
      (''/admin/api/v1/config/reload'', ConfigReload), (''/admin/api/config/reload'', ConfigReload),
      (''/admin/api/v1/config'', ConfigUpdate), (''/admin/api/config'', ConfigUpdate),
      (''/admin/api/v1/dns/rescan'', DnsRescan), (''/admin/api/dns/rescan'', DnsRescan),
      (''/admin/api/v1/auth/verify'', AuthVerify), (''/admin/api/auth/verify'', AuthVerify)]"

definition put_routes :: "(string \<times> admin_route) list" where
  "put_routes = [(''/admin/api/v1/config'', ConfigUpdate), (''/admin/api/config'', ConfigUpdate)]"

definition with_custom :: "string \<Rightarrow> (string \<times> admin_route) list \<Rightarrow> (string \<times> admin_route) list" where
  "with_custom p routes =
     concat (map (\<lambda>(pattern, route). (pattern, route)
       # (if p \<noteq> ''/admin'' then [(replace_first ''/admin'' p pattern, route)] else [])) routes)"

definition admin_router_new :: "'r admin_router_ops \<Rightarrow> string \<Rightarrow> 'r admin_router" where
  "admin_router_new ro raw_prefix =
     (let p = clean_prefix raw_prefix
      in \<lparr>get_router = fold (try_insert ro) (with_custom p get_routes) (fold (try_insert ro) (ui_routes p) (ro_empty ro)),
          post_router = fold (try_insert ro) (with_custom p post_routes) (ro_empty ro),
          put_router = fold (try_insert ro) (with_custom p put_routes) (ro_empty ro),
          router_prefix = p\<rparr>)"

definition admin_match_route ::
  "'r admin_router_ops \<Rightarrow> 'r admin_router \<Rightarrow> string \<Rightarrow> string \<Rightarrow> (admin_route \<times> (string \<times> string) list) option" where
  "admin_match_route ro t mtd path =
     (let lookup = (\<lambda>r.
            (case ro_at ro r path of
               Some x \<Rightarrow> Some x
             | None \<Rightarrow>
                 if 1 < length path \<and> ends_with path ''/'' then ro_at ro r (trim_end (\<lambda>c. c = CHR ''/'') path) else None))
      in if mtd = ''GET'' then lookup (get_router t)
         else if mtd = ''POST'' then lookup (post_router t)
         else if mtd = ''PUT'' then lookup (put_router t)
         else None)"

section \<open>Write authorization\<close>

definition expected_token :: "(string \<Rightarrow> string option) \<Rightarrow> admin_config \<Rightarrow> string option" where
  "expected_token env config =
     or_else (env ''SPECTRA_ADMIN_TOKEN'') (or_else (env ''SPECTRA_DEPLOY_TOKEN'')
       (or_else (env ''SPECTRAGQL_DEPLOY_TOKEN'') (deploy_token config)))"

definition auth_required :: "(string \<Rightarrow> string option) \<Rightarrow> admin_config \<Rightarrow> bool" where
  "auth_required env config =
     unwrap_or (map_option (\<lambda>t. trim t \<noteq> []) (expected_token env config)) False"

definition provided_token :: "header_map \<Rightarrow> string option" where
  "provided_token h =
     or_else (Option.bind (header_str h ''authorization'')
               (\<lambda>v. or_else (strip_prefix ''Bearer '' v) (strip_prefix ''bearer '' v)))
    (or_else (header_str h ''x-spectra-admin-token'')
    (or_else (header_str h ''x-spectra-deploy-token'') (header_str h ''x-spectra-deploy-key'')))"

definition is_write_authorized :: "(string \<Rightarrow> string option) \<Rightarrow> admin_config \<Rightarrow> http_parts \<Rightarrow> bool" where
  "is_write_authorized env config req =
     (case expected_token env config of
        None \<Rightarrow> True
      | Some expected \<Rightarrow>
          if trim expected = [] then True
          else
            (case provided_token (headers req) of
               Some provided \<Rightarrow> constant_time_eq (as_bytes (trim provided)) (as_bytes (trim expected))
             | None \<Rightarrow> False))"

section \<open>Properties\<close>

text \<open>Masking with the complement of \<open>2 ^ k - 1\<close> compares what is left after \<open>k\<close> bits are dropped.\<close>

lemma and_not_mask_eq_iff:
  fixes a b :: "'a::len word"
  shows "a AND NOT (mask k) = b AND NOT (mask k) \<longleftrightarrow> drop_bit k a = drop_bit k b"
proof
  assume eq: "a AND NOT (mask k) = b AND NOT (mask k)"
  show "drop_bit k a = drop_bit k b"
  proof (rule bit_word_eqI)
    fix n assume "n < LENGTH('a)"
    have "bit (a AND NOT (mask k)) (k + n) = bit (b AND NOT (mask k)) (k + n)" by (simp add: eq)
    then show "bit (drop_bit k a) n = bit (drop_bit k b) n"
      by (auto simp: bit_simps dest: bit_imp_le_length)
  qed
next
  assume eq: "drop_bit k a = drop_bit k b"
  show "a AND NOT (mask k) = b AND NOT (mask k)"
  proof (rule bit_word_eqI)
    fix n assume "n < LENGTH('a)"
    have "bit (drop_bit k a) (n - k) = bit (drop_bit k b) (n - k)" by (simp add: eq)
    then show "bit (a AND NOT (mask k)) n = bit (b AND NOT (mask k)) n"
      by (auto simp: bit_simps)
  qed
qed

lemma v6_mask_eq: "v6_mask p = NOT (mask (128 - p))"
  by (simp add: v6_mask_def mask_eq_exp_minus_1 push_bit_eq_mult)

lemma v4_mask_eq: "v4_mask p = NOT (mask (32 - p))"
proof -
  have "push_bit k 1 - 1 = (mask k :: u64)" for k
    by (simp add: mask_eq_exp_minus_1 push_bit_eq_mult)
  then show ?thesis
    by (intro bit_word_eqI) (auto simp: v4_mask_def bit_simps)
qed

text \<open>The network of a CIDR entry: the addresses of its family that share its first bits.\<close>

fun in_network :: "ip_addr \<Rightarrow> ip_addr \<Rightarrow> nat \<Rightarrow> bool" where
  "in_network (V4 c) (V4 n) p = (p \<le> 32 \<and> drop_bit (32 - p) c = drop_bit (32 - p) n)"
| "in_network (V6 c) (V6 n) p = (p \<le> 128 \<and> drop_bit (128 - p) c = drop_bit (128 - p) n)"
| "in_network _ _ p = False"

lemma drop_all_bits: "drop_bit (LENGTH('a)) (a :: 'a::len word) = 0"
  by (rule bit_word_eqI) (auto simp: bit_simps dest: bit_imp_le_length)

lemma entry_allows_iff:
  "entry_allows parse_ip client raw \<longleftrightarrow>
     (case split_once CHR ''/'' (trim raw) of
        Some (net, pre) \<Rightarrow> \<exists>n p. parse_ip net = Some n \<and> parse_u32 pre = Some p \<and> in_network client n p
      | None \<Rightarrow> trim raw \<noteq> [] \<and> parse_ip (trim raw) = Some client)"
proof -
  have z: "drop_bit 32 (a :: u32) = 0" "drop_bit 128 (b :: 128 word) = 0" for a b
    using drop_all_bits [of a] drop_all_bits [of b] by simp_all
  have "split_once CHR ''/'' [] = None" by (simp add: split_once_def)
  then show ?thesis
    by (cases client)
      (auto simp: entry_allows_def Let_def v4_mask_eq v6_mask_eq and_not_mask_eq_iff z not_less
        split: option.splits ip_addr.splits if_splits)
qed

text \<open>C32. The allowlist.  A client passes exactly when some entry admits it: an entry with a slash
  admits the addresses of the same family whose first bits, as many as its number says, are those
  of its network, and the number must be within the width of the family; an entry without a slash
  admits the one address it names; blank and malformed entries admit nobody.\<close>

theorem ip_allowlist_networks:
  "is_ip_allowed parse_ip client entries \<longleftrightarrow>
     (\<exists>e \<in> set entries.
        case split_once CHR ''/'' (trim e) of
          Some (net, pre) \<Rightarrow> \<exists>n p. parse_ip net = Some n \<and> parse_u32 pre = Some p \<and> in_network client n p
        | None \<Rightarrow> trim e \<noteq> [] \<and> parse_ip (trim e) = Some client)"
  by (induction entries) (auto simp: entry_allows_iff)

text \<open>The numbers a prefix is written with are read back.\<close>

lemma parse_digits_append: "parse_digits n (xs @ ys) = Option.bind (parse_digits n xs) (\<lambda>m. parse_digits m ys)"
  by (induction n xs rule: parse_digits.induct) auto

lemma digit_facts: "d < 10 \<Longrightarrow> in_range 48 57 (digit d) \<and> (of_char (digit d) :: nat) = 48 + d"
  by (simp add: digit_def in_range_def)

lemma parse_show_nat: "parse_digits 0 (show_nat n) = Some n"
proof (induction n rule: show_nat.induct)
  case (1 n)
  then show ?case
    by (cases "n < 10") (simp_all add: show_nat.simps [of n] parse_digits_append digit_facts)
qed

text \<open>The decision of the token: open unless a token that is not blank is configured first.\<close>

lemma write_authorized_iff:
  "is_write_authorized env config req \<longleftrightarrow>
     (if auth_required env config
      then \<exists>p t. provided_token (headers req) = Some p \<and> expected_token env config = Some t \<and> trim p = trim t
      else True)"
  by (auto simp: is_write_authorized_def auth_required_def constant_time_eq_iff split: option.splits)

text \<open>A blank variable of the environment opens the console whatever token is configured.\<close>

lemma blank_variable_opens_console:
  "env ''SPECTRA_ADMIN_TOKEN'' = Some t \<Longrightarrow> trim t = [] \<Longrightarrow>
   is_write_authorized env (config\<lparr>deploy_token := Some secret\<rparr>) req"
  by (simp add: is_write_authorized_def expected_token_def)

text \<open>A client chooses the address the allowlist is asked about.\<close>

lemma forwarded_address_trusted:
  assumes "header_get (headers req) ''x-forwarded-for'' = Some v" "list_all is_visible v"
    "parse_ip (trim (hd (split_on CHR '','' v))) = Some a"
  shows "extract_client_ip parse_ip socket_ip req = a"
  using assms by (simp add: extract_client_ip_def to_str_def)

section \<open>What the router can reach\<close>

text \<open>Relied on of \<open>matchit\<close>: a lookup returns a value that was inserted.\<close>

definition router_sound :: "'r admin_router_ops \<Rightarrow> bool" where
  "router_sound ro =
     (\<forall>routes path v params.
        ro_at ro (fold (try_insert ro) routes (ro_empty ro)) path = Some (v, params) \<longrightarrow> v \<in> snd ` set routes)"

lemma router_soundD:
  "router_sound ro \<Longrightarrow> ro_at ro (fold (try_insert ro) routes (ro_empty ro)) path = Some (v, params)
     \<Longrightarrow> v \<in> snd ` set routes"
  unfolding router_sound_def by blast

lemma with_custom_routes: "snd ` set (with_custom p routes) = snd ` set routes"
  by (auto simp: with_custom_def image_iff split: if_splits) force+

lemma matched_by_method:
  assumes "router_sound ro" and "admin_match_route ro (admin_router_new ro prefix) mtd path = Some (route, params)"
  shows "mtd = ''GET'' \<and> route \<in> {Dashboard, Favicon} \<union> snd ` set get_routes
       \<or> mtd = ''POST'' \<and> route \<in> snd ` set post_routes
       \<or> mtd = ''PUT'' \<and> route \<in> snd ` set put_routes"
proof -
  have ui: "snd ` set (ui_routes p) = {Dashboard, Favicon}" for p by (auto simp: ui_routes_def)
  note sound = router_soundD [OF assms(1)]
  let ?t = "admin_router_new ro prefix" and ?p = "clean_prefix prefix"
  have get: "v \<in> {Dashboard, Favicon} \<union> snd ` set get_routes" if "ro_at ro (get_router ?t) q = Some (v, ps)" for v q ps
    using sound [of "ui_routes ?p @ with_custom ?p get_routes"] that ui [of ?p] with_custom_routes [of ?p get_routes]
    by (simp add: admin_router_new_def Let_def image_Un)
  have post: "v \<in> snd ` set post_routes" if "ro_at ro (post_router ?t) q = Some (v, ps)" for v q ps
    using sound [of "with_custom ?p post_routes"] that with_custom_routes [of ?p post_routes]
    by (simp add: admin_router_new_def Let_def)
  have put: "v \<in> snd ` set put_routes" if "ro_at ro (put_router ?t) q = Some (v, ps)" for v q ps
    using sound [of "with_custom ?p put_routes"] that with_custom_routes [of ?p put_routes]
    by (simp add: admin_router_new_def Let_def)
  from assms(2) obtain q where
    "mtd = ''GET'' \<and> ro_at ro (get_router ?t) q = Some (route, params)
     \<or> mtd = ''POST'' \<and> ro_at ro (post_router ?t) q = Some (route, params)
     \<or> mtd = ''PUT'' \<and> ro_at ro (put_router ?t) q = Some (route, params)"
    unfolding admin_match_route_def Let_def by (auto split: if_splits option.splits)
  then show ?thesis using get post put by blast
qed

end
