(* ===== verification/AdminData.thy ===== *)
theory AdminData
  imports Gateway
begin

text \<open>
  What the admin console collects: the rolling traffic buffer (\<open>admin/traffic.rs\<close>) and the
  registry of consumer workers (\<open>admin/registry.rs\<close>).

  Both keep the newest entries of an unbounded stream.  The interface \<open>rolling_log\<close> says so, and
  it is interpreted on the traffic recorder and on the log of each worker.  Counters are words
  that wrap as the atomics do.  \<open>f64\<close> is a type parameter with the operations the code uses
  (\<open>f64_ops\<close>).  An instant is a number of nanoseconds.
\<close>

section \<open>Traffic\<close>

record 'f f64_ops =
  f_of :: "nat \<Rightarrow> 'f"
  f_add :: "'f \<Rightarrow> 'f \<Rightarrow> 'f"
  f_mul :: "'f \<Rightarrow> 'f \<Rightarrow> 'f"
  f_div :: "'f \<Rightarrow> 'f \<Rightarrow> 'f"
  f_max :: "'f \<Rightarrow> 'f \<Rightarrow> 'f"
  f_round :: "'f \<Rightarrow> 'f"
  f_to_u64 :: "'f \<Rightarrow> u64"

record 'f traffic_entry = traffic_record +
  te_timestamp_formatted :: string
  te_latency_ms :: 'f

definition format_timestamp :: "nat \<Rightarrow> string" where
  "format_timestamp epoch_ms =
     (let total_secs = epoch_ms div 1000; ms = epoch_ms mod 1000; s = total_secs mod 60;
          m = (total_secs div 60) mod 60; h = (total_secs div 3600) mod 24
      in pad0 2 (show_nat h) @ '':'' @ pad0 2 (show_nat m) @ '':'' @ pad0 2 (show_nat s) @ ''.''
           @ pad0 3 (show_nat ms))"

text \<open>The record as the gateway passes it on, with the two fields its own model leaves out.\<close>

definition timed_record :: "'f \<Rightarrow> traffic_record \<Rightarrow> 'f traffic_entry" where
  "timed_record latency r =
     traffic_record.extend r (traffic_entry.fields (format_timestamp (tr_timestamp_epoch_ms r)) latency)"

record 'f traffic_stats =
  ts_total_requests :: u64
  ts_async_requests :: u64
  ts_sync_requests :: u64
  ts_mode_b_requests :: u64
  ts_mode_a_requests :: u64
  ts_error_requests :: u64
  ts_avg_latency_ms :: 'f
  ts_buffer_size :: nat

record 'f traffic_response =
  tp_stats :: "'f traffic_stats"
  tp_records :: "'f traffic_entry list"

record 'f recorder =
  rc_max_entries :: nat
  rc_records :: "'f traffic_entry list"
  rc_total :: u64
  rc_mode_b :: u64
  rc_mode_a :: u64
  rc_errors :: u64
  rc_latency_us :: u64
  rc_recorded :: u64

definition recorder_new :: "nat \<Rightarrow> 'f recorder" where
  "recorder_new n = \<lparr>rc_max_entries = (if n = 0 then 200 else n), rc_records = [], rc_total = 0, rc_mode_b = 0,
     rc_mode_a = 0, rc_errors = 0, rc_latency_us = 0, rc_recorded = 0\<rparr>"

definition is_mode_b :: "string \<Rightarrow> bool" where
  "is_mode_b m = (contains_str m ''Async'' \<or> contains_str m ''Mode B'')"

definition is_mode_a :: "string \<Rightarrow> bool" where
  "is_mode_a m = (contains_str m ''Sync'' \<or> contains_str m ''Mode A'')"

text \<open>The status half of the error test, and the whole of it as \<open>record\<close> makes it.\<close>

definition is_failed :: "('f, 'z) traffic_entry_scheme \<Rightarrow> bool" where
  "is_failed r = (400 \<le> tr_status_code r \<or> tr_receipt_status r = Some ''DISPATCH_FAILED'')"

definition is_error :: "('f, 'z) traffic_entry_scheme \<Rightarrow> bool" where
  "is_error r = (is_failed r \<or> tr_error_preview r \<noteq> None)"

text \<open>\<open>while len > max \<open>{ pop_back }\<close>\<close>.\<close>

function trim_back :: "nat \<Rightarrow> 'a list \<Rightarrow> 'a list" where
  "trim_back cap xs = (if cap < length xs then trim_back cap (butlast xs) else xs)"
  by auto
termination by (relation "measure (\<lambda>(_, xs). length xs)") auto

declare trim_back.simps [simp del]

text \<open>\<open>free\<close>: whether \<open>try_write\<close> gets the lock.\<close>

definition record_traffic :: "'f f64_ops \<Rightarrow> bool \<Rightarrow> 'f traffic_entry \<Rightarrow> 'f recorder \<Rightarrow> 'f recorder" where
  "record_traffic ops free r rc =
     (let rc1 = rc\<lparr>rc_total := rc_total rc + 1\<rparr>;
          rc2 = (if is_mode_b (tr_mode r) then rc1\<lparr>rc_mode_b := rc_mode_b rc1 + 1\<rparr>
                 else if is_mode_a (tr_mode r) then rc1\<lparr>rc_mode_a := rc_mode_a rc1 + 1\<rparr> else rc1);
          rc3 = (if is_error r then rc2\<lparr>rc_errors := rc_errors rc2 + 1\<rparr> else rc2);
          us = f_to_u64 ops (f_max ops (f_mul ops (te_latency_ms r) (f_of ops 1000)) (f_of ops 0));
          rc4 = rc3\<lparr>rc_latency_us := rc_latency_us rc3 + us, rc_recorded := rc_recorded rc3 + 1\<rparr>
      in if free then rc4\<lparr>rc_records := trim_back (rc_max_entries rc4) (r # rc_records rc4)\<rparr> else rc4)"

definition app_selected :: "string option \<Rightarrow> bool" where
  "app_selected app = (case app of Some a \<Rightarrow> a \<noteq> [] \<and> a \<noteq> ''all'' | None \<Rightarrow> False)"

definition traffic_matches :: "string option \<Rightarrow> ('f, 'z) traffic_entry_scheme \<Rightarrow> bool" where
  "traffic_matches app r =
     (case app of
        Some a \<Rightarrow> (if a \<noteq> [] \<and> a \<noteq> ''all'' then eq_ignore_ascii_case (tr_app_id r) a else True)
      | None \<Rightarrow> True)"

definition app_stats ::
  "'f f64_ops \<Rightarrow> string \<Rightarrow> 'f traffic_entry list \<Rightarrow> u64 \<times> u64 \<times> u64 \<times> u64 \<times> 'f" where
  "app_stats ops app records =
     (let rs = filter (\<lambda>r. eq_ignore_ascii_case (tr_app_id r) app) records;
          count = (\<lambda>p. word_of_nat (length (filter p rs)));
          lat = (if 0 < length rs
                 then f_div ops (fold (\<lambda>r a. f_add ops a (te_latency_ms r)) rs (f_of ops 0)) (f_of ops (length rs))
                 else f_of ops 0)
      in (word_of_nat (length rs), count (\<lambda>r. is_mode_b (tr_mode r)), count (\<lambda>r. is_mode_a (tr_mode r)),
          count is_failed, lat))"

definition global_stats :: "'f f64_ops \<Rightarrow> 'f recorder \<Rightarrow> u64 \<times> u64 \<times> u64 \<times> u64 \<times> 'f" where
  "global_stats ops rc =
     (rc_total rc, rc_mode_b rc, rc_mode_a rc, rc_errors rc,
      if 0 < rc_recorded rc
      then f_div ops (f_div ops (f_of ops (unat (rc_latency_us rc))) (f_of ops 1000)) (f_of ops (unat (rc_recorded rc)))
      else f_of ops 0)"

definition get_response_with_filter ::
  "'f f64_ops \<Rightarrow> nat \<Rightarrow> string option \<Rightarrow> 'f recorder \<Rightarrow> 'f traffic_response" where
  "get_response_with_filter ops limit app rc =
     (let n = (if limit = 0 then length (rc_records rc) else limit);
          records = take n (filter (traffic_matches app) (rc_records rc));
          (total, mode_b, mode_a, errors, avg) =
            (if app_selected app then app_stats ops (the app) records else global_stats ops rc)
      in \<lparr>tp_stats = \<lparr>ts_total_requests = total, ts_async_requests = mode_b, ts_sync_requests = mode_a,
            ts_mode_b_requests = mode_b, ts_mode_a_requests = mode_a, ts_error_requests = errors,
            ts_avg_latency_ms = f_div ops (f_round ops (f_mul ops avg (f_of ops 100))) (f_of ops 100),
            ts_buffer_size = length records\<rparr>,
          tp_records = records\<rparr>)"

definition traffic_clear :: "'f recorder \<Rightarrow> 'f recorder" where
  "traffic_clear rc = rc\<lparr>rc_records := [], rc_latency_us := 0, rc_recorded := 0\<rparr>"

section \<open>Workers\<close>

record worker_log_entry =
  wl_timestamp :: string
  wl_level :: string
  wl_message :: string
  wl_hlc :: "string option"

record worker_report =
  wr_worker_id :: string
  wr_app_id :: "string option"
  wr_sink :: "string option"
  wr_stream :: "string option"
  wr_status :: "string option"
  wr_uptime_seconds :: "u64 option"
  wr_processed_events :: "u64 option"
  wr_total_errors :: "u64 option"
  wr_last_event_hlc :: "string option"
  wr_logs :: "worker_log_entry list option"

record worker_logs_response =
  lr_worker_id :: string
  lr_app_id :: "string option"
  lr_status :: string
  lr_uptime_seconds :: u64
  lr_processed_events :: u64
  lr_total_errors :: u64
  lr_last_event_hlc :: "string option"
  lr_logs :: "worker_log_entry list"

record worker_summary =
  ws_worker_id :: string
  ws_app_id :: "string option"
  ws_sink :: string
  ws_stream :: string
  ws_status :: string
  ws_uptime_seconds :: u64
  ws_processed_events :: u64
  ws_total_errors :: u64
  ws_last_seen_secs_ago :: nat

record worker_state =
  wk_worker_id :: string
  wk_app_id :: "string option"
  wk_sink :: string
  wk_stream :: string
  wk_status :: string
  wk_uptime_seconds :: u64
  wk_processed_events :: u64
  wk_total_errors :: u64
  wk_last_event_hlc :: "string option"
  wk_last_heartbeat :: nat
  wk_logs :: "worker_log_entry list"

text \<open>The workers in the order the hash map yields them.\<close>

record worker_registry =
  wg_workers :: "(string \<times> worker_state) list"
  wg_max_logs :: nat
  wg_liveness_timeout :: nat

definition worker_registry_new :: "nat \<Rightarrow> nat \<Rightarrow> worker_registry" where
  "worker_registry_new max_logs timeout =
     \<lparr>wg_workers = [], wg_max_logs = (if max_logs = 0 then 200 else max_logs), wg_liveness_timeout = timeout\<rparr>"

definition worker_registry_default :: worker_registry where
  "worker_registry_default = worker_registry_new 200 15000000000"

definition worker_new :: "nat \<Rightarrow> worker_report \<Rightarrow> worker_state" where
  "worker_new now r =
     \<lparr>wk_worker_id = wr_worker_id r, wk_app_id = wr_app_id r, wk_sink = unwrap_or (wr_sink r) ''unknown'',
      wk_stream = unwrap_or (wr_stream r) ''default'', wk_status = ''online'', wk_uptime_seconds = 0,
      wk_processed_events = 0, wk_total_errors = 0, wk_last_event_hlc = None, wk_last_heartbeat = now, wk_logs = []\<rparr>"

definition worker_update :: "nat \<Rightarrow> nat \<Rightarrow> worker_report \<Rightarrow> worker_state \<Rightarrow> worker_state" where
  "worker_update max_logs now r e =
     \<lparr>wk_worker_id = wk_worker_id e, wk_app_id = or_else (wr_app_id r) (wk_app_id e),
      wk_sink = unwrap_or (wr_sink r) (wk_sink e), wk_stream = unwrap_or (wr_stream r) (wk_stream e),
      wk_status = unwrap_or (wr_status r) (wk_status e),
      wk_uptime_seconds = unwrap_or (wr_uptime_seconds r) (wk_uptime_seconds e),
      wk_processed_events = unwrap_or (wr_processed_events r) (wk_processed_events e),
      wk_total_errors = unwrap_or (wr_total_errors r) (wk_total_errors e),
      wk_last_event_hlc = or_else (wr_last_event_hlc r) (wk_last_event_hlc e), wk_last_heartbeat = now,
      wk_logs = (case wr_logs r of
                   Some new_logs \<Rightarrow> trim_back max_logs (fold (#) new_logs (wk_logs e))
                 | None \<Rightarrow> wk_logs e)\<rparr>"

definition record_report :: "nat \<Rightarrow> worker_report \<Rightarrow> worker_registry \<Rightarrow> worker_registry" where
  "record_report now r g =
     (let entry = unwrap_or (map_of (wg_workers g) (wr_worker_id r)) (worker_new now r)
      in g\<lparr>wg_workers := alist_insert (wr_worker_id r) (worker_update (wg_max_logs g) now r entry) (wg_workers g)\<rparr>)"

text \<open>\<open>Instant::elapsed\<close> saturates at zero.\<close>

definition shown_status :: "nat \<Rightarrow> nat \<Rightarrow> worker_state \<Rightarrow> string" where
  "shown_status timeout now w = (if now - wk_last_heartbeat w \<le> timeout then wk_status w else ''offline'')"

definition get_worker_logs :: "nat \<Rightarrow> string \<Rightarrow> nat \<Rightarrow> worker_registry \<Rightarrow> worker_logs_response option" where
  "get_worker_logs now wid limit g =
     map_option (\<lambda>w.
       \<lparr>lr_worker_id = wk_worker_id w, lr_app_id = wk_app_id w,
        lr_status = shown_status (wg_liveness_timeout g) now w,
        lr_uptime_seconds = wk_uptime_seconds w, lr_processed_events = wk_processed_events w,
        lr_total_errors = wk_total_errors w, lr_last_event_hlc = wk_last_event_hlc w,
        lr_logs = take (if limit = 0 then 50 else min limit (length (wk_logs w))) (wk_logs w)\<rparr>)
       (map_of (wg_workers g) wid)"

definition worker_matches :: "string option \<Rightarrow> worker_state \<Rightarrow> bool" where
  "worker_matches app w =
     (case app of
        None \<Rightarrow> True
      | Some a \<Rightarrow>
          if a \<noteq> [] \<and> a \<noteq> ''all'' then
            (case wk_app_id w of
               Some w_app \<Rightarrow> eq_ignore_ascii_case w_app a
             | None \<Rightarrow> contains_str (to_lowercase (wk_worker_id w)) (to_lowercase a))
          else True)"

definition worker_summary_of :: "nat \<Rightarrow> nat \<Rightarrow> worker_state \<Rightarrow> worker_summary" where
  "worker_summary_of timeout now w =
     \<lparr>ws_worker_id = wk_worker_id w, ws_app_id = wk_app_id w, ws_sink = wk_sink w, ws_stream = wk_stream w,
      ws_status = shown_status timeout now w, ws_uptime_seconds = wk_uptime_seconds w,
      ws_processed_events = wk_processed_events w, ws_total_errors = wk_total_errors w,
      ws_last_seen_secs_ago = (now - wk_last_heartbeat w) div 1000000000\<rparr>"

definition get_active_workers_with_filter :: "nat \<Rightarrow> string option \<Rightarrow> worker_registry \<Rightarrow> worker_summary list" where
  "get_active_workers_with_filter now app g =
     sort_key ws_worker_id
       (map (worker_summary_of (wg_liveness_timeout g) now)
          (filter (worker_matches app) (map snd (wg_workers g))))"

definition workers_clear :: "worker_registry \<Rightarrow> worker_registry" where
  "workers_clear g = g\<lparr>wg_workers := []\<rparr>"

section \<open>The newest entries of a stream\<close>

text \<open>A run of additions (\<open>Some\<close>) and clears (\<open>None\<close>), and all the entries added since the last
  clear, newest first.\<close>

fun replay :: "('b \<Rightarrow> 's \<Rightarrow> 's) \<Rightarrow> ('s \<Rightarrow> 's) \<Rightarrow> 'b option list \<Rightarrow> 's \<Rightarrow> 's" where
  "replay add clear [] s = s"
| "replay add clear (Some b # es) s = replay add clear es (add b s)"
| "replay add clear (None # es) s = replay add clear es (clear s)"

fun history :: "('b \<Rightarrow> 'a list) \<Rightarrow> 'b option list \<Rightarrow> 'a list \<Rightarrow> 'a list" where
  "history batch [] acc = acc"
| "history batch (Some b # es) acc = history batch es (rev (batch b) @ acc)"
| "history batch (None # es) acc = history batch es []"

lemma trim_back_take [simp]: "trim_back cap xs = take cap xs"
proof (induction cap xs rule: trim_back.induct)
  case (1 cap xs)
  show ?case
  proof (cases "cap < length xs")
    case True
    with 1 have "trim_back cap (butlast xs) = take cap (butlast xs)" by simp
    moreover have "take cap (butlast xs) = take cap xs" using True by (simp add: take_butlast)
    ultimately show ?thesis using True by (simp add: trim_back.simps [of cap xs])
  qed (simp add: trim_back.simps [of cap xs])
qed

lemma take_append_take: "take n (xs @ take n ys) = take n (xs @ ys)"
  by (simp add: min_def)

locale rolling_log =
  fixes ok :: "'s \<Rightarrow> bool"
    and cap :: "'s \<Rightarrow> nat"
    and entries :: "'s \<Rightarrow> 'a list"
    and batch :: "'b \<Rightarrow> 'a list"
    and add :: "'b \<Rightarrow> 's \<Rightarrow> 's"
    and clear :: "'s \<Rightarrow> 's"
  assumes ok_add: "ok s \<Longrightarrow> ok (add b s)"
    and ok_clear: "ok s \<Longrightarrow> ok (clear s)"
    and cap_add: "cap (add b s) = cap s"
    and cap_clear: "cap (clear s) = cap s"
    and entries_add: "ok s \<Longrightarrow> entries (add b s) = take (cap s) (rev (batch b) @ entries s)"
    and entries_clear: "entries (clear s) = []"
begin

lemma ok_replay: "ok s \<Longrightarrow> ok (replay add clear es s)"
proof (induction es arbitrary: s)
  case (Cons e es)
  then show ?case by (cases e) (auto intro: ok_add ok_clear)
qed simp

lemma entries_replay:
  "ok s \<Longrightarrow> entries s = take (cap s) acc \<Longrightarrow>
   entries (replay add clear es s) = take (cap s) (history batch es acc)"
proof (induction es arbitrary: s acc)
  case (Cons e es)
  show ?case
  proof (cases e)
    case None
    with Cons.IH [of "clear s" "[]"] Cons.prems show ?thesis
      by (simp add: ok_clear cap_clear entries_clear)
  next
    case (Some b)
    have "entries (add b s) = take (cap (add b s)) (rev (batch b) @ acc)"
      using Cons.prems by (simp only: entries_add cap_add take_append_take)
    from Cons.IH [OF ok_add [OF Cons.prems(1)] this] Some show ?thesis by (simp add: cap_add)
  qed
qed simp

end

section \<open>Properties of the recorder\<close>

lemma recorder_step_simps [simp]:
  "rc_max_entries (record_traffic ops free r rc) = rc_max_entries rc"
  "rc_records (record_traffic ops free r rc) =
     (if free then take (rc_max_entries rc) (r # rc_records rc) else rc_records rc)"
  "rc_total (record_traffic ops free r rc) = rc_total rc + 1"
  "rc_mode_b (record_traffic ops free r rc) = rc_mode_b rc + of_bool (is_mode_b (tr_mode r))"
  "rc_mode_a (record_traffic ops free r rc) =
     rc_mode_a rc + of_bool (\<not> is_mode_b (tr_mode r) \<and> is_mode_a (tr_mode r))"
  "rc_errors (record_traffic ops free r rc) =
     rc_errors rc + of_bool (is_error r)"
  by (simp_all add: record_traffic_def Let_def)

abbreviation add_traffic :: "'f f64_ops \<Rightarrow> bool \<times> 'f traffic_entry \<Rightarrow> 'f recorder \<Rightarrow> 'f recorder" where
  "add_traffic ops \<equiv> \<lambda>(free, r). record_traffic ops free r"

interpretation recorder: rolling_log
  "\<lambda>rc. length (rc_records rc) \<le> rc_max_entries rc" rc_max_entries rc_records
  "\<lambda>(free, r). if free then [r] else []" "add_traffic ops" traffic_clear for ops
  by unfold_locales (auto simp: traffic_clear_def take_Cons' split: prod.splits)

text \<open>The entries handed to the recorder, whether or not the buffer was free.\<close>

definition handed :: "(bool \<times> 'f traffic_entry) option list \<Rightarrow> 'f traffic_entry list" where
  "handed es = map snd (List.map_filter id es)"

lemma handed_simps [simp]:
  "handed [] = []" "handed (Some b # es) = snd b # handed es" "handed (None # es) = handed es"
  by (simp_all add: handed_def List.map_filter_simps)

abbreviation count_entries :: "('f traffic_entry \<Rightarrow> bool) \<Rightarrow> (bool \<times> 'f traffic_entry) option list \<Rightarrow> u64" where
  "count_entries p es \<equiv> word_of_nat (length (filter p (handed es)))"

lemma counter_replay:
  assumes "\<And>free r rc. cnt (record_traffic ops free r rc) = cnt rc + of_bool (p r)"
    and "\<And>rc. cnt (traffic_clear rc) = cnt rc"
  shows "cnt (replay (add_traffic ops) traffic_clear es rc) = cnt rc + count_entries p es"
proof (induction es arbitrary: rc)
  case (Cons e es)
  then show ?case using assms by (cases e) (auto simp: algebra_simps)
qed simp

lemma clear_counters [simp]:
  "rc_total (traffic_clear rc) = rc_total rc" "rc_mode_b (traffic_clear rc) = rc_mode_b rc"
  "rc_mode_a (traffic_clear rc) = rc_mode_a rc" "rc_errors (traffic_clear rc) = rc_errors rc"
  by (simp_all add: traffic_clear_def)

text \<open>C34. The traffic recorder is a window on the stream of requests.  Over any sequence of recorded
  requests and clears its buffer holds the newest entries recorded since the last clear with the
  buffer lock free, newest first, up to its capacity; the counters count every request handed
  over, free lock or not and across clears, by mode and by failure, modulo \<open>2 ^ 64\<close>.\<close>

theorem recorder_window:
  "let rc = replay (add_traffic ops) traffic_clear es (recorder_new n)
   in rc_records rc = take (if n = 0 then 200 else n) (history (\<lambda>(free, r). if free then [r] else []) es [])
      \<and> rc_total rc = word_of_nat (length (handed es))
      \<and> rc_mode_b rc = count_entries (\<lambda>r. is_mode_b (tr_mode r)) es
      \<and> rc_mode_a rc = count_entries (\<lambda>r. \<not> is_mode_b (tr_mode r) \<and> is_mode_a (tr_mode r)) es
      \<and> rc_errors rc = count_entries is_error es"
proof -
  let ?rc = "replay (add_traffic ops) traffic_clear es (recorder_new n)"
  have "rc_records ?rc = take (if n = 0 then 200 else n) (history (\<lambda>(free, r). if free then [r] else []) es [])"
    using recorder.entries_replay [of "recorder_new n" "[]" ops es] by (simp add: recorder_new_def)
  moreover have "rc_total ?rc = word_of_nat (length (handed es))"
    using counter_replay [of rc_total ops "\<lambda>_. True" es "recorder_new n"] by (simp add: recorder_new_def)
  moreover have "rc_mode_b ?rc = count_entries (\<lambda>r. is_mode_b (tr_mode r)) es"
    using counter_replay [of rc_mode_b ops "\<lambda>r. is_mode_b (tr_mode r)" es "recorder_new n"]
    by (simp add: recorder_new_def)
  moreover have "rc_mode_a ?rc = count_entries (\<lambda>r. \<not> is_mode_b (tr_mode r) \<and> is_mode_a (tr_mode r)) es"
    using counter_replay [of rc_mode_a ops "\<lambda>r. \<not> is_mode_b (tr_mode r) \<and> is_mode_a (tr_mode r)" es "recorder_new n"]
    by (simp add: recorder_new_def)
  moreover have "rc_errors ?rc = count_entries is_error es"
    using counter_replay [of rc_errors ops is_error es "recorder_new n"]
    by (simp add: recorder_new_def)
  ultimately show ?thesis by (simp only: Let_def simp_thms)
qed

section \<open>Properties of the registry\<close>

definition registry_ok :: "worker_registry \<Rightarrow> bool" where
  "registry_ok g =
     (distinct (map fst (wg_workers g))
      \<and> list_all (\<lambda>(k, w). wk_worker_id w = k \<and> length (wk_logs w) \<le> wg_max_logs g) (wg_workers g))"

definition logs_of :: "string \<Rightarrow> worker_registry \<Rightarrow> worker_log_entry list" where
  "logs_of wid g = (case map_of (wg_workers g) wid of Some w \<Rightarrow> wk_logs w | None \<Rightarrow> [])"

definition reported_logs :: "string \<Rightarrow> nat \<times> worker_report \<Rightarrow> worker_log_entry list" where
  "reported_logs wid b = (if wr_worker_id (snd b) = wid then unwrap_or (wr_logs (snd b)) [] else [])"

abbreviation add_report :: "nat \<times> worker_report \<Rightarrow> worker_registry \<Rightarrow> worker_registry" where
  "add_report \<equiv> \<lambda>(now, r). record_report now r"

lemma fold_Cons_rev: "fold (#) xs ys = rev xs @ ys"
  by (induction xs arbitrary: ys) auto

lemma registry_ok_lookup:
  "registry_ok g \<Longrightarrow> map_of (wg_workers g) k = Some w \<Longrightarrow> wk_worker_id w = k \<and> length (wk_logs w) \<le> wg_max_logs g"
  by (auto simp: registry_ok_def list_all_iff dest!: map_of_SomeD)

lemma record_report_simps [simp]:
  "wg_max_logs (record_report now r g) = wg_max_logs g"
  "wg_liveness_timeout (record_report now r g) = wg_liveness_timeout g"
  "map_of (wg_workers (record_report now r g)) = (map_of (wg_workers g))(wr_worker_id r \<mapsto>
     worker_update (wg_max_logs g) now r (unwrap_or (map_of (wg_workers g) (wr_worker_id r)) (worker_new now r)))"
  by (simp_all add: record_report_def Let_def)

lemma worker_update_logs:
  "length (wk_logs e) \<le> n \<Longrightarrow> wk_logs (worker_update n now r e) = take n (rev (unwrap_or (wr_logs r) []) @ wk_logs e)"
  by (simp add: worker_update_def fold_Cons_rev split: option.split)

lemma registry_ok_report:
  assumes "registry_ok g"
  shows "registry_ok (record_report now r g)"
proof -
  let ?e = "unwrap_or (map_of (wg_workers g) (wr_worker_id r)) (worker_new now r)"
  have e: "wk_worker_id ?e = wr_worker_id r \<and> length (wk_logs ?e) \<le> wg_max_logs g"
    using registry_ok_lookup [OF assms, of "wr_worker_id r"]
    by (cases "map_of (wg_workers g) (wr_worker_id r)") (auto simp: worker_new_def)
  then have "length (wk_logs (worker_update (wg_max_logs g) now r ?e)) \<le> wg_max_logs g"
    by (simp add: worker_update_logs)
  moreover have "wk_worker_id (worker_update (wg_max_logs g) now r ?e) = wr_worker_id r"
    using e by (simp add: worker_update_def)
  ultimately show ?thesis
    using assms by (auto simp: registry_ok_def record_report_def Let_def alist_insert_def list_all_iff
        distinct_map_filter)
qed

lemma logs_of_report:
  assumes "registry_ok g"
  shows "logs_of wid (record_report now r g) = take (wg_max_logs g) (rev (reported_logs wid (now, r)) @ logs_of wid g)"
proof (cases "wr_worker_id r = wid")
  case True
  then show ?thesis
  proof (cases "map_of (wg_workers g) wid")
    case None
    with True show ?thesis
      by (simp add: logs_of_def reported_logs_def worker_update_logs worker_new_def)
  next
    case (Some w)
    with True registry_ok_lookup [OF assms Some] show ?thesis
      by (simp add: logs_of_def reported_logs_def worker_update_logs)
  qed
next
  case False
  then show ?thesis
    using registry_ok_lookup [OF assms, of wid]
    by (auto simp: logs_of_def reported_logs_def split: option.splits)
qed

interpretation worker_log: rolling_log registry_ok wg_max_logs "logs_of wid" "reported_logs wid" add_report workers_clear
  for wid
proof
  show "registry_ok g \<Longrightarrow> registry_ok (add_report b g)" for b g
    by (cases b) (simp add: registry_ok_report)
  show "registry_ok g \<Longrightarrow> logs_of wid (add_report b g) = take (wg_max_logs g) (rev (reported_logs wid b) @ logs_of wid g)"
    for b g by (cases b) (simp add: logs_of_report)
qed (auto simp: workers_clear_def registry_ok_def logs_of_def)

text \<open>The listing: every known worker the filter admits once, in the order of the names.\<close>

lemma active_workers_listing:
  assumes "registry_ok g"
  shows "sorted (map ws_worker_id (get_active_workers_with_filter now app g))"
    and "distinct (map ws_worker_id (get_active_workers_with_filter now app g))"
    and "set (get_active_workers_with_filter now app g) =
      {worker_summary_of (wg_liveness_timeout g) now w | wid w. map_of (wg_workers g) wid = Some w \<and> worker_matches app w}"
proof -
  let ?ws = "filter (worker_matches app) (map snd (wg_workers g))"
  have ids: "map (ws_worker_id \<circ> worker_summary_of t now) ?ws = map wk_worker_id ?ws" for t
    by (simp add: worker_summary_of_def)
  have keys: "map wk_worker_id (map snd (wg_workers g)) = map fst (wg_workers g)"
    using assms by (auto simp: registry_ok_def list_all_iff)
  then have "distinct (map wk_worker_id (map snd (wg_workers g)))"
    using assms by (simp only: registry_ok_def)
  then have "distinct (map wk_worker_id ?ws)" by (rule distinct_map_filter)
  with ids show "distinct (map ws_worker_id (get_active_workers_with_filter now app g))"
    by (simp add: get_active_workers_with_filter_def distinct_map inj_on_def) (metis comp_apply)
  show "sorted (map ws_worker_id (get_active_workers_with_filter now app g))"
    by (simp add: get_active_workers_with_filter_def)
  have "map_of (wg_workers g) k = Some w \<longleftrightarrow> (k, w) \<in> set (wg_workers g)" for k w
    using assms by (simp add: registry_ok_def)
  then show "set (get_active_workers_with_filter now app g) =
      {worker_summary_of (wg_liveness_timeout g) now w | wid w. map_of (wg_workers g) wid = Some w \<and> worker_matches app w}"
    by (auto simp: get_active_workers_with_filter_def image_iff) force+
qed


text \<open>A worker that never reports again stays listed: reports only ever add workers.\<close>

lemma workers_never_forgotten:
  "map_of (wg_workers g) k \<noteq> None \<Longrightarrow> map_of (wg_workers (fold (\<lambda>(now, r). record_report now r) rs g)) k \<noteq> None"
  by (induction rs arbitrary: g) (auto split: prod.splits)

text \<open>Every report with a new name adds an entry, whoever sends it.\<close>

lemma workers_unbounded:
  "map_of (wg_workers g) (wr_worker_id r) = None \<Longrightarrow>
   length (wg_workers (record_report now r g)) = Suc (length (wg_workers g))"
proof -
  assume "map_of (wg_workers g) (wr_worker_id r) = None"
  then have "filter (\<lambda>p. fst p \<noteq> wr_worker_id r) (wg_workers g) = wg_workers g"
    by (force simp: map_of_eq_None_iff filter_id_conv)
  then show ?thesis by (simp add: record_report_def alist_insert_def Let_def)
qed

text \<open>The statistics of one application count only the entries shown.\<close>

lemma app_totals_capped:
  assumes "app_selected app" and "0 < limit"
  shows "unat (ts_total_requests (tp_stats (get_response_with_filter ops limit app rc))) \<le> limit"
proof -
  let ?rs = "filter (\<lambda>r. eq_ignore_ascii_case (tr_app_id r) (the app))
    (take limit (filter (traffic_matches app) (rc_records rc)))"
  have "ts_total_requests (tp_stats (get_response_with_filter ops limit app rc)) = word_of_nat (length ?rs)"
    using assms by (simp add: get_response_with_filter_def app_stats_def Let_def)
  moreover have "length ?rs \<le> limit" by (rule le_trans [OF length_filter_le]) simp
  moreover have "unat (word_of_nat m :: u64) \<le> m" for m by (simp add: unat_of_nat)
  ultimately show ?thesis by (simp only:) (rule le_trans, assumption)
qed

end
