(* ===== verification/AdminSchema.thy ===== *)
theory AdminSchema
  imports AdminData
begin

text \<open>
  The schema inspector of the admin console (\<open>admin/schema_inspector.rs\<close>): what the configured
  routes cover of the mutations an upstream offers, and the cache of the last answer.

  The routes are a list in the order the hash map yields them.  The request to the upstream is an
  argument: the status line and body it returns, or the error text of the client.
\<close>

record mutation_coverage =
  mc_field_name :: string
  mc_classification :: string
  mc_target_upstream :: "string option"
  mc_mode :: "string option"
  mc_receipt_status :: "string option"
  mc_route_name :: "string option"
  mc_dispatch_policy :: "string option"
  mc_is_policy_override :: "bool option"

record 'f schema_coverage =
  sc_total_mutations :: nat
  sc_async_count :: nat
  sc_targeted_count :: nat
  sc_default_fallback_count :: nat
  sc_strangled_count :: nat
  sc_mode_b_count :: nat
  sc_monolith_fallback_count :: nat
  sc_drift_count :: nat
  sc_coverage_percent :: 'f
  sc_mutations :: "mutation_coverage list"
  sc_drifted_routes :: "string list"
  sc_last_refreshed_utc :: string

definition is_chassis_operation :: "route_config \<Rightarrow> bool" where
  "is_chassis_operation r =
     (list_ex (\<lambda>i. i = ''deploy_guard'') (route_interceptors r)
      \<or> r_operation r \<in> {''deployFluxcell'', ''activateFluxcell'', ''removeFluxcell''})"

definition schema_root :: "json \<Rightarrow> json option" where
  "schema_root v =
     (case json_get v ''data'' of
        Some d \<Rightarrow> json_get d ''__schema''
      | None \<Rightarrow> json_get v ''__schema'')"

definition mutation_fields :: "json \<Rightarrow> json list" where
  "mutation_fields schema =
     unwrap_or (Option.bind (Option.bind (json_get schema ''mutationType'') (\<lambda>m. json_get m ''fields'')) as_array) []"

record scan =
  sn_mutations :: "mutation_coverage list"
  sn_strangled :: nat
  sn_mode_b :: nat
  sn_fallback :: nat
  sn_matched :: "string list"

definition scan_empty :: scan where
  "scan_empty = \<lparr>sn_mutations = [], sn_strangled = 0, sn_mode_b = 0, sn_fallback = 0, sn_matched = []\<rparr>"

definition push_coverage :: "mutation_coverage \<Rightarrow> scan \<Rightarrow> scan" where
  "push_coverage c a = a\<lparr>sn_mutations := sn_mutations a @ [c]\<rparr>"

definition scan_field :: "(string \<times> route_config) list \<Rightarrow> json \<Rightarrow> scan \<Rightarrow> scan" where
  "scan_field routes field a =
     (let field_name = unwrap_or (get_str field ''name'') []
      in if field_name = [] then a
         else
           (case List.find (\<lambda>(_, r). r_operation r = field_name) routes of
              Some (route_name, route) \<Rightarrow>
                (let a1 = a\<lparr>sn_matched := field_name # sn_matched a\<rparr>
                 in case r_mode route of
                      AsyncCommandReceipt \<Rightarrow>
                        push_coverage
                          \<lparr>mc_field_name = field_name, mc_classification = ''AsyncReceipt'', mc_target_upstream = None,
                           mc_mode = Some ''Async'', mc_receipt_status = Some (receipt_status route),
                           mc_route_name = Some route_name, mc_dispatch_policy = Some ''event_sink'',
                           mc_is_policy_override = Some False\<rparr>
                          (a1\<lparr>sn_mode_b := Suc (sn_mode_b a1)\<rparr>)
                    | SyncUpstreamExecution \<Rightarrow>
                        (let (policy_str, is_override) =
                               (case route_dispatch_policy route of
                                  Some p \<Rightarrow> (Some (policy_as_str p), Some True)
                                | None \<Rightarrow> (None, Some False));
                             entry = (\<lambda>cls target.
                               \<lparr>mc_field_name = field_name, mc_classification = cls, mc_target_upstream = Some target,
                                mc_mode = Some ''Sync'', mc_receipt_status = None, mc_route_name = Some route_name,
                                mc_dispatch_policy = policy_str, mc_is_policy_override = is_override\<rparr>)
                         in case route_upstream route of
                              Some u \<Rightarrow>
                                if u \<noteq> ''default''
                                then push_coverage (entry ''TargetedService'' u) (a1\<lparr>sn_strangled := Suc (sn_strangled a1)\<rparr>)
                                else push_coverage (entry ''ConfiguredRoute'' ''default'') a1
                            | None \<Rightarrow> push_coverage (entry ''ConfiguredRoute'' ''default'') a1))
            | None \<Rightarrow>
                push_coverage
                  \<lparr>mc_field_name = field_name, mc_classification = ''DefaultUpstream'',
                   mc_target_upstream = Some ''default'', mc_mode = Some ''Sync'', mc_receipt_status = None,
                   mc_route_name = None, mc_dispatch_policy = None, mc_is_policy_override = Some False\<rparr>
                  (a\<lparr>sn_fallback := Suc (sn_fallback a)\<rparr>)))"

definition drift_message :: "string \<times> route_config \<Rightarrow> string" where
  "drift_message nr =
     ''Route '' @ quoted (fst nr) @ '' (operation: '' @ quoted (r_operation (snd nr)) @ '') not found in upstream GraphQL schema''"

definition drifted :: "json list \<Rightarrow> string list \<Rightarrow> string \<times> route_config \<Rightarrow> bool" where
  "drifted flds matched nr =
     (route_enabled (snd nr) \<and> \<not> is_chassis_operation (snd nr)
      \<and> r_operation (snd nr) \<notin> set matched \<and> flds \<noteq> [])"

definition simple_timestamp :: "nat \<Rightarrow> string" where
  "simple_timestamp secs = show_nat secs @ '' UTC (unix: '' @ show_nat secs @ '')''"

definition analyze_mutation_coverage ::
  "'f f64_ops \<Rightarrow> nat \<Rightarrow> json \<Rightarrow> (string \<times> route_config) list \<Rightarrow> 'f schema_coverage result" where
  "analyze_mutation_coverage ops secs v routes =
     (case schema_root v of
        None \<Rightarrow> Inl (''Missing '' @ quoted ''__schema'' @ '' in introspection response'')
      | Some schema \<Rightarrow>
          (let flds = mutation_fields schema;
               a = fold (scan_field routes) flds scan_empty;
               drift = sort (map drift_message (filter (drifted flds (sn_matched a)) routes));
               total = length (sn_mutations a);
               percent = (if 0 < total
                          then f_mul ops (f_div ops (f_of ops (sn_strangled a + sn_mode_b a)) (f_of ops total)) (f_of ops 100)
                          else f_of ops 0)
           in Inr \<lparr>sc_total_mutations = total, sc_async_count = sn_mode_b a, sc_targeted_count = sn_strangled a,
                   sc_default_fallback_count = sn_fallback a, sc_strangled_count = sn_strangled a,
                   sc_mode_b_count = sn_mode_b a, sc_monolith_fallback_count = sn_fallback a,
                   sc_drift_count = length drift, sc_coverage_percent = percent, sc_mutations = sn_mutations a,
                   sc_drifted_routes = drift, sc_last_refreshed_utc = simple_timestamp secs\<rparr>))"

section \<open>The inspector\<close>

text \<open>\<open>post\<close>: the client's answer to the introspection query at a URL.  \<open>show\<close>: the status in
  messages.  The state is the cached coverage.\<close>

record upstream_answer =
  ua_status :: nat
  ua_body :: "string result"

definition refresh_coverage ::
  "'f f64_ops \<Rightarrow> nat \<Rightarrow> (string \<Rightarrow> upstream_answer result) \<Rightarrow> (nat \<Rightarrow> string) \<Rightarrow> (string \<Rightarrow> json result) \<Rightarrow> string
     \<Rightarrow> (string \<times> route_config) list \<Rightarrow> 'f schema_coverage option
     \<Rightarrow> 'f schema_coverage result \<times> 'f schema_coverage option" where
  "refresh_coverage ops secs post show from_slice url routes cached =
     (case post url of
        Inl e \<Rightarrow> (Inl (''Upstream HTTP request failed to '' @ quoted url @ '': '' @ e), cached)
      | Inr ans \<Rightarrow>
          if \<not> (200 \<le> ua_status ans \<and> ua_status ans < 300) then
            (Inl (''Upstream responded with HTTP '' @ show (ua_status ans) @ '' during introspection''), cached)
          else
            (case ua_body ans of
               Inl e \<Rightarrow> (Inl (''Failed to read introspection response from upstream: '' @ e), cached)
             | Inr body \<Rightarrow>
                 (case from_slice body of
                    Inl e \<Rightarrow> (Inl (''Failed to parse JSON introspection from upstream: '' @ e), cached)
                  | Inr v \<Rightarrow>
                      (case analyze_mutation_coverage ops secs v routes of
                         Inl e \<Rightarrow> (Inl e, cached)
                       | Inr coverage \<Rightarrow> (Inr coverage, Some coverage)))))"

section \<open>Properties\<close>

text \<open>The names the schema lists, and the reference classification of one of them.\<close>

definition field_names :: "json list \<Rightarrow> string list" where
  "field_names flds = filter (\<lambda>n. n \<noteq> []) (map (\<lambda>f. unwrap_or (get_str f ''name'') []) flds)"

definition coverage_class :: "(string \<times> route_config) list \<Rightarrow> string \<Rightarrow> string" where
  "coverage_class routes n =
     (case List.find (\<lambda>(_, r). r_operation r = n) routes of
        None \<Rightarrow> ''DefaultUpstream''
      | Some (_, r) \<Rightarrow>
          if r_mode r = AsyncCommandReceipt then ''AsyncReceipt''
          else if route_upstream r \<noteq> None \<and> route_upstream r \<noteq> Some ''default'' then ''TargetedService''
          else ''ConfiguredRoute'')"

abbreviation class_count :: "string \<Rightarrow> (string \<times> route_config) list \<Rightarrow> string list \<Rightarrow> nat" where
  "class_count c routes ns \<equiv> length (filter (\<lambda>n. coverage_class routes n = c) ns)"

lemma scan_field_effect:
  fixes field :: json
  defines "n \<equiv> unwrap_or (get_str field ''name'') []"
  defines "k \<equiv> \<lambda>routes c. of_bool (n \<noteq> [] \<and> coverage_class routes n = c) :: nat"
  shows "map (\<lambda>c. (mc_field_name c, mc_classification c)) (sn_mutations (scan_field routes field a)) =
      map (\<lambda>c. (mc_field_name c, mc_classification c)) (sn_mutations a)
        @ (if n = [] then [] else [(n, coverage_class routes n)])"
    and "sn_strangled (scan_field routes field a) = sn_strangled a + k routes ''TargetedService''"
    and "sn_mode_b (scan_field routes field a) = sn_mode_b a + k routes ''AsyncReceipt''"
    and "sn_fallback (scan_field routes field a) = sn_fallback a + k routes ''DefaultUpstream''"
    and "set (sn_matched (scan_field routes field a)) =
      set (sn_matched a) \<union> (if n \<noteq> [] \<and> coverage_class routes n \<noteq> ''DefaultUpstream'' then {n} else {})"
  unfolding n_def k_def
  by (auto simp: scan_field_def push_coverage_def coverage_class_def Let_def
      split: option.splits prod.splits execution_strategy.splits)

lemma scan_fields_effect:
  shows "map (\<lambda>c. (mc_field_name c, mc_classification c)) (sn_mutations (fold (scan_field routes) flds a)) =
      map (\<lambda>c. (mc_field_name c, mc_classification c)) (sn_mutations a)
        @ map (\<lambda>n. (n, coverage_class routes n)) (field_names flds)"
    and "sn_strangled (fold (scan_field routes) flds a) = sn_strangled a + class_count ''TargetedService'' routes (field_names flds)"
    and "sn_mode_b (fold (scan_field routes) flds a) = sn_mode_b a + class_count ''AsyncReceipt'' routes (field_names flds)"
    and "sn_fallback (fold (scan_field routes) flds a) = sn_fallback a + class_count ''DefaultUpstream'' routes (field_names flds)"
    and "set (sn_matched (fold (scan_field routes) flds a)) =
      set (sn_matched a) \<union> {n \<in> set (field_names flds). coverage_class routes n \<noteq> ''DefaultUpstream''}"
  by (induction flds arbitrary: a) (auto simp: scan_field_effect field_names_def)

lemma coverage_class_default_iff:
  "coverage_class routes n = ''DefaultUpstream'' \<longleftrightarrow> n \<notin> r_operation ` set (map snd routes)"
  by (auto simp: coverage_class_def find_None_iff image_iff split: option.splits prod.splits dest!: find_Some_in) force+

lemma coverage_classes_partition:
  "class_count ''AsyncReceipt'' routes ns + class_count ''TargetedService'' routes ns
     + class_count ''DefaultUpstream'' routes ns + class_count ''ConfiguredRoute'' routes ns = length ns"
proof (induction ns)
  case (Cons n ns)
  have "coverage_class routes n \<in> {''AsyncReceipt'', ''TargetedService'', ''DefaultUpstream'', ''ConfiguredRoute''}"
    by (auto simp: coverage_class_def split: option.splits prod.splits)
  with Cons show ?case by auto
qed simp

text \<open>C35. The coverage report against a reference.  It is refused exactly when the answer has no schema.
  Otherwise every named mutation of the schema is listed once per occurrence, in order, with the
  class the first route for it gives; the counters are the sizes of the classes, which together
  with the configured routes make up the total; and the drifted routes are, in order, exactly the
  enabled routes that are not chassis operations and whose operation the schema does not name, if
  the schema has mutations at all.\<close>

theorem coverage_reference:
  "case analyze_mutation_coverage ops secs v routes of
     Inl e \<Rightarrow> schema_root v = None
   | Inr c \<Rightarrow>
       \<exists>schema. schema_root v = Some schema \<and>
       (let flds = mutation_fields schema; ns = field_names flds
        in map (\<lambda>m. (mc_field_name m, mc_classification m)) (sc_mutations c) = map (\<lambda>n. (n, coverage_class routes n)) ns
           \<and> sc_async_count c = class_count ''AsyncReceipt'' routes ns
           \<and> sc_targeted_count c = class_count ''TargetedService'' routes ns
           \<and> sc_default_fallback_count c = class_count ''DefaultUpstream'' routes ns
           \<and> sc_total_mutations c = sc_async_count c + sc_targeted_count c + sc_default_fallback_count c
                + class_count ''ConfiguredRoute'' routes ns
           \<and> sorted (sc_drifted_routes c) \<and> sc_drift_count c = length (sc_drifted_routes c)
           \<and> set (sc_drifted_routes c) = drift_message ` {nr \<in> set routes. route_enabled (snd nr)
                \<and> \<not> is_chassis_operation (snd nr) \<and> r_operation (snd nr) \<notin> set ns \<and> flds \<noteq> []})"
proof (cases "schema_root v")
  case None
  then show ?thesis by (simp add: analyze_mutation_coverage_def)
next
  case (Some schema)
  let ?flds = "mutation_fields schema"
  let ?a = "fold (scan_field routes) ?flds scan_empty" and ?ns = "field_names ?flds"
  have cls: "map (\<lambda>m. (mc_field_name m, mc_classification m)) (sn_mutations ?a) = map (\<lambda>n. (n, coverage_class routes n)) ?ns"
    using scan_fields_effect(1) [of routes ?flds scan_empty] by (simp add: scan_empty_def)
  then have len: "length (sn_mutations ?a) = length ?ns" by (metis length_map)
  have counts: "sn_strangled ?a = class_count ''TargetedService'' routes ?ns"
      "sn_mode_b ?a = class_count ''AsyncReceipt'' routes ?ns" "sn_fallback ?a = class_count ''DefaultUpstream'' routes ?ns"
    using scan_fields_effect(2-4) [of routes ?flds scan_empty] by (simp_all add: scan_empty_def)
  have "r_operation (snd nr) \<in> set (sn_matched ?a) \<longleftrightarrow> r_operation (snd nr) \<in> set ?ns" if "nr \<in> set routes" for nr
    using that scan_fields_effect(5) [of routes ?flds scan_empty] coverage_class_default_iff
    by (auto simp: scan_empty_def)
  then have drift: "{nr \<in> set routes. drifted ?flds (sn_matched ?a) nr} = {nr \<in> set routes. route_enabled (snd nr)
      \<and> \<not> is_chassis_operation (snd nr) \<and> r_operation (snd nr) \<notin> set ?ns \<and> ?flds \<noteq> []}"
    by (auto simp: drifted_def)
  show ?thesis
    using cls len counts coverage_classes_partition [of routes ?ns]
    by (simp add: analyze_mutation_coverage_def Some Let_def drift [symmetric] del: not_None_eq)
qed

text \<open>A failed refresh keeps the last coverage, a successful one replaces it.\<close>

lemma refresh_caches:
  "case refresh_coverage ops secs post show from_slice url routes cached of
     (Inl e, c) \<Rightarrow> c = cached | (Inr v, c) \<Rightarrow> c = Some v"
  by (auto simp: refresh_coverage_def split: sum.splits)

text \<open>A route that is switched off still counts as coverage.\<close>

lemma coverage_counts_disabled:
  "coverage_class [(''pay'', (route_of_operation ''pay'')\<lparr>route_enabled := False, route_upstream := Some ''billing''\<rparr>)] ''pay''
     = ''TargetedService''"
  by code_simp

end
