(* ===== verification/EventSink.thy ===== *)
theory EventSink
  imports AdminData
begin

text \<open>
  The event sink inspector of the admin console (\<open>admin/eventsink.rs\<close>): the choice of the
  broker, what each inspection makes of the answers of the broker's client, the cached answer, and
  the NATS connection that inspections and log queries share.

  The clients of the brokers are arguments: a probe is what a client call returned.  A connection
  is a value of a type parameter.
\<close>

record stream_metrics =
  sm_name :: string
  sm_storage :: string
  sm_messages :: u64
  sm_bytes :: u64
  sm_bytes_formatted :: string
  sm_first_seq :: u64
  sm_last_seq :: u64
  sm_consumer_count :: nat
  sm_num_subjects :: u64
  sm_subjects :: "string list"

record consumer_metrics =
  cm_name :: string
  cm_stream_name :: string
  cm_created :: string
  cm_filter_subject :: "string option"
  cm_num_pending :: u64
  cm_num_ack_pending :: nat
  cm_num_redelivered :: nat
  cm_num_waiting :: nat
  cm_ack_floor_seq :: u64
  cm_last_delivered_seq :: u64
  cm_push_bound :: bool
  cm_status :: "string option"

definition compute_status :: "consumer_metrics \<Rightarrow> string" where
  "compute_status c =
     (if 0 < cm_num_redelivered c then ''degraded''
      else if 1000 < cm_num_pending c then ''stalled''
      else if 0 < cm_num_ack_pending c \<or> 0 < cm_num_pending c then ''active''
      else ''healthy'')"

record sink_response =
  es_broker_type :: string
  es_broker_addr :: string
  es_status :: string
  es_capabilities :: "string list"
  es_stream :: "stream_metrics option"
  es_consumers :: "consumer_metrics list"
  es_details :: "json option"
  es_error :: "string option"

text \<open>An answer with neither stream nor consumers.\<close>

definition bare_response ::
  "string \<Rightarrow> string \<Rightarrow> string \<Rightarrow> string list \<Rightarrow> json option \<Rightarrow> string option \<Rightarrow> sink_response" where
  "bare_response ty addr status caps details err =
     \<lparr>es_broker_type = ty, es_broker_addr = addr, es_status = status, es_capabilities = caps, es_stream = None,
      es_consumers = [], es_details = details, es_error = err\<rparr>"

text \<open>\<open>fmt2\<close> is the format \<open>{:.2}\<close> of an \<open>f64\<close>.\<close>

definition format_bytes :: "'f f64_ops \<Rightarrow> ('f \<Rightarrow> string) \<Rightarrow> u64 \<Rightarrow> string" where
  "format_bytes ops fmt2 bytes =
     (let scaled = (\<lambda>unit_size unit_name. fmt2 (f_div ops (f_of ops (unat bytes)) (f_of ops unit_size)) @ unit_name)
      in if 2 ^ 30 \<le> bytes then scaled (2 ^ 30) '' GiB''
         else if 2 ^ 20 \<le> bytes then scaled (2 ^ 20) '' MiB''
         else if 2 ^ 10 \<le> bytes then scaled (2 ^ 10) '' KiB''
         else show_nat (unat bytes) @ '' B'')"

section \<open>NATS\<close>

record nats_stream_info =
  ni_name :: string
  ni_storage :: string
  ni_messages :: u64
  ni_bytes :: u64
  ni_first_sequence :: u64
  ni_last_sequence :: u64
  ni_consumer_count :: nat
  ni_subjects_count :: u64
  ni_subjects :: "string list"

record nats_consumer_info =
  nc_name :: string
  nc_stream_name :: string
  nc_created :: string
  nc_filter_subject :: string
  nc_filter_subjects :: "string list"
  nc_num_pending :: u64
  nc_num_ack_pending :: nat
  nc_num_redelivered :: nat
  nc_num_waiting :: nat
  nc_ack_floor :: u64
  nc_delivered :: u64
  nc_push_bound :: bool

text \<open>The client: a request returns \<open>None\<close> when its two seconds pass.\<close>

record ('k, 't) nats_ops =
  no_connect :: "string \<Rightarrow> 'k result"
  no_get_stream :: "'k \<Rightarrow> string \<Rightarrow> 't result"
  no_get_info :: "'t \<Rightarrow> nats_stream_info result"
  no_consumers :: "'t \<Rightarrow> nats_consumer_info result list"
  no_request :: "'k \<Rightarrow> string \<Rightarrow> string \<Rightarrow> string result option"

record 'k inspector =
  in_broker_method :: string
  in_broker_addr :: string
  in_nats_client :: "'k option"
  in_nats_jetstream :: "'k option"
  in_cached :: "(nat \<times> sink_response) option"

definition inspector_new :: "string \<Rightarrow> string \<Rightarrow> 'k inspector" where
  "inspector_new mtd addr =
     \<lparr>in_broker_method = mtd, in_broker_addr = addr, in_nats_client = None, in_nats_jetstream = None, in_cached = None\<rparr>"

definition evict_nats :: "'k inspector \<Rightarrow> 'k inspector" where
  "evict_nats i = i\<lparr>in_nats_client := None, in_nats_jetstream := None, in_cached := None\<rparr>"

definition get_nats_client :: "('k, 't) nats_ops \<Rightarrow> 'k inspector \<Rightarrow> 'k result \<times> 'k inspector" where
  "get_nats_client no i =
     (case in_nats_client i of
        Some c \<Rightarrow> (Inr c, i)
      | None \<Rightarrow>
          (case no_connect no (in_broker_addr i) of
             Inl e \<Rightarrow> (Inl (''Failed to connect to NATS at '' @ in_broker_addr i @ '': '' @ e), i)
           | Inr c \<Rightarrow> (Inr c, i\<lparr>in_nats_client := Some c\<rparr>)))"

definition get_nats_jetstream :: "('k, 't) nats_ops \<Rightarrow> 'k inspector \<Rightarrow> 'k result \<times> 'k inspector" where
  "get_nats_jetstream no i =
     (case in_nats_jetstream i of
        Some js \<Rightarrow> (Inr js, i)
      | None \<Rightarrow>
          (case get_nats_client no i of
             (Inl e, i') \<Rightarrow> (Inl e, i')
           | (Inr c, i') \<Rightarrow> (Inr c, i'\<lparr>in_nats_jetstream := Some c\<rparr>)))"

definition is_connection_error :: "string \<Rightarrow> bool" where
  "is_connection_error e = (contains_str e ''connection'' \<or> contains_str e ''closed'' \<or> contains_str e ''broken'')"

definition nats_consumer_metrics :: "nats_consumer_info \<Rightarrow> consumer_metrics" where
  "nats_consumer_metrics c =
     \<lparr>cm_name = nc_name c, cm_stream_name = nc_stream_name c, cm_created = nc_created c,
      cm_filter_subject =
        (if nc_filter_subject c \<noteq> [] then Some (nc_filter_subject c)
         else if nc_filter_subjects c \<noteq> [] then Some (join '', '' (nc_filter_subjects c)) else None),
      cm_num_pending = nc_num_pending c, cm_num_ack_pending = nc_num_ack_pending c,
      cm_num_redelivered = nc_num_redelivered c, cm_num_waiting = nc_num_waiting c,
      cm_ack_floor_seq = nc_ack_floor c, cm_last_delivered_seq = nc_delivered c, cm_push_bound = nc_push_bound c,
      cm_status = Some (if 0 < nc_num_redelivered c then ''degraded''
                        else if 1000 < nc_num_pending c then ''stalled''
                        else if 0 < nc_num_ack_pending c \<or> 0 < nc_num_pending c then ''active''
                        else ''healthy'')\<rparr>"

definition inspect_nats ::
  "'f f64_ops \<Rightarrow> ('f \<Rightarrow> string) \<Rightarrow> ('k, 't) nats_ops \<Rightarrow> 'k inspector \<Rightarrow> sink_response \<times> 'k inspector" where
  "inspect_nats ops fmt2 no i =
     (let bare = bare_response ''NATS JetStream'' (in_broker_addr i);
          metrics = ''Stream Metrics''; lag = ''Consumer Lag'';
          failed = (\<lambda>msg e i'. (bare ''connected'' [metrics, lag] None (Some (msg @ e)),
                               if is_connection_error e then evict_nats i' else i'))
      in case get_nats_jetstream no i of
           (Inl e, i') \<Rightarrow> (bare ''offline'' [metrics, lag, ''Push Workers''] None (Some e), evict_nats i')
         | (Inr js, i') \<Rightarrow>
             (case (case no_get_stream no js ''mutations'' of Inr s \<Rightarrow> Inr s | Inl _ \<Rightarrow> no_get_stream no js ''SPECTRA'') of
                Inl e \<Rightarrow> failed (''Stream '' @ quoted ''mutations'' @ '' (or '' @ quoted ''SPECTRA'' @ '') not found: '') e i'
              | Inr s \<Rightarrow>
                  (case no_get_info no s of
                     Inl e \<Rightarrow> failed ''Failed to get stream info: '' e i'
                   | Inr info \<Rightarrow>
                       (\<lparr>es_broker_type = ''NATS JetStream'', es_broker_addr = in_broker_addr i, es_status = ''online'',
                         es_capabilities = [''Stream Storage Metrics'', ''Sequence Tracking'', ''Consumer Lag (Pending)'',
                           ''Unacknowledged PEL Tracking'', ''Push Bound Workers''],
                         es_stream = Some \<lparr>sm_name = ni_name info, sm_storage = ni_storage info,
                           sm_messages = ni_messages info, sm_bytes = ni_bytes info,
                           sm_bytes_formatted = format_bytes ops fmt2 (ni_bytes info),
                           sm_first_seq = ni_first_sequence info, sm_last_seq = ni_last_sequence info,
                           sm_consumer_count = ni_consumer_count info, sm_num_subjects = ni_subjects_count info,
                           sm_subjects = ni_subjects info\<rparr>,
                         es_consumers = sort_key cm_name
                           (map nats_consumer_metrics (List.map_filter (case_sum (\<lambda>_. None) Some) (no_consumers no s))),
                         es_details = None, es_error = None\<rparr>, i'))))"

definition query_worker_logs ::
  "('k, 't) nats_ops \<Rightarrow> (json \<Rightarrow> string) \<Rightarrow> (string \<Rightarrow> string) \<Rightarrow> (string \<Rightarrow> json result) \<Rightarrow> string \<Rightarrow> nat
     \<Rightarrow> 'k inspector \<Rightarrow> json result \<times> 'k inspector" where
  "query_worker_logs no show_json utf8_error from_str wid limit i =
     (if contains_str (to_lowercase (in_broker_method i)) ''nats'' then
        (case get_nats_client no i of
           (Inl e, i') \<Rightarrow> (Inl e, i')
         | (Inr c, i') \<Rightarrow>
             (let subject = ''spectra.workers.'' @ wid @ ''.logs''
              in case no_request no c subject (show_json (JObject [(''limit'', JNumber (PosInt limit))])) of
                   None \<Rightarrow> (Inl (''Timed out waiting for worker '' @ quoted wid @ '' response on subject '' @ quoted subject
                             @ '' (worker is offline or has not implemented SWTP)''), i')
                 | Some (Inl e) \<Rightarrow> (Inl (''Failed to query logs from worker '' @ quoted wid @ '': '' @ e), evict_nats i')
                 | Some (Inr payload) \<Rightarrow>
                     (case from_utf8 payload of
                        None \<Rightarrow> (Inl (''Worker returned invalid UTF-8: '' @ utf8_error payload), i')
                      | Some s \<Rightarrow>
                          (case from_str s of
                             Inl e \<Rightarrow> (Inl (''Worker returned non-JSON response: '' @ e), i')
                           | Inr v \<Rightarrow> (Inr v, i')))))
      else
        (Inl (''Worker log query via Request-Reply is currently supported for NATS brokers (active broker: ''
              @ in_broker_method i @ '')''), i))"

section \<open>The other brokers\<close>

record resp_probe =
  rp_connect :: "unit result"
  rp_ping :: "string result"
  rp_xlen :: "u64 result"

definition healthy_consumer :: "string \<Rightarrow> string \<Rightarrow> string \<Rightarrow> string \<Rightarrow> u64 \<Rightarrow> consumer_metrics" where
  "healthy_consumer name stream created subj seq =
     \<lparr>cm_name = name, cm_stream_name = stream, cm_created = created, cm_filter_subject = Some subj,
      cm_num_pending = 0, cm_num_ack_pending = 0, cm_num_redelivered = 0, cm_num_waiting = 0,
      cm_ack_floor_seq = seq, cm_last_delivered_seq = seq, cm_push_bound = True, cm_status = Some ''healthy''\<rparr>"

definition inspect_redis :: "string \<Rightarrow> resp_probe \<Rightarrow> sink_response" where
  "inspect_redis addr p =
     (case rp_connect p of
        Inl e \<Rightarrow> bare_response ''Redis Streams'' addr ''offline'' [''Stream Length (XLEN)'', ''Consumer Groups (XINFO)'']
                   None (Some (''Redis connection failed: '' @ e))
      | Inr _ \<Rightarrow>
          (case rp_ping p of
             Inl _ \<Rightarrow> bare_response ''Redis Streams'' addr ''degraded'' [''Stream Length (XLEN)''] None (Some ''Redis PING failed'')
           | Inr _ \<Rightarrow>
               (let stream_key = ''spectra:events''; xlen = case_sum (\<lambda>_. 0) id (rp_xlen p)
                in \<lparr>es_broker_type = ''Redis Streams'', es_broker_addr = addr, es_status = ''online'',
                    es_capabilities = [''In-Memory Stream (XLEN)'', ''Consumer Groups (XINFO)'', ''Pending Entries List (XPENDING)''],
                    es_stream = Some \<lparr>sm_name = stream_key, sm_storage = ''Redis Memory (AOF/RDB)'', sm_messages = xlen,
                      sm_bytes = 0, sm_bytes_formatted = ''In-Memory'', sm_first_seq = 0, sm_last_seq = xlen,
                      sm_consumer_count = 1, sm_num_subjects = 1, sm_subjects = [stream_key]\<rparr>,
                    es_consumers = [healthy_consumer ''default-group'' stream_key ''Active'' stream_key xlen],
                    es_details = Some (JObject [(''streamKey'', JString stream_key),
                      (''totalEntries'', JNumber (PosInt (unat xlen)))]), es_error = None\<rparr>)))"

record iggy_stream =
  ig_id :: nat
  ig_name :: string
  ig_messages_count :: u64
  ig_size_bytes :: u64
  ig_topics_count :: nat

record iggy_probe =
  ip_build :: "unit result"
  ip_connect :: "unit result"
  ip_stream :: "iggy_stream option result"

definition inspect_iggy :: "'f f64_ops \<Rightarrow> ('f \<Rightarrow> string) \<Rightarrow> string \<Rightarrow> iggy_probe \<Rightarrow> sink_response" where
  "inspect_iggy ops fmt2 addr p =
     (let bare = bare_response ''Apache Iggy'' addr;
          caps = [''Zero-Copy Streams'', ''Partitions Tracking'', ''Consumer Groups'']
      in case ip_build p of
           Inl e \<Rightarrow> bare ''offline'' caps None (Some (''Iggy client initialization failed: '' @ e))
         | Inr _ \<Rightarrow>
             (case ip_connect p of
                Inl e \<Rightarrow> bare ''offline'' caps None (Some (''Iggy server connection failed: '' @ e))
              | Inr _ \<Rightarrow>
                  (case ip_stream p of
                     Inr (Some info) \<Rightarrow>
                       \<lparr>es_broker_type = ''Apache Iggy'', es_broker_addr = addr, es_status = ''online'',
                        es_capabilities = [''Ultra-Low Latency Zero-Copy'', ''Kernel Page Cache Logging'',
                          ''Consumer Groups & Partition Offsets''],
                        es_stream = Some \<lparr>sm_name = ig_name info, sm_storage = ''Iggy Zero-Copy / Kernel Page Cache'',
                          sm_messages = ig_messages_count info, sm_bytes = ig_size_bytes info,
                          sm_bytes_formatted = format_bytes ops fmt2 (ig_size_bytes info), sm_first_seq = 0,
                          sm_last_seq = ig_messages_count info, sm_consumer_count = 1,
                          sm_num_subjects = word_of_nat (ig_topics_count info), sm_subjects = [''spectra.*'']\<rparr>,
                        es_consumers = [healthy_consumer ''iggy-consumer-group-1'' (ig_name info) ''Active'' ''spectra.*''
                          (ig_messages_count info)],
                        es_details = Some (JObject [(''streamId'', JNumber (PosInt (ig_id info))),
                          (''topicsCount'', JNumber (PosInt (ig_topics_count info))),
                          (''sizeBytes'', JNumber (PosInt (unat (ig_size_bytes info))))]), es_error = None\<rparr>
                   | Inr None \<Rightarrow> bare ''connected'' [''Zero-Copy Streams''] None
                       (Some (''Connected to Iggy, but stream '' @ quoted ''spectra'' @ '' not found''))
                   | Inl e \<Rightarrow> bare ''connected'' [''Zero-Copy Streams''] None
                       (Some (''Connected to Iggy, but stream query failed: '' @ e)))))"

text \<open>A passive declaration answers with the numbers of messages and consumers.\<close>

record rabbit_probe =
  rb_connect :: "unit result"
  rb_channel :: "unit result"
  rb_queue :: "(u32 \<times> u32) result"

definition inspect_rabbitmq :: "string \<Rightarrow> rabbit_probe \<Rightarrow> sink_response" where
  "inspect_rabbitmq addr p =
     (let bare = bare_response ''RabbitMQ (AMQP)'' addr
      in case rb_connect p of
           Inl e \<Rightarrow> bare ''offline'' [''Queue Depth Inspection'', ''Active Consumer Count''] None
                     (Some (''RabbitMQ connection error: '' @ e))
         | Inr _ \<Rightarrow>
             (case rb_channel p of
                Inl e \<Rightarrow> bare ''connected'' [''Queue Depth Inspection''] None (Some (''Channel creation error: '' @ e))
              | Inr _ \<Rightarrow>
                  (case rb_queue p of
                     Inl _ \<Rightarrow> bare ''connected'' [''Topic Exchange Routing'']
                       (Some (JObject [(''exchange'', JString ''amq.topic''), (''routingPrefix'', JString ''spectra'')])) None
                   | Inr (m, c) \<Rightarrow>
                       (let msgs = ucast m :: u64; consumers_count = unat c; queue_name = ''spectra.events''
                        in \<lparr>es_broker_type = ''RabbitMQ (AMQP)'', es_broker_addr = addr, es_status = ''online'',
                            es_capabilities = [''AMQP Queue Depth'', ''Active Consumer Channel Count'', ''Topic Exchange Routing''],
                            es_stream = Some \<lparr>sm_name = queue_name, sm_storage = ''AMQP Broker Queue'', sm_messages = msgs,
                              sm_bytes = 0, sm_bytes_formatted = ''Queue Paged'', sm_first_seq = 0, sm_last_seq = msgs,
                              sm_consumer_count = consumers_count, sm_num_subjects = 1, sm_subjects = [''spectra.*'']\<rparr>,
                            es_consumers = [(healthy_consumer (queue_name @ ''-consumer'') queue_name ''Active Channel''
                              ''spectra.*'' msgs)\<lparr>cm_num_pending := msgs, cm_push_bound := 0 < consumers_count,
                                cm_status := Some (if 1000 < msgs then ''stalled'' else ''healthy'')\<rparr>],
                            es_details = Some (JObject [(''queue'', JString queue_name),
                              (''readyMessages'', JNumber (PosInt (unat msgs))),
                              (''consumerCount'', JNumber (PosInt consumers_count))]), es_error = None\<rparr>))))"

text \<open>The offset is an \<open>i64\<close> that is read as a \<open>u64\<close>.\<close>

record kafka_probe =
  kp_client :: "unit result"
  kp_partition :: "unit result"
  kp_offset :: "int result"

definition json_i64 :: "int \<Rightarrow> json" where
  "json_i64 i = JNumber (if i < 0 then NegInt i else PosInt (nat i))"

definition inspect_kafka :: "string \<Rightarrow> kafka_probe \<Rightarrow> sink_response" where
  "inspect_kafka addr p =
     (let bare = bare_response ''Apache Kafka / Redpanda'' addr; topic = ''spectra''
      in case kp_client p of
           Inl e \<Rightarrow> bare ''offline'' [''Partition High-Watermark'', ''Consumer Lag Offsets''] None
                     (Some (''Kafka broker connect error: '' @ e))
         | Inr _ \<Rightarrow>
             (case kp_partition p of
                Inl e \<Rightarrow> bare ''connected'' [''Topic Offset Inspection'']
                  (Some (JObject [(''hosts'', JArray (map JString (normalize_kafka_hosts addr)))]))
                  (Some (''Kafka topic '' @ quoted topic @ '' not yet created: '' @ e))
              | Inr _ \<Rightarrow>
                  (let high_watermark = case_sum (\<lambda>_. 0) id (kp_offset p); hw = word_of_int high_watermark :: u64
                   in \<lparr>es_broker_type = ''Apache Kafka / Redpanda'', es_broker_addr = addr, es_status = ''online'',
                       es_capabilities = [''Partition High-Watermark'', ''Distributed Commit Log'', ''Offset Tracking''],
                       es_stream = Some \<lparr>sm_name = topic, sm_storage = ''Distributed Commit Log'', sm_messages = hw,
                         sm_bytes = 0, sm_bytes_formatted = ''Log Partition'', sm_first_seq = 0, sm_last_seq = hw,
                         sm_consumer_count = 1, sm_num_subjects = 1, sm_subjects = [topic]\<rparr>,
                       es_consumers = [healthy_consumer ''kafka-consumer-group'' topic ''Partition 0'' topic hw],
                       es_details = Some (JObject [(''topic'', JString topic), (''partition'', JNumber (PosInt 0)),
                         (''highWatermark'', json_i64 high_watermark)]), es_error = None\<rparr>)))"

definition inspect_sierradb :: "string \<Rightarrow> resp_probe \<Rightarrow> sink_response" where
  "inspect_sierradb addr p =
     (let ty = ''SierraDB Event Sourcing Engine''
      in case rp_connect p of
           Inl e \<Rightarrow> bare_response ty addr ''offline'' [''Event Append Log'', ''Monotonic Versioning''] None
                     (Some (''SierraDB connection failed: '' @ e))
         | Inr _ \<Rightarrow>
             (case rp_ping p of
                Inl _ \<Rightarrow> bare_response ty addr ''degraded'' [''RESP3 Interface''] None (Some ''SierraDB PING failed'')
              | Inr _ \<Rightarrow>
                  \<lparr>es_broker_type = ty, es_broker_addr = addr, es_status = ''online'',
                   es_capabilities = [''RESP3 EAPPEND Interface'', ''Strict Monotonic Versioning'', ''Causal HLC Ordering''],
                   es_stream = Some \<lparr>sm_name = ''spectra:events'', sm_storage = ''SierraDB Append-Only Store'',
                     sm_messages = 0, sm_bytes = 0, sm_bytes_formatted = ''Persistent Log'', sm_first_seq = 0,
                     sm_last_seq = 0, sm_consumer_count = 1, sm_num_subjects = 1, sm_subjects = [''spectra:*'']\<rparr>,
                   es_consumers = [],
                   es_details = Some (JObject [(''engine'', JString ''SierraDB''), (''protocol'', JString ''RESP3'')]),
                   es_error = None\<rparr>))"

text \<open>\<open>probe\<close>: the status code of the answer and the time it took.\<close>

definition inspect_webhook ::
  "'f f64_ops \<Rightarrow> ('f \<Rightarrow> json) \<Rightarrow> string \<Rightarrow> nat result \<Rightarrow> 'f \<Rightarrow> sink_response" where
  "inspect_webhook ops jf addr probe latency_ms =
     (case probe of
        Inl e \<Rightarrow> bare_response ''HTTP Webhook Sink'' addr ''offline'' [''HTTP Post Event Delivery''] None
                  (Some (''Webhook probe to '' @ quoted addr @ '' failed: '' @ e))
      | Inr code \<Rightarrow>
          (let is_healthy = ((200 \<le> code \<and> code < 300) \<or> (300 \<le> code \<and> code < 400) \<or> code = 405)
           in \<lparr>es_broker_type = ''HTTP Webhook Sink'', es_broker_addr = addr,
               es_status = (if is_healthy then ''online'' else ''degraded''),
               es_capabilities = [''HTTP Post Event Delivery'', ''Round-Trip Latency Probing''],
               es_stream = Some \<lparr>sm_name = ''HTTP Webhook Target'', sm_storage = ''External HTTP Server'', sm_messages = 0,
                 sm_bytes = 0, sm_bytes_formatted = ''REST / JSON'', sm_first_seq = 0, sm_last_seq = 0,
                 sm_consumer_count = 1, sm_num_subjects = 1, sm_subjects = [''*'']\<rparr>,
               es_consumers = [(healthy_consumer ''webhook-target'' addr ''HTTP Endpoint'' ''*'' 0)
                 \<lparr>cm_push_bound := is_healthy, cm_status := Some (if is_healthy then ''healthy'' else ''degraded'')\<rparr>],
               es_details = Some (JObject [(''targetUrl'', JString addr), (''probeStatusCode'', JNumber (PosInt code)),
                 (''latencyMs'', jf (f_div ops (f_round ops (f_mul ops latency_ms (f_of ops 100))) (f_of ops 100)))]),
               es_error = None\<rparr>))"

definition inspect_generic :: "string \<Rightarrow> string \<Rightarrow> sink_response" where
  "inspect_generic mtd addr = bare_response mtd addr ''active'' [''Generic Event Dispatch''] None None"

section \<open>One inspection\<close>

text \<open>\<open>sv_cut\<close>: when the time-out of 2.5 seconds fires, the connections the abandoned inspection left.\<close>

record ('k, 't, 'f) sink_env =
  sv_f64 :: "'f f64_ops"
  sv_fmt2 :: "'f \<Rightarrow> string"
  sv_json_f64 :: "'f \<Rightarrow> json"
  sv_nats :: "('k, 't) nats_ops"
  sv_resp :: resp_probe
  sv_iggy :: iggy_probe
  sv_rabbit :: rabbit_probe
  sv_kafka :: kafka_probe
  sv_webhook :: "nat result"
  sv_webhook_latency :: 'f
  sv_cut :: "('k option \<times> 'k option) option"

definition inspect_broker :: "('k, 't, 'f) sink_env \<Rightarrow> 'k inspector \<Rightarrow> sink_response \<times> 'k inspector" where
  "inspect_broker sv i =
     (let m = to_lowercase (in_broker_method i); addr = in_broker_addr i; has = contains_str m
      in if has ''nats'' then inspect_nats (sv_f64 sv) (sv_fmt2 sv) (sv_nats sv) i
         else if has ''redis'' \<or> has ''valkey'' \<or> has ''dragonfly'' then (inspect_redis addr (sv_resp sv), i)
         else if has ''iggy'' then (inspect_iggy (sv_f64 sv) (sv_fmt2 sv) addr (sv_iggy sv), i)
         else if has ''rabbit'' \<or> has ''amqp'' then (inspect_rabbitmq addr (sv_rabbit sv), i)
         else if has ''kafka'' \<or> has ''redpanda'' then (inspect_kafka addr (sv_kafka sv), i)
         else if has ''sierra'' then (inspect_sierradb addr (sv_resp sv), i)
         else if has ''webhook'' \<or> has ''http'' then
           (inspect_webhook (sv_f64 sv) (sv_json_f64 sv) addr (sv_webhook sv) (sv_webhook_latency sv), i)
         else (inspect_generic (in_broker_method i) addr, i))"

definition inspect :: "('k, 't, 'f) sink_env \<Rightarrow> nat \<Rightarrow> 'k inspector \<Rightarrow> sink_response \<times> 'k inspector" where
  "inspect sv now i =
     (let run = (\<lambda>_ :: unit.
            (let (resp, i') =
                   (case sv_cut sv of
                      None \<Rightarrow> inspect_broker sv i
                    | Some (client, js) \<Rightarrow>
                        (bare_response (in_broker_method i) (in_broker_addr i) ''timeout'' [] None
                           (Some ''Event sink inspection timed out after 2500ms''),
                         i\<lparr>in_nats_client := client, in_nats_jetstream := js\<rparr>))
             in (resp, i'\<lparr>in_cached := Some (now, resp)\<rparr>)))
      in case in_cached i of
           Some (t, resp) \<Rightarrow> if now - t < 1500000000 then (resp, i) else run ()
         | None \<Rightarrow> run ())"

section \<open>Properties\<close>

text \<open>The listing of a NATS consumer carries the status its numbers give.\<close>

lemma nats_consumer_status: "cm_status (nats_consumer_metrics c) = Some (compute_status (nats_consumer_metrics c))"
  by (simp add: nats_consumer_metrics_def compute_status_def)

text \<open>An answer is served unchanged for 1.5 seconds after the inspection that made it.\<close>

lemma inspect_cached:
  "inspect sv now i = (resp, i') \<Longrightarrow> now' - now < 1500000000 \<Longrightarrow> now \<le> now' \<Longrightarrow> in_cached i = None \<Longrightarrow>
   inspect sv' now' i' = (resp, i')"
  by (auto simp: inspect_def Let_def split: prod.splits)

text \<open>A broker that cannot be reached leaves no connection behind, so that the next one is new.\<close>

lemma inspect_nats_offline:
  assumes "in_nats_client i = None" "in_nats_jetstream i = None" "no_connect no (in_broker_addr i) = Inl e"
  shows "fst (inspect_nats ops fmt2 no i) = bare_response ''NATS JetStream'' (in_broker_addr i) ''offline''
           [''Stream Metrics'', ''Consumer Lag'', ''Push Workers''] None
           (Some (''Failed to connect to NATS at '' @ in_broker_addr i @ '': '' @ e))"
    and "in_nats_client (snd (inspect_nats ops fmt2 no i)) = None"
    and "in_nats_jetstream (snd (inspect_nats ops fmt2 no i)) = None"
  using assms by (simp_all add: inspect_nats_def get_nats_jetstream_def get_nats_client_def evict_nats_def Let_def)

text \<open>The status of a queue of RabbitMQ disagrees with the one its numbers give.\<close>

lemma rabbit_status_differs:
  "let c = hd (es_consumers (inspect_rabbitmq a \<lparr>rb_connect = Inr (), rb_channel = Inr (), rb_queue = Inr (7, 1)\<rparr>))
   in cm_status c = Some ''healthy'' \<and> compute_status c = ''active''"
  by (simp add: inspect_rabbitmq_def healthy_consumer_def compute_status_def Let_def)

end
