(* ===== verification/Admin.thy ===== *)
theory Admin
  imports AdminAccess AdminSchema EventSink
begin

text \<open>
  The admin console: the answers of \<open>admin/api.rs\<close>, the engine and the handlers of \<open>admin/mod.rs\<close>.

  A handler takes the engine, the request, the chunks of its body and the world (the shared
  state it may change) and returns an answer with the new world, or the error of a body that
  cannot be read.  An answer carries the value that is serialised; the serialiser, the
  decoders of request bodies, the TOML reader, the path router, the resolver and the configuration
  store are arguments, collected in \<open>admin_env\<close>.
\<close>

section \<open>Answers\<close>

record app_summary =
  as_id :: string
  as_name :: string
  as_domains :: "string list"
  as_upstream :: string

record status_response =
  st_version :: string
  st_uptime_seconds :: nat
  st_sync_enabled :: bool
  st_sync_dispatch_policy :: string
  st_sync_timeout_ms :: nat
  st_async_routes_count :: nat
  st_mode_a_enabled :: bool
  st_mode_a_dispatch_policy :: string
  st_mode_a_timeout_ms :: nat
  st_mode_b_routes_count :: nat
  st_broker_method :: string
  st_broker_addr :: string
  st_broker_status :: string
  st_apps :: "app_summary list"
  st_auth_required :: bool

record route_entry =
  re_name :: string
  re_operation :: string
  re_mode :: string
  re_upstream :: string
  re_upstream_addr :: string
  re_receipt_status :: string
  re_enabled :: bool
  re_dispatch_policy :: string
  re_is_policy_override :: bool
  re_interceptors :: "string list"

record routes_response =
  rr_default_upstream :: string
  rr_default_upstream_addr :: string
  rr_named_upstreams :: "(string \<times> string) list"
  rr_routes :: "route_entry list"

record subscriptions_response =
  sr_enabled :: bool
  sr_active_connections :: nat
  sr_topic_prefix :: string
  sr_active_topics_count :: nat
  sr_active_topics :: "string list"

record idempotency_response =
  ir_backend :: string
  ir_ttl_secs :: nat
  ir_max_capacity :: nat
  ir_active_records :: nat

record config_response =
  cr_backend :: string
  cr_descriptor :: string
  cr_version :: u64
  cr_updated_at_epoch_ms :: u64
  cr_hash :: string
  cr_content :: string

record config_summary =
  cs_apps_count :: nat
  cs_routes_count :: nat
  cs_named_upstreams_count :: nat
  cs_interceptors_count :: nat
  cs_broker_method :: string
  cs_broker_addr :: string

record validate_response =
  vr_valid :: bool
  vr_errors :: "string list"
  vr_warnings :: "string list"
  vr_summary :: "config_summary option"

text \<open>\<open>AdminConfigUpdateResponse\<close> and \<open>AdminConfigReloadResponse\<close> have the same fields.\<close>

record update_response =
  ur_success :: bool
  ur_version :: u64
  ur_hash :: string
  ur_updated_at_epoch_ms :: u64
  ur_reloaded :: bool
  ur_message :: string

record dns_status_response =
  ds_enabled :: bool
  ds_interval_secs :: nat
  ds_total_upstreams :: nat
  ds_upstreams :: "dns_entry list"

datatype 'f admin_body =
    Message json
  | Page string
  | StatusBody status_response
  | RoutesBody routes_response
  | CoverageBody "'f schema_coverage"
  | SubscriptionsBody subscriptions_response
  | IdempotencyBody idempotency_response
  | SinkBody sink_response
  | TrafficBody "'f traffic_response"
  | WorkersBody "worker_summary list"
  | WorkerLogsBody worker_logs_response
  | ConfigBody config_response
  | ValidateBody validate_response
  | UpdateBody update_response
  | DnsStatusBody dns_status_response
  | DnsRescanBody dns_rescan_response

record 'f admin_response =
  ar_status :: nat
  ar_headers :: header_map
  ar_body :: "'f admin_body"

section \<open>The engine and its surroundings\<close>

record 'r admin_engine =
  ad_config :: admin_config
  ad_start_time :: nat
  ad_default_upstream_addr :: string
  ad_default_upstream_name :: string
  ad_named_upstreams :: "string \<rightharpoonup> socket_addr"
  ad_routes :: "(string \<times> route_config) list"
  ad_broker_method :: string
  ad_broker_addr :: string
  ad_mode_a_enabled :: bool
  ad_mode_a_dispatch_policy :: string
  ad_mode_a_timeout_ms :: nat
  ad_apps :: "app_summary list"
  ad_router :: "'r admin_router"

definition admin_engine_new ::
  "'r admin_router_ops \<Rightarrow> nat \<Rightarrow> admin_config \<Rightarrow> spectra_config \<Rightarrow> (string \<rightharpoonup> socket_addr) \<Rightarrow> (string \<times> route_config) list
     \<Rightarrow> 'r admin_engine" where
  "admin_engine_new ro now config cfg ups routes =
     \<lparr>ad_config = config, ad_start_time = now, ad_default_upstream_addr = up_addr (gql_upstream cfg),
      ad_default_upstream_name = up_name (gql_upstream cfg), ad_named_upstreams = ups, ad_routes = routes,
      ad_broker_method = disp_method (gql_dispatch cfg), ad_broker_addr = disp_addr (gql_dispatch cfg),
      ad_mode_a_enabled = ma_enabled (gql_mode_a (cfg_gql cfg)),
      ad_mode_a_dispatch_policy = policy_as_str (ma_dispatch_policy (gql_mode_a (cfg_gql cfg))),
      ad_mode_a_timeout_ms = ma_timeout_ms (gql_mode_a (cfg_gql cfg)),
      ad_apps = map (\<lambda>a. \<lparr>as_id = app_id a, as_name = (if app_name a = [] then app_id a else app_name a),
                          as_domains = domains a, as_upstream = app_upstream a\<rparr>) (cfg_apps cfg),
      ad_router = admin_router_new ro (path_prefix config)\<rparr>"

text \<open>The trait \<open>ConfigStore\<close> as its methods.\<close>

record 's store_ops =
  so_load :: "'s \<Rightarrow> string option result"
  so_save :: "'s \<Rightarrow> string \<Rightarrow> unit result \<times> 's"
  so_backend_name :: string
  so_descriptor :: string

text \<open>\<open>ae_upstream_order\<close> and \<open>ae_target_order\<close> are the orders in which hash maps yield their keys.\<close>

record ('p, 'm, 'c, 's, 'r, 'k, 't, 'f) admin_env =
  ae_ie :: "('p, 'm, 'c) int_env"
  ae_parse_ip :: "string \<Rightarrow> ip_addr option"
  ae_show_ip :: "ip_addr \<Rightarrow> string"
  ae_socket_ip :: "ip_addr option"
  ae_router :: "'r admin_router_ops"
  ae_parse_config :: "string \<Rightarrow> spectra_config result"
  ae_update_request :: "string \<Rightarrow> (string \<times> bool option) option"
  ae_validate_request :: "string \<Rightarrow> string option"
  ae_report :: "string \<Rightarrow> worker_report result"
  ae_store :: "'s store_ops option"
  ae_resolve :: "string \<Rightarrow> socket_addr list result"
  ae_sha256_hex :: "string \<Rightarrow> string"
  ae_now_ms :: u64
  ae_now_secs :: nat
  ae_instant :: nat
  ae_upstream_order :: "(string \<rightharpoonup> socket_addr) \<Rightarrow> string list"
  ae_target_order :: "(string \<rightharpoonup> string) \<Rightarrow> string list"
  ae_post :: "string \<Rightarrow> upstream_answer result"
  ae_show_status :: "nat \<Rightarrow> string"
  ae_sink :: "('k, 't, 'f) sink_env"
  ae_show_json :: "json \<Rightarrow> string"
  ae_utf8_error :: "string \<Rightarrow> string"
  ae_to_vec :: "'f admin_body \<Rightarrow> string"
  ae_idempotency :: idempotency_response
  ae_hub :: hub
  ae_version :: string
  ae_html :: string
  ae_favicon :: string

text \<open>What handlers share and may change; \<open>aw_state\<close> is the dynamic state with its plugins, if the
  engine has one.\<close>

record ('p, 'm, 's, 'k, 'f) admin_world =
  aw_state :: "(('p, 'm) gateway_state \<times> 'm plugins) option"
  aw_store :: 's
  aw_recorder :: "'f recorder"
  aw_registry :: worker_registry
  aw_coverage :: "'f schema_coverage option"
  aw_inspector :: "'k inspector"

text \<open>A client that is gone when the answer is written changes nothing.\<close>

definition respond_json :: "('f admin_body \<Rightarrow> string) \<Rightarrow> nat \<Rightarrow> 'f admin_body \<Rightarrow> 'f admin_response" where
  "respond_json to_vec status body =
     \<lparr>ar_status = status,
      ar_headers = [(''content-type'', ''application/json''), (''content-length'', show_nat (length (to_vec body))),
                    (''cache-control'', ''no-store'')],
      ar_body = body\<rparr>"

definition error_body :: "string \<Rightarrow> string \<Rightarrow> 'f admin_body" where
  "error_body err msg = Message (JObject [(''error'', JString err), (''message'', JString msg)])"

text \<open>The loop over the chunks of a body: it stops after the chunk that passes the limit.\<close>

fun read_capped :: "nat \<Rightarrow> string \<Rightarrow> string result list \<Rightarrow> string result" where
  "read_capped limit acc [] = Inr acc"
| "read_capped limit acc (Inl e # cs) = Inl e"
| "read_capped limit acc (Inr c # cs) =
     (if limit < length (acc @ c) then Inr (acc @ c) else read_capped limit (acc @ c) cs)"

section \<open>Handlers\<close>

definition unauthorized_body :: "'f admin_body" where
  "unauthorized_body = error_body ''Unauthorized''
     ''Missing or invalid admin authorization token (set SPECTRA_ADMIN_TOKEN or provide valid Authorization: Bearer <token>)''"

type_synonym ('p, 'm, 's, 'k, 'f) handled = "'f admin_response result \<times> ('p, 'm, 's, 'k, 'f) admin_world"

definition answer ::
  "('p, 'm, 'c, 's, 'r, 'k, 't, 'f) admin_env \<Rightarrow> nat \<Rightarrow> 'f admin_body \<Rightarrow> ('p, 'm, 's, 'k, 'f) admin_world
     \<Rightarrow> ('p, 'm, 's, 'k, 'f) handled" where
  "answer ae status body w = (Inr (respond_json (ae_to_vec ae) status body), w)"

abbreviation authorized ::
  "('p, 'm, 'c, 's, 'r, 'k, 't, 'f) admin_env \<Rightarrow> 'r admin_engine \<Rightarrow> http_parts \<Rightarrow> bool" where
  "authorized ae en req \<equiv> is_write_authorized (ie_env (ae_ie ae)) (ad_config en) req"

definition handle_forbidden where
  "handle_forbidden ae client w =
     answer ae 403 (error_body ''Forbidden'' (''Access denied for IP '' @ quoted (ae_show_ip ae client)
       @ ''. Configure allowed_ips in spectra.toml to grant access.'')) w"

definition handle_favicon ::
  "('p, 'm, 'c, 's, 'r, 'k, 't, 'f) admin_env \<Rightarrow> ('p, 'm, 's, 'k, 'f) admin_world \<Rightarrow> ('p, 'm, 's, 'k, 'f) handled" where
  "handle_favicon ae w =
     (Inr \<lparr>ar_status = 200,
           ar_headers = [(''content-type'', ''image/svg+xml''), (''content-length'', show_nat (length (ae_favicon ae))),
                         (''cache-control'', ''public, max-age=86400, immutable'')],
           ar_body = Page (ae_favicon ae)\<rparr>, w)"

definition handle_dashboard ::
  "('p, 'm, 'c, 's, 'r, 'k, 't, 'f) admin_env \<Rightarrow> 'r admin_engine \<Rightarrow> ('p, 'm, 's, 'k, 'f) admin_world
     \<Rightarrow> ('p, 'm, 's, 'k, 'f) handled" where
  "handle_dashboard ae en w =
     (if enable_ui (ad_config en) then
        (Inr \<lparr>ar_status = 200,
              ar_headers = [(''content-type'', ''text/html; charset=utf-8''), (''content-length'', show_nat (length (ae_html ae)))],
              ar_body = Page (ae_html ae)\<rparr>, w)
      else answer ae 404 (error_body ''Not Found'' ''Admin UI is disabled in spectra.toml (enable_ui = false)'') w)"

definition handle_status ::
  "('p, 'm, 'c, 's, 'r, 'k, 't, 'f) admin_env \<Rightarrow> 'r admin_engine \<Rightarrow> ('p, 'm, 's, 'k, 'f) admin_world
     \<Rightarrow> ('p, 'm, 's, 'k, 'f) handled" where
  "handle_status ae en w =
     (let count = (\<lambda>routes. length (filter (\<lambda>r. r_mode r = AsyncCommandReceipt) (map snd routes)));
          (async_count, enabled, policy, timeout, apps) =
            (case aw_state w of
               Some (st, _) \<Rightarrow>
                 (count (gs_routes st), ma_enabled (gs_mode_a st), policy_as_str (ma_dispatch_policy (gs_mode_a st)),
                  ma_timeout_ms (gs_mode_a st),
                  map (\<lambda>a. \<lparr>as_id = app_id a, as_name = app_name a, as_domains = domains a, as_upstream = app_upstream a\<rparr>)
                    (gs_apps st))
             | None \<Rightarrow> (count (ad_routes en), ad_mode_a_enabled en, ad_mode_a_dispatch_policy en,
                        ad_mode_a_timeout_ms en, ad_apps en))
      in answer ae 200 (StatusBody
           \<lparr>st_version = ae_version ae, st_uptime_seconds = (ae_instant ae - ad_start_time en) div 1000000000,
            st_sync_enabled = enabled, st_sync_dispatch_policy = policy, st_sync_timeout_ms = timeout,
            st_async_routes_count = async_count, st_mode_a_enabled = enabled, st_mode_a_dispatch_policy = policy,
            st_mode_a_timeout_ms = timeout, st_mode_b_routes_count = async_count,
            st_broker_method = ad_broker_method en, st_broker_addr = ad_broker_addr en, st_broker_status = ''online'',
            st_apps = apps, st_auth_required = auth_required (ie_env (ae_ie ae)) (ad_config en)\<rparr>) w)"

definition route_entry_of ::
  "'r admin_engine \<Rightarrow> (string \<rightharpoonup> socket_addr) \<Rightarrow> string \<Rightarrow> string \<times> route_config \<Rightarrow> route_entry" where
  "route_entry_of en ups policy nr =
     (let r = snd nr; target_name = unwrap_or (route_upstream r) ''default'';
          (dispatch, override) =
            (case r_mode r of
               AsyncCommandReceipt \<Rightarrow> (''event_sink'', False)
             | SyncUpstreamExecution \<Rightarrow>
                 (case route_dispatch_policy r of Some p \<Rightarrow> (policy_as_str p, True) | None \<Rightarrow> (policy, False)))
      in \<lparr>re_name = fst nr, re_operation = r_operation r, re_mode = display_name (r_mode r), re_upstream = target_name,
          re_upstream_addr = unwrap_or (ups target_name) (ad_default_upstream_addr en),
          re_receipt_status = receipt_status r, re_enabled = route_enabled r, re_dispatch_policy = dispatch,
          re_is_policy_override = override, re_interceptors = route_interceptors r\<rparr>)"

definition handle_routes ::
  "('p, 'm, 'c, 's, 'r, 'k, 't, 'f) admin_env \<Rightarrow> 'r admin_engine \<Rightarrow> ('p, 'm, 's, 'k, 'f) admin_world
     \<Rightarrow> ('p, 'm, 's, 'k, 'f) handled" where
  "handle_routes ae en w =
     (let (routes, ups, policy) =
            (case aw_state w of
               Some (st, _) \<Rightarrow> (gs_routes st, named_upstreams st, policy_as_str (ma_dispatch_policy (gs_mode_a st)))
             | None \<Rightarrow> (ad_routes en, ad_named_upstreams en, ad_mode_a_dispatch_policy en))
      in answer ae 200 (RoutesBody
           \<lparr>rr_default_upstream = ad_default_upstream_name en,
            rr_default_upstream_addr = unwrap_or (ups ''default'') (ad_default_upstream_addr en),
            rr_named_upstreams = sort_key fst (map (\<lambda>n. (n, the (ups n))) (ae_upstream_order ae ups)),
            rr_routes = sort_key re_name (map (route_entry_of en ups policy) routes)\<rparr>) w)"

text \<open>The inspector is given the routes of the engine, not those of the dynamic state.\<close>

definition schema_refresh ::
  "('p, 'm, 'c, 's, 'r, 'k, 't, 'f) admin_env \<Rightarrow> 'r admin_engine \<Rightarrow> (string \<times> json) list \<Rightarrow> string
     \<Rightarrow> ('p, 'm, 's, 'k, 'f) admin_world \<Rightarrow> ('p, 'm, 's, 'k, 'f) handled" where
  "schema_refresh ae en extra title w =
     (let url = ''http://'' @ ad_default_upstream_addr en @ ''/graphql'';
          (r, cached) = refresh_coverage (sv_f64 (ae_sink ae)) (ae_now_secs ae) (ae_post ae) (ae_show_status ae)
                          (ie_from_str (ae_ie ae)) url (ad_routes en) (aw_coverage w);
          w' = w\<lparr>aw_coverage := cached\<rparr>
      in case r of
           Inr coverage \<Rightarrow> answer ae 200 (CoverageBody coverage) w'
         | Inl err \<Rightarrow>
             answer ae 502 (Message (JObject ([(''error'', JString title), (''details'', JString err),
               (''upstream_url'', JString url)] @ extra))) w')"

definition handle_schema ::
  "('p, 'm, 'c, 's, 'r, 'k, 't, 'f) admin_env \<Rightarrow> 'r admin_engine \<Rightarrow> ('p, 'm, 's, 'k, 'f) admin_world
     \<Rightarrow> ('p, 'm, 's, 'k, 'f) handled" where
  "handle_schema ae en w =
     (case aw_coverage w of
        Some coverage \<Rightarrow> answer ae 200 (CoverageBody coverage) w
      | None \<Rightarrow>
          schema_refresh ae en
            [(''suggestion'', JString ''Ensure the upstream GraphQL service is running and accessible.'')]
            ''Upstream Introspection Unavailable'' w)"

definition handle_schema_refresh ::
  "('p, 'm, 'c, 's, 'r, 'k, 't, 'f) admin_env \<Rightarrow> 'r admin_engine \<Rightarrow> ('p, 'm, 's, 'k, 'f) admin_world
     \<Rightarrow> ('p, 'm, 's, 'k, 'f) handled" where
  "handle_schema_refresh ae en w = schema_refresh ae en [] ''Introspection Refresh Failed'' w"

definition handle_subscriptions ::
  "('p, 'm, 'c, 's, 'r, 'k, 't, 'f) admin_env \<Rightarrow> ('p, 'm, 's, 'k, 'f) admin_world \<Rightarrow> ('p, 'm, 's, 'k, 'f) handled" where
  "handle_subscriptions ae w =
     answer ae 200 (SubscriptionsBody
       \<lparr>sr_enabled = True, sr_active_connections = active_connection_count (ae_hub ae), sr_topic_prefix = ''spectra'',
        sr_active_topics_count = length (active_topics (ae_hub ae)), sr_active_topics = active_topics (ae_hub ae)\<rparr>) w"

definition handle_idempotency ::
  "('p, 'm, 'c, 's, 'r, 'k, 't, 'f) admin_env \<Rightarrow> ('p, 'm, 's, 'k, 'f) admin_world \<Rightarrow> ('p, 'm, 's, 'k, 'f) handled" where
  "handle_idempotency ae w = answer ae 200 (IdempotencyBody (ae_idempotency ae)) w"

text \<open>A worker that reports to the registry is listed as a consumer unless the broker names it.\<close>

definition merge_worker :: "worker_summary \<Rightarrow> consumer_metrics list \<Rightarrow> consumer_metrics list" where
  "merge_worker wk cs =
     (if list_ex (\<lambda>c. cm_name c = ws_worker_id wk) cs then cs
      else cs @ [\<lparr>cm_name = ws_worker_id wk, cm_stream_name = ws_stream wk,
        cm_created = ''via Telemetry API (uptime '' @ show_nat (unat (ws_uptime_seconds wk)) @ ''s)'',
        cm_filter_subject = Some (ws_stream wk @ ''.*''), cm_num_pending = 0, cm_num_ack_pending = 0,
        cm_num_redelivered = 0, cm_num_waiting = 0, cm_ack_floor_seq = 0,
        cm_last_delivered_seq = ws_processed_events wk, cm_push_bound = (ws_status wk \<noteq> ''offline''),
        cm_status = Some (ws_status wk)\<rparr>])"

definition handle_eventsink ::
  "('p, 'm, 'c, 's, 'r, 'k, 't, 'f) admin_env \<Rightarrow> ('p, 'm, 's, 'k, 'f) admin_world \<Rightarrow> ('p, 'm, 's, 'k, 'f) handled" where
  "handle_eventsink ae w =
     (let (resp, i) = inspect (ae_sink ae) (ae_instant ae) (aw_inspector w);
          workers = get_active_workers_with_filter (ae_instant ae) None (aw_registry w)
      in answer ae 200 (SinkBody (resp\<lparr>es_consumers := fold merge_worker workers (es_consumers resp)\<rparr>))
           (w\<lparr>aw_inspector := i\<rparr>))"

fun find_map :: "('a \<Rightarrow> 'b option) \<Rightarrow> 'a list \<Rightarrow> 'b option" where
  "find_map f [] = None"
| "find_map f (x # xs) = (case f x of Some y \<Rightarrow> Some y | None \<Rightarrow> find_map f xs)"

definition app_param :: "http_parts \<Rightarrow> string option" where
  "app_param req =
     Option.bind (uri_query req) (\<lambda>q.
       find_map (\<lambda>pair. case split_on CHR ''='' pair of
                           k # v # _ \<Rightarrow> if k = ''app'' then Some v else None
                         | _ \<Rightarrow> None) (split_on CHR ''&'' q))"

definition handle_traffic ::
  "('p, 'm, 'c, 's, 'r, 'k, 't, 'f) admin_env \<Rightarrow> http_parts \<Rightarrow> ('p, 'm, 's, 'k, 'f) admin_world
     \<Rightarrow> ('p, 'm, 's, 'k, 'f) handled" where
  "handle_traffic ae req w =
     answer ae 200 (TrafficBody (get_response_with_filter (sv_f64 (ae_sink ae)) 50 (app_param req) (aw_recorder w))) w"

definition handle_traffic_clear ::
  "('p, 'm, 'c, 's, 'r, 'k, 't, 'f) admin_env \<Rightarrow> ('p, 'm, 's, 'k, 'f) admin_world \<Rightarrow> ('p, 'm, 's, 'k, 'f) handled" where
  "handle_traffic_clear ae w =
     answer ae 200 (Message (JObject [(''status'', JString ''cleared'')])) (w\<lparr>aw_recorder := traffic_clear (aw_recorder w)\<rparr>)"

definition handle_telemetry_report ::
  "('p, 'm, 'c, 's, 'r, 'k, 't, 'f) admin_env \<Rightarrow> string result list \<Rightarrow> ('p, 'm, 's, 'k, 'f) admin_world
     \<Rightarrow> ('p, 'm, 's, 'k, 'f) handled" where
  "handle_telemetry_report ae chunks w =
     (case read_capped (1024 * 1024) [] chunks of
        Inl e \<Rightarrow> (Inl e, w)
      | Inr body \<Rightarrow>
          (case ae_report ae body of
             Inr report \<Rightarrow>
               answer ae 200 (Message (JObject [(''status'', JString ''accepted'')]))
                 (w\<lparr>aw_registry := record_report (ae_instant ae) report (aw_registry w)\<rparr>)
           | Inl e \<Rightarrow>
               answer ae 400 (Message (JObject [(''error'', JString ''Invalid telemetry report JSON''), (''details'', JString e)])) w))"

definition consumer_as_worker :: "string \<Rightarrow> consumer_metrics \<Rightarrow> worker_summary" where
  "consumer_as_worker broker_type c =
     \<lparr>ws_worker_id = cm_name c, ws_app_id = None, ws_sink = broker_type, ws_stream = cm_stream_name c,
      ws_status = unwrap_or (cm_status c) (compute_status c), ws_uptime_seconds = 0,
      ws_processed_events = cm_ack_floor_seq c, ws_total_errors = word_of_nat (cm_num_redelivered c),
      ws_last_seen_secs_ago = 0\<rparr>"

definition handle_workers ::
  "('p, 'm, 'c, 's, 'r, 'k, 't, 'f) admin_env \<Rightarrow> http_parts \<Rightarrow> ('p, 'm, 's, 'k, 'f) admin_world
     \<Rightarrow> ('p, 'm, 's, 'k, 'f) handled" where
  "handle_workers ae req w =
     (let workers = get_active_workers_with_filter (ae_instant ae) (app_param req) (aw_registry w)
      in if workers = [] then
           (let (resp, i) = inspect (ae_sink ae) (ae_instant ae) (aw_inspector w)
            in answer ae 200 (WorkersBody (map (consumer_as_worker (es_broker_type resp)) (es_consumers resp)))
                 (w\<lparr>aw_inspector := i\<rparr>))
         else answer ae 200 (WorkersBody workers) w)"

definition handle_not_found ::
  "('p, 'm, 'c, 's, 'r, 'k, 't, 'f) admin_env \<Rightarrow> string \<Rightarrow> ('p, 'm, 's, 'k, 'f) admin_world
     \<Rightarrow> ('p, 'm, 's, 'k, 'f) handled" where
  "handle_not_found ae path w =
     answer ae 404 (Message (JObject [(''error'', JString ''Not Found''), (''path'', JString path),
       (''available_endpoints'', JArray (map JString
          [''/admin'', ''/admin/api/v1/status'', ''/admin/api/v1/auth/verify'', ''/admin/api/v1/eventsink'',
           ''/admin/api/v1/traffic'', ''/admin/api/v1/traffic/clear'', ''/admin/api/v1/workers'',
           ''/admin/api/v1/workers/:id/logs'', ''/admin/api/v1/telemetry/report'', ''/admin/api/v1/routes'',
           ''/admin/api/v1/schema'', ''/admin/api/v1/schema/refresh'', ''/admin/api/v1/subscriptions'',
           ''/admin/api/v1/idempotency'', ''/admin/api/v1/config'', ''/admin/api/v1/config/validate'',
           ''/admin/api/v1/config/reload'', ''/admin/api/v1/dns'', ''/admin/api/v1/dns/rescan'']))])) w"

definition handle_worker_logs ::
  "('p, 'm, 'c, 's, 'r, 'k, 't, 'f) admin_env \<Rightarrow> string \<Rightarrow> ('p, 'm, 's, 'k, 'f) admin_world
     \<Rightarrow> ('p, 'm, 's, 'k, 'f) handled" where
  "handle_worker_logs ae wid w =
     (if wid = [] then handle_not_found ae (''/admin/api/v1/workers/'' @ wid @ ''/logs'') w
      else
        (case get_worker_logs (ae_instant ae) wid 100 (aw_registry w) of
           Some logs \<Rightarrow> answer ae 200 (WorkerLogsBody logs) w
         | None \<Rightarrow>
             (let (r, i) = query_worker_logs (sv_nats (ae_sink ae)) (ae_show_json ae) (ae_utf8_error ae)
                             (ie_from_str (ae_ie ae)) wid 100 (aw_inspector w);
                  w' = w\<lparr>aw_inspector := i\<rparr>
              in case r of
                   Inr v \<Rightarrow> answer ae 200 (Message v) w'
                 | Inl err \<Rightarrow>
                     answer ae 502 (Message (JObject [(''workerId'', JString wid), (''status'', JString ''unavailable''),
                       (''error'', JString err)])) w')))"

definition handle_config_get ::
  "('p, 'm, 'c, 's, 'r, 'k, 't, 'f) admin_env \<Rightarrow> ('p, 'm, 's, 'k, 'f) admin_world \<Rightarrow> ('p, 'm, 's, 'k, 'f) handled" where
  "handle_config_get ae w =
     (let backend = (case ae_store ae of Some so \<Rightarrow> so_backend_name so | None \<Rightarrow> ''memory'');
          descriptor = (case ae_store ae of Some so \<Rightarrow> so_descriptor so | None \<Rightarrow> ''in-memory (ephemeral)'');
          (ver, updated, hash, content) =
            (case aw_state w of
               Some (st, _) \<Rightarrow> (gs_version st, updated_at_epoch_ms st, config_hash st, gs_raw_config st)
             | None \<Rightarrow>
                 (1, 0, [], case ae_store ae of
                              Some so \<Rightarrow> (case so_load so (aw_store w) of Inr (Some c) \<Rightarrow> c | _ \<Rightarrow> [])
                            | None \<Rightarrow> []))
      in answer ae 200 (ConfigBody \<lparr>cr_backend = backend, cr_descriptor = descriptor, cr_version = ver,
           cr_updated_at_epoch_ms = updated, cr_hash = hash, cr_content = content\<rparr>) w)"

definition handle_config_validate ::
  "('p, 'm, 'c, 's, 'r, 'k, 't, 'f) admin_env \<Rightarrow> string result list \<Rightarrow> ('p, 'm, 's, 'k, 'f) admin_world
     \<Rightarrow> ('p, 'm, 's, 'k, 'f) handled" where
  "handle_config_validate ae chunks w =
     (let invalid = (\<lambda>e. ValidateBody \<lparr>vr_valid = False, vr_errors = [e], vr_warnings = [], vr_summary = None\<rparr>)
      in case read_capped (2 * 1024 * 1024) [] chunks of
           Inl e \<Rightarrow> (Inl e, w)
         | Inr body \<Rightarrow>
             (case or_else (ae_validate_request ae body) (from_utf8 body) of
                None \<Rightarrow> answer ae 400 (invalid ''Request body is neither valid JSON nor valid UTF-8'') w
              | Some content \<Rightarrow>
                  (case ae_parse_config ae content of
                     Inl e \<Rightarrow> answer ae 200 (invalid e) w
                   | Inr cfg \<Rightarrow>
                       (let resolution = (case resolve_all_upstreams_with_targets (ae_resolve ae) cfg of
                                            Inl e \<Rightarrow> [''Upstream resolution warning: '' @ e] | Inr _ \<Rightarrow> []);
                            disabled = map (\<lambda>(n, r). ''Route '' @ quoted n @ '' ('' @ r_operation r @ '') is disabled'')
                                         (filter (\<lambda>(_, r). \<not> route_enabled r) (gql_routes (cfg_gql cfg)))
                        in answer ae 200 (ValidateBody \<lparr>vr_valid = True, vr_errors = [],
                             vr_warnings = resolution @ disabled,
                             vr_summary = Some \<lparr>cs_apps_count = length (cfg_apps cfg),
                               cs_routes_count = length (gql_routes (cfg_gql cfg)),
                               cs_named_upstreams_count = length (cfg_upstreams cfg),
                               cs_interceptors_count = length (cfg_interceptors cfg),
                               cs_broker_method = disp_method (gql_dispatch cfg),
                               cs_broker_addr = disp_addr (gql_dispatch cfg)\<rparr>\<rparr>) w))))"

text \<open>Loading a configuration into the dynamic state, with the version one up.\<close>

definition install_config ::
  "('p, 'm, 'c, 's, 'r, 'k, 't, 'f) admin_env \<Rightarrow> spectra_config \<Rightarrow> string \<Rightarrow> ('p, 'm) gateway_state
     \<Rightarrow> (('p, 'm) gateway_state \<times> 'm plugins) result" where
  "install_config ae cfg content prev =
     new_from_config (ae_ie ae) (ae_resolve ae) (ae_sha256_hex ae) (ae_now_ms ae) cfg content (gs_version prev + 1)"

definition handle_config_update ::
  "('p, 'm, 'c, 's, 'r, 'k, 't, 'f) admin_env \<Rightarrow> 'r admin_engine \<Rightarrow> http_parts \<Rightarrow> string result list
     \<Rightarrow> ('p, 'm, 's, 'k, 'f) admin_world \<Rightarrow> ('p, 'm, 's, 'k, 'f) handled" where
  "handle_config_update ae en req chunks w =
     (if \<not> authorized ae en req then answer ae 401 unauthorized_body w
      else
        (case read_capped (2 * 1024 * 1024) [] chunks of
           Inl e \<Rightarrow> (Inl e, w)
         | Inr body \<Rightarrow>
             (case (case ae_update_request ae body of
                      Some (content, reload) \<Rightarrow> Some (content, unwrap_or reload True)
                    | None \<Rightarrow> map_option (\<lambda>s. (s, True)) (from_utf8 body)) of
                None \<Rightarrow> answer ae 400 (error_body ''Bad Request'' ''Request body is neither valid JSON nor valid UTF-8'') w
              | Some (content, reload) \<Rightarrow>
                  (case ae_parse_config ae content of
                     Inl e \<Rightarrow> answer ae 400 (error_body ''Invalid Configuration'' (''Configuration parsing error: '' @ e)) w
                   | Inr cfg \<Rightarrow>
                       (case (case ae_store ae of
                                Some so \<Rightarrow> so_save so (aw_store w) content
                              | None \<Rightarrow> (Inr (), aw_store w)) of
                          (Inl e, s) \<Rightarrow>
                            answer ae 500 (error_body ''Storage Error'' (''Failed to persist configuration to store: '' @ e))
                              (w\<lparr>aw_store := s\<rparr>)
                        | (Inr _, s) \<Rightarrow>
                            (let w1 = w\<lparr>aw_store := s\<rparr>;
                                 done = (\<lambda>ver hash updated w'.
                                   answer ae 200 (UpdateBody \<lparr>ur_success = True, ur_version = ver, ur_hash = hash,
                                     ur_updated_at_epoch_ms = updated, ur_reloaded = reload,
                                     ur_message = (if reload then ''Configuration saved and runtime hot-reloaded successfully''
                                                   else ''Configuration saved to store (hot-reload skipped)'')\<rparr>) w')
                             in case aw_state w of
                                  None \<Rightarrow> done 1 ''untracked'' 0 w1
                                | Some (st, _) \<Rightarrow>
                                    if \<not> reload then done (gs_version st) (config_hash st) (updated_at_epoch_ms st) w1
                                    else
                                      (case install_config ae cfg content st of
                                         Inr (st', ps') \<Rightarrow>
                                           done (gs_version st') (config_hash st') (updated_at_epoch_ms st')
                                             (w1\<lparr>aw_state := Some (st', ps')\<rparr>)
                                       | Inl e \<Rightarrow>
                                           answer ae 500 (error_body ''Reload Error''
                                             (''Configuration saved to store, but hot-reload failed: '' @ e)) w1)))))))"

definition handle_config_reload ::
  "('p, 'm, 'c, 's, 'r, 'k, 't, 'f) admin_env \<Rightarrow> 'r admin_engine \<Rightarrow> http_parts
     \<Rightarrow> ('p, 'm, 's, 'k, 'f) admin_world \<Rightarrow> ('p, 'm, 's, 'k, 'f) handled" where
  "handle_config_reload ae en req w =
     (if \<not> authorized ae en req then answer ae 401 unauthorized_body w
      else
        (case ae_store ae of
           None \<Rightarrow> answer ae 400 (error_body ''No Config Store''
                     ''No persistent config store is configured on this gateway instance'') w
         | Some so \<Rightarrow>
             (case so_load so (aw_store w) of
                Inl e \<Rightarrow> answer ae 500 (error_body ''Storage Error'' (''Failed to read configuration from store: '' @ e)) w
              | Inr None \<Rightarrow> answer ae 404 (error_body ''Not Found'' ''No configuration found in persistent store'') w
              | Inr (Some content) \<Rightarrow>
                  (case ae_parse_config ae content of
                     Inl e \<Rightarrow> answer ae 500 (error_body ''Invalid Configuration In Store''
                               (''Configuration in store failed parsing: '' @ e)) w
                   | Inr cfg \<Rightarrow>
                       (let done = (\<lambda>ver hash updated w'.
                              answer ae 200 (UpdateBody \<lparr>ur_success = True, ur_version = ver, ur_hash = hash,
                                ur_updated_at_epoch_ms = updated, ur_reloaded = True,
                                ur_message = ''Configuration reloaded from store and hot-swapped into gateway runtime''\<rparr>) w')
                        in case aw_state w of
                             None \<Rightarrow> done 1 ''untracked'' 0 w
                           | Some (st, _) \<Rightarrow>
                               (case install_config ae cfg content st of
                                  Inr (st', ps') \<Rightarrow>
                                    done (gs_version st') (config_hash st') (updated_at_epoch_ms st')
                                      (w\<lparr>aw_state := Some (st', ps')\<rparr>)
                                | Inl e \<Rightarrow> answer ae 500 (error_body ''Reload Error''
                                            (''Failed to apply configuration from store: '' @ e)) w))))))"

definition handle_dns_status ::
  "('p, 'm, 'c, 's, 'r, 'k, 't, 'f) admin_env \<Rightarrow> ('p, 'm, 's, 'k, 'f) admin_world \<Rightarrow> ('p, 'm, 's, 'k, 'f) handled" where
  "handle_dns_status ae w =
     answer ae 200 (DnsStatusBody
       (case aw_state w of
          Some (st, _) \<Rightarrow>
            (let order = ae_target_order ae (upstream_targets st);
                 (enabled, interval, entries) = get_dns_status order st
             in \<lparr>ds_enabled = enabled, ds_interval_secs = interval, ds_total_upstreams = length order, ds_upstreams = entries\<rparr>)
        | None \<Rightarrow> \<lparr>ds_enabled = False, ds_interval_secs = 0, ds_total_upstreams = 0, ds_upstreams = []\<rparr>)) w"

text \<open>The rescan has no error of its own.\<close>

definition handle_dns_rescan ::
  "('p, 'm, 'c, 's, 'r, 'k, 't, 'f) admin_env \<Rightarrow> 'r admin_engine \<Rightarrow> http_parts
     \<Rightarrow> ('p, 'm, 's, 'k, 'f) admin_world \<Rightarrow> ('p, 'm, 's, 'k, 'f) handled" where
  "handle_dns_rescan ae en req w =
     (if \<not> authorized ae en req then answer ae 401 unauthorized_body w
      else
        (case aw_state w of
           Some (st, ps) \<Rightarrow>
             (let (resp, st') = rescan_dns (ae_resolve ae) (ae_target_order ae (upstream_targets st)) (ae_now_ms ae) st
              in answer ae 200 (DnsRescanBody resp) (w\<lparr>aw_state := Some (st', ps)\<rparr>))
         | None \<Rightarrow> answer ae 500 (error_body ''No Dynamic State'' ''Dynamic gateway state is not initialized'') w))"

definition handle_auth_verify ::
  "('p, 'm, 'c, 's, 'r, 'k, 't, 'f) admin_env \<Rightarrow> 'r admin_engine \<Rightarrow> http_parts
     \<Rightarrow> ('p, 'm, 's, 'k, 'f) admin_world \<Rightarrow> ('p, 'm, 's, 'k, 'f) handled" where
  "handle_auth_verify ae en req w =
     (let required = auth_required (ie_env (ae_ie ae)) (ad_config en)
      in if authorized ae en req then
           answer ae 200 (Message (JObject [(''authenticated'', JBool True), (''auth_required'', JBool required),
             (''message'', JString (if required then ''Admin token verified successfully''
                                  else ''Admin write operations open (no SPECTRA_ADMIN_TOKEN configured)''))])) w
         else
           answer ae 401 (Message (JObject [(''authenticated'', JBool False), (''auth_required'', JBool required),
             (''error'', JString ''Unauthorized''),
             (''message'', JString ''Missing or invalid admin authorization token (set SPECTRA_ADMIN_TOKEN or provide valid Authorization: Bearer <token>)'')])) w)"

section \<open>Dispatch\<close>

fun handle_route ::
  "('p, 'm, 'c, 's, 'r, 'k, 't, 'f) admin_env \<Rightarrow> 'r admin_engine \<Rightarrow> http_parts \<Rightarrow> string result list
     \<Rightarrow> admin_route \<Rightarrow> (string \<times> string) list \<Rightarrow> ('p, 'm, 's, 'k, 'f) admin_world \<Rightarrow> ('p, 'm, 's, 'k, 'f) handled" where
  "handle_route ae en req chunks Dashboard params w = handle_dashboard ae en w"
| "handle_route ae en req chunks Favicon params w = handle_favicon ae w"
| "handle_route ae en req chunks Status params w = handle_status ae en w"
| "handle_route ae en req chunks Routes params w = handle_routes ae en w"
| "handle_route ae en req chunks Schema params w = handle_schema ae en w"
| "handle_route ae en req chunks SchemaRefresh params w = handle_schema_refresh ae en w"
| "handle_route ae en req chunks SubscriptionsRoute params w = handle_subscriptions ae w"
| "handle_route ae en req chunks IdempotencyRoute params w = handle_idempotency ae w"
| "handle_route ae en req chunks Eventsink params w = handle_eventsink ae w"
| "handle_route ae en req chunks Traffic params w = handle_traffic ae req w"
| "handle_route ae en req chunks TrafficClear params w = handle_traffic_clear ae w"
| "handle_route ae en req chunks TelemetryReport params w = handle_telemetry_report ae chunks w"
| "handle_route ae en req chunks Workers params w = handle_workers ae req w"
| "handle_route ae en req chunks WorkerLogs params w = handle_worker_logs ae (unwrap_or (map_of params ''id'') []) w"
| "handle_route ae en req chunks ConfigGet params w = handle_config_get ae w"
| "handle_route ae en req chunks ConfigValidate params w = handle_config_validate ae chunks w"
| "handle_route ae en req chunks ConfigUpdate params w = handle_config_update ae en req chunks w"
| "handle_route ae en req chunks ConfigReload params w = handle_config_reload ae en req w"
| "handle_route ae en req chunks DnsStatus params w = handle_dns_status ae w"
| "handle_route ae en req chunks DnsRescan params w = handle_dns_rescan ae en req w"
| "handle_route ae en req chunks AuthVerify params w = handle_auth_verify ae en req w"

definition handle_request ::
  "('p, 'm, 'c, 's, 'r, 'k, 't, 'f) admin_env \<Rightarrow> 'r admin_engine \<Rightarrow> http_parts \<Rightarrow> string result list
     \<Rightarrow> ('p, 'm, 's, 'k, 'f) admin_world \<Rightarrow> ('p, 'm, 's, 'k, 'f) handled" where
  "handle_request ae en req chunks w =
     (let client = extract_client_ip (ae_parse_ip ae) (ae_socket_ip ae) req
      in if \<not> is_ip_allowed (ae_parse_ip ae) client (allowed_ips (ad_config en)) then handle_forbidden ae client w
         else
           (case admin_match_route (ae_router ae) (ad_router en) (http_method req) (uri_path req) of
              Some (route, params) \<Rightarrow> handle_route ae en req chunks route params w
            | None \<Rightarrow> handle_not_found ae (uri_path req) w))"

text \<open>\<open>AdminFilter::handle\<close>: \<open>None\<close> passes the request on.\<close>

definition admin_filter_handle ::
  "('p, 'm, 'c, 's, 'r, 'k, 't, 'f) admin_env \<Rightarrow> 'r admin_engine option \<Rightarrow> http_parts \<Rightarrow> string result list
     \<Rightarrow> ('p, 'm, 's, 'k, 'f) admin_world \<Rightarrow> 'f admin_response result option \<times> ('p, 'm, 's, 'k, 'f) admin_world" where
  "admin_filter_handle ae admin req chunks w =
     (case admin of
        Some en \<Rightarrow>
          if is_admin_request (Some (ad_config en)) (uri_path req)
          then (let (r, w') = handle_request ae en req chunks w in (Some r, w')) else (None, w)
      | None \<Rightarrow> (None, w))"

section \<open>Properties\<close>

lemmas handler_defs = answer_def handle_forbidden_def handle_favicon_def handle_dashboard_def handle_status_def
  handle_routes_def schema_refresh_def handle_schema_def handle_schema_refresh_def handle_subscriptions_def
  handle_idempotency_def handle_eventsink_def handle_traffic_def handle_traffic_clear_def handle_telemetry_report_def
  handle_workers_def handle_not_found_def handle_worker_logs_def handle_config_get_def handle_config_validate_def
  handle_dns_status_def handle_auth_verify_def

lemma handle_route_state:
  assumes "route \<notin> {ConfigUpdate, ConfigReload, DnsRescan}"
  shows "aw_state (snd (handle_route ae en req chunks route params w)) = aw_state w"
    and "aw_store (snd (handle_route ae en req chunks route params w)) = aw_store w"
  using assms
  by (cases route; simp add: handler_defs Let_def split: option.splits sum.splits prod.splits)+

lemma handle_route_unauthorized:
  assumes "\<not> authorized ae en req"
  shows "aw_state (snd (handle_route ae en req chunks route params w)) = aw_state w"
    and "aw_store (snd (handle_route ae en req chunks route params w)) = aw_store w"
proof -
  have "aw_state (snd (handle_route ae en req chunks route params w)) = aw_state w
      \<and> aw_store (snd (handle_route ae en req chunks route params w)) = aw_store w"
  proof (cases "route \<in> {ConfigUpdate, ConfigReload, DnsRescan}")
    case True
    with assms show ?thesis
      by (auto simp: handle_config_update_def handle_config_reload_def handle_dns_rescan_def answer_def)
  qed (simp add: handle_route_state)
  then show "aw_state (snd (handle_route ae en req chunks route params w)) = aw_state w"
    and "aw_store (snd (handle_route ae en req chunks route params w)) = aw_store w" by simp_all
qed

lemma handle_request_cases:
  "snd (handle_request ae en req chunks w) = w
   \<or> is_ip_allowed (ae_parse_ip ae) (extract_client_ip (ae_parse_ip ae) (ae_socket_ip ae) req) (allowed_ips (ad_config en))
     \<and> (\<exists>route params. admin_match_route (ae_router ae) (ad_router en) (http_method req) (uri_path req) = Some (route, params)
          \<and> handle_request ae en req chunks w = handle_route ae en req chunks route params w)"
  by (auto simp: handle_request_def Let_def handle_forbidden_def handle_not_found_def answer_def
      split: option.splits prod.splits)

text \<open>A request that changes the configuration in force or the stored one came from an address the
  allowlist admits and carried the write token, when one is configured.\<close>

lemma write_guard:
  assumes "aw_state (snd (handle_request ae en req chunks w)) \<noteq> aw_state w
      \<or> aw_store (snd (handle_request ae en req chunks w)) \<noteq> aw_store w"
  shows "is_ip_allowed (ae_parse_ip ae) (extract_client_ip (ae_parse_ip ae) (ae_socket_ip ae) req) (allowed_ips (ad_config en))
    \<and> (if auth_required (ie_env (ae_ie ae)) (ad_config en)
       then \<exists>p t. provided_token (headers req) = Some p
          \<and> expected_token (ie_env (ae_ie ae)) (ad_config en) = Some t \<and> trim p = trim t
       else True)"
proof -
  have "snd (handle_request ae en req chunks w) \<noteq> w" using assms by auto
  then obtain route params where h: "handle_request ae en req chunks w = handle_route ae en req chunks route params w"
    and ip: "is_ip_allowed (ae_parse_ip ae) (extract_client_ip (ae_parse_ip ae) (ae_socket_ip ae) req) (allowed_ips (ad_config en))"
    using handle_request_cases [of ae en req chunks w] by blast
  then have "authorized ae en req"
    using assms handle_route_unauthorized by metis
  with ip show ?thesis using write_authorized_iff by blast
qed

lemma get_routes_handlers:
  "route \<in> {Dashboard, Favicon} \<union> snd ` set get_routes \<Longrightarrow>
   route \<notin> {ConfigUpdate, ConfigReload, DnsRescan, TrafficClear, TelemetryReport}"
  by (auto simp: get_routes_def)

lemma handle_route_collected:
  assumes "route \<notin> {TrafficClear, TelemetryReport}"
  shows "aw_recorder (snd (handle_route ae en req chunks route params w)) = aw_recorder w"
    and "aw_registry (snd (handle_route ae en req chunks route params w)) = aw_registry w"
  using assms
  by (cases route; simp add: handler_defs handle_config_update_def handle_config_reload_def handle_dns_rescan_def Let_def
      split: option.splits sum.splits prod.splits)+

text \<open>Reading is harmless.  A request with the verb GET changes neither the configuration in force
  nor the stored one nor the recorded traffic nor the worker registry, and a request with a verb
  other than GET, POST and PUT changes nothing at all, provided the path router returns only
  what was inserted.\<close>

theorem admin_get_read_only:
  assumes "router_sound (ae_router ae)"
    and "ad_router en = admin_router_new (ae_router ae) (path_prefix (ad_config en))"
  shows "let w' = snd (handle_request ae en req chunks w)
         in (if http_method req = ''GET'' then
               aw_state w' = aw_state w \<and> aw_store w' = aw_store w \<and> aw_recorder w' = aw_recorder w \<and> aw_registry w' = aw_registry w
             else http_method req \<in> {''POST'', ''PUT''} \<or> w' = w)"
proof (cases "snd (handle_request ae en req chunks w) = w")
  case False
  then obtain route params where
    m: "admin_match_route (ae_router ae) (ad_router en) (http_method req) (uri_path req) = Some (route, params)"
    and h: "handle_request ae en req chunks w = handle_route ae en req chunks route params w"
    using handle_request_cases [of ae en req chunks w] by blast
  note by_verb = matched_by_method [OF assms(1) m [unfolded assms(2)]]
  show ?thesis
  proof (cases "http_method req = ''GET''")
    case True
    with by_verb have "route \<in> {Dashboard, Favicon} \<union> snd ` set get_routes" by auto
    then have "route \<notin> {ConfigUpdate, ConfigReload, DnsRescan, TrafficClear, TelemetryReport}"
      by (rule get_routes_handlers)
    with True h show ?thesis by (simp add: handle_route_state handle_route_collected)
  next
    case other: False
    with by_verb show ?thesis by auto
  qed
qed simp

lemma install_config_result:
  "install_config ae cfg content st = Inr (st', ps') \<Longrightarrow>
   gs_raw_config st' = content \<and> gs_version st' = gs_version st + 1 \<and> config_hash st' = ae_sha256_hex ae content"
  by (auto simp: install_config_def new_from_config_def split: sum.splits prod.splits)

text \<open>What a request for a configuration update brings: the text, and whether it is to be put in force.\<close>

definition submission ::
  "('p, 'm, 'c, 's, 'r, 'k, 't, 'f) admin_env \<Rightarrow> string result list \<Rightarrow> (string \<times> bool) option" where
  "submission ae chunks =
     (case read_capped (2 * 1024 * 1024) [] chunks of
        Inl e \<Rightarrow> None
      | Inr body \<Rightarrow>
          (case ae_update_request ae body of
             Some (content, reload) \<Rightarrow> Some (content, unwrap_or reload True)
           | None \<Rightarrow> map_option (\<lambda>s. (s, True)) (from_utf8 body)))"

definition submitted_text :: "('p, 'm, 'c, 's, 'r, 'k, 't, 'f) admin_env \<Rightarrow> string result list \<Rightarrow> string option" where
  "submitted_text ae chunks =
     (case read_capped (2 * 1024 * 1024) [] chunks of
        Inl e \<Rightarrow> None
      | Inr body \<Rightarrow> (case ae_update_request ae body of Some (content, _) \<Rightarrow> Some content | None \<Rightarrow> from_utf8 body))"

lemma submitted_text_submission: "submitted_text ae chunks = map_option fst (submission ae chunks)"
  by (auto simp: submitted_text_def submission_def option.map_comp comp_def option.map_ident split: sum.split option.split)

text \<open>The handler with the submission in place of the decoding.\<close>

lemma config_update_refused:
  assumes "handle_config_update ae en req chunks w = (Inr r, w')"
    and "submission ae chunks = None \<or> (\<exists>content reload e. submission ae chunks = Some (content, reload) \<and> ae_parse_config ae content = Inl e)
      \<or> \<not> authorized ae en req"
  shows "ar_status r \<noteq> 200 \<and> w' = w"
  using assms
  by (auto simp: handle_config_update_def submission_def answer_def respond_json_def Let_def
      split: if_splits option.splits sum.splits)

lemma config_update_accepted:
  assumes "handle_config_update ae en req chunks w = (Inr r, w')" "authorized ae en req"
    and "submission ae chunks = Some (content, reload)" "ae_parse_config ae content = Inr cfg"
    and "ae_store ae = Some so" "so_save so (aw_store w) content = (res, s)"
  shows "aw_store w' = s
    \<and> (case res of
         Inl e \<Rightarrow> ar_status r = 500 \<and> aw_state w' = aw_state w
       | Inr _ \<Rightarrow>
           (case aw_state w of
              None \<Rightarrow> ar_status r = 200 \<and> aw_state w' = aw_state w
            | Some (st, ps) \<Rightarrow>
                if \<not> reload then ar_status r = 200 \<and> aw_state w' = aw_state w
                else case install_config ae cfg content st of
                  Inr (st', ps') \<Rightarrow> ar_status r = 200 \<and> aw_state w' = Some (st', ps')
                | Inl e \<Rightarrow> ar_status r = 500 \<and> aw_state w' = aw_state w))"
  using assms
  by (auto simp: handle_config_update_def submission_def answer_def respond_json_def Let_def
      split: if_splits option.splits sum.splits prod.splits)

text \<open>C16. The outcome of a configuration update, with a store in which a successful save is what is loaded next;
  a failed save may do anything to it.  An answer of success means that the submitted text parses and is now
  the stored one; unless the request declined the reload or the console is not attached to a proxy, the
  state in force is the one built from this very text, with the version one up, and otherwise it
  is as before.  Any other answer leaves the state in force alone; the store is then as before, or
  as a failed save of the submitted text left it, or it holds that text and no state could be
  built from it.\<close>

theorem config_update_outcome:
  assumes "ae_store ae = Some so"
    and saved: "\<forall>s c s'. so_save so s c = (Inr (), s') \<longrightarrow> so_load so s' = Inr (Some c)"
    and "handle_config_update ae en req chunks w = (Inr r, w')"
  shows "if ar_status r = 200 then
           \<exists>content reload cfg. submission ae chunks = Some (content, reload) \<and> ae_parse_config ae content = Inr cfg
             \<and> so_load so (aw_store w') = Inr (Some content)
             \<and> (case aw_state w of
                  Some (st, ps) \<Rightarrow>
                    if reload then \<exists>st' ps'. aw_state w' = Some (st', ps') \<and> install_config ae cfg content st = Inr (st', ps')
                      \<and> gs_raw_config st' = content \<and> gs_version st' = gs_version st + 1
                    else aw_state w' = aw_state w
                | None \<Rightarrow> aw_state w' = None)
         else aw_state w' = aw_state w
           \<and> (aw_store w' = aw_store w
              \<or> (\<exists>content reload cfg. submission ae chunks = Some (content, reload) \<and> ae_parse_config ae content = Inr cfg
                   \<and> ((\<exists>e. so_save so (aw_store w) content = (Inl e, aw_store w'))
                      \<or> (\<exists>st ps e. reload \<and> aw_state w = Some (st, ps) \<and> so_load so (aw_store w') = Inr (Some content)
                           \<and> install_config ae cfg content st = Inl e))))"
proof (cases "\<exists>content reload cfg. authorized ae en req \<and> submission ae chunks = Some (content, reload)
    \<and> ae_parse_config ae content = Inr cfg")
  case False
  then have "submission ae chunks = None \<or> (\<exists>content reload e. submission ae chunks = Some (content, reload) \<and> ae_parse_config ae content = Inl e)
      \<or> \<not> authorized ae en req"
    by (metis old.sum.exhaust option.exhaust surj_pair)
  with config_update_refused [OF assms(3)] show ?thesis by simp
next
  case True
  then obtain content reload cfg where auth: "authorized ae en req"
    and sub: "submission ae chunks = Some (content, reload)" and cfg: "ae_parse_config ae content = Inr cfg"
    by blast
  obtain res s where sv: "so_save so (aw_store w) content = (res, s)" by fastforce
  note out = config_update_accepted [OF assms(3) auth sub cfg assms(1) sv]
  show ?thesis
  proof (cases res)
    case (Inl e)
    with out sub cfg sv show ?thesis by auto
  next
    case (Inr u)
    then have load: "so_load so (aw_store w') = Inr (Some content)" using saved sv out by simp
    show ?thesis
    proof (cases "aw_state w")
      case None
      with out Inr sub cfg load show ?thesis by auto
    next
      case (Some sp)
      obtain st ps where sp: "aw_state w = Some (st, ps)" using Some by (cases sp) simp
      show ?thesis
      proof (cases "install_config ae cfg content st")
        case (Inl e)
        with out Inr sub cfg load sp show ?thesis by (cases reload) auto
      next
        case (Inr sp')
        obtain st' ps' where i: "install_config ae cfg content st = Inr (st', ps')" using Inr by (cases sp') simp
        with out \<open>res = Inr u\<close> sub cfg load sp install_config_result [OF i] show ?thesis by (cases reload) auto
      qed
    qed
  qed
qed

text \<open>All that can happen to the store.\<close>

lemma config_update_stores:
  "aw_store (snd (handle_config_update ae en req chunks w)) = aw_store w
   \<or> (\<exists>content cfg so. submitted_text ae chunks = Some content \<and> ae_parse_config ae content = Inr cfg
        \<and> ae_store ae = Some so
        \<and> aw_store (snd (handle_config_update ae en req chunks w)) = snd (so_save so (aw_store w) content))"
  by (auto simp: handle_config_update_def submitted_text_def answer_def respond_json_def Let_def
      split: option.splits sum.splits prod.splits if_splits)

lemma handle_request_stores:
  "aw_store (snd (handle_request ae en req chunks w)) = aw_store w
   \<or> (\<exists>content cfg so. submitted_text ae chunks = Some content \<and> ae_parse_config ae content = Inr cfg
        \<and> ae_store ae = Some so
        \<and> aw_store (snd (handle_request ae en req chunks w)) = snd (so_save so (aw_store w) content))"
proof (cases "snd (handle_request ae en req chunks w) = w")
  case False
  then obtain route params where h: "handle_request ae en req chunks w = handle_route ae en req chunks route params w"
    using handle_request_cases [of ae en req chunks w] by blast
  have reload: "aw_store (snd (handle_config_reload ae en req w)) = aw_store w"
      "aw_store (snd (handle_dns_rescan ae en req w)) = aw_store w"
    by (auto simp: handle_config_reload_def handle_dns_rescan_def answer_def Let_def split: option.splits sum.splits prod.splits)
  show ?thesis
  proof (cases "route = ConfigUpdate")
    case True
    with h config_update_stores [of ae en req chunks w] show ?thesis by simp
  next
    case False
    then have "aw_store (snd (handle_route ae en req chunks route params w)) = aw_store w"
      using reload handle_route_state(2) [of route ae en req chunks params w] by (cases route) auto
    with h show ?thesis by simp
  qed
qed simp

text \<open>What was stored without a reload is what a later reload puts in force.\<close>

lemma staged_update_applied:
  assumes "ae_store ae = Some so" and "authorized ae en req" and "so_load so (aw_store w) = Inr (Some content)"
    and "ae_parse_config ae content = Inr cfg" and "aw_state w = Some (st, ps)"
    and "install_config ae cfg content st = Inr (st', ps')"
  shows "aw_state (snd (handle_config_reload ae en req w)) = Some (st', ps') \<and> gs_raw_config st' = content"
  using assms install_config_result [OF assms(6)] by (simp add: handle_config_reload_def answer_def)

section \<open>Findings\<close>

text \<open>The filter compares with the prefix as written, the router with the cleaned one: with a slash at the
  end, or with the prefix \<open>/\<close>, the console cannot be reached under the paths it is routed at.\<close>

lemma prefix_slash_unreachable:
  "\<not> is_admin_request (Some (default_admin\<lparr>admin_enabled := True, path_prefix := ''/console/''\<rparr>)) ''/console/api/v1/status''
   \<and> clean_prefix ''/console/'' = ''/console''
   \<and> \<not> is_admin_request (Some (default_admin\<lparr>admin_enabled := True, path_prefix := ''/''\<rparr>)) ''/admin/api/v1/status''
   \<and> clean_prefix ''/'' = ''/admin''"
  by code_simp

text \<open>A body beyond the limit is cut after a chunk and used as if it were whole.\<close>

lemma oversized_body_cut:
  "limit < length (a @ b) \<Longrightarrow> length a \<le> limit \<Longrightarrow> read_capped limit [] (Inr a # Inr b # rest) = Inr (a @ b)"
  by simp

text \<open>Clearing the traffic and reporting as a worker need no token.\<close>

lemma clear_needs_no_token:
  "aw_recorder (snd (handle_route ae en req chunks TrafficClear params w)) = traffic_clear (aw_recorder w)"
  by (simp add: handle_traffic_clear_def answer_def)

text \<open>The configuration, with whatever secrets its text has, is served to any admitted address.\<close>

lemma config_text_served:
  assumes "aw_state w = Some (st, ps)"
  shows "\<exists>c hs. fst (handle_route ae en req chunks ConfigGet params w) = Inr \<lparr>ar_status = 200, ar_headers = hs, ar_body = ConfigBody c\<rparr>
     \<and> cr_content c = gs_raw_config st"
  using assms by (simp add: handle_config_get_def answer_def respond_json_def Let_def)

text \<open>A reload that happens while a rescan is under way is undone by it: the rescan writes back the state it
  started from, with the version it had.\<close>

lemma rescan_undoes_reload:
  assumes "install_config ae cfg content st = Inr (st', ps')"
  shows "gs_version (snd (rescan_dns resolve order now st)) = gs_version st
     \<and> gs_raw_config (snd (rescan_dns resolve order now st)) = gs_raw_config st \<and> gs_version st' = gs_version st + 1"
  using install_config_result [OF assms] by (simp add: rescan_dns_def Let_def split: prod.split)

section \<open>Examples\<close>

text \<open>A router that knows exact paths.\<close>

definition exact_router :: "(string \<times> admin_route) list admin_router_ops" where
  "exact_router = \<lparr>ro_empty = [], ro_insert = (\<lambda>r p v. if p \<in> set (map fst r) then None else Some ((p, v) # r)),
     ro_at = (\<lambda>r p. map_option (\<lambda>v. (v, [])) (map_of r p))\<rparr>"

lemma exact_router_sound: "router_sound exact_router"
proof -
  have sub: "set (fold (try_insert exact_router) routes r) \<subseteq> set routes \<union> set r" for routes r
  proof (induction routes arbitrary: r)
    case (Cons x routes)
    have "set (try_insert exact_router x r) \<subseteq> insert x (set r)"
      by (auto simp: try_insert_def exact_router_def)
    then show ?case using Cons [of "try_insert exact_router x r"] by auto
  qed simp
  show ?thesis
    unfolding router_sound_def
  proof (intro allI impI)
    fix routes path v params
    assume "ro_at exact_router (fold (try_insert exact_router) routes (ro_empty exact_router)) path = Some (v, params)"
    then have "(path, v) \<in> set (fold (try_insert exact_router) routes [])"
      by (auto simp: exact_router_def dest: map_of_SomeD)
    then have "(path, v) \<in> set routes" using sub [of routes "[]"] by auto
    then show "v \<in> snd ` set routes" by force
  qed
qed

definition unit_f64 :: "unit f64_ops" where
  "unit_f64 = \<lparr>f_of = (\<lambda>_. ()), f_add = (\<lambda>_ _. ()), f_mul = (\<lambda>_ _. ()), f_div = (\<lambda>_ _. ()), f_max = (\<lambda>_ _. ()),
     f_round = id, f_to_u64 = (\<lambda>_. 0)\<rparr>"

definition sample_sink :: "(unit, unit, unit) sink_env" where
  "sample_sink = \<lparr>sv_f64 = unit_f64, sv_fmt2 = (\<lambda>_. []), sv_json_f64 = (\<lambda>_. JNull),
     sv_nats = \<lparr>no_connect = (\<lambda>_. Inl []), no_get_stream = (\<lambda>_ _. Inl []), no_get_info = (\<lambda>_. Inl []),
       no_consumers = (\<lambda>_. []), no_request = (\<lambda>_ _ _. None)\<rparr>,
     sv_resp = \<lparr>rp_connect = Inl [], rp_ping = Inl [], rp_xlen = Inl []\<rparr>,
     sv_iggy = \<lparr>ip_build = Inl [], ip_connect = Inl [], ip_stream = Inl []\<rparr>,
     sv_rabbit = \<lparr>rb_connect = Inl [], rb_channel = Inl [], rb_queue = Inl []\<rparr>,
     sv_kafka = \<lparr>kp_client = Inl [], kp_partition = Inl [], kp_offset = Inl []\<rparr>,
     sv_webhook = Inl [], sv_webhook_latency = (), sv_cut = None\<rparr>"

definition memory_store_ops :: "string option store_ops" where
  "memory_store_ops = \<lparr>so_load = memory_load, so_save = memory_save, so_backend_name = ''memory'', so_descriptor = ''in-memory''\<rparr>"

definition sample_admin_env ::
  "(string, unit, unit, string option, (string \<times> admin_route) list, unit, unit, unit) admin_env" where
  "sample_admin_env =
     \<lparr>ae_ie = toy_env, ae_parse_ip = (\<lambda>s. if s = ''127.0.0.1'' then Some (V4 0x7F000001) else None),
      ae_show_ip = (\<lambda>_. []), ae_socket_ip = None, ae_router = exact_router,
      ae_parse_config = (\<lambda>s. if s = ''ok'' then Inr sample_config else Inl ''syntax''),
      ae_update_request = (\<lambda>_. None), ae_validate_request = (\<lambda>_. None), ae_report = (\<lambda>_. Inl []),
      ae_store = Some memory_store_ops, ae_resolve = (\<lambda>s. Inr [s]), ae_sha256_hex = id, ae_now_ms = 9, ae_now_secs = 0,
      ae_instant = 0, ae_upstream_order = (\<lambda>_. []), ae_target_order = (\<lambda>_. []), ae_post = (\<lambda>_. Inl []),
      ae_show_status = show_nat, ae_sink = sample_sink, ae_show_json = (\<lambda>_. []), ae_utf8_error = (\<lambda>_. []),
      ae_to_vec = (\<lambda>_. []), ae_idempotency = \<lparr>ir_backend = [], ir_ttl_secs = 0, ir_max_capacity = 0, ir_active_records = 0\<rparr>,
      ae_hub = hub_new, ae_version = [], ae_html = [], ae_favicon = []\<rparr>"

definition sample_engine :: "(string \<times> admin_route) list admin_engine" where
  "sample_engine = admin_engine_new exact_router 0 (default_admin\<lparr>admin_enabled := True, deploy_token := Some ''s3cret''\<rparr>)
     sample_config Map.empty []"

definition sample_admin_world :: "(string, unit, string option, unit, unit) admin_world" where
  "sample_admin_world =
     \<lparr>aw_state = Some (gateway_state_default, Map.empty), aw_store = None, aw_recorder = recorder_new 0,
      aw_registry = worker_registry_default, aw_coverage = None, aw_inspector = inspector_new ''nats'' ''n:4222''\<rparr>"

definition update_request :: "string \<Rightarrow> string \<Rightarrow> http_parts" where
  "update_request mtd token = \<lparr>http_method = mtd, uri = [], uri_path = ''/admin/api/v1/config'', uri_query = None,
     http_version = ''HTTP/1.1'', headers = [(''x-real-ip'', ''127.0.0.1''), (''authorization'', ''Bearer '' @ token)]\<rparr>"

lemma sample_authorized: "authorized sample_admin_env sample_engine (update_request mtd ''s3cret'')"
proof -
  have "headers (update_request mtd ''s3cret'') = headers (update_request [] ''s3cret'')"
    by (simp add: update_request_def)
  moreover have "authorized sample_admin_env sample_engine (update_request [] ''s3cret'')" by code_simp
  ultimately show ?thesis by (simp only: write_authorized_iff)
qed

lemma sample_installs: "\<exists>x. install_config sample_admin_env sample_config ''ok'' gateway_state_default = Inr x"
proof -
  have "\<not> isl (new_from_config toy_env (\<lambda>s. Inr [s]) id 9 sample_config ''ok'' 2)" by code_simp
  then show ?thesis
    by (cases "new_from_config toy_env (\<lambda>s. Inr [s]) id 9 sample_config ''ok'' 2")
      (simp_all add: install_config_def sample_admin_env_def gateway_state_default_def)
qed

lemma sample_update:
  "\<exists>r w'. handle_config_update sample_admin_env sample_engine (update_request mtd ''s3cret'') [Inr ''ok''] sample_admin_world = (Inr r, w')
     \<and> ar_status r = 200 \<and> aw_store w' = Some ''ok''"
proof -
  obtain st' ps' where i: "install_config sample_admin_env sample_config ''ok'' gateway_state_default = Inr (st', ps')"
    using sample_installs by (auto simp del: split_paired_Ex)
  have e: "ae_store sample_admin_env = Some memory_store_ops" "ae_parse_config sample_admin_env ''ok'' = Inr sample_config"
      "ae_update_request sample_admin_env b = None" "from_utf8 ''ok'' = Some ''ok''" for b
    by (simp_all add: sample_admin_env_def) code_simp
  show ?thesis
    by (simp add: handle_config_update_def sample_authorized e i answer_def respond_json_def Let_def
        sample_admin_world_def memory_store_ops_def memory_save_def)
qed

lemma sample_request_reconfigures:
  "aw_store (snd (handle_request sample_admin_env sample_engine (update_request ''PUT'' ''s3cret'') [Inr ''ok'']
     sample_admin_world)) = Some ''ok''"
proof -
  have ip: "is_ip_allowed (ae_parse_ip sample_admin_env) (extract_client_ip (ae_parse_ip sample_admin_env)
      (ae_socket_ip sample_admin_env) (update_request ''PUT'' ''s3cret'')) (allowed_ips (ad_config sample_engine))"
    by code_simp
  have m: "admin_match_route (ae_router sample_admin_env) (ad_router sample_engine) ''PUT'' ''/admin/api/v1/config''
      = Some (ConfigUpdate, [])" by code_simp
  show ?thesis
    using ip m sample_update [of "''PUT''"] by (auto simp: handle_request_def update_request_def)
qed

theorem admin_get_read_only_witness:
  "aw_store (snd (handle_request sample_admin_env sample_engine (update_request ''GET'' ''s3cret'') [Inr ''ok''] sample_admin_world)) = None"
proof -
  have "router_sound (ae_router sample_admin_env)" by (simp add: sample_admin_env_def exact_router_sound)
  moreover have "ad_router sample_engine = admin_router_new (ae_router sample_admin_env) (path_prefix (ad_config sample_engine))"
    by (simp add: sample_engine_def admin_engine_new_def sample_admin_env_def)
  ultimately show ?thesis
    using admin_get_read_only [of sample_admin_env sample_engine "update_request ''GET'' ''s3cret''" "[Inr ''ok'']" sample_admin_world]
    by (simp add: Let_def update_request_def sample_admin_world_def)
qed

theorem config_update_outcome_witness:
  "\<exists>st' ps'. aw_state (snd (handle_config_update sample_admin_env sample_engine (update_request ''PUT'' ''s3cret'')
          [Inr ''ok''] sample_admin_world)) = Some (st', ps') \<and> gs_raw_config st' = ''ok''"
proof -
  obtain r w' where h: "handle_config_update sample_admin_env sample_engine (update_request ''PUT'' ''s3cret'') [Inr ''ok'']
      sample_admin_world = (Inr r, w')" and s: "ar_status r = 200"
    using sample_update by blast
  have st: "ae_store sample_admin_env = Some memory_store_ops" by (simp add: sample_admin_env_def)
  have law: "\<forall>s c s'. so_save memory_store_ops s c = (Inr (), s') \<longrightarrow> so_load memory_store_ops s' = Inr (Some c)"
    using memory_store.load_saved by (simp add: memory_store_ops_def)
  have sub: "submission sample_admin_env [Inr ''ok''] = Some (''ok'', True)"
  proof -
    have "from_utf8 ''ok'' = Some ''ok''" by code_simp
    then show ?thesis by (simp add: submission_def sample_admin_env_def)
  qed
  have aw: "aw_state sample_admin_world = Some (gateway_state_default, Map.empty)" by (simp add: sample_admin_world_def)
  note out = config_update_outcome [OF st law h, unfolded if_P [OF s] aw option.case prod.case]
  from out obtain content reload where c: "submission sample_admin_env [Inr ''ok''] = Some (content, reload)"
    and new: "reload \<longrightarrow> (\<exists>st' ps'. aw_state w' = Some (st', ps') \<and> gs_raw_config st' = content)"
    by (elim exE conjE) (auto split: if_splits)
  from c have "content = ''ok''" "reload = True" unfolding sub by simp_all
  with new obtain st' ps' where "aw_state w' = Some (st', ps')" "gs_raw_config st' = ''ok''" by blast
  then show ?thesis unfolding h snd_conv by blast
qed

end
