(* ===== verification/ConfigStores.thy ===== *)
theory ConfigStores
  imports Config
begin

text \<open>
  The remote back ends of \<open>core/config_store.rs\<close>: Redis and PostgreSQL, what opening one does, and
  the store a configuration names, with its three operations.

  The server is its contents; what it answers while an operation runs is an argument: whether it is
  reached, whether it executes the command, and whether a write whose answer is an error was
  applied all the same (the answer was lost).
\<close>

section \<open>Redis\<close>

record store_answers =
  sa_connect :: "unit result"
  sa_execute :: "unit result"
  sa_applied :: bool
  sa_now :: nat

record redis_store =
  rc_url :: string
  rc_key :: string

definition redis_store_new :: "(string \<Rightarrow> unit result) \<Rightarrow> string \<Rightarrow> string \<Rightarrow> redis_store result" where
  "redis_store_new open_url url key =
     (case with_context (''Failed to create Redis client for '' @ quoted (sanitize_url url)) (open_url url) of
        Inl e \<Rightarrow> Inl e
      | Inr _ \<Rightarrow> Inr \<lparr>rc_url = url, rc_key = key\<rparr>)"

definition redis_store_connect :: "store_answers \<Rightarrow> redis_store \<Rightarrow> unit result" where
  "redis_store_connect sa rc =
     with_context (''Failed to connect to Redis at '' @ quoted (sanitize_url (rc_url rc))) (sa_connect sa)"

definition redis_load_config :: "store_answers \<Rightarrow> redis_store \<Rightarrow> (string \<rightharpoonup> string) \<Rightarrow> string option result" where
  "redis_load_config sa rc db =
     (case redis_store_connect sa rc of
        Inl e \<Rightarrow> Inl e
      | Inr _ \<Rightarrow>
          (case with_context (''Failed to GET config from Redis key '' @ quoted (rc_key rc)) (sa_execute sa) of
             Inl e \<Rightarrow> Inl e
           | Inr _ \<Rightarrow> Inr (db (rc_key rc))))"

definition redis_save_config ::
  "store_answers \<Rightarrow> redis_store \<Rightarrow> (string \<rightharpoonup> string) \<Rightarrow> string \<Rightarrow> unit result \<times> (string \<rightharpoonup> string)" where
  "redis_save_config sa rc db content =
     (case redis_store_connect sa rc of
        Inl e \<Rightarrow> (Inl e, db)
      | Inr _ \<Rightarrow>
          (case with_context (''Failed to SET config in Redis key '' @ quoted (rc_key rc)) (sa_execute sa) of
             Inl e \<Rightarrow> (Inl e, if sa_applied sa then db(rc_key rc \<mapsto> content) else db)
           | Inr _ \<Rightarrow> (Inr (), db(rc_key rc \<mapsto> content))))"

section \<open>PostgreSQL\<close>

datatype pg_host = Tcp string | UnixSocket string
datatype ssl_mode = SslDisable | SslPrefer | SslRequire

record pg_config =
  pc_hosts :: "pg_host list"
  pc_ssl_mode :: ssl_mode

definition is_local :: "pg_config \<Rightarrow> bool" where
  "is_local pc =
     (case pc_hosts pc of
        Tcp h # _ \<Rightarrow> h = ''localhost'' \<or> h = ''127.0.0.1'' \<or> h = ''0.0.0.0''
      | _ \<Rightarrow> False)"

definition requires_tls :: "pg_config \<Rightarrow> bool" where
  "requires_tls pc =
     (case pc_ssl_mode pc of SslRequire \<Rightarrow> True | SslDisable \<Rightarrow> False | SslPrefer \<Rightarrow> \<not> is_local pc)"

record pg_store =
  ps_table :: string
  ps_key :: string
  ps_url :: string
  ps_tls :: bool

text \<open>The library reads the URL and builds the pool.\<close>

definition postgres_new ::
  "(string \<Rightarrow> pg_config result) \<Rightarrow> (bool \<Rightarrow> unit result) \<Rightarrow> string \<Rightarrow> string \<Rightarrow> string \<Rightarrow> pg_store result" where
  "postgres_new parse build_pool url table key =
     (case with_context (''Failed to parse database connection URL: '' @ sanitize_url url) (parse url) of
        Inl e \<Rightarrow> Inl e
      | Inr pc \<Rightarrow>
          (case with_context (if requires_tls pc then ''Failed to build PostgreSQL connection pool with TLS''
                              else ''Failed to build PostgreSQL connection pool with NoTls'')
                  (build_pool (requires_tls pc)) of
             Inl e \<Rightarrow> Inl e
           | Inr _ \<Rightarrow> Inr \<lparr>ps_table = table, ps_key = key, ps_url = url, ps_tls = requires_tls pc\<rparr>))"

record pg_row =
  pr_content :: string
  pr_version :: int
  pr_updated_at :: nat
  pr_updated_by :: "string option"

text \<open>The tables of the database by name, a table as its rows by primary key.\<close>

type_synonym pg_db = "string \<rightharpoonup> (string \<rightharpoonup> pg_row)"

definition create_table_if_not_exists :: "string \<Rightarrow> pg_db \<Rightarrow> pg_db" where
  "create_table_if_not_exists t db = (case db t of None \<Rightarrow> db(t \<mapsto> Map.empty) | Some _ \<Rightarrow> db)"

definition ensure_table :: "store_answers \<Rightarrow> pg_store \<Rightarrow> pg_db \<Rightarrow> unit result \<times> pg_db" where
  "ensure_table sa ps db =
     (case with_context ''Failed to obtain PostgreSQL connection to initialize config table'' (sa_connect sa) of
        Inl e \<Rightarrow> (Inl e, db)
      | Inr _ \<Rightarrow>
          (case with_context (''Failed to create config table '' @ quoted (ps_table ps)) (sa_execute sa) of
             Inl e \<Rightarrow> (Inl e, if sa_applied sa then create_table_if_not_exists (ps_table ps) db else db)
           | Inr _ \<Rightarrow> (Inr (), create_table_if_not_exists (ps_table ps) db)))"

text \<open>A query of a table that does not exist is an error of the server.\<close>

definition pg_load_config :: "store_answers \<Rightarrow> pg_store \<Rightarrow> pg_db \<Rightarrow> string option result" where
  "pg_load_config sa ps db =
     (case with_context ''Failed to obtain PostgreSQL connection for load_config'' (sa_connect sa) of
        Inl e \<Rightarrow> Inl e
      | Inr _ \<Rightarrow>
          (case with_context (''Failed to query config from PostgreSQL table '' @ quoted (ps_table ps))
                  (case db (ps_table ps) of None \<Rightarrow> Inl ''relation does not exist'' | Some rows \<Rightarrow>
                     (case sa_execute sa of Inl e \<Rightarrow> Inl e | Inr _ \<Rightarrow> Inr rows)) of
             Inl e \<Rightarrow> Inl e
           | Inr rows \<Rightarrow> Inr (map_option pr_content (rows (ps_key ps)))))"

text \<open>\<open>INSERT ... ON CONFLICT (key) DO UPDATE\<close>.\<close>

definition upsert :: "nat \<Rightarrow> string \<Rightarrow> string \<Rightarrow> (string \<rightharpoonup> pg_row) \<Rightarrow> (string \<rightharpoonup> pg_row)" where
  "upsert now key content rows =
     rows(key \<mapsto> \<lparr>pr_content = content,
                  pr_version = (case rows key of None \<Rightarrow> 1 | Some r \<Rightarrow> pr_version r + 1),
                  pr_updated_at = now, pr_updated_by = Some ''admin_control_plane''\<rparr>)"

definition pg_save_config :: "store_answers \<Rightarrow> pg_store \<Rightarrow> pg_db \<Rightarrow> string \<Rightarrow> unit result \<times> pg_db" where
  "pg_save_config sa ps db content =
     (case with_context ''Failed to obtain PostgreSQL connection for save_config'' (sa_connect sa) of
        Inl e \<Rightarrow> (Inl e, db)
      | Inr _ \<Rightarrow>
          (let msg = ''Failed to upsert config into PostgreSQL table '' @ quoted (ps_table ps)
           in case db (ps_table ps) of
                None \<Rightarrow> (Inl msg, db)
              | Some rows \<Rightarrow>
                  (let db' = db(ps_table ps \<mapsto> upsert (sa_now sa) (ps_key ps) content rows)
                   in case sa_execute sa of
                        Inl _ \<Rightarrow> (Inl msg, if sa_applied sa then db' else db)
                      | Inr _ \<Rightarrow> (Inr (), db'))))"

section \<open>The store a configuration names\<close>

text \<open>\<open>dyn ConfigStore\<close>; the contents of every back end together are the world the stores act on.\<close>

datatype open_store =
    OpenMemory
  | OpenFile path_buf
  | OpenRedis redis_store
  | OpenPostgres pg_store

record store_world =
  sw_memory :: "string option"
  sw_files :: files
  sw_redis :: "string \<rightharpoonup> string"
  sw_postgres :: pg_db

record store_libs =
  sl_io :: io_env
  sl_answers :: store_answers
  sl_open_url :: "string \<Rightarrow> unit result"
  sl_parse_url :: "string \<Rightarrow> pg_config result"
  sl_build_pool :: "bool \<Rightarrow> unit result"
  sl_split_path :: "string \<Rightarrow> path_buf"

fun backend_name :: "open_store \<Rightarrow> string" where
  "backend_name OpenMemory = ''memory''"
| "backend_name (OpenFile _) = ''file''"
| "backend_name (OpenRedis _) = ''redis''"
| "backend_name (OpenPostgres _) = ''postgres''"

text \<open>\<open>show_path\<close> is \<open>Path::display\<close>.\<close>

fun descriptor :: "(path_buf \<Rightarrow> string) \<Rightarrow> open_store \<Rightarrow> string" where
  "descriptor show_path OpenMemory = ''In-Memory (Ephemeral)''"
| "descriptor show_path (OpenFile p) = ''File / Volume Mount: '' @ quoted (show_path p)"
| "descriptor show_path (OpenRedis rc) =
     ''Redis: '' @ quoted (sanitize_url (rc_url rc)) @ '' (key: '' @ quoted (rc_key rc) @ '')''"
| "descriptor show_path (OpenPostgres ps) =
     ''PostgreSQL: '' @ quoted (sanitize_url (ps_url ps)) @ '' (table: '' @ quoted (ps_table ps)
       @ '', key: '' @ quoted (ps_key ps) @ '')''"

text \<open>The rest of \<open>ConfigStoreFactory::create\<close>: the chosen store is opened.\<close>

fun open_chosen :: "store_libs \<Rightarrow> store_choice \<Rightarrow> store_world \<Rightarrow> open_store result \<times> store_world" where
  "open_chosen sl MemoryStore w = (Inr OpenMemory, w\<lparr>sw_memory := None\<rparr>)"
| "open_chosen sl (FileStore p) w = (Inr (OpenFile (sl_split_path sl p)), w)"
| "open_chosen sl (RedisStore url key) w =
     (case redis_store_new (sl_open_url sl) url key of Inl e \<Rightarrow> (Inl e, w) | Inr rc \<Rightarrow> (Inr (OpenRedis rc), w))"
| "open_chosen sl (PostgresStore url table key) w =
     (case postgres_new (sl_parse_url sl) (sl_build_pool sl) url table key of
        Inl e \<Rightarrow> (Inl e, w)
      | Inr ps \<Rightarrow>
          (case ensure_table (sl_answers sl) ps (sw_postgres w) of
             (Inl e, db) \<Rightarrow> (Inl e, w\<lparr>sw_postgres := db\<rparr>)
           | (Inr _, db) \<Rightarrow> (Inr (OpenPostgres ps), w\<lparr>sw_postgres := db\<rparr>)))"

definition factory_create ::
  "bool \<Rightarrow> (string \<Rightarrow> string option) \<Rightarrow> store_libs \<Rightarrow> store_config \<Rightarrow> store_world \<Rightarrow> open_store result \<times> store_world" where
  "factory_create postgres_feature env sl c w =
     (case create_store postgres_feature env c of Inl e \<Rightarrow> (Inl e, w) | Inr ch \<Rightarrow> open_chosen sl ch w)"

fun load_config :: "store_libs \<Rightarrow> open_store \<Rightarrow> store_world \<Rightarrow> string option result" where
  "load_config sl OpenMemory w = memory_load (sw_memory w)"
| "load_config sl (OpenFile p) w = file_load (sl_io sl) p (sw_files w)"
| "load_config sl (OpenRedis rc) w = redis_load_config (sl_answers sl) rc (sw_redis w)"
| "load_config sl (OpenPostgres ps) w = pg_load_config (sl_answers sl) ps (sw_postgres w)"

fun save_config :: "store_libs \<Rightarrow> open_store \<Rightarrow> store_world \<Rightarrow> string \<Rightarrow> unit result \<times> store_world" where
  "save_config sl OpenMemory w c = (case memory_save (sw_memory w) c of (r, m) \<Rightarrow> (r, w\<lparr>sw_memory := m\<rparr>))"
| "save_config sl (OpenFile p) w c = (case file_save (sl_io sl) p (sw_files w) c of (r, f) \<Rightarrow> (r, w\<lparr>sw_files := f\<rparr>))"
| "save_config sl (OpenRedis rc) w c =
     (case redis_save_config (sl_answers sl) rc (sw_redis w) c of (r, d) \<Rightarrow> (r, w\<lparr>sw_redis := d\<rparr>))"
| "save_config sl (OpenPostgres ps) w c =
     (case pg_save_config (sl_answers sl) ps (sw_postgres w) c of (r, d) \<Rightarrow> (r, w\<lparr>sw_postgres := d\<rparr>))"

section \<open>The contract of a remote store\<close>

text \<open>Saves under changing answers, and the texts a later load may return: a save that succeeds
  leaves one, a save that fails may or may not have been applied.\<close>

fun run_saves :: "('e \<Rightarrow> 's \<Rightarrow> string \<Rightarrow> unit result \<times> 's) \<Rightarrow> 's \<Rightarrow> ('e \<times> string) list \<Rightarrow> 's" where
  "run_saves save s [] = s"
| "run_saves save s ((e, c) # cs) = run_saves save (snd (save e s c)) cs"

fun candidates ::
  "('e \<Rightarrow> 's \<Rightarrow> string \<Rightarrow> unit result \<times> 's) \<Rightarrow> 's \<Rightarrow> ('e \<times> string) list \<Rightarrow> string option set \<Rightarrow> string option set" where
  "candidates save s [] A = A"
| "candidates save s ((e, c) # cs) A =
     candidates save (snd (save e s c)) cs (if fst (save e s c) = Inr () then {Some c} else insert (Some c) A)"

locale remote_store =
  fixes load :: "'s \<Rightarrow> string option result"
    and save :: "'e \<Rightarrow> 's \<Rightarrow> string \<Rightarrow> unit result \<times> 's"
  assumes remote_saved: "save e s c = (Inr (), s') \<Longrightarrow> load s' = Inr (Some c)"
    and remote_unsure: "save e s c = (Inl err, s') \<Longrightarrow> load s' = load s \<or> load s' = Inr (Some c)"
begin

lemma load_candidate:
  assumes "load s = Inr l" "l \<in> A"
  shows "\<exists>l'. load (run_saves save s cs) = Inr l' \<and> l' \<in> candidates save s cs A"
  using assms
proof (induction cs arbitrary: s l A)
  case (Cons x cs)
  obtain e c where x: "x = (e, c)" by fastforce
  obtain r s' where sv: "save e s c = (r, s')" by fastforce
  have "\<exists>l1. load s' = Inr l1 \<and> l1 \<in> (if r = Inr () then {Some c} else insert (Some c) A)"
  proof (cases r)
    case (Inl err)
    with sv remote_unsure Cons.prems show ?thesis by fastforce
  next
    case (Inr u)
    with sv remote_saved show ?thesis by fastforce
  qed
  then obtain l1 where "load s' = Inr l1" "l1 \<in> (if r = Inr () then {Some c} else insert (Some c) A)" by blast
  from Cons.IH [OF this] show ?case using x sv by simp
qed auto

end

text \<open>A store whose failed saves change nothing is one of these.\<close>

sublocale config_store \<subseteq> remote_store
  by unfold_locales (auto dest: load_saved load_unsaved)

definition reached :: store_answers where
  "reached = \<lparr>sa_connect = Inr (), sa_execute = Inr (), sa_applied = True, sa_now = 0\<rparr>"

lemma redis_load_reached: "redis_load_config reached rc db = Inr (db (rc_key rc))"
  by (simp add: redis_load_config_def redis_store_connect_def with_context_def reached_def)

interpretation redis_remote: remote_store "redis_load_config reached rc" "\<lambda>sa. redis_save_config sa rc" for rc
  by unfold_locales (auto simp: redis_load_reached redis_save_config_def split: sum.splits if_splits)

lemma pg_load_reached:
  "pg_load_config reached ps db =
     (case db (ps_table ps) of
        None \<Rightarrow> Inl (''Failed to query config from PostgreSQL table '' @ quoted (ps_table ps))
      | Some rows \<Rightarrow> Inr (map_option pr_content (rows (ps_key ps))))"
  by (simp add: pg_load_config_def with_context_def reached_def split: option.splits)

interpretation pg_remote: remote_store "pg_load_config reached ps" "\<lambda>sa. pg_save_config sa ps" for ps
  by unfold_locales
    (auto simp: pg_load_reached pg_save_config_def upsert_def Let_def split: sum.splits option.splits if_splits)

text \<open>A store through its own part of the world.\<close>

definition healthy :: "(string \<Rightarrow> path_buf) \<Rightarrow> store_libs" where
  "healthy split =
     \<lparr>sl_io = \<lparr>can_read = True, can_create_dir = True, can_write = True, can_rename = True, torn_write = Some\<rparr>,
      sl_answers = reached, sl_open_url = (\<lambda>_. Inr ()),
      sl_parse_url = (\<lambda>_. Inr \<lparr>pc_hosts = [], pc_ssl_mode = SslDisable\<rparr>), sl_build_pool = (\<lambda>_. Inr ()),
      sl_split_path = split\<rparr>"

definition store_ok :: "open_store \<Rightarrow> bool" where
  "store_ok st = (case st of OpenFile p \<Rightarrow> with_extension ''tmp'' p \<noteq> p | _ \<Rightarrow> True)"

lemma save_outcome:
  assumes "store_ok st" "save_config sl st w c = (r, w')"
  shows "if r = Inr () then load_config (healthy sp) st w' = Inr (Some c)
    else load_config (healthy sp) st w' = load_config (healthy sp) st w
      \<or> load_config (healthy sp) st w' = Inr (Some c)"
proof (cases st)
  case (OpenFile p)
  then have "with_extension ''tmp'' p \<noteq> p" using assms(1) by (simp add: store_ok_def)
  from file_save_load [OF this, of "sl_io sl" "sw_files w" c] OpenFile assms(2) show ?thesis
    by (auto simp: file_load_def healthy_def split: prod.splits)
next
  case (OpenRedis rc)
  obtain r1 d where d: "redis_save_config (sl_answers sl) rc (sw_redis w) c = (r1, d)" by fastforce
  with OpenRedis assms(2) have "r1 = r" "w' = w\<lparr>sw_redis := d\<rparr>" by auto
  with OpenRedis d redis_remote.remote_saved [of "sl_answers sl" rc "sw_redis w" c d]
    redis_remote.remote_unsure [of "sl_answers sl" rc "sw_redis w" c _ d] show ?thesis
    by (cases r) (auto simp: healthy_def)
next
  case (OpenPostgres ps)
  obtain r1 d where d: "pg_save_config (sl_answers sl) ps (sw_postgres w) c = (r1, d)" by fastforce
  with OpenPostgres assms(2) have "r1 = r" "w' = w\<lparr>sw_postgres := d\<rparr>" by auto
  with OpenPostgres d pg_remote.remote_saved [of "sl_answers sl" ps "sw_postgres w" c d]
    pg_remote.remote_unsure [of "sl_answers sl" ps "sw_postgres w" c _ d] show ?thesis
    by (cases r) (auto simp: healthy_def)
qed (use assms(2) in \<open>auto simp: memory_load_def memory_save_def\<close>)

text \<open>The stores with a place for the temporary file are a remote store each: \<open>st\<close> stands for
  itself when it has one and for the memory otherwise.\<close>

definition guarded :: "open_store \<Rightarrow> open_store" where
  "guarded st = (if store_ok st then st else OpenMemory)"

lemma guarded_ok [simp]: "store_ok (guarded st)" "store_ok st \<Longrightarrow> guarded st = st"
  by (simp_all add: guarded_def) (simp add: store_ok_def)

interpretation any_store: remote_store "load_config (healthy sp) (guarded st)" "\<lambda>sl. save_config sl (guarded st)" for sp st
proof
  show "save_config sl (guarded st) w c = (Inr (), w') \<Longrightarrow> load_config (healthy sp) (guarded st) w' = Inr (Some c)"
    for sl w c w'
    using save_outcome [of "guarded st" sl w c "Inr ()" w' sp] by simp
  show "save_config sl (guarded st) w c = (Inl e, w') \<Longrightarrow>
      load_config (healthy sp) (guarded st) w' = load_config (healthy sp) (guarded st) w
      \<or> load_config (healthy sp) (guarded st) w' = Inr (Some c)" for sl w c e w'
    using save_outcome [of "guarded st" sl w c "Inl e" w' sp] by simp
qed

text \<open>C31. Whatever back end holds the configuration and however its saves fail, with lost answers and
  interrupted writes included, what a later load of a reachable store returns is one of the saved texts in
  full: the text of the last save that was reported as done or of one attempted after it
  (or, when none was reported as done, possibly the text from before).\<close>

theorem stored_text_is_a_saved_one:
  assumes "store_ok st" "load_config (healthy sp) st w = Inr l"
  shows "\<exists>l'. load_config (healthy sp) st (run_saves (\<lambda>sl. save_config sl st) w saves) = Inr l'
     \<and> l' \<in> candidates (\<lambda>sl. save_config sl st) w saves {l}"
  using any_store.load_candidate [of sp st w l "{l}" saves] assms by simp

definition sample_redis :: open_store where
  "sample_redis = OpenRedis \<lparr>rc_url = ''redis://r'', rc_key = ''active''\<rparr>"

definition sample_world :: store_world where
  "sample_world = \<lparr>sw_memory = None, sw_files = Map.empty, sw_redis = Map.empty, sw_postgres = Map.empty\<rparr>"

definition lost_answer :: "(string \<Rightarrow> path_buf) \<Rightarrow> store_libs" where
  "lost_answer sp = (healthy sp)\<lparr>sl_answers := reached\<lparr>sa_execute := Inl ''timed out''\<rparr>\<rparr>"

theorem stored_text_is_a_saved_one_witness:
  "\<exists>l'. load_config (healthy (Pair [])) sample_redis
       (run_saves (\<lambda>sl. save_config sl sample_redis) sample_world [(healthy (Pair []), ''a''), (lost_answer (Pair []), ''b'')])
       = Inr l' \<and> l' \<in> {Some ''a'', Some ''b''}"
proof -
  have ok: "store_ok sample_redis" "load_config (healthy (Pair [])) sample_redis sample_world = Inr None"
    by (simp_all add: sample_redis_def store_ok_def healthy_def redis_load_reached sample_world_def)
  have "candidates (\<lambda>sl. save_config sl sample_redis) sample_world
      [(healthy (Pair []), ''a''), (lost_answer (Pair []), ''b'')] {None} = {Some ''a'', Some ''b''}"
    by (auto simp: sample_redis_def healthy_def lost_answer_def reached_def redis_save_config_def
        redis_store_connect_def with_context_def)
  then show ?thesis using stored_text_is_a_saved_one [OF ok] by metis
qed

text \<open>The version of a row counts the saves that were applied.\<close>

lemma pg_save_version:
  assumes "pg_save_config sa ps db c = (Inr (), db')"
  shows "\<exists>rows rows' r. db (ps_table ps) = Some rows \<and> db' (ps_table ps) = Some rows' \<and> rows' (ps_key ps) = Some r
    \<and> pr_content r = c \<and> pr_version r = (case rows (ps_key ps) of None \<Rightarrow> 1 | Some r0 \<Rightarrow> pr_version r0 + 1)
    \<and> (\<forall>k. k \<noteq> ps_key ps \<longrightarrow> rows' k = rows k)"
  using assms by (auto simp: pg_save_config_def upsert_def Let_def split: sum.splits option.splits)

text \<open>A local database is reached without TLS unless the URL asks for it, any other with TLS unless
  the URL forbids it.\<close>

lemma tls_unless_local_or_disabled:
  "requires_tls pc \<longleftrightarrow> pc_ssl_mode pc = SslRequire \<or> pc_ssl_mode pc = SslPrefer \<and> \<not> is_local pc"
  by (cases "pc_ssl_mode pc") (simp_all add: requires_tls_def)

text \<open>Opening creates the table once and keeps what it holds.\<close>

lemma ensure_table_keeps:
  assumes "ensure_table sa ps db = (Inr (), db')"
  shows "db' (ps_table ps) = Some (unwrap_or (db (ps_table ps)) Map.empty)" "t \<noteq> ps_table ps \<Longrightarrow> db' t = db t"
  using assms by (auto simp: ensure_table_def create_table_if_not_exists_def unwrap_or_def with_context_def
      split: sum.splits option.splits)

end
