(* ===== verification/Boot.thy ===== *)
theory Boot
  imports Admin ConfigStores
begin

text \<open>
  How the gateway comes up: the layers a configuration is read from (\<open>core/config.rs\<close>), the configuration
  that takes effect and its seed in the store, and the composite service with its parts
  (\<open>lib.rs\<close>, \<open>gateway/composite_service.rs\<close>, \<open>main.rs\<close>).

  The \<open>config\<close> crate is an argument that turns the layers into a configuration.  The
  pointer \<open>ArcSwap\<close> that the proxy and the console share is a cell of a store of cells, so
  that sharing is visible.
\<close>

section \<open>Configuration sources\<close>

datatype cfg_value = CfgStr string | CfgInt nat | CfgBool bool

datatype cfg_source =
    TomlText string
  | NamedFile string bool
  | EnvPrefix string string

record cfg_builder =
  cb_defaults :: "(string \<times> cfg_value) list"
  cb_sources :: "cfg_source list"
  cb_overrides :: "(string \<times> string) list"

definition base_builder :: cfg_builder where
  "base_builder = \<lparr>cb_defaults =
     [(''bind_addr'', CfgStr ''0.0.0.0:8000''),
      (''upstream.addr'', CfgStr ''localhost:4000''),
      (''upstream.name'', CfgStr ''default''),
      (''dispatch.method'', CfgStr ''nats''),
      (''dispatch.addr'', CfgStr ''127.0.0.1:4222''),
      (''dispatch.name'', CfgStr ''default''),
      (''gql.paths'', CfgStr ''/gql,/graphql''),
      (''gql.ops_to_dispatch'', CfgStr ''query, mutation, subscription''),
      (''idempotency.backend'', CfgStr ''memory''),
      (''idempotency.ttl_secs'', CfgInt 300),
      (''idempotency.max_capacity'', CfgInt 10000),
      (''subscriptions.enabled'', CfgBool True),
      (''subscriptions.topic_prefix'', CfgStr ''spectra''),
      (''subscriptions.keepalive_secs'', CfgInt 25),
      (''subscriptions.client_buffer_capacity'', CfgInt 256),
      (''admin.enabled'', CfgBool False),
      (''admin.bind_addr'', CfgStr ''0.0.0.0:8000''),
      (''admin.path_prefix'', CfgStr ''/admin''),
      (''admin.enable_ui'', CfgBool True),
      (''wasm.strict_aot'', CfgBool True),
      (''wasm.allow_jit'', CfgBool False),
      (''wasm.epoch_tick_interval_ms'', CfgInt 1),
      (''wasm.default_timeout_ms'', CfgInt 25),
      (''rest.paths'', CfgStr ''/api,/api/{*path}''),
      (''telemetry.error_capture.enabled'', CfgBool True),
      (''telemetry.error_capture.max_body_bytes'', CfgInt 4096),
      (''config_store.backend'', CfgStr ''memory''),
      (''config_store.table_name'', CfgStr ''spectragql_config''),
      (''config_store.key'', CfgStr ''active''),
      (''dns.enabled'', CfgBool True),
      (''dns.interval_secs'', CfgInt 15)],
     cb_sources = [], cb_overrides = []\<rparr>"

definition add_source :: "cfg_source \<Rightarrow> cfg_builder \<Rightarrow> cfg_builder" where
  "add_source s b = b\<lparr>cb_sources := cb_sources b @ [s]\<rparr>"

text \<open>What both ways of reading a configuration put on top.\<close>

definition add_environment :: "(string \<Rightarrow> string option) \<Rightarrow> cfg_builder \<Rightarrow> cfg_builder" where
  "add_environment env b =
     (let b1 = add_source (EnvPrefix ''spectragql'' ''_'') (add_source (EnvPrefix ''spectra'' ''_'') b)
      in case first_env env [''SPECTRA_BIND_ADDR'', ''SPECTRAGQL_BIND_ADDR''] of
           Some bind \<Rightarrow> b1\<lparr>cb_overrides := cb_overrides b1 @ [(''bind_addr'', bind)]\<rparr>
         | None \<Rightarrow> b1)"

definition startup_sources :: "(string \<Rightarrow> string option) \<Rightarrow> (string \<Rightarrow> bool) \<Rightarrow> cfg_source list" where
  "startup_sources env exists_path =
     (let spectra_env = unwrap_or (first_env env [''SPECTRA_ENV'', ''SPECTRAGQL_ENV'']) ''development''
      in case first_env env [''SPECTRA_CONFIG_CONTENT'', ''SPECTRAGQL_CONFIG_CONTENT''] of
           Some text \<Rightarrow> [TomlText text]
         | None \<Rightarrow>
             (case first_env env [''SPECTRA_CONFIG'', ''SPECTRAGQL_CONFIG''] of
                Some path \<Rightarrow> [NamedFile path True]
              | None \<Rightarrow>
                  if spectra_env \<noteq> ''development'' then
                    (let hyphen_file = spectra_env @ ''-spectra''; dot_file = ''spectra.'' @ spectra_env
                     in if exists_path (hyphen_file @ ''.toml'') then [NamedFile hyphen_file True]
                        else if exists_path (dot_file @ ''.toml'') then [NamedFile dot_file True]
                        else [NamedFile ''spectra'' False, NamedFile hyphen_file False])
                  else [NamedFile ''spectra'' False, NamedFile ''development-spectra'' False]))"

definition startup_builder :: "(string \<Rightarrow> string option) \<Rightarrow> (string \<Rightarrow> bool) \<Rightarrow> cfg_builder" where
  "startup_builder env exists_path = add_environment env (fold add_source (startup_sources env exists_path) base_builder)"

definition toml_builder :: "(string \<Rightarrow> string option) \<Rightarrow> string \<Rightarrow> cfg_builder" where
  "toml_builder env text = add_environment env (add_source (TomlText text) base_builder)"

text \<open>\<open>finish\<close> is \<open>build\<close> and \<open>try_deserialize\<close>.\<close>

definition spectra_config_new ::
  "(cfg_builder \<Rightarrow> spectra_config result) \<Rightarrow> (string \<Rightarrow> string option) \<Rightarrow> (string \<Rightarrow> bool) \<Rightarrow> spectra_config result" where
  "spectra_config_new finish env exists_path = finish (startup_builder env exists_path)"

definition from_toml_str ::
  "(cfg_builder \<Rightarrow> spectra_config result) \<Rightarrow> (string \<Rightarrow> string option) \<Rightarrow> string \<Rightarrow> spectra_config result" where
  "from_toml_str finish env text = finish (toml_builder env text)"

section \<open>The configuration that takes effect\<close>

record ('p, 'm, 'c, 'd, 'r, 'q) boot_env =
  bo_finish :: "cfg_builder \<Rightarrow> spectra_config result"
  bo_env :: "string \<Rightarrow> string option"
  bo_exists :: "string \<Rightarrow> bool"
  bo_read_file :: "string \<Rightarrow> string result"
  bo_to_toml :: "spectra_config \<Rightarrow> string result"
  bo_libs :: store_libs
  bo_postgres :: bool
  bo_runtime :: "unit result"
  bo_ie :: "('p, 'm, 'c) int_env"
  bo_resolve :: "string \<Rightarrow> socket_addr list result"
  bo_sha256_hex :: "string \<Rightarrow> string"
  bo_now_ms :: u64
  bo_instant :: nat
  bo_tty :: bool
  bo_named :: "string \<Rightarrow> bool"
  bo_lru :: "'d lru_cache"
  bo_router :: "'r router_ops"
  bo_router_new :: 'r
  bo_admin_router :: "'q admin_router_ops"

definition nonblank :: "string option \<Rightarrow> string option" where
  "nonblank s = (case s of Some t \<Rightarrow> if trim t = [] then None else Some t | None \<Rightarrow> None)"

definition default_raw :: "('p, 'm, 'c, 'd, 'r, 'q) boot_env \<Rightarrow> spectra_config \<Rightarrow> string" where
  "default_raw bo cfg =
     unwrap_or
       (or_else (nonblank (first_env (bo_env bo) [''SPECTRA_CONFIG_CONTENT'', ''SPECTRAGQL_CONFIG_CONTENT'']))
          (nonblank (case bo_read_file bo
               (unwrap_or (first_env (bo_env bo) [''SPECTRA_CONFIG'', ''SPECTRAGQL_CONFIG'']) ''spectra.toml'') of
             Inl _ \<Rightarrow> None | Inr text \<Rightarrow> Some text)))
       (case bo_to_toml bo cfg of Inl _ \<Rightarrow> [] | Inr text \<Rightarrow> text)"

definition hydrate ::
  "('p, 'm, 'c, 'd, 'r, 'q) boot_env \<Rightarrow> spectra_config \<Rightarrow> open_store \<Rightarrow> store_world \<Rightarrow> spectra_config \<times> string \<times> store_world" where
  "hydrate bo startup st w =
     (let raw = default_raw bo startup
      in case load_config (bo_libs bo) st w of
           Inl _ \<Rightarrow> (startup, raw, w)
         | Inr stored \<Rightarrow>
             (case nonblank stored of
                Some stored_raw \<Rightarrow>
                  (case from_toml_str (bo_finish bo) (bo_env bo) stored_raw of
                     Inr parsed \<Rightarrow> (parsed, stored_raw, w)
                   | Inl _ \<Rightarrow> (startup, raw, w))
              | None \<Rightarrow>
                  (startup, raw, if raw = [] then w else snd (save_config (bo_libs bo) st w raw))))"

definition boot_config ::
  "('p, 'm, 'c, 'd, 'r, 'q) boot_env \<Rightarrow> spectra_config \<Rightarrow> store_world
     \<Rightarrow> (open_store \<times> spectra_config \<times> string) result \<times> store_world" where
  "boot_config bo startup w =
     (case bo_runtime bo of
        Inl e \<Rightarrow> (Inl e, w)
      | Inr _ \<Rightarrow>
          (case factory_create (bo_postgres bo) (bo_env bo) (bo_libs bo) (config_store_cfg startup) w of
             (Inl e, w1) \<Rightarrow> (Inl e, w1)
           | (Inr st, w1) \<Rightarrow>
               (case hydrate bo startup st w1 of (cfg, raw, w2) \<Rightarrow> (Inr (st, cfg, raw), w2))))"

section \<open>The composite service\<close>

text \<open>The cells behind the shared pointers, by number; a cell holds a state with the plugins of its
  manager.\<close>

type_synonym ('p, 'm) cells = "(('p, 'm) gateway_state \<times> 'm plugins) list"

definition new_cell :: "('p, 'm) gateway_state \<times> 'm plugins \<Rightarrow> ('p, 'm) cells \<Rightarrow> nat \<times> ('p, 'm) cells" where
  "new_cell v cs = (length cs, cs @ [v])"

datatype 'd idem_engine =
    MemoryEngine "'d memory_backend" u64
  | RedisEngine string string u64

definition new_redis :: "string \<Rightarrow> u64 \<Rightarrow> 'd idem_engine" where
  "new_redis addr ttl = RedisEngine (normalize_redis_url addr) ''spectra:idempotency'' ttl"

text \<open>\<open>with_admin\<close> gets the engine with the cell and the store it was given.\<close>

record ('p, 'm, 'd, 'r, 'q, 'f) composite =
  cs_table :: "'r service_table"
  cs_idempotency :: "'d idem_engine"
  cs_named_upstreams :: "string \<rightharpoonup> socket_addr"
  cs_upstream_targets :: "string \<rightharpoonup> string"
  cs_mode_a :: mode_a_config
  cs_routes :: "(string \<times> route_config) list"
  cs_hub :: hub
  cs_subscriptions :: subscriptions_config
  cs_admin :: "('q admin_engine \<times> nat \<times> open_store) option"
  cs_manager :: "('p, 'm) manager \<times> 'm plugins"
  cs_recorder :: "'f recorder"
  cs_apps :: "app_config list"
  cs_default_app :: "string option"
  cs_telemetry :: error_capture_config
  cs_state :: nat

definition composite_new ::
  "'d lru_cache \<Rightarrow> 'r \<Rightarrow> ('p, 'm) cells \<Rightarrow> ('p, 'm, 'd, 'r, 'q, 'f) composite \<times> ('p, 'm) cells" where
  "composite_new lc empty_router cells =
     (case new_cell (gateway_state_default, Map.empty) cells of
        (a, cells') \<Rightarrow>
          (\<lparr>cs_table = \<lparr>upstream_services = [], path_router = empty_router\<rparr>,
            cs_idempotency = MemoryEngine (engine_new lc 10000) 300,
            cs_named_upstreams = Map.empty, cs_upstream_targets = Map.empty, cs_mode_a = default_mode_a,
            cs_routes = [], cs_hub = hub_new, cs_subscriptions = default_subscriptions, cs_admin = None,
            cs_manager = (manager_empty, Map.empty), cs_recorder = recorder_new 250, cs_apps = [],
            cs_default_app = None, cs_telemetry = default_error_capture, cs_state = a\<rparr>, cells'))"

definition with_dynamic_state ::
  "nat \<Rightarrow> ('p, 'm, 'd, 'r, 'q, 'f) composite \<times> ('p, 'm) cells \<Rightarrow> ('p, 'm, 'd, 'r, 'q, 'f) composite \<times> ('p, 'm) cells" where
  "with_dynamic_state a x =
     (let (c, cells) = x; (loaded, ps) = cells ! a
      in (c\<lparr>cs_named_upstreams := named_upstreams loaded, cs_upstream_targets := upstream_targets loaded,
            cs_mode_a := gs_mode_a loaded, cs_routes := gs_routes loaded, cs_apps := gs_apps loaded,
            cs_default_app := gs_default_app loaded, cs_manager := (gs_manager loaded, ps),
            cs_telemetry := gs_error_capture loaded, cs_state := a\<rparr>, cells))"

definition sync_dynamic_state ::
  "('p, 'm, 'd, 'r, 'q, 'f) composite \<times> ('p, 'm) cells \<Rightarrow> ('p, 'm, 'd, 'r, 'q, 'f) composite \<times> ('p, 'm) cells" where
  "sync_dynamic_state x =
     (let (c, cells) = x; prev = fst (cells ! cs_state c)
      in (c, cells[cs_state c :=
            (\<lparr>named_upstreams = cs_named_upstreams c, upstream_targets = cs_upstream_targets c,
              gs_dns_config = gs_dns_config prev, gs_mode_a = cs_mode_a c, gs_routes = cs_routes c,
              gs_apps = cs_apps c, gs_default_app = cs_default_app c, gs_manager = fst (cs_manager c),
              gs_error_capture = cs_telemetry c, gs_raw_config = gs_raw_config prev, gs_version = gs_version prev,
              updated_at_epoch_ms = updated_at_epoch_ms prev, config_hash = config_hash prev\<rparr>, snd (cs_manager c))]))"

text \<open>A builder method that sets fields, and one that sets fields and synchronises.\<close>

abbreviation set_fields ::
  "(('p, 'm, 'd, 'r, 'q, 'f) composite \<Rightarrow> ('p, 'm, 'd, 'r, 'q, 'f) composite)
     \<Rightarrow> ('p, 'm, 'd, 'r, 'q, 'f) composite \<times> ('p, 'm) cells \<Rightarrow> ('p, 'm, 'd, 'r, 'q, 'f) composite \<times> ('p, 'm) cells" where
  "set_fields f x \<equiv> (f (fst x), snd x)"

definition with_telemetry ::
  "error_capture_config \<Rightarrow> ('p, 'm, 'd, 'r, 'q, 'f) composite \<times> ('p, 'm) cells
     \<Rightarrow> ('p, 'm, 'd, 'r, 'q, 'f) composite \<times> ('p, 'm) cells" where
  "with_telemetry t x = sync_dynamic_state (set_fields (\<lambda>c. c\<lparr>cs_telemetry := t\<rparr>) x)"

definition with_routing_with_targets ::
  "(string \<rightharpoonup> socket_addr) \<Rightarrow> (string \<rightharpoonup> string) \<Rightarrow> mode_a_config \<Rightarrow> (string \<times> route_config) list
     \<Rightarrow> ('p, 'm, 'd, 'r, 'q, 'f) composite \<times> ('p, 'm) cells \<Rightarrow> ('p, 'm, 'd, 'r, 'q, 'f) composite \<times> ('p, 'm) cells" where
  "with_routing_with_targets ups targets mode_a routes x =
     sync_dynamic_state (set_fields (\<lambda>c. c\<lparr>cs_named_upstreams := ups, cs_upstream_targets := targets,
       cs_mode_a := mode_a, cs_routes := routes\<rparr>) x)"

text \<open>A socket address is its text.\<close>

definition with_routing ::
  "(string \<rightharpoonup> socket_addr) \<Rightarrow> mode_a_config \<Rightarrow> (string \<times> route_config) list
     \<Rightarrow> ('p, 'm, 'd, 'r, 'q, 'f) composite \<times> ('p, 'm) cells \<Rightarrow> ('p, 'm, 'd, 'r, 'q, 'f) composite \<times> ('p, 'm) cells" where
  "with_routing ups mode_a routes x = with_routing_with_targets ups ups mode_a routes x"

definition with_dns_config ::
  "dns_config \<Rightarrow> ('p, 'm, 'd, 'r, 'q, 'f) composite \<times> ('p, 'm) cells
     \<Rightarrow> ('p, 'm, 'd, 'r, 'q, 'f) composite \<times> ('p, 'm) cells" where
  "with_dns_config dns x =
     (let (c, cells) = x; (prev, ps) = cells ! cs_state c
      in (c, cells[cs_state c := (prev\<lparr>gs_dns_config := dns\<rparr>, ps)]))"

definition with_apps ::
  "app_config list \<Rightarrow> string option \<Rightarrow> ('p, 'm, 'd, 'r, 'q, 'f) composite \<times> ('p, 'm) cells
     \<Rightarrow> ('p, 'm, 'd, 'r, 'q, 'f) composite \<times> ('p, 'm) cells" where
  "with_apps apps dflt x = sync_dynamic_state (set_fields (\<lambda>c. c\<lparr>cs_apps := apps, cs_default_app := dflt\<rparr>) x)"

definition with_interceptor_manager ::
  "('p, 'm) manager \<times> 'm plugins \<Rightarrow> ('p, 'm, 'd, 'r, 'q, 'f) composite \<times> ('p, 'm) cells
     \<Rightarrow> ('p, 'm, 'd, 'r, 'q, 'f) composite \<times> ('p, 'm) cells" where
  "with_interceptor_manager mg x = sync_dynamic_state (set_fields (\<lambda>c. c\<lparr>cs_manager := mg\<rparr>) x)"

definition composite_resolve_app ::
  "('p, 'm, 'd, 'r, 'q, 'f) composite \<Rightarrow> string option \<Rightarrow> string option \<Rightarrow> string \<Rightarrow> app_config option" where
  "composite_resolve_app c host header_app path =
     resolve_app_with_apps (cs_apps c) (cs_default_app c) host header_app path"

text \<open>\<open>None\<close> is a panic.\<close>

definition composite_add_service ::
  "'r router_ops \<Rightarrow> service_config \<Rightarrow> ('p, 'm, 'd, 'r, 'q, 'f) composite \<Rightarrow> ('p, 'm, 'd, 'r, 'q, 'f) composite option" where
  "composite_add_service ops sc c = map_option (\<lambda>t. c\<lparr>cs_table := t\<rparr>) (add_service_config ops sc (cs_table c))"

section \<open>Building the gateway\<close>

definition boot_engine :: "'d lru_cache \<Rightarrow> idempotency_config \<Rightarrow> 'd idem_engine" where
  "boot_engine lc ic =
     (case idem_backend ic of
        RedisBackend \<Rightarrow> new_redis (unwrap_or (idem_addr ic) ''127.0.0.1:6379'') (of_nat (ttl_secs ic))
      | MemoryBackend \<Rightarrow> MemoryEngine (engine_new lc (of_nat (max_capacity ic))) (of_nat (ttl_secs ic)))"

definition boot_services ::
  "('p, 'm, 'c, 'd, 'r, 'q) boot_env \<Rightarrow> spectra_config \<Rightarrow> (service_config \<times> service_config) result option" where
  "boot_services bo cfg =
     (case service_config_try_new (bo_tty bo) (bo_named bo) (bo_resolve bo) ''gql'' (up_addr (gql_upstream cfg))
             (gql_paths (cfg_gql cfg)) (disp_method (gql_dispatch cfg)) (disp_addr (gql_dispatch cfg))
             [''ops_to_dispatch'' \<mapsto> ops_to_dispatch (cfg_gql cfg)] of
        None \<Rightarrow> None
      | Some (Inl e) \<Rightarrow> Some (Inl e)
      | Some (Inr gql_service) \<Rightarrow>
          (case service_config_try_new (bo_tty bo) (bo_named bo) (bo_resolve bo) ''http'' (up_addr (rest_upstream cfg))
                  (rest_paths (cfg_rest cfg)) (disp_method (rest_dispatch cfg)) (disp_addr (rest_dispatch cfg)) Map.empty of
             None \<Rightarrow> None
           | Some (Inl e) \<Rightarrow> Some (Inl e)
           | Some (Inr rest_service) \<Rightarrow> Some (Inr (gql_service, rest_service))))"

text \<open>The chain of builder methods up to the last, which puts the shared cell in place.\<close>

definition composite_parts ::
  "('p, 'm, 'c, 'd, 'r, 'q) boot_env \<Rightarrow> spectra_config \<Rightarrow> open_store \<Rightarrow> nat \<Rightarrow> upstream_tables \<Rightarrow> ('p, 'm) manager \<times> 'm plugins
     \<Rightarrow> ('p, 'm) cells \<Rightarrow> ('p, 'm, 'd, 'r, 'q, 'f) composite \<times> ('p, 'm) cells" where
  "composite_parts bo cfg st a tables mg cells =
     (let engine = admin_engine_new (bo_admin_router bo) (bo_instant bo) (cfg_admin cfg) cfg (fst tables)
            (gql_routes (cfg_gql cfg));
          x0 = composite_new (bo_lru bo) (bo_router_new bo) cells;
          x1 = with_routing_with_targets (fst tables) (snd tables) (gql_mode_a (cfg_gql cfg)) (gql_routes (cfg_gql cfg)) x0;
          x2 = with_apps (cfg_apps cfg) (cfg_default_app cfg) x1;
          x3 = set_fields (\<lambda>c. c\<lparr>cs_idempotency := boot_engine (bo_lru bo) (cfg_idempotency cfg)\<rparr>) x2;
          x4 = set_fields (\<lambda>c. c\<lparr>cs_hub := hub_new, cs_subscriptions := cfg_subscriptions cfg\<rparr>) x3;
          x5 = set_fields (\<lambda>c. c\<lparr>cs_admin := Some (engine, a, st)\<rparr>) x4;
          x6 = with_interceptor_manager mg x5;
          x7 = set_fields (\<lambda>c. c\<lparr>cs_recorder := recorder_new 250\<rparr>) x6
      in with_telemetry (cfg_error_capture cfg) x7)"

definition assemble_composite ::
  "('p, 'm, 'c, 'd, 'r, 'q) boot_env \<Rightarrow> spectra_config \<Rightarrow> open_store \<Rightarrow> nat \<Rightarrow> upstream_tables \<Rightarrow> ('p, 'm) manager \<times> 'm plugins
     \<Rightarrow> ('p, 'm) cells \<Rightarrow> ('p, 'm, 'd, 'r, 'q, 'f) composite \<times> ('p, 'm) cells" where
  "assemble_composite bo cfg st a tables mg cells = with_dynamic_state a (composite_parts bo cfg st a tables mg cells)"

definition build_composite_service ::
  "('p, 'm, 'c, 'd, 'r, 'q) boot_env \<Rightarrow> spectra_config \<Rightarrow> ('p, 'm) cells \<Rightarrow> store_world
     \<Rightarrow> (('p, 'm, 'd, 'r, 'q, 'f) composite \<times> ('p, 'm) cells) result option \<times> store_world" where
  "build_composite_service bo startup cells w =
     (case boot_config bo startup w of
        (Inl e, w1) \<Rightarrow> (Some (Inl e), w1)
      | (Inr (st, cfg, raw), w1) \<Rightarrow>
          ((case new_from_config (bo_ie bo) (bo_resolve bo) (bo_sha256_hex bo) (bo_now_ms bo) cfg raw 1 of
              Inl e \<Rightarrow> Some (Inl e)
            | Inr v \<Rightarrow>
                (case new_cell v cells of
                   (a, cells1) \<Rightarrow>
                     (case boot_services bo cfg of
                        None \<Rightarrow> None
                      | Some (Inl e) \<Rightarrow> Some (Inl e)
                      | Some (Inr (gql_service, rest_service)) \<Rightarrow>
                          (case resolve_all_upstreams_with_targets (bo_resolve bo) cfg of
                             Inl e \<Rightarrow> Some (Inl e)
                           | Inr tables \<Rightarrow>
                               (case from_config (bo_ie bo) cfg of
                                  Inl e \<Rightarrow> Some (Inl e)
                                | Inr mg \<Rightarrow>
                                    (case assemble_composite bo cfg st a tables mg cells1 of
                                       (c, cells2) \<Rightarrow>
                                         map_option (\<lambda>c'. Inr (c', cells2))
                                           (Option.bind (composite_add_service (bo_router bo) gql_service c)
                                              (composite_add_service (bo_router bo) rest_service)))))))), w1))"

section \<open>The process\<close>

record ('p, 'm, 'd, 'r, 'q, 'f) running =
  rn_composite :: "('p, 'm, 'd, 'r, 'q, 'f) composite"
  rn_cells :: "('p, 'm) cells"
  rn_refresher :: bool
  rn_bind_addr :: string

definition start_gateway ::
  "('p, 'm, 'c, 'd, 'r, 'q) boot_env \<Rightarrow> store_world \<Rightarrow> ('p, 'm, 'd, 'r, 'q, 'f) running result option \<times> store_world" where
  "start_gateway bo w =
     (case spectra_config_new (bo_finish bo) (bo_env bo) (bo_exists bo) of
        Inl e \<Rightarrow> (Some (Inl e), w)
      | Inr startup \<Rightarrow>
          (case build_composite_service bo startup [] w of
             (None, w1) \<Rightarrow> (None, w1)
           | (Some (Inl e), w1) \<Rightarrow> (Some (Inl e), w1)
           | (Some (Inr (c, cells)), w1) \<Rightarrow>
               (Some (Inr \<lparr>rn_composite = c, rn_cells = cells, rn_refresher = dns_enabled (cfg_dns startup),
                           rn_bind_addr = cfg_bind_addr startup\<rparr>), w1)))"

section \<open>Properties\<close>

lemma sync_dynamic_state_frame [simp]:
  "fst (sync_dynamic_state x) = fst x"
  "length (snd (sync_dynamic_state x)) = length (snd x)"
  "i \<noteq> cs_state (fst x) \<Longrightarrow> snd (sync_dynamic_state x) ! i = snd x ! i"
  by (auto simp: sync_dynamic_state_def Let_def split: prod.splits)

lemma composite_parts_frame:
  assumes "a < length cells"
  shows "i < length cells \<Longrightarrow> snd (composite_parts bo cfg st a tables mg cells) ! i = cells ! i"
    "\<exists>en. cs_admin (fst (composite_parts bo cfg st a tables mg cells)) = Some (en, a, st) \<and> ad_config en = cfg_admin cfg"
    "cs_idempotency (fst (composite_parts bo cfg st a tables mg cells)) = boot_engine (bo_lru bo) (cfg_idempotency cfg)"
    "cs_subscriptions (fst (composite_parts bo cfg st a tables mg cells)) = cfg_subscriptions cfg"
    "cs_table (fst (composite_parts bo cfg st a tables mg cells)) = \<lparr>upstream_services = [], path_router = bo_router_new bo\<rparr>"
  using assms
  by (auto simp: composite_parts_def Let_def with_telemetry_def with_interceptor_manager_def with_apps_def
      with_routing_with_targets_def composite_new_def new_cell_def nth_append admin_engine_new_def)

text \<open>What the proxy has of a state: its fields are copies, and it points at the cell.\<close>

definition serves_cell ::
  "('p, 'm, 'd, 'r, 'q, 'f) composite \<Rightarrow> nat \<Rightarrow> ('p, 'm) gateway_state \<times> 'm plugins \<Rightarrow> bool" where
  "serves_cell c a v =
     (cs_state c = a \<and> cs_named_upstreams c = named_upstreams (fst v) \<and> cs_upstream_targets c = upstream_targets (fst v)
      \<and> cs_mode_a c = gs_mode_a (fst v) \<and> cs_routes c = gs_routes (fst v) \<and> cs_apps c = gs_apps (fst v)
      \<and> cs_default_app c = gs_default_app (fst v) \<and> cs_manager c = (gs_manager (fst v), snd v)
      \<and> cs_telemetry c = gs_error_capture (fst v))"

lemma assemble_composite_shares:
  assumes "assemble_composite bo cfg st a tables mg cells = (c, cells')" "a < length cells"
  shows "serves_cell c a (cells ! a)" "\<exists>en. cs_admin c = Some (en, a, st) \<and> ad_config en = cfg_admin cfg"
    "i < length cells \<Longrightarrow> cells' ! i = cells ! i"
    "cs_idempotency c = boot_engine (bo_lru bo) (cfg_idempotency cfg)" "cs_subscriptions c = cfg_subscriptions cfg"
    "cs_table c = \<lparr>upstream_services = [], path_router = bo_router_new bo\<rparr>"
proof -
  obtain x cs where p: "composite_parts bo cfg st a tables mg cells = (x, cs)" "with_dynamic_state a (x, cs) = (c, cells')"
    using assms(1) unfolding assemble_composite_def by (metis surj_pair)
  note frame = composite_parts_frame [OF assms(2), where bo = bo and cfg = cfg and st = st and tables = tables and mg = mg]
  have cs: "cs ! i = cells ! i" if "i < length cells" for i using frame(1) [OF that] p(1) by (metis snd_conv)
  have "\<exists>en. cs_admin x = Some (en, a, st) \<and> ad_config en = cfg_admin cfg" using frame(2) p(1) by (metis fst_conv)
  moreover have "cs_idempotency x = boot_engine (bo_lru bo) (cfg_idempotency cfg)" using frame(3) p(1) by (metis fst_conv)
  moreover have "cs_subscriptions x = cfg_subscriptions cfg" using frame(4) p(1) by (metis fst_conv)
  moreover have "cs_table x = \<lparr>upstream_services = [], path_router = bo_router_new bo\<rparr>" using frame(5) p(1) by (metis fst_conv)
  ultimately show "serves_cell c a (cells ! a)" "\<exists>en. cs_admin c = Some (en, a, st) \<and> ad_config en = cfg_admin cfg"
    "i < length cells \<Longrightarrow> cells' ! i = cells ! i"
    "cs_idempotency c = boot_engine (bo_lru bo) (cfg_idempotency cfg)" "cs_subscriptions c = cfg_subscriptions cfg"
    "cs_table c = \<lparr>upstream_services = [], path_router = bo_router_new bo\<rparr>"
    using p(2) cs [OF assms(2)] cs [of i]
    by (auto simp: with_dynamic_state_def serves_cell_def split: prod.splits)
qed


lemma composite_add_service_frame:
  assumes "Option.bind (composite_add_service ops g c) (composite_add_service ops r) = Some c'"
  shows "serves_cell c' = serves_cell c" "cs_admin c' = cs_admin c" "cs_idempotency c' = cs_idempotency c"
    "cs_subscriptions c' = cs_subscriptions c" "map sc_upstream_addr (upstream_services (cs_table c'))
      = map sc_upstream_addr (upstream_services (cs_table c)) @ [sc_upstream_addr g, sc_upstream_addr r]"
    "\<exists>t t'. add_service_config ops g (cs_table c) = Some t \<and> add_service_config ops r t = Some t' \<and> cs_table c' = t'"
  using assms
  by (auto simp: composite_add_service_def add_service_config_def serves_cell_def fun_eq_iff bind_eq_Some_conv)

text \<open>C18. A gateway that starts serves the configuration that took effect: its state is the one built from
  it, as version 1, in a cell of its own, and the console has that very cell and the store the
  configuration was loaded from, so that a reload by the console is what the proxy serves next.\<close>

theorem started_gateway_serves_effective_config:
  assumes "build_composite_service bo startup cells w = (Some (Inr (c, cells')), w')"
  shows "\<exists>st cfg raw v en.
     boot_config bo startup w = (Inr (st, cfg, raw), w')
     \<and> new_from_config (bo_ie bo) (bo_resolve bo) (bo_sha256_hex bo) (bo_now_ms bo) cfg raw 1 = Inr v
     \<and> cells' ! cs_state c = v \<and> serves_cell c (length cells) v
     \<and> cs_admin c = Some (en, cs_state c, st) \<and> ad_config en = cfg_admin cfg
     \<and> cs_idempotency c = boot_engine (bo_lru bo) (cfg_idempotency cfg)
     \<and> (\<forall>i. if i < length cells then cells' ! i = cells ! i else True)"
proof -
  obtain st cfg raw v g r tables mg c0 where b: "boot_config bo startup w = (Inr (st, cfg, raw), w')"
      "new_from_config (bo_ie bo) (bo_resolve bo) (bo_sha256_hex bo) (bo_now_ms bo) cfg raw 1 = Inr v"
      "assemble_composite bo cfg st (length cells) tables mg (cells @ [v]) = (c0, cells')"
      "Option.bind (composite_add_service (bo_router bo) g c0) (composite_add_service (bo_router bo) r) = Some c"
    using assms
    by (auto simp: build_composite_service_def new_cell_def split: prod.splits sum.splits option.splits)
  note s = assemble_composite_shares [OF b(3)] and f = composite_add_service_frame [OF b(4)]
  have v: "serves_cell c0 (length cells) v" "cells' ! length cells = v" using s(1) s(3) [of "length cells"] by simp_all
  moreover have "cs_state c = length cells" using v(1) f(1) by (metis serves_cell_def)
  moreover have "cells' ! i = cells ! i" if "i < length cells" for i
    using s(3) [of i] that by (simp add: nth_append)
  moreover obtain en where "cs_admin c0 = Some (en, length cells, st)" "ad_config en = cfg_admin cfg" using s(2) by auto
  ultimately show ?thesis using b(1,2) s(4) f(1-3) by (auto simp del: split_paired_Ex)
qed

text \<open>A gateway on a concrete configuration.\<close>

definition list_router :: "(string \<times> nat) list router_ops" where
  "list_router = \<lparr>rt_insert = (\<lambda>r p h. if p \<in> set (map fst r) then Inl ''conflict'' else Inr ((p, h) # r)),
     rt_at = (\<lambda>r p. map_of r p)\<rparr>"

definition sample_boot ::
  "(string, unit, unit, nat \<times> (string \<times> idem_record) list, (string \<times> nat) list, (string \<times> admin_route) list) boot_env" where
  "sample_boot = \<lparr>bo_finish = (\<lambda>_. Inr sample_config), bo_env = (\<lambda>_. None), bo_exists = (\<lambda>_. False),
     bo_read_file = (\<lambda>_. Inr ''a = 1''), bo_to_toml = (\<lambda>_. Inr []), bo_libs = healthy (Pair []), bo_postgres = True,
     bo_runtime = Inr (), bo_ie = toy_env, bo_resolve = (\<lambda>s. Inr [s]), bo_sha256_hex = id, bo_now_ms = 9,
     bo_instant = 0, bo_tty = False, bo_named = (\<lambda>_. True), bo_lru = list_lru, bo_router = list_router,
     bo_router_new = [], bo_admin_router = exact_router\<rparr>"

lemma sample_boot_fields:
  "bo_ie sample_boot = toy_env" "bo_resolve sample_boot = (\<lambda>s. Inr [s])" "bo_sha256_hex sample_boot = id"
  "bo_now_ms sample_boot = 9" "bo_router sample_boot = list_router" "bo_router_new sample_boot = []"
  by (simp_all add: sample_boot_def)

lemma sample_boot_config: "\<exists>w'. boot_config sample_boot sample_config sample_world = (Inr (OpenMemory, sample_config, ''a = 1''), w')"
  by (simp add: boot_config_def sample_boot_def factory_create_def create_store_def sample_config_def default_store_def
      Let_def or_else_def unwrap_or_def to_lowercase_def lower_char_def is_upper_ascii_def hydrate_def default_raw_def
      nonblank_def memory_load_def trim_def trim_start_def trim_end_def is_ws_def)

lemma sample_boot_builds:
  "\<exists>c cells' w'. build_composite_service sample_boot sample_config [] sample_world
     = (Some (Inr (c :: (_, _, _, _, _, unit) composite, cells')), w')"
proof -
  obtain w' where b: "boot_config sample_boot sample_config sample_world = (Inr (OpenMemory, sample_config, ''a = 1''), w')"
    using sample_boot_config by blast
  have nf: "\<not> isl (new_from_config toy_env (\<lambda>s. Inr [s]) id 9 sample_config ''a = 1'' 1)" by code_simp
  obtain v where v: "new_from_config toy_env (\<lambda>s. Inr [s]) id 9 sample_config ''a = 1'' 1 = Inr v"
    using nf by (cases "new_from_config toy_env (\<lambda>s. Inr [s]) id 9 sample_config ''a = 1'' 1") auto
  then obtain tables mg where t: "resolve_all_upstreams_with_targets (\<lambda>s. Inr [s]) sample_config = Inr tables"
      "from_config toy_env sample_config = Inr mg"
    by (auto simp: new_from_config_def split: sum.splits prod.splits)
  have "\<exists>g r. boot_services sample_boot sample_config = Some (Inr (g, r)) \<and> sc_upstream_routes g = ''/graphql''
      \<and> sc_upstream_routes r = ''/api''"
    by (simp add: boot_services_def sample_boot_def service_config_try_new_def new_proxy_service_def http_service_new_def gql_service_new_def sample_config_def
        find_dispatch_handler_by_method_def nats_supports_def to_lowercase_def lower_char_def is_upper_ascii_def
        gql_upstream_def gql_dispatch_def rest_upstream_def rest_dispatch_def unwrap_or_def starts_with_def Let_def)
  then obtain g r where s: "boot_services sample_boot sample_config = Some (Inr (g, r))" "sc_upstream_routes g = ''/graphql''"
      "sc_upstream_routes r = ''/api''" by blast
  obtain c :: "(string, unit, _, _, _, unit) composite" and cells'
    where a: "assemble_composite sample_boot sample_config OpenMemory 0 tables mg [v] = (c, cells')" by fastforce
  have "cs_table c = \<lparr>upstream_services = [], path_router = []\<rparr>"
    using assemble_composite_shares(6) [OF a] by (simp add: sample_boot_fields)
  then have "\<exists>c'. Option.bind (composite_add_service list_router g c) (composite_add_service list_router r) = Some c'"
    using s(2,3) by (simp add: composite_add_service_def add_service_config_def list_router_def trim_def trim_start_def
        trim_end_def is_ws_def)
  then show ?thesis
    using b v t s(1) a by (auto simp: build_composite_service_def new_cell_def sample_boot_fields)
qed

theorem started_gateway_serves_effective_config_witness:
  "\<exists>(c :: (_, _, _, _, _, unit) composite) cells' w' v.
     build_composite_service sample_boot sample_config [] sample_world = (Some (Inr (c, cells')), w')
     \<and> cells' ! cs_state c = v \<and> serves_cell c 0 v"
proof -
  obtain c :: "(_, _, _, _, _, unit) composite" and cells' w' where
    b: "build_composite_service sample_boot sample_config [] sample_world = (Some (Inr (c, cells')), w')"
    using sample_boot_builds by blast
  from started_gateway_serves_effective_config [OF b] obtain v where "cells' ! cs_state c = v" "serves_cell c 0 v"
    by (auto simp del: split_paired_Ex)
  with b show ?thesis by blast
qed

text \<open>What the store held is what takes effect, and it is not written; without a usable text the startup
  configuration does, and an empty store that can be read is seeded.\<close>

lemma hydrate_stored:
  assumes "load_config (bo_libs bo) st w = Inr (Some text)" "trim text \<noteq> []"
    "from_toml_str (bo_finish bo) (bo_env bo) text = Inr cfg"
  shows "hydrate bo startup st w = (cfg, text, w)"
  using assms by (simp add: hydrate_def nonblank_def)

lemma hydrate_seeds:
  assumes "load_config (bo_libs bo) st w = Inr None" "default_raw bo startup \<noteq> []"
    "save_config (bo_libs bo) st w (default_raw bo startup) = (Inr (), w')" "store_ok st"
  shows "hydrate bo startup st w = (startup, default_raw bo startup, w')
    \<and> load_config (healthy sp) st w' = Inr (Some (default_raw bo startup))"
  using assms save_outcome [OF assms(4,3), of sp] by (simp add: hydrate_def nonblank_def Let_def)

text \<open>A blank text in the store is replaced.\<close>

lemma hydrate_replaces_blank:
  assumes "load_config (bo_libs bo) st w = Inr (Some text)" "trim text = []" "default_raw bo startup \<noteq> []"
  shows "hydrate bo startup st w
    = (startup, default_raw bo startup, snd (save_config (bo_libs bo) st w (default_raw bo startup)))"
  using assms by (simp add: hydrate_def nonblank_def Let_def)

text \<open>A stored configuration that parses but of which no state can be built keeps the gateway from
  starting: the start-up configuration is not tried.\<close>

lemma unbuildable_blocks_start:
  assumes "boot_config bo startup w = (Inr (st, cfg, raw), w1)"
    and "new_from_config (bo_ie bo) (bo_resolve bo) (bo_sha256_hex bo) (bo_now_ms bo) cfg raw 1 = Inl e"
  shows "build_composite_service bo startup cells w = (Some (Inl e), w1)"
  using assms by (simp add: build_composite_service_def)

lemma reopened_store_keeps:
  assumes "open_chosen sl ch w = (Inr st, w1)" "st \<noteq> OpenMemory" "load_config sl' st w = Inr l"
  shows "load_config sl' st w1 = Inr l"
proof (cases ch)
  case (PostgresStore url t k)
  then obtain ps where ps: "st = OpenPostgres ps" "postgres_new (sl_parse_url sl) (sl_build_pool sl) url t k = Inr ps"
      "ensure_table (sl_answers sl) ps (sw_postgres w) = (Inr (), sw_postgres w1)"
    using assms(1) by (auto split: sum.splits prod.splits)
  from assms(3) ps(1) obtain rows where "sw_postgres w (ps_table ps) = Some rows"
    by (auto simp: pg_load_config_def with_context_def split: sum.splits option.splits)
  then have "sw_postgres w1 (ps_table ps) = sw_postgres w (ps_table ps)"
    using ensure_table_keeps(1) [OF ps(3)] by (simp add: unwrap_or_def)
  then have "pg_load_config (sl_answers sl') ps (sw_postgres w1) = pg_load_config (sl_answers sl') ps (sw_postgres w)"
    unfolding pg_load_config_def by (simp only:)
  then show ?thesis using assms(3) ps(1) by simp
qed (use assms in \<open>auto split: sum.splits\<close>)

text \<open>A configuration outlives the process: after a save of a usable text, whatever the start-up
  configuration says otherwise, a gateway that opens the same store comes up with exactly that
  text in force, and the store still holds it.  The in-memory store is the only exception.\<close>

theorem restart_serves_saved_config:
  assumes "save_config sl st w text = (Inr (), w')" "store_ok st" "st \<noteq> OpenMemory"
    and "bo_libs bo = healthy sp" "bo_runtime bo = Inr ()"
    and "create_store (bo_postgres bo) (bo_env bo) (config_store_cfg startup) = Inr ch"
    and "open_chosen (healthy sp) ch w' = (Inr st, w1)"
    and "trim text \<noteq> []" "from_toml_str (bo_finish bo) (bo_env bo) text = Inr cfg"
  shows "boot_config bo startup w' = (Inr (st, cfg, text), w1) \<and> load_config (healthy sp) st w1 = Inr (Some text)"
proof -
  have "load_config (healthy sp) st w' = Inr (Some text)" using save_outcome [OF assms(2,1), of sp] by simp
  then have l: "load_config (healthy sp) st w1 = Inr (Some text)" by (rule reopened_store_keeps [OF assms(7,3)])
  with hydrate_stored [of bo st w1 "text" cfg startup] assms show ?thesis
    by (simp add: boot_config_def factory_create_def)
qed

theorem restart_serves_saved_config_witness:
  "\<exists>w1. boot_config (sample_boot\<lparr>bo_finish := \<lambda>b. if cb_sources b = cb_sources (toml_builder (\<lambda>_. None) ''b = 2'') then Inr sample_config
         else Inl ''other''\<rparr>) (sample_config\<lparr>config_store_cfg := default_store\<lparr>store_backend := ''redis'', redis_url := Some ''redis://r''\<rparr>\<rparr>)
       (snd (save_config (healthy (Pair [])) sample_redis sample_world ''b = 2''))
     = (Inr (sample_redis, sample_config, ''b = 2''), w1)"
proof -
  let ?bo = "sample_boot\<lparr>bo_finish := \<lambda>b. if cb_sources b = cb_sources (toml_builder (\<lambda>_. None) ''b = 2'') then Inr sample_config
         else Inl ''other''\<rparr>"
  let ?w' = "snd (save_config (healthy (Pair [])) sample_redis sample_world ''b = 2'')"
  have s: "save_config (healthy (Pair [])) sample_redis sample_world ''b = 2'' = (Inr (), ?w')"
    by (simp add: sample_redis_def healthy_def reached_def redis_save_config_def redis_store_connect_def with_context_def)
  have c: "create_store True (\<lambda>_. None) (default_store\<lparr>store_backend := ''redis'', redis_url := Some ''redis://r''\<rparr>)
      = Inr (RedisStore ''redis://r'' ''active'')"
    by (simp add: create_store_def default_store_def Let_def or_else_def unwrap_or_def to_lowercase_def lower_char_def
        is_upper_ascii_def)
  have opn: "open_chosen (healthy (Pair [])) (RedisStore ''redis://r'' ''active'') ?w' = (Inr sample_redis, ?w')"
    by (simp add: healthy_def redis_store_new_def with_context_def sample_redis_def)
  show ?thesis
    using restart_serves_saved_config [OF s, of ?bo "Pair []" "sample_config\<lparr>config_store_cfg := default_store\<lparr>store_backend := ''redis'',
        redis_url := Some ''redis://r''\<rparr>\<rparr>", OF _ _ _ _ _ opn, of sample_config] c
    by (simp add: sample_boot_def sample_redis_def store_ok_def from_toml_str_def trim_def trim_start_def trim_end_def is_ws_def)
qed

text \<open>The process takes its address and the choice to rescan DNS from the startup configuration, also
  when a stored one is in force.\<close>

lemma process_settings_from_startup:
  assumes "start_gateway bo w = (Some (Inr r), w')"
  shows "\<exists>startup. spectra_config_new (bo_finish bo) (bo_env bo) (bo_exists bo) = Inr startup
    \<and> rn_refresher r = dns_enabled (cfg_dns startup) \<and> rn_bind_addr r = cfg_bind_addr startup"
  using assms by (auto simp: start_gateway_def split: sum.splits prod.splits option.splits)

text \<open>In an environment with its own file that file is the configuration, but the text put into
  the store is that of \<open>spectra.toml\<close>.\<close>

lemma seeds_text_of_other_file:
  assumes "bo_env bo = (\<lambda>v. if v = ''SPECTRA_ENV'' then Some ''production'' else None)"
    "bo_exists bo ''production-spectra.toml''" "bo_read_file bo ''spectra.toml'' = Inr text" "trim text \<noteq> []"
  shows "startup_sources (bo_env bo) (bo_exists bo) = [NamedFile ''production-spectra'' True]
    \<and> default_raw bo cfg = text"
  using assms by (simp add: startup_sources_def default_raw_def nonblank_def or_else_def unwrap_or_def Let_def)

text \<open>The address in the environment wins over the file and the stored text alike.\<close>

lemma environment_address_wins:
  assumes law: "\<And>b c v. finish b = Inr c \<Longrightarrow> map_of (cb_overrides b) ''bind_addr'' = Some v \<Longrightarrow> cfg_bind_addr c = v"
    and "env ''SPECTRA_BIND_ADDR'' = Some v"
  shows "spectra_config_new finish env ex = Inr c \<Longrightarrow> cfg_bind_addr c = v"
    "from_toml_str finish env text = Inr c \<Longrightarrow> cfg_bind_addr c = v"
proof -
  have "cb_overrides (fold add_source ss b) = cb_overrides b" for ss b
    by (induction ss arbitrary: b) (simp_all add: add_source_def)
  then have "map_of (cb_overrides (add_environment env (fold add_source ss base_builder))) ''bind_addr'' = Some v" for ss
    using assms(2) by (simp add: add_environment_def Let_def or_else_def add_source_def base_builder_def)
  from this [of "startup_sources env ex"] this [of "[TomlText text]"]
  show "spectra_config_new finish env ex = Inr c \<Longrightarrow> cfg_bind_addr c = v"
    "from_toml_str finish env text = Inr c \<Longrightarrow> cfg_bind_addr c = v"
    using law by (auto simp: spectra_config_new_def from_toml_str_def startup_builder_def toml_builder_def)
qed

end
