(* ===== verification/SinkContract.thy ===== *)
theory SinkContract
  imports Brokers "HOL-Library.Sublist"
begin

text \<open>
  What the broker clients of \<open>telemetry/\<close> promise: an operation sends at most its own message and
  reports success only for one that was sent (\<open>event_sink\<close>), or exactly for one the server
  confirmed (\<open>confirmed_sink\<close>); then the terminal events, the JetStream stream and the
  connections over time.
\<close>

section \<open>The contract of a sink\<close>

text \<open>What one operation may add to the log: at most its own message, and that one sent whenever it
  reports success; for a confirmed step, success exactly when the server confirmed it.\<close>

definition attempted :: "wire \<Rightarrow> 'k sink_state \<Rightarrow> 'k sink_step \<Rightarrow> bool" where
  "attempted w s st =
     (case fst st of
        Inr _ \<Rightarrow> \<exists>d. d \<noteq> SendFailed \<and> sk_log (snd st) = sk_log s @ [(w, d)]
      | Inl _ \<Rightarrow> sk_log (snd st) = sk_log s \<or> (\<exists>d. sk_log (snd st) = sk_log s @ [(w, d)]))"

definition confirmed_step :: "wire \<Rightarrow> 'k sink_state \<Rightarrow> 'k sink_step \<Rightarrow> bool" where
  "confirmed_step w s st =
     (case fst st of
        Inr _ \<Rightarrow> sk_log (snd st) = sk_log s @ [(w, Confirmed)]
      | Inl _ \<Rightarrow> sk_log (snd st) = sk_log s \<or> (\<exists>d. d \<noteq> Confirmed \<and> sk_log (snd st) = sk_log s @ [(w, d)]))"

lemma confirmed_attempted: "confirmed_step w s st \<Longrightarrow> attempted w s st"
  by (auto simp: confirmed_step_def attempted_def split: sum.splits)

fun run_all :: "('o \<Rightarrow> 'k sink_state \<Rightarrow> 'k sink_step) \<Rightarrow> 'o list \<Rightarrow> 'k sink_state \<Rightarrow> 'k sink_state" where
  "run_all step [] s = s"
| "run_all step (x # xs) s = run_all step xs (snd (step x s))"

fun accepted :: "('o \<Rightarrow> 'k sink_state \<Rightarrow> 'k sink_step) \<Rightarrow> 'o list \<Rightarrow> 'k sink_state \<Rightarrow> 'o list" where
  "accepted step [] s = []"
| "accepted step (x # xs) s =
     (if fst (step x s) = Inr () then [x] else []) @ accepted step xs (snd (step x s))"

abbreviation confirmed_wires :: "(wire \<times> delivery) list \<Rightarrow> wire list" where
  "confirmed_wires l \<equiv> map fst (filter (\<lambda>(_, d). d = Confirmed) l)"

abbreviation sent_wires :: "(wire \<times> delivery) list \<Rightarrow> wire list" where
  "sent_wires l \<equiv> map fst (filter (\<lambda>(_, d). d \<noteq> SendFailed) l)"

locale event_sink =
  fixes ok :: "'d \<Rightarrow> bool"
    and step :: "'d \<Rightarrow> 'o \<Rightarrow> 'k sink_state \<Rightarrow> 'k sink_step"
    and msg :: "'d \<Rightarrow> 'o \<Rightarrow> wire"
  assumes attempts: "ok d \<Longrightarrow> attempted (msg d x) s (step d x s)"
begin

lemma accepted_sent:
  assumes "ok d"
  shows "\<exists>new. sk_log (run_all (step d) xs s) = sk_log s @ new
    \<and> subseq (map (msg d) (accepted (step d) xs s)) (sent_wires new) \<and> subseq (map fst new) (map (msg d) xs)"
proof (induction xs arbitrary: s)
  case (Cons x xs)
  obtain r s1 where st: "step d x s = (r, s1)" by fastforce
  obtain new where new: "sk_log (run_all (step d) xs s1) = sk_log s1 @ new"
      "subseq (map (msg d) (accepted (step d) xs s1)) (sent_wires new)" "subseq (map fst new) (map (msg d) xs)"
    using Cons.IH [of s1] by blast
  have "attempted (msg d x) s (r, s1)" using attempts [OF assms] st by metis
  then consider (ok) dl where "r = Inr ()" "dl \<noteq> SendFailed" "sk_log s1 = sk_log s @ [(msg d x, dl)]"
    | (none) e where "r = Inl e" "sk_log s1 = sk_log s"
    | (err) e dl where "r = Inl e" "sk_log s1 = sk_log s @ [(msg d x, dl)]"
    by (auto simp: attempted_def split: sum.splits)
  then show ?case
  proof cases
    case ok
    with st new show ?thesis by (intro exI [of _ "(msg d x, dl) # new"]) simp
  next
    case none
    with st new show ?thesis by (intro exI [of _ new]) (auto intro: list_emb_Cons)
  next
    case err
    with st new show ?thesis by (intro exI [of _ "(msg d x, dl) # new"]) auto
  qed
qed simp

end

locale confirmed_sink =
  fixes ok :: "'d \<Rightarrow> bool"
    and step :: "'d \<Rightarrow> 'o \<Rightarrow> 'k sink_state \<Rightarrow> 'k sink_step"
    and msg :: "'d \<Rightarrow> 'o \<Rightarrow> wire"
  assumes confirms: "ok d \<Longrightarrow> confirmed_step (msg d x) s (step d x s)"

sublocale confirmed_sink \<subseteq> event_sink
  by unfold_locales (rule confirmed_attempted, rule confirms)

context confirmed_sink
begin

lemma confirmed_is_accepted:
  assumes "ok d"
  shows "confirmed_wires (sk_log (run_all (step d) xs s))
    = confirmed_wires (sk_log s) @ map (msg d) (accepted (step d) xs s)"
proof (induction xs arbitrary: s)
  case (Cons x xs)
  have "confirmed_wires (sk_log (snd (step d x s)))
      = confirmed_wires (sk_log s) @ (if fst (step d x s) = Inr () then [msg d x] else [])"
    using confirms [OF assms, of x s] by (auto simp: confirmed_step_def split: sum.splits)
  with Cons.IH show ?case by simp
qed simp

end

section \<open>The operations that report their outcome\<close>

datatype sink_op = PublishOp string string | PayloadOp string string | RequestOp request_info

fun run_op :: "encoder \<Rightarrow> dispatch_method \<Rightarrow> 'k net \<times> sink_op \<Rightarrow> 'k sink_state \<Rightarrow> 'k sink_step" where
  "run_op en d (nt, PublishOp topic payload) s = sink_publish d en nt topic payload s"
| "run_op en d (nt, PayloadOp topic payload) s = dispatch_payload d en nt topic payload s"
| "run_op en d (nt, RequestOp r) s = dispatch_request_info d en nt r s"

text \<open>The message each broker is meant to get: a plain one, and one that describes a request.\<close>

fun plain_wire :: "encoder \<Rightarrow> dispatch_method \<Rightarrow> nat \<Rightarrow> string \<Rightarrow> string \<Rightarrow> wire" where
  "plain_wire en (IggyMethod gd) now t p = IggySend (gd_stream_id gd) (topic_id gd en t) p"
| "plain_wire en (KafkaMethod kd) now t p =
     KafkaProduce (kafka_topic (kd_topic_prefix kd) t) (kd_partition kd) (build_record now None p [])"
| "plain_wire en (NatsJetstream nd) now t p = NatsMessage t p"
| "plain_wire en (RabbitMqMethod qd) now t p =
     AmqpPublish (ShortString (qd_exchange qd)) (ShortString (routing_key (qd_routing_prefix qd) t))
       (build_properties ''application/json'' []) p"
| "plain_wire en (RedisStreams rd) now t p =
     build_xadd_cmd (stream_key (rd_stream_prefix rd) t) [(''event_type'', ''Event''), (''payload'', p)]"
| "plain_wire en (SierraDb rd) now t p = build_eappend_cmd (stream_id (rd_stream_prefix rd) t) ''Event'' p"
| "plain_wire en (WebhookMethod wd) now t p =
     HttpPost (wd_url wd) [(''content-type'', ''application/json''), (''x-spectra-topic'', t)] p"

fun request_wire :: "encoder \<Rightarrow> dispatch_method \<Rightarrow> nat \<Rightarrow> request_info \<Rightarrow> string \<Rightarrow> wire" where
  "request_wire en (KafkaMethod kd) now r p =
     KafkaProduce (kafka_topic (kd_topic_prefix kd) (resolve_dispatch_topic r)) (kd_partition kd)
       (build_record now (Some (en_uuid en (ri_request_id r))) p (command_headers en r))"
| "request_wire en (RabbitMqMethod qd) now r p =
     AmqpPublish (ShortString (qd_exchange qd))
       (ShortString (routing_key (qd_routing_prefix qd) (resolve_dispatch_topic r)))
       (build_properties ''application/json'' (command_headers en r)) p"
| "request_wire en (RedisStreams rd) now r p =
     build_xadd_cmd (stream_key (rd_stream_prefix rd) (resolve_dispatch_topic r))
       (command_headers en r @ [(''payload'', p)])"
| "request_wire en (SierraDb rd) now r p =
     build_eappend_cmd (stream_id (rd_stream_prefix rd) (resolve_dispatch_topic r)) (operation_or ''Command'' r) p"
| "request_wire en d now r p = plain_wire en d now (resolve_dispatch_topic r) p"

text \<open>The text that is sent for a payload: NATS and the webhook refuse one that is not UTF-8.\<close>

fun plain_text :: "dispatch_method \<Rightarrow> string \<Rightarrow> string" where
  "plain_text (NatsJetstream _) p = p"
| "plain_text (WebhookMethod _) p = p"
| "plain_text _ p = utf8_or_empty p"

fun payload_text :: "dispatch_method \<Rightarrow> string \<Rightarrow> string" where
  "payload_text (RabbitMqMethod _) p = p"
| "payload_text d p = plain_text d p"

fun request_text :: "dispatch_method \<Rightarrow> string \<Rightarrow> string" where
  "request_text (IggyMethod _) p = utf8_or_empty p"
| "request_text (NatsJetstream _) p = p"
| "request_text (WebhookMethod _) p = p"
| "request_text _ p = from_utf8_lossy p"

fun op_wire :: "encoder \<Rightarrow> dispatch_method \<Rightarrow> 'k net \<times> sink_op \<Rightarrow> wire" where
  "op_wire en d (nt, PublishOp topic payload) = plain_wire en d (nt_now nt) topic (plain_text d payload)"
| "op_wire en d (nt, PayloadOp topic payload) = plain_wire en d (nt_now nt) topic (payload_text d payload)"
| "op_wire en d (nt, RequestOp r) =
     request_wire en d (nt_now nt) r (case en_request en r of Inl _ \<Rightarrow> [] | Inr p \<Rightarrow> request_text d p)"

definition confirms :: "dispatch_method \<Rightarrow> bool" where
  "confirms d = (case d of RabbitMqMethod _ \<Rightarrow> False | _ \<Rightarrow> True)"

lemma get_or_try_init_log [simp]: "sk_log (snd (get_or_try_init init s)) = sk_log s"
  by (auto simp: get_or_try_init_def split: option.splits sum.splits)

lemma get_connection_log [simp]:
  "sk_log (snd (resp_get_connection rd nt s)) = sk_log s"
  "sk_log (snd (kafka_get_client kd nt s)) = sk_log s"
  "sk_log (snd (rabbit_get_connection qd nt s)) = sk_log s"
  "sk_log (snd (iggy_get_client gd nt s)) = sk_log s"
  by (simp_all add: resp_get_connection_def kafka_get_client_def rabbit_get_connection_def iggy_get_client_def)

lemma ensure_default_streams_log [simp]: "sk_log (ensure_default_streams nt js s) = sk_log s"
  by (auto simp: ensure_default_streams_def Let_def split: option.splits sum.splits prod.splits)

lemma get_jetstream_log [simp]: "sk_log (snd (get_jetstream nd nt s)) = sk_log s"
  by (auto simp: get_jetstream_def split: option.splits sum.splits)

lemma logged_log [simp]: "sk_log (logged w d s) = sk_log s @ [(w, d)]"
  by (simp add: logged_def)

lemma evict_client_log [simp]: "sk_log (evict_client s) = sk_log s"
  by (simp add: evict_client_def)

lemma with_client_confirmed:
  assumes "sk_log (snd c) = sk_log s" "\<And>k s1. sk_log s1 = sk_log s \<Longrightarrow> confirmed_step w s (f k s1)"
  shows "confirmed_step w s (with_client what c f)"
proof (cases c)
  case (Pair r s1)
  then show ?thesis
    using assms by (cases r) (simp_all add: with_client_def confirmed_step_def [of _ _ "(Inl _, _)"])
qed

lemma with_client_attempted:
  assumes "sk_log (snd c) = sk_log s" "\<And>k s1. sk_log s1 = sk_log s \<Longrightarrow> attempted w s (f k s1)"
  shows "attempted w s (with_client what c f)"
proof (cases c)
  case (Pair r s1)
  then show ?thesis
    using assms by (cases r) (simp_all add: with_client_def attempted_def [of _ _ "(Inl _, _)"])
qed

lemma send_once_confirmed: "sk_log s1 = sk_log s \<Longrightarrow> confirmed_step w s (send_once what w a s1)"
  by (auto simp: send_once_def confirmed_step_def split: sum.splits)

lemma failed_confirmed: "sk_log s1 = sk_log s \<Longrightarrow> confirmed_step w s (Inl e, s1)"
  by (simp add: confirmed_step_def)

lemma encoded_confirmed:
  "(\<And>b. r = Inr b \<Longrightarrow> confirmed_step w s (f b)) \<Longrightarrow> confirmed_step w s (encoded r f s)"
  by (auto simp: encoded_def failed_confirmed split: sum.splits)

lemmas confirmed_intros = with_client_confirmed send_once_confirmed failed_confirmed encoded_confirmed

lemma write_to_nats_confirmed: "confirmed_step (NatsMessage t p) s (write_to_nats nd nt t p s)"
  unfolding write_to_nats_def
  by (rule with_client_confirmed) (auto simp: confirmed_step_def Let_def split: sum.splits)

lemma nats_publish_confirmed: "confirmed_step (NatsMessage t p) s (nats_publish nd en nt t p s)"
  by (auto simp: nats_publish_def from_utf8_def intro: write_to_nats_confirmed failed_confirmed)

lemma write_to_stream_confirmed: "confirmed_step (build_xadd_cmd st fs) s (write_to_stream rd nt st fs s)"
  unfolding write_to_stream_def by (intro confirmed_intros) simp_all

lemma append_event_confirmed: "confirmed_step (build_eappend_cmd st ty p) s (append_event rd nt st ty p s)"
  unfolding append_event_def by (intro confirmed_intros) simp_all

lemma produce_record_confirmed:
  "confirmed_step (KafkaProduce t (kd_partition kd) rcd) s (produce_record kd nt t rcd s)"
  unfolding produce_record_def
  by (rule with_client_confirmed) (auto split: sum.splits intro: confirmed_intros)

lemma iggy_publish_confirmed:
  "confirmed_step (IggySend (gd_stream_id gd) (topic_id gd en t) (utf8_or_empty p)) s (iggy_publish gd en nt t p s)"
  by (auto simp: iggy_publish_def build_message_def send_message_def split: sum.splits intro!: confirmed_intros)

lemma webhook_publish_confirmed:
  "confirmed_step (plain_wire en (WebhookMethod wd) now t p) s (webhook_publish wd en nt t p s)"
  by (auto simp: webhook_publish_def from_utf8_def send_webhook_def posted_def Let_def confirmed_step_def
      split: sum.splits if_splits)

lemma publish_raw_attempted:
  "attempted (AmqpPublish (ShortString (qd_exchange qd)) (ShortString rk) props p) s (publish_raw qd nt rk p props s)"
  unfolding publish_raw_def
  by (rule with_client_attempted) (auto simp: attempted_def Let_def split: sum.splits)

lemmas step_confirmed = write_to_stream_confirmed append_event_confirmed produce_record_confirmed
  iggy_publish_confirmed webhook_publish_confirmed nats_publish_confirmed

lemmas sink_defs = kafka_publish_def redis_publish_def sierra_publish_def rabbit_publish_def rabbit_payload_def

lemma sink_publish_confirmed:
  "confirms d \<Longrightarrow> confirmed_step (plain_wire en d (nt_now nt) t (plain_text d p)) s (sink_publish d en nt t p s)"
  by (cases d) (simp_all add: confirms_def sink_defs step_confirmed step_confirmed [simplified])

lemma dispatch_payload_confirmed:
  "confirms d \<Longrightarrow> confirmed_step (plain_wire en d (nt_now nt) t (payload_text d p)) s (dispatch_payload d en nt t p s)"
  using sink_publish_confirmed [of d en nt t p s] by (cases d) (simp_all add: confirms_def)

lemma encode_request_Inr: "encode_request en r = Inr p \<longleftrightarrow> en_request en r = Inr p"
  by (auto simp: encode_request_def split: sum.splits)

lemma dispatch_request_confirmed:
  "confirms d \<Longrightarrow> confirmed_step (op_wire en d (nt, RequestOp r)) s (dispatch_request_info d en nt r s)"
  by (cases d)
    (auto simp: confirms_def iggy_request_def kafka_request_def nats_request_def redis_request_def
      sierra_request_def webhook_request_def encode_request_Inr step_confirmed step_confirmed [simplified]
      intro!: encoded_confirmed)

lemma run_op_confirmed: "confirms d \<Longrightarrow> confirmed_step (op_wire en d x) s (run_op en d x s)"
  by (cases "(en, d, x, s)" rule: run_op.cases)
    (auto simp: sink_publish_confirmed dispatch_payload_confirmed dispatch_request_confirmed
      simp del: op_wire.simps(3))

lemma rabbit_run_op_attempted: "attempted (op_wire en (RabbitMqMethod qd) x) s (run_op en (RabbitMqMethod qd) x s)"
proof (cases "(en, RabbitMqMethod qd, x, s)" rule: run_op.cases)
  case (3 en' d nt r s')
  then show ?thesis using publish_raw_attempted
    by (auto simp: rabbit_request_def encoded_def encode_request_Inr attempted_def [of _ _ "(Inl _, _)"]
        split: sum.splits)
qed (auto simp: sink_defs publish_raw_attempted)

lemma run_op_attempted: "attempted (op_wire en d x) s (run_op en d x s)"
proof (cases "confirms d")
  case True
  then show ?thesis by (intro confirmed_attempted run_op_confirmed)
next
  case False
  then obtain qd where "d = RabbitMqMethod qd" by (cases d) (simp_all add: confirms_def)
  then show ?thesis by (simp add: rabbit_run_op_attempted)
qed

interpretation any_broker: event_sink "\<lambda>_ :: dispatch_method. True" "run_op en" "op_wire en" for en
  by unfold_locales (rule run_op_attempted)

interpretation confirming_broker: confirmed_sink confirms "run_op en" "op_wire en" for en
  by unfold_locales (rule run_op_confirmed)

section \<open>What reaches the brokers\<close>

text \<open>Destination and payload of a message.\<close>

fun wire_payload :: "wire \<Rightarrow> string option" where
  "wire_payload (NatsMessage _ p) = Some p"
| "wire_payload (RespCommand args) = (if args = [] then None else Some (last args))"
| "wire_payload (KafkaProduce _ _ rcd) = kr_value rcd"
| "wire_payload (AmqpPublish _ _ _ p) = Some p"
| "wire_payload (IggySend _ _ p) = Some p"
| "wire_payload (HttpPost _ _ body) = Some body"

fun wire_topic :: "dispatch_method \<Rightarrow> encoder \<Rightarrow> string \<Rightarrow> wire \<Rightarrow> bool" where
  "wire_topic (IggyMethod gd) en t (IggySend st tp _) = (st = gd_stream_id gd \<and> tp = topic_id gd en t)"
| "wire_topic (KafkaMethod kd) en t (KafkaProduce tp n _) = (tp = kafka_topic (kd_topic_prefix kd) t \<and> n = kd_partition kd)"
| "wire_topic (NatsJetstream nd) en t (NatsMessage tp _) = (tp = t)"
| "wire_topic (RabbitMqMethod qd) en t (AmqpPublish ex rk _ _) =
     (ex = ShortString (qd_exchange qd) \<and> rk = ShortString (routing_key (qd_routing_prefix qd) t))"
| "wire_topic (RedisStreams rd) en t (RespCommand args) = (take 2 args = [''XADD'', stream_key (rd_stream_prefix rd) t])"
| "wire_topic (SierraDb rd) en t (RespCommand args) = (take 2 args = [''EAPPEND'', stream_id (rd_stream_prefix rd) t])"
| "wire_topic (WebhookMethod wd) en t (HttpPost url hs _) = (url = wd_url wd \<and> map_of hs ''x-spectra-topic'' = Some t)"
| "wire_topic _ _ _ _ = False"

lemma plain_wire_topic: "wire_topic d en t (plain_wire en d now t p)"
  by (cases d) (simp_all add: build_xadd_cmd_def build_eappend_cmd_def)

lemma plain_wire_payload: "wire_payload (plain_wire en d now t p) = Some p"
  by (cases d) (simp_all add: build_xadd_cmd_def build_eappend_cmd_def build_record_def)

lemma request_wire_topic: "wire_topic d en (resolve_dispatch_topic r) (request_wire en d now r p)"
  by (cases d) (simp_all add: plain_wire_topic build_xadd_cmd_def build_eappend_cmd_def)

lemma request_wire_payload: "wire_payload (request_wire en d now r p) = Some p"
  by (cases d) (simp_all add: build_xadd_cmd_def build_eappend_cmd_def build_record_def)

lemma request_text_valid: "valid_utf8 p \<Longrightarrow> request_text d p = p"
  by (cases d) (simp_all add: from_utf8_def unwrap_or_def)

text \<open>A client reports that a command was dispatched only when one message went out for it, to
  the destination of its topic and with the serialised request, and the broker confirmed it
  (RabbitMQ apart, whose confirmation is not looked at).\<close>

lemma accepted_request_sent:
  assumes ok: "dispatch_request_info d en nt r s = (Inr (), s')"
    and utf8: "\<And>p. en_request en r = Inr p \<Longrightarrow> valid_utf8 p"
  obtains p w dl where "en_request en r = Inr p" "sk_log s' = sk_log s @ [(w, dl)]" "wire_payload w = Some p"
    "wire_topic d en (resolve_dispatch_topic r) w" "dl \<noteq> SendFailed" "confirms d \<longrightarrow> dl = Confirmed"
proof -
  have att: "attempted (op_wire en d (nt, RequestOp r)) s (Inr (), s')"
    using run_op_attempted [of en d "(nt, RequestOp r)" s] ok by simp
  then obtain dl where dl: "dl \<noteq> SendFailed" "sk_log s' = sk_log s @ [(op_wire en d (nt, RequestOp r), dl)]"
    by (auto simp: attempted_def)
  moreover have "dl = Confirmed" if "confirms d"
    using run_op_confirmed [OF that, of en "(nt, RequestOp r)" s] ok dl(2) by (simp add: confirmed_step_def)
  moreover obtain p where "en_request en r = Inr p"
    using ok by (cases d; cases "en_request en r")
      (simp_all add: iggy_request_def kafka_request_def nats_request_def redis_request_def rabbit_request_def
        sierra_request_def webhook_request_def encoded_def encode_request_def)
  moreover note utf8
  ultimately show ?thesis
    by (intro that [of p "op_wire en d (nt, RequestOp r)" dl])
      (simp_all add: request_wire_payload request_wire_topic request_text_valid)
qed

text \<open>C12. Over any sequence of publishes and dispatched commands, whatever the broker answers, the
  messages acknowledged by the broker, any but RabbitMQ, are exactly those of the operations that reported success,
  in their order: no acknowledged message is reported as failed, none reported as delivered
  is missing, and none is sent twice.  The terminal events of the logging phase are not among these
  operations.\<close>

theorem confirmed_log_refines_accepted:
  assumes "confirms d"
  shows "confirmed_wires (sk_log (run_all (run_op en d) ops s))
    = confirmed_wires (sk_log s) @ map (op_wire en d) (accepted (run_op en d) ops s)"
  using assms by (rule confirming_broker.confirmed_is_accepted)

definition sample_net :: "nat net" where
  "sample_net = \<lparr>nt_open_url = (\<lambda>_. Inr ()), nt_connect = (\<lambda>_. Inr 7), nt_channel = (\<lambda>_ _ _. Inr ()),
     nt_send = (\<lambda>_ _. Inr ()), nt_ack = (\<lambda>_ _. Inr ()), nt_post = (\<lambda>_. Inr 200), nt_js_info = (\<lambda>_. None),
     nt_js_apply = (\<lambda>_ _. Inr ()),
     nt_js_default = \<lparr>js_name = [], js_description = None, js_subjects = [], js_max_message_size = -1,
       js_storage = FileStorage, js_rest = []\<rparr>,
     nt_message = (\<lambda>_. Inr ()), nt_now = 0\<rparr>"

definition sample_encoder :: encoder where
  "sample_encoder = \<lparr>en_request = (\<lambda>_. Inr ''r''), en_event = (\<lambda>_. Inr ''e''), en_response = (\<lambda>_. Inr ''p''),
     en_uuid = (\<lambda>_. ''id''), en_utf8_error = (\<lambda>_. ''utf8''), en_status = show_nat, en_named = (\<lambda>_. True)\<rparr>"

definition sample_nats :: dispatch_method where
  "sample_nats = NatsJetstream (nats_new True ''n:4222'')"

theorem confirmed_log_refines_accepted_witness:
  "confirms sample_nats
   \<and> confirmed_wires (sk_log (run_all (run_op sample_encoder sample_nats)
        [(sample_net\<lparr>nt_ack := \<lambda>_ _. Inl ''nak''\<rparr>, PublishOp ''a'' ''1''), (sample_net, PublishOp ''b'' ''2'')] sink_init))
     = [NatsMessage ''b'' ''2'']"
proof -
  have c: "confirms sample_nats" by (simp add: sample_nats_def confirms_def)
  show ?thesis
    unfolding confirmed_log_refines_accepted [OF c]
    using c by (simp add: sample_nats_def sink_init_def nats_publish_def from_utf8_def in_range_def write_to_nats_def
        get_jetstream_def with_client_def sample_net_def nats_new_def nats_new_with_options_def logged_def Let_def
        ensure_default_streams_def default_stream_def)
qed

text \<open>Every client, RabbitMQ included: what reports success was sent, in order, and nothing
  else is sent.\<close>

lemma accepted_subsequence_sent:
  "\<exists>new. sk_log (run_all (run_op en d) ops s) = sk_log s @ new
     \<and> subseq (map (op_wire en d) (accepted (run_op en d) ops s)) (sent_wires new)
     \<and> subseq (map fst new) (map (op_wire en d) ops)"
  by (rule any_broker.accepted_sent) simp

section \<open>Terminal events\<close>

text \<open>The messages of a terminal event with the serialised event \<open>p\<close>.\<close>

fun terminal_wires :: "encoder \<Rightarrow> dispatch_method \<Rightarrow> nat \<Rightarrow> string \<Rightarrow> completion_event \<Rightarrow> string \<Rightarrow> wire list" where
  "terminal_wires en (NatsJetstream nd) now t ev p =
     NatsMessage t p # (if ev_status ev = Failed then [NatsMessage (failed_topic t) p] else [])"
| "terminal_wires en (KafkaMethod kd) now t ev p =
     [KafkaProduce (kafka_topic (kd_topic_prefix kd) t) (kd_partition kd)
        (build_record now (Some (en_uuid en (ri_request_id (payload_inner (ev_request ev))))) p (terminal_headers en ev))]"
| "terminal_wires en (RabbitMqMethod qd) now t ev p =
     [AmqpPublish (ShortString (qd_exchange qd)) (ShortString (routing_key (qd_routing_prefix qd) t))
        (build_properties ''application/json'' (terminal_headers en ev)) p]"
| "terminal_wires en (RedisStreams rd) now t ev p =
     [build_xadd_cmd (stream_key (rd_stream_prefix rd) t) (terminal_headers en ev @ [(''payload'', p)])]"
| "terminal_wires en (SierraDb rd) now t ev p =
     [build_eappend_cmd (stream_id (rd_stream_prefix rd) t) (''TerminalEvent:'' @ debug_status (ev_status ev)) p]"
| "terminal_wires en (IggyMethod gd) now t ev p = [IggySend (gd_stream_id gd) (topic_id gd en t) p]"
| "terminal_wires en (WebhookMethod wd) now t ev p =
     [HttpPost (wd_url wd)
        [(''content-type'', ''application/json''), (''x-spectra-topic'', t), (''x-spectra-id'', en_uuid en (ev_id ev)),
         (''x-spectra-hlc'', to_compact_string (ev_hlc ev)), (''x-spectra-status'', status_name (ev_status ev))] p]"

definition sends_prefix :: "wire list \<Rightarrow> 'k sink_state \<Rightarrow> 'k sink_step \<Rightarrow> bool" where
  "sends_prefix ws s st =
     (\<exists>new. sk_log (snd st) = sk_log s @ new \<and> prefix (map fst new) ws
        \<and> (if fst st = Inr () then new \<noteq> [] \<and> snd (hd new) \<noteq> SendFailed else True))"

lemma attempted_sends: "attempted w s st \<Longrightarrow> sends_prefix [w] s st"
  by (auto simp: attempted_def sends_prefix_def split: sum.splits)

lemmas terminal_defs = iggy_terminal_def kafka_terminal_def redis_terminal_def sierra_terminal_def
  rabbit_terminal_def nats_terminal_def

lemma encode_completion_Inr: "encode_completion en ev = Inr p \<longleftrightarrow> en_event en ev = Inr p"
  by (auto simp: encode_completion_def split: sum.splits)

lemma nats_terminal_sends:
  assumes "en_event en ev = Inr p"
  shows "sends_prefix (terminal_wires en (NatsJetstream nd) now t ev p) s (nats_terminal nd en nt t ev s)"
proof -
  obtain r s1 where 1: "nats_publish nd en nt t p s = (r, s1)" by fastforce
  obtain r' s2 where 2: "nats_publish nd en nt (failed_topic t) p s1 = (r', s2)" by fastforce
  have "confirmed_step (NatsMessage t p) s (r, s1)" "confirmed_step (NatsMessage (failed_topic t) p) s1 (r', s2)"
    using nats_publish_confirmed 1 2 by metis+
  then show ?thesis
    using assms 1 2
    by (auto simp: nats_terminal_def encoded_def encode_completion_def ignore_result_def confirmed_step_def
        sends_prefix_def split: sum.splits)
qed

lemma dispatch_terminal_sends:
  assumes p: "en_event en ev = Inr p" and utf8: "valid_utf8 p" and d: "\<not> is_WebhookMethod d"
  shows "sends_prefix (terminal_wires en d (nt_now nt) t ev p) s (dispatch_terminal_event d en nt t ev s)"
proof (cases d)
  case (NatsJetstream nd)
  with nats_terminal_sends [OF p] show ?thesis by (simp del: terminal_wires.simps)
next
  case (IggyMethod gd)
  then show ?thesis
    using p utf8 confirmed_attempted [OF iggy_publish_confirmed [of gd en t p s nt]]
    by (simp add: iggy_terminal_def encoded_def encode_completion_def from_utf8_def unwrap_or_def attempted_sends)
qed (use p utf8 d in \<open>auto simp: terminal_defs encoded_def encode_completion_def
      from_utf8_def unwrap_or_def intro!: attempted_sends publish_raw_attempted
      intro: confirmed_attempted step_confirmed step_confirmed [simplified]\<close>)

text \<open>A terminal event that a client other than the webhook reports as delivered went out on
  its own topic; beyond that at most a failed event is repeated, by NATS alone, on the failure topic.
  Nothing else is sent, whatever the outcome.\<close>

theorem terminal_event_delivery:
  assumes "en_event en ev = Inr p" "valid_utf8 p" "\<not> is_WebhookMethod d"
    and "dispatch_terminal_event d en nt t ev s = (res, s')"
  shows "\<exists>new. sk_log s' = sk_log s @ new \<and> prefix (map fst new) (terminal_wires en d (nt_now nt) t ev p)
     \<and> (if res = Inr () then new \<noteq> [] \<and> snd (hd new) \<noteq> SendFailed else True)"
  using dispatch_terminal_sends [OF assms(1-3), of nt t s] assms(4) by (simp add: sends_prefix_def)

definition sample_event :: completion_event where
  "sample_event = event_failure new_unchecked 1 (hlc_new 5 0) 3 None sample_request None ''io''"

theorem terminal_event_delivery_witness:
  "\<exists>new. sk_log (snd (dispatch_terminal_event sample_nats sample_encoder sample_net ''q.a'' sample_event sink_init)) = new
     \<and> prefix (map fst new) [NatsMessage ''q.a'' ''e'', NatsMessage ''q.a.failed'' ''e'']"
proof -
  obtain res s' where d: "dispatch_terminal_event sample_nats sample_encoder sample_net ''q.a'' sample_event sink_init = (res, s')"
    by fastforce
  have "en_event sample_encoder sample_event = Inr ''e''" "valid_utf8 ''e''" "\<not> is_WebhookMethod sample_nats"
    by (simp_all add: sample_encoder_def in_range_def sample_nats_def)
  from terminal_event_delivery [OF this d] obtain new where "sk_log s' = sk_log (sink_init :: nat sink_state) @ new"
      "prefix (map fst new) (terminal_wires sample_encoder sample_nats (nt_now sample_net) ''q.a'' sample_event ''e'')"
    by blast
  then show ?thesis
    unfolding d by (simp add: sink_init_def sample_nats_def sample_event_def event_failure_def failed_topic_def)
qed

text \<open>The gateway hands a failed event over on the failure topic already, so that NATS repeats it
  one level further down.\<close>

lemma failed_event_twice:
  assumes "ev_status ev = Failed" "en_event en ev = Inr p" "valid_utf8 p" "sk_conn s = Some k"
    and "\<And>w. nt_send nt k w = Inr ()" "\<And>w. nt_ack nt k w = Inr ()"
  shows "sk_log (snd (dispatch_terminal_event (NatsJetstream nd) en nt (failed_topic t) ev s)) = sk_log s
    @ [(NatsMessage (t @ ''.failed'') p, Confirmed), (NatsMessage (t @ ''.failed.failed'') p, Confirmed)]"
  using assms by (simp add: nats_terminal_def encoded_def encode_completion_def nats_publish_def from_utf8_def
      write_to_nats_def get_jetstream_def with_client_def logged_def ignore_result_def failed_topic_def)

text \<open>The webhook reports every terminal event as delivered.\<close>

lemma webhook_terminal_ok: "fst (dispatch_terminal_event (WebhookMethod wd) en nt t ev s) = Inr ()"
  by (simp add: webhook_terminal_def Let_def split: sum.splits)

section \<open>Connections over time\<close>

lemma nats_send_failure_evicts:
  assumes "nats_publish nd en nt t p s = (Inl e, s')" "sk_log s' = sk_log s @ [(w, SendFailed)]"
  shows "sk_conn s' = None"
  using assms
  by (cases "get_jetstream nd nt s")
    (auto simp: nats_publish_def write_to_nats_def with_client_def evict_client_def logged_def Let_def
      split: option.splits sum.splits dest: arg_cong [where f = "\<lambda>l. length l"]
      simp: get_jetstream_def ensure_default_streams_def)

text \<open>NATS recovers from a broken connection: after a publish that could not be sent, the
  next one connects anew, and with a broker that accepts the connection, the message and acknowledges
  it the publish succeeds, whatever connection failed before.\<close>

theorem nats_reconnects:
  assumes "nats_publish nd en nt t p s = (Inl e, s')" "sk_log s' = sk_log s @ [(w, SendFailed)]"
    and "nt_connect nt' [nd_addr nd] = Inr k" "nt_send nt' k (NatsMessage t' p') = Inr ()"
      "nt_ack nt' k (NatsMessage t' p') = Inr ()" "valid_utf8 p'"
  shows "\<exists>s''. nats_publish nd en nt' t' p' s' = (Inr (), s'') \<and> sk_conn s'' = Some k
     \<and> sk_log s'' = sk_log s' @ [(NatsMessage t' p', Confirmed)]"
  using nats_send_failure_evicts [OF assms(1,2)] assms(3-)
  by (simp add: nats_publish_def from_utf8_def write_to_nats_def get_jetstream_def with_client_def logged_def)

theorem nats_reconnects_witness:
  "\<exists>s' s''. nats_publish (nats_new True ''n'') sample_encoder (sample_net\<lparr>nt_send := \<lambda>_ _. Inl ''broken pipe''\<rparr>)
       ''a'' ''1'' (sink_init\<lparr>sk_conn := Some 3\<rparr>) = (Inl (WriteError, ''NATS publish error: broken pipe''), s')
     \<and> nats_publish (nats_new True ''n'') sample_encoder sample_net ''b'' ''2'' s' = (Inr (), s'')
     \<and> sk_conn s'' = Some 7"
proof -
  let ?s = "sink_init\<lparr>sk_conn := Some (3 :: nat)\<rparr>"
  let ?s' = "evict_client (logged (NatsMessage ''a'' ''1'') SendFailed ?s)"
  have 1: "nats_publish (nats_new True ''n'') sample_encoder (sample_net\<lparr>nt_send := \<lambda>_ _. Inl ''broken pipe''\<rparr>)
       ''a'' ''1'' ?s = (Inl (WriteError, ''NATS publish error: broken pipe''), ?s')"
    by (simp add: nats_publish_def from_utf8_def in_range_def write_to_nats_def get_jetstream_def with_client_def)
  have "\<exists>s''. nats_publish (nats_new True ''n'') sample_encoder sample_net ''b'' ''2'' ?s' = (Inr (), s'')
      \<and> sk_conn s'' = Some 7 \<and> sk_log s'' = sk_log ?s' @ [(NatsMessage ''b'' ''2'', Confirmed)]"
    by (rule nats_reconnects [OF 1]) (simp_all add: sample_net_def in_range_def)
  with 1 show ?thesis by blast
qed

text \<open>An acknowledgement that fails does not drop the connection.\<close>

lemma nats_ack_failure_keeps:
  assumes "sk_conn s = Some k" "valid_utf8 p" "nt_send nt k (NatsMessage t p) = Inr ()"
    "nt_ack nt k (NatsMessage t p) = Inl e"
  shows "sk_conn (snd (nats_publish nd en nt t p s)) = Some k"
  using assms by (simp add: nats_publish_def from_utf8_def write_to_nats_def get_jetstream_def with_client_def logged_def)

text \<open>RabbitMQ keeps its first connection for ever: once it no longer opens channels nothing is
  published again, although the broker would accept a new one.\<close>

lemma rabbit_connection_kept:
  assumes "sk_conn s = Some k" "\<And>nt op. (nt, op) \<in> set ops \<Longrightarrow> \<exists>e. nt_channel nt k '''' 0 = Inl e"
  shows "accepted (run_op en (RabbitMqMethod qd)) ops s = [] \<and> run_all (run_op en (RabbitMqMethod qd)) ops s = s"
  using assms(2)
proof (induction ops)
  case (Cons x ops)
  obtain nt op where x: "x = (nt, op)" by fastforce
  with Cons.prems obtain e where "nt_channel nt k '''' 0 = Inl e" by auto
  then have raw: "publish_raw qd nt rk p props s = (Inl (ConnectError, ''RabbitMQ channel error: '' @ e), s)" for rk p props
    using assms(1) by (simp add: publish_raw_def rabbit_get_connection_def get_or_try_init_def with_client_def)
  then have "\<exists>e. run_op en (RabbitMqMethod qd) x s = (Inl e, s)"
    unfolding x by (cases op) (auto simp: sink_defs rabbit_request_def encoded_def split: sum.splits)
  moreover have "accepted (run_op en (RabbitMqMethod qd)) ops s = [] \<and> run_all (run_op en (RabbitMqMethod qd)) ops s = s"
    using Cons.prems by (intro Cons.IH) auto
  ultimately show ?case by auto
qed simp

text \<open>A message RabbitMQ refuses is reported as delivered.\<close>

lemma rabbit_refused_reported_ok:
  assumes "sk_conn s = Some k" "\<And>w. nt_send nt k w = Inr ()" "\<And>w. nt_ack nt k w = Inl ''nack''"
    "nt_channel nt k '''' 0 = Inr ()"
  shows "\<exists>w s'. sink_publish (RabbitMqMethod qd) en nt t p s = (Inr (), s') \<and> sk_log s' = sk_log s @ [(w, Unconfirmed)]"
  using assms
  by (simp add: sink_defs publish_raw_def rabbit_get_connection_def get_or_try_init_def with_client_def Let_def)

text \<open>A payload that is not UTF-8 is published as an empty text, and reported as delivered.\<close>

lemma invalid_payload_sent_empty:
  assumes "\<not> valid_utf8 p" "sk_conn s = Some k" "\<And>w. nt_send nt k w = Inr ()" "\<And>t n. nt_channel nt k t n = Inr ()"
  shows "\<exists>w s'. sink_publish (KafkaMethod kd) en nt t p s = (Inr (), s') \<and> sk_log s' = sk_log s @ [(w, Confirmed)]
    \<and> wire_payload w = Some []"
  using assms
  by (simp add: sink_defs produce_record_def kafka_get_client_def get_or_try_init_def with_client_def send_once_def
      from_utf8_def unwrap_or_def build_record_def)

section \<open>The JetStream stream\<close>

lemma add_subjects_spec:
  "distinct ts \<Longrightarrow> add_subjects ts (xs, b) = (xs @ filter (\<lambda>t. t \<notin> set xs) ts, b \<or> (\<exists>t \<in> set ts. t \<notin> set xs))"
proof (induction ts arbitrary: xs b)
  case (Cons t ts)
  have "filter (\<lambda>u. u \<notin> set (xs @ [t])) ts = filter (\<lambda>u. u \<notin> set xs) ts"
    using Cons.prems by (auto intro: filter_cong)
  with Cons show ?case by auto
qed simp

lemma target_subjects_distinct: "distinct target_subjects"
  by (simp add: target_subjects_def)

text \<open>Connecting never narrows the stream: an existing stream keeps its settings and its
  subjects, in order, and gains the missing ones of the gateway; it is left alone when none is missing.
  Only when the stream cannot be read is it created, in memory if not on disk.\<close>

theorem ensure_default_streams_calls:
  "sk_streams (ensure_default_streams nt js s) = sk_streams s @
     (case nt_js_info nt js of
        Some cfg \<Rightarrow>
          if set target_subjects \<subseteq> set (js_subjects cfg) then []
          else [UpdateStream (cfg\<lparr>js_subjects := js_subjects cfg
                  @ filter (\<lambda>t. t \<notin> set (js_subjects cfg)) target_subjects\<rparr>)]
      | None \<Rightarrow>
          GetOrCreateStream (default_stream nt)
          # (case nt_js_apply nt js (GetOrCreateStream (default_stream nt)) of
               Inr _ \<Rightarrow> [] | Inl _ \<Rightarrow> [GetOrCreateStream ((default_stream nt)\<lparr>js_storage := MemoryStorage\<rparr>)]))"
  by (auto simp: ensure_default_streams_def Let_def add_subjects_spec [OF target_subjects_distinct]
      split: option.splits sum.splits)

text \<open>Reconnection backs off: the delay never exceeds the configured maximum, never shrinks with the
  number of attempts, doubles for the first six while below the maximum, and is positive
  whenever both settings are.\<close>

theorem reconnect_delay_bounds:
  "reconnect_delay i m n \<le> m \<and> reconnect_delay i m n \<le> reconnect_delay i m (Suc n)
   \<and> (n < 6 \<and> i * 2 ^ Suc n \<le> m \<and> m < 2 ^ 64 \<longrightarrow> reconnect_delay i m (Suc n) = 2 * reconnect_delay i m n)
   \<and> (0 < i \<and> 0 < m \<longrightarrow> 0 < reconnect_delay i m n)"
proof -
  have "i * 2 ^ min n 6 \<le> i * 2 ^ min (Suc n) 6" by (intro mult_left_mono power_increasing) auto
  then have "reconnect_delay i m n \<le> reconnect_delay i m (Suc n)"
    unfolding reconnect_delay_def by (intro min.mono order_refl)
  moreover have "reconnect_delay i m (Suc n) = 2 * reconnect_delay i m n"
    if "n < 6" "i * 2 ^ Suc n \<le> m" "m < 2 ^ 64"
  proof -
    have "min n 6 = n" "min (Suc n) 6 = Suc n" using that(1) by auto
    moreover have "i * 2 ^ n \<le> m" using that(2) by simp
    ultimately show ?thesis using that(2,3) by (auto simp: reconnect_delay_def min_def)
  qed
  ultimately show ?thesis by (auto simp: reconnect_delay_def)
qed

theorem reconnect_delay_bounds_witness:
  "reconnect_delay 250 5000 3 = 2 * reconnect_delay 250 5000 2 \<and> 0 < reconnect_delay 250 5000 2"
  using reconnect_delay_bounds [of 250 5000 2] by simp

end
