(* ===== verification/Delivery.thy ===== *)
theory Delivery
  imports Gateway SinkContract
begin

text \<open>
  The gateway and its brokers together: what the proxy hands over goes through the client of
  the service it belongs to, and the answer of that client is what the proxy tells its caller.
\<close>

section \<open>Handing over\<close>

fun hand_over ::
  "dispatch_method \<Rightarrow> encoder \<Rightarrow> 'k net \<Rightarrow> published \<Rightarrow> 'k sink_state \<Rightarrow> 'k sink_step" where
  "hand_over d en nt (PublishedRequest r) b = dispatch_request_info d en nt (payload_inner r) b"
| "hand_over d en nt (PublishedEvent t ev) b = dispatch_terminal_event d en nt t ev b"
| "hand_over d en nt (PublishedPayload t p) b = dispatch_payload d en nt t p b"

text \<open>The environment of the proxy with a broker in place of the assumed answers.\<close>

definition with_broker ::
  "dispatch_method \<Rightarrow> encoder \<Rightarrow> 'k net \<Rightarrow> 'k sink_state \<Rightarrow> ('p, 'm, 'c, 'e) gw_env \<Rightarrow> ('p, 'm, 'c, 'e) gw_env" where
  "with_broker d en nt b gv = gv\<lparr>gv_broker_ok := \<lambda>m. fst (hand_over d en nt m b) = Inr ()\<rparr>"

definition receipt_failed :: "http_response \<Rightarrow> bool" where
  "receipt_failed r = ((''x-spectra-dispatch'', ''failed'') \<in> set (hr_headers r))"

lemma mode_b_response:
  "\<exists>r. cl_response (handle_mode_b_edge gv route info s) = Some r
     \<and> (receipt_failed r \<longleftrightarrow> \<not> gv_broker_ok gv (PublishedRequest (gw_sanitized gv info)))"
  by (auto simp: handle_mode_b_edge_def respond_def receipt_failed_def stamp_headers_def Let_def)

lemma with_broker_simps [simp]:
  "gw_sanitized (with_broker d en nt b gv) info = gw_sanitized gv info"
  "gv_broker_ok (with_broker d en nt b gv) m = (fst (hand_over d en nt m b) = Inr ())"
  by (simp_all add: with_broker_def gw_sanitized_def)

text \<open>C5. A command receipt tells the truth.  With any broker client but RabbitMQ's, which drops the
  confirmation, a Mode B request gets a receipt
  that is not marked as failed exactly when the broker acknowledged the command; then one message went out,
  to the destination of the topic of the sanitised request and with its serialisation, and
  when the receipt is marked as failed the broker acknowledged nothing.\<close>

theorem receipt_means_delivered:
  assumes "confirms d"
    and "\<And>r p. en_request en r = Inr p \<Longrightarrow> valid_utf8 p"
    and "cl_response (handle_mode_b_edge (with_broker d en nt b gv) route info s) = Some r"
    and "hand_over d en nt (PublishedRequest (gw_sanitized gv info)) b = (res, b')"
  shows "if receipt_failed r then confirmed_wires (sk_log b') = confirmed_wires (sk_log b)
    else \<exists>w p. sk_log b' = sk_log b @ [(w, Confirmed)]
      \<and> wire_topic d en (resolve_dispatch_topic (payload_inner (gw_sanitized gv info))) w
      \<and> en_request en (payload_inner (gw_sanitized gv info)) = Inr p \<and> wire_payload w = Some p"
proof -
  let ?q = "payload_inner (gw_sanitized gv info)"
  have h: "dispatch_request_info d en nt ?q b = (res, b')" using assms(4) by simp
  have f: "receipt_failed r \<longleftrightarrow> res \<noteq> Inr ()"
    using mode_b_response [of "with_broker d en nt b gv" route info s] assms(3,4) by auto
  show ?thesis
  proof (cases "receipt_failed r")
    case True
    have "confirmed_step (op_wire en d (nt, RequestOp ?q)) b (res, b')"
      using run_op_confirmed [OF assms(1), of en "(nt, RequestOp ?q)" b] h by simp
    with True f show ?thesis by (cases res) (auto simp: confirmed_step_def)
  next
    case False
    with f h have "dispatch_request_info d en nt ?q b = (Inr (), b')" by simp
    then obtain p w dl where "en_request en ?q = Inr p" "sk_log b' = sk_log b @ [(w, dl)]" "wire_payload w = Some p"
        "wire_topic d en (resolve_dispatch_topic ?q) w" "dl \<noteq> SendFailed" "confirms d \<longrightarrow> dl = Confirmed"
      using assms(2) by (rule accepted_request_sent)
    with assms(1) False show ?thesis by auto
  qed
qed

lemma sample_hand_over:
  "hand_over sample_nats sample_encoder sample_net (PublishedRequest q) sink_init
   = (Inr (), sink_init\<lparr>sk_streams := [GetOrCreateStream (default_stream sample_net)], sk_conn := Some 7,
        sk_log := [(NatsMessage (resolve_dispatch_topic (payload_inner q)) ''r'', Confirmed)]\<rparr>)"
  by (simp add: sample_nats_def nats_request_def encoded_def encode_request_def sample_encoder_def nats_publish_def
      from_utf8_def in_range_def write_to_nats_def get_jetstream_def with_client_def logged_def sink_init_def
      sample_net_def ensure_default_streams_def Let_def)

theorem receipt_means_delivered_witness:
  "\<exists>r w. cl_response (handle_mode_b_edge (with_broker sample_nats sample_encoder sample_net sink_init sample_gw)
       (route_of_operation ''pay'') sample_request sample_call) = Some r \<and> \<not> receipt_failed r
     \<and> sk_log (snd (hand_over sample_nats sample_encoder sample_net
         (PublishedRequest (gw_sanitized sample_gw sample_request)) sink_init)) = [(w, Confirmed)]"
proof -
  let ?gv = "with_broker sample_nats sample_encoder sample_net sink_init sample_gw"
  obtain r where r: "cl_response (handle_mode_b_edge ?gv (route_of_operation ''pay'') sample_request sample_call) = Some r"
      "\<not> receipt_failed r"
    using mode_b_response [of ?gv "route_of_operation ''pay''" sample_request sample_call]
    by (auto simp: sample_hand_over simp del: hand_over.simps)
  have "valid_utf8 p" if "en_request sample_encoder q = Inr p" for q p
    using that by (auto simp: sample_encoder_def in_range_def)
  moreover have "confirms sample_nats" by (simp add: sample_nats_def confirms_def)
  ultimately have "\<exists>w p. sk_log (snd (hand_over sample_nats sample_encoder sample_net
         (PublishedRequest (gw_sanitized sample_gw sample_request)) sink_init)) = sk_log (sink_init :: nat sink_state) @ [(w, Confirmed)]"
    using receipt_means_delivered [OF _ _ r(1) surjective_pairing] r(2) by fastforce
  with r show ?thesis by (auto simp: sink_init_def simp del: hand_over.simps)
qed

section \<open>What a refused event leaves in the log\<close>

text \<open>\<open>TelemetryFilter::log_dispatch_error\<close>: a refused dispatch is an error with its kind and its text; the
  result is the line that is logged.\<close>

definition dispatch_preview :: "string \<Rightarrow> string" where
  "dispatch_preview buffer =
     (if buffer = [] then []
      else unwrap_or (from_utf8 (take (min (length buffer) 256) buffer)) ''<binary>'')"

definition log_dispatch_error :: "string \<Rightarrow> string \<Rightarrow> (string \<times> string) + unit \<Rightarrow> string option" where
  "log_dispatch_error topic buffer dispatch_result =
     (case dispatch_result of
        Inr _ \<Rightarrow> None
      | Inl (etype, msg) \<Rightarrow>
          Some (''DISPATCH failed. '' @ etype @ '' context: '' @ msg @ '' request_topic: '' @ topic
            @ '' (preview: '' @ show_nat (length buffer) @ '' bytes) '' @ dispatch_preview buffer))"

lemma dispatch_preview_bound: "length (dispatch_preview buffer) \<le> 256"
  by (auto simp: dispatch_preview_def from_utf8_def)

text \<open>The line ends with the bytes of the buffer as they came: what the sanitizer keeps out of the event
  is in the log of a short body whose event the broker refused.\<close>

lemma log_line_carries_raw_body:
  assumes "valid_utf8 buffer" "length buffer \<le> 256" "log_dispatch_error topic buffer (Inl e) = Some line"
  shows "\<exists>pre. line = pre @ buffer"
  using assms by (cases e) (auto simp: log_dispatch_error_def dispatch_preview_def from_utf8_def min_def)

text \<open>A body whose character crosses the 256th byte is logged as binary.\<close>

lemma preview_splits_character:
  "valid_utf8 (replicate 255 (CHR ''a'') @ [CHR 0xC3, CHR 0xA9])
   \<and> dispatch_preview (replicate 255 (CHR ''a'') @ [CHR 0xC3, CHR 0xA9]) = ''<binary>''"
proof -
  have v: "valid_utf8 (replicate n (CHR ''a'') @ s) = valid_utf8 s" for n s
    by (induction n) (simp_all add: in_range_def)
  have "take 256 (replicate 255 (CHR ''a'') @ [CHR 0xC3, CHR 0xA9]) = replicate 255 (CHR ''a'') @ [CHR 0xC3]"
    by (simp del: replicate.simps add: take_append)
  then show ?thesis unfolding dispatch_preview_def from_utf8_def
    by (simp add: v in_range_def del: replicate.simps replicate_Suc)
qed

end
