(* ===== verification/Pump.thy ===== *)
theory Pump
  imports Subscriptions
begin

text \<open>
  The byte pump of \<open>subscriptions/handler.rs\<close> between the client and the connection actor, over the two
  bounded buffers of \<open>tokio::io::duplex\<close>.

  One turn of the \<open>select!\<close> loop waits for bytes of the client, bytes of the actor or the end of the
  actor; what it got is then written, to the actor with \<open>write_all\<close>, which waits for room, or to the client
  with \<open>write_response_body\<close>, which waits for the client to take it.  Neither wait looks at anything
  else.  The actor likewise reads while it is idle and waits for room while it sends.
\<close>

section \<open>The pump\<close>

datatype pump_state = Selecting | WritingAll string | WritingClient string | PumpEnded
datatype actor_io = ActorIdle | ActorSending string | ActorEnded

text \<open>\<open>rl_to_ws\<close> and \<open>rl_from_ws\<close> are the two buffers; the rest of the fields collect what each
  side has sent and got.\<close>

record relay =
  rl_pump :: pump_state
  rl_actor :: actor_io
  rl_to_ws :: string
  rl_from_ws :: string
  rl_client_sent :: string
  rl_client_got :: string
  rl_actor_sent :: string
  rl_actor_got :: string

definition relay_new :: relay where
  "relay_new = \<lparr>rl_pump = Selecting, rl_actor = ActorIdle, rl_to_ws = [], rl_from_ws = [], rl_client_sent = [],
     rl_client_got = [], rl_actor_sent = [], rl_actor_got = []\<rparr>"

definition DUPLEX_CAPACITY :: nat where
  "DUPLEX_CAPACITY = 64 * 1024"

definition PUMP_BUFFER :: nat where
  "PUMP_BUFFER = 8192"

datatype relay_event =
    ClientRead "string option result"
  | PumpWrites nat
  | PumpWriteFails
  | DuplexRead nat
  | ClientAccepts
  | ClientRefuses
  | DuplexEnd
  | ActorDone
  | ActorReads nat
  | ActorSends string
  | ActorWrites nat
  | ActorEnds

definition writing :: "string \<Rightarrow> pump_state" where
  "writing rest = (if rest = [] then Selecting else WritingAll rest)"

definition sending :: "string \<Rightarrow> actor_io" where
  "sending rest = (if rest = [] then ActorIdle else ActorSending rest)"

text \<open>\<open>None\<close>: the event cannot happen now.  A pump that has ended aborts the actor.\<close>

fun relay_step :: "nat \<Rightarrow> relay_event \<Rightarrow> relay \<Rightarrow> relay option" where
  "relay_step cap (ClientRead r) s =
     (if rl_pump s \<noteq> Selecting then None
      else case r of
             Inr (Some bytes) \<Rightarrow>
               if bytes = [] then Some (s\<lparr>rl_pump := PumpEnded, rl_actor := ActorEnded\<rparr>)
               else Some (s\<lparr>rl_pump := WritingAll bytes, rl_client_sent := rl_client_sent s @ bytes\<rparr>)
           | _ \<Rightarrow> Some (s\<lparr>rl_pump := PumpEnded, rl_actor := ActorEnded\<rparr>))"
| "relay_step cap (PumpWrites n) s =
     (case rl_pump s of
        WritingAll rest \<Rightarrow>
          if 0 < n \<and> n \<le> length rest \<and> length (rl_to_ws s) + n \<le> cap \<and> rl_actor s \<noteq> ActorEnded
          then Some (s\<lparr>rl_pump := writing (drop n rest), rl_to_ws := rl_to_ws s @ take n rest\<rparr>) else None
      | _ \<Rightarrow> None)"
| "relay_step cap PumpWriteFails s =
     (case rl_pump s of
        WritingAll rest \<Rightarrow> if rl_actor s = ActorEnded then Some (s\<lparr>rl_pump := PumpEnded\<rparr>) else None
      | _ \<Rightarrow> None)"
| "relay_step cap (DuplexRead n) s =
     (if rl_pump s = Selecting \<and> 0 < n \<and> n \<le> length (rl_from_ws s) \<and> n \<le> PUMP_BUFFER
      then Some (s\<lparr>rl_from_ws := drop n (rl_from_ws s), rl_pump := WritingClient (take n (rl_from_ws s))\<rparr>) else None)"
| "relay_step cap ClientAccepts s =
     (case rl_pump s of
        WritingClient chunk \<Rightarrow> Some (s\<lparr>rl_pump := Selecting, rl_client_got := rl_client_got s @ chunk\<rparr>)
      | _ \<Rightarrow> None)"
| "relay_step cap ClientRefuses s =
     (case rl_pump s of
        WritingClient chunk \<Rightarrow> Some (s\<lparr>rl_pump := PumpEnded, rl_actor := ActorEnded\<rparr>)
      | _ \<Rightarrow> None)"
| "relay_step cap DuplexEnd s =
     (if rl_pump s = Selecting \<and> rl_from_ws s = [] \<and> rl_actor s = ActorEnded then Some (s\<lparr>rl_pump := PumpEnded\<rparr>) else None)"
| "relay_step cap ActorDone s =
     (if rl_pump s = Selecting \<and> rl_actor s = ActorEnded then Some (s\<lparr>rl_pump := PumpEnded\<rparr>) else None)"
| "relay_step cap (ActorReads n) s =
     (if rl_actor s = ActorIdle \<and> 0 < n \<and> n \<le> length (rl_to_ws s)
      then Some (s\<lparr>rl_to_ws := drop n (rl_to_ws s), rl_actor_got := rl_actor_got s @ take n (rl_to_ws s)\<rparr>) else None)"
| "relay_step cap (ActorSends bytes) s =
     (if rl_actor s = ActorIdle \<and> bytes \<noteq> []
      then Some (s\<lparr>rl_actor := ActorSending bytes, rl_actor_sent := rl_actor_sent s @ bytes\<rparr>) else None)"
| "relay_step cap (ActorWrites n) s =
     (case rl_actor s of
        ActorSending rest \<Rightarrow>
          if 0 < n \<and> n \<le> length rest \<and> length (rl_from_ws s) + n \<le> cap
          then Some (s\<lparr>rl_actor := sending (drop n rest), rl_from_ws := rl_from_ws s @ take n rest\<rparr>) else None
      | _ \<Rightarrow> None)"
| "relay_step cap ActorEnds s =
     (if rl_actor s = ActorIdle then Some (s\<lparr>rl_actor := ActorEnded\<rparr>) else None)"

inductive relay_reachable :: "nat \<Rightarrow> relay \<Rightarrow> bool" for cap where
  relay_init: "relay_reachable cap relay_new"
| relay_next: "relay_reachable cap s \<Longrightarrow> relay_step cap ev s = Some s' \<Longrightarrow> relay_reachable cap s'"

section \<open>Nothing is lost, doubled or reordered\<close>

fun unwritten :: "pump_state \<Rightarrow> string" where
  "unwritten (WritingAll rest) = rest"
| "unwritten _ = []"

fun undelivered :: "pump_state \<Rightarrow> string" where
  "undelivered (WritingClient chunk) = chunk"
| "undelivered _ = []"

fun unsent :: "actor_io \<Rightarrow> string" where
  "unsent (ActorSending rest) = rest"
| "unsent _ = []"

lemma unwritten_writing [simp]: "unwritten (writing r) = r"
  by (simp add: writing_def)

lemma undelivered_writing [simp]: "undelivered (writing r) = []"
  by (simp add: writing_def)

lemma unsent_sending [simp]: "unsent (sending r) = r"
  by (simp add: sending_def)

definition relay_ok :: "nat \<Rightarrow> relay \<Rightarrow> bool" where
  "relay_ok cap s =
     (length (rl_to_ws s) \<le> cap \<and> length (rl_from_ws s) \<le> cap
      \<and> (\<exists>r. rl_client_sent s = rl_actor_got s @ rl_to_ws s @ r
           \<and> (if rl_pump s = PumpEnded then True else r = unwritten (rl_pump s)))
      \<and> (\<exists>r. rl_actor_sent s = rl_client_got s @ r
           \<and> (if rl_pump s = PumpEnded then True else r = undelivered (rl_pump s) @ rl_from_ws s @ unsent (rl_actor s))))"

lemma writing_not_ended [simp]: "writing r \<noteq> PumpEnded"
  by (simp add: writing_def)

lemma take_drop_append [simp]: "take n xs @ drop n xs @ ys = xs @ ys"
  by (simp flip: append_assoc)

lemma relay_step_ok:
  assumes "relay_step cap ev s = Some s'" "relay_ok cap s"
  shows "relay_ok cap s'"
proof (cases ev)
  case (DuplexRead n)
  then show ?thesis using assms
    by (auto simp: relay_ok_def split: if_splits)
next
  case (ActorReads n)
  then show ?thesis using assms
    by (auto simp: relay_ok_def split: if_splits)
next
  case (ActorEnds)
  then show ?thesis using assms by (auto simp: relay_ok_def split: if_splits)
qed (use assms in \<open>auto simp: relay_ok_def split: if_splits pump_state.splits actor_io.splits option.splits sum.splits\<close>)

text \<open>C29. The pump relays bytes faithfully.  Whatever the interleaving of the client, the pump and the
  actor, what the actor has read is a prefix of what the client sent and what the client got is a
  prefix of what the actor sent; neither buffer grows beyond its capacity, and while the pump runs the
  missing part is exactly what is still on its way.\<close>

theorem pump_transparent:
  assumes "relay_reachable cap s"
  shows "length (rl_to_ws s) \<le> cap \<and> length (rl_from_ws s) \<le> cap
    \<and> (\<exists>r. rl_client_sent s = rl_actor_got s @ rl_to_ws s @ r
         \<and> (if rl_pump s = PumpEnded then True else r = unwritten (rl_pump s)))
    \<and> (\<exists>r. rl_actor_sent s = rl_client_got s @ r
         \<and> (if rl_pump s = PumpEnded then True else r = undelivered (rl_pump s) @ rl_from_ws s @ unsent (rl_actor s)))"
proof -
  have "relay_ok cap s" using assms
  proof (induction rule: relay_reachable.induct)
    case relay_init
    show ?case by (simp add: relay_ok_def relay_new_def)
  next
    case (relay_next s ev s')
    then show ?case by (blast intro: relay_step_ok)
  qed
  then show ?thesis by (simp only: relay_ok_def)
qed

fun relay_run :: "nat \<Rightarrow> relay_event list \<Rightarrow> relay \<Rightarrow> relay option" where
  "relay_run cap [] s = Some s"
| "relay_run cap (ev # evs) s = Option.bind (relay_step cap ev s) (relay_run cap evs)"

lemma relay_run_reachable: "relay_run cap evs s = Some s' \<Longrightarrow> relay_reachable cap s \<Longrightarrow> relay_reachable cap s'"
  by (induction evs arbitrary: s) (auto simp: bind_eq_Some_conv intro: relay_next)

theorem pump_transparent_witness:
  "\<exists>s. relay_run 4 [ClientRead (Inr (Some ''hello'')), PumpWrites 4, ActorReads 3, PumpWrites 1, ActorSends ''ok'',
       ActorWrites 2, DuplexRead 2, ClientAccepts] relay_new = Some s
     \<and> length (rl_to_ws s) \<le> 4 \<and> rl_client_got s = ''ok'' \<and> (\<exists>r. rl_client_sent s = rl_actor_got s @ rl_to_ws s @ r)"
proof -
  obtain s where s: "relay_run 4 [ClientRead (Inr (Some ''hello'')), PumpWrites 4, ActorReads 3, PumpWrites 1, ActorSends ''ok'',
       ActorWrites 2, DuplexRead 2, ClientAccepts] relay_new = Some s" "rl_client_got s = ''ok''"
    by (simp add: relay_new_def writing_def sending_def PUMP_BUFFER_def)
  from pump_transparent [OF relay_run_reachable [OF s(1) relay_init]] s show ?thesis by blast
qed

section \<open>The pump and the actor can wait for each other\<close>

text \<open>With more input than a buffer holds arriving while the actor has more output than a buffer holds,
  both wait for room for ever: no event is possible, not even the end of the client.\<close>

lemma pump_deadlock:
  assumes "0 < cap"
  shows "\<exists>s. relay_reachable cap s \<and> rl_pump s \<noteq> PumpEnded \<and> (\<forall>ev. relay_step cap ev s = None)"
proof -
  let ?big = "replicate (Suc cap) CHR ''x''"
  let ?evs = "[ClientRead (Inr (Some ?big)), PumpWrites cap, ActorSends ?big, ActorWrites cap]"
  let ?s = "relay_new\<lparr>rl_pump := WritingAll ''x'', rl_actor := ActorSending ''x'', rl_to_ws := replicate cap CHR ''x'',
     rl_from_ws := replicate cap CHR ''x'', rl_client_sent := ?big, rl_actor_sent := ?big\<rparr>"
  have "take cap ?big = replicate cap CHR ''x''" "drop cap ?big = ''x''"
    by (simp_all add: replicate_append_same [symmetric] del: replicate_Suc) (simp_all add: replicate_app_Cons_same)
  then have "relay_run cap ?evs relay_new = Some ?s"
    using assms by (simp add: relay_new_def writing_def sending_def del: replicate_Suc)
  then have "relay_reachable cap ?s" by (rule relay_run_reachable) (rule relay_init)
  moreover have "relay_step cap ev ?s = None" for ev by (cases ev) auto
  ultimately show ?thesis by (intro exI [of _ ?s]) simp
qed

section \<open>The pump ends with the actor\<close>

definition turns_left :: "relay \<Rightarrow> nat" where
  "turns_left s = (case rl_pump s of
     PumpEnded \<Rightarrow> 0 | WritingAll _ \<Rightarrow> 1 | Selecting \<Rightarrow> 2 * length (rl_from_ws s) + 2
   | WritingClient _ \<Rightarrow> 2 * length (rl_from_ws s) + 3)"

lemma ended_actor_step:
  assumes "relay_step cap ev s = Some s'" "rl_actor s = ActorEnded"
  shows "rl_actor s' = ActorEnded" "turns_left s' < turns_left s"
  using assms
  by (cases ev; auto simp: turns_left_def split: if_splits pump_state.splits option.splits sum.splits)+

lemma ended_actor_run:
  "relay_run cap evs s = Some s' \<Longrightarrow> rl_actor s = ActorEnded \<Longrightarrow> rl_actor s' = ActorEnded \<and> length evs + turns_left s' \<le> turns_left s"
proof (induction evs arbitrary: s)
  case (Cons ev evs)
  from Cons.prems(1) obtain s1 where "relay_step cap ev s = Some s1" "relay_run cap evs s1 = Some s'"
    by (auto simp: bind_eq_Some_conv)
  with ended_actor_step [OF this(1) Cons.prems(2)] Cons.IH [of s1] show ?case by auto
qed simp

text \<open>What the pump can do without the client.\<close>

fun pump_alone :: "relay_event \<Rightarrow> bool" where
  "pump_alone PumpWriteFails = True"
| "pump_alone ActorDone = True"
| "pump_alone _ = False"

text \<open>C30. Once the actor has ended the handler returns, provided the client takes what is being written to
  it.  At most twice as many turns as there are bytes left to deliver, and three, are possible whatever the
  client does; and as long as the pump has not ended, either it can end by itself at once, or it is in
  the middle of a write to the client, and goes on when the client takes the chunk and ends when the
  client refuses it.\<close>

theorem pump_ends_with_actor:
  assumes "rl_actor s = ActorEnded" "relay_run cap evs s = Some s'"
  shows "length evs \<le> 2 * length (rl_from_ws s) + 3
    \<and> (case rl_pump s' of
         PumpEnded \<Rightarrow> True
       | WritingClient chunk \<Rightarrow>
           (\<exists>s''. relay_step cap ClientAccepts s' = Some s'' \<and> rl_pump s'' = Selecting)
           \<and> (\<exists>s''. relay_step cap ClientRefuses s' = Some s'' \<and> rl_pump s'' = PumpEnded)
       | _ \<Rightarrow> \<exists>ev s''. pump_alone ev \<and> relay_step cap ev s' = Some s'' \<and> rl_pump s'' = PumpEnded)"
proof -
  have e: "rl_actor s' = ActorEnded" "length evs \<le> turns_left s" using ended_actor_run [OF assms(2,1)] by auto
  have "turns_left s \<le> 2 * length (rl_from_ws s) + 3" by (simp add: turns_left_def split: pump_state.split)
  moreover have "\<exists>ev s''. pump_alone ev \<and> relay_step cap ev s' = Some s'' \<and> rl_pump s'' = PumpEnded"
    if "rl_pump s' = Selecting"
    using that e(1) by (intro exI [of _ ActorDone] exI [of _ "s'\<lparr>rl_pump := PumpEnded\<rparr>"]) simp
  moreover have "\<exists>ev s''. pump_alone ev \<and> relay_step cap ev s' = Some s'' \<and> rl_pump s'' = PumpEnded"
    if "rl_pump s' = WritingAll rest" for rest
    using that e(1) by (intro exI [of _ PumpWriteFails] exI [of _ "s'\<lparr>rl_pump := PumpEnded\<rparr>"]) simp
  ultimately show ?thesis using e(2) by (auto split: pump_state.split)
qed

theorem pump_ends_with_actor_witness:
  "\<exists>s'. relay_run 4 [DuplexRead 2, ClientAccepts, ClientRead (Inr (Some ''x'')), PumpWriteFails]
       (relay_new\<lparr>rl_actor := ActorEnded, rl_from_ws := ''ok''\<rparr>) = Some s' \<and> (4 :: nat) \<le> 2 * 2 + 3"
proof -
  let ?s = "relay_new\<lparr>rl_actor := ActorEnded, rl_from_ws := ''ok''\<rparr>"
  let ?evs = "[DuplexRead 2, ClientAccepts, ClientRead (Inr (Some ''x'')), PumpWriteFails]"
  obtain s' where "relay_run 4 ?evs ?s = Some s'" by (simp add: relay_new_def PUMP_BUFFER_def)
  moreover from pump_ends_with_actor [OF _ this] have "length ?evs \<le> 2 * length (rl_from_ws ?s) + 3" by simp
  ultimately show ?thesis by simp
qed

text \<open>A client that stops reading holds the handler: while a write to it waits, nothing but the client moves
  anything, although the actor has long ended.\<close>

lemma stalled_client_holds_handler:
  assumes "rl_pump s = WritingClient chunk" "rl_actor s = ActorEnded" "relay_step cap ev s = Some s'"
  shows "ev \<in> {ClientAccepts, ClientRefuses}"
  using assms by (cases ev) (auto split: option.splits sum.splits)

end
