(* ===== verification/HubSections.thy ===== *)
theory HubSections
  imports Subscriptions
begin

text \<open>
  \<open>subscriptions/hub.rs\<close> and the actor of \<open>subscriptions/engine.rs\<close> with every critical section as
  a step of its own.  \<open>Subscriptions.world_step\<close> makes a turn of an actor, its registration and
  its cleanup one step; in the code each of them takes the two locks of the hub one after the
  other, and at every \<open>await\<close> in between other actors and broadcasts run, and the handler's \<open>abort\<close>
  can end the actor.  Here an actor has a program point, and between two sections anything else may
  happen; a broadcast is a task that takes its snapshot, sends to one subscriber after the other and
  removes the dead ones with two sections each.

  \<open>deregister_connection\<close> keeps the connections lock while it waits for the topics lock; the step
  relation lets the others run there too, so it has every interleaving of the code and some more.
\<close>

section \<open>The sections of the hub's operations\<close>

text \<open>The first section of \<open>deregister\<close>, with the topic the second one is to look at, and that of
  \<open>deregister_connection\<close>, with the list it took out.\<close>

definition deregister_entry :: "uuid \<Rightarrow> string \<Rightarrow> hub \<Rightarrow> string option \<times> hub" where
  "deregister_entry c s h =
     (case map_of (connections h) c of
        None \<Rightarrow> (None, h)
      | Some l \<Rightarrow>
          (case map_of l s of
             None \<Rightarrow> (None, h)
           | Some t \<Rightarrow> (Some t, h\<lparr>connections := alist_insert c (remove_first s l) (connections h)\<rparr>)))"

definition disconnect_entry :: "uuid \<Rightarrow> hub \<Rightarrow> (string \<times> string) list option \<times> hub" where
  "disconnect_entry c h =
     (case map_of (connections h) c of
        None \<Rightarrow> (None, h)
      | Some l \<Rightarrow> (Some l, h\<lparr>connections := alist_remove c (connections h)\<rparr>))"

section \<open>The program points of an actor\<close>

text \<open>Where a running actor waits: at the \<open>select\<close> of its loop, or for one of the two locks;
  \<open>Returning\<close> is the end of \<open>run\<close>, where the receiver is dropped.\<close>

datatype actor_point =
    AtSelect
  | CheckingSub string subscribe_payload
  | RegisteringTopic registration
  | RegisteringConn registration
  | CompletingConn string
  | CompletingTopic string string
  | CleaningConn
  | CleaningTopics "(string \<times> string) list"
  | Returning

fun message_point :: "ws_env \<Rightarrow> client_message \<Rightarrow> actor \<Rightarrow> actor_point \<times> actor" where
  "message_point env (ConnectionInit p) ac =
     (AtSelect, send_msg env (ConnectionAck None) (ac\<lparr>ac_initialized := True\<rparr>))"
| "message_point env (CPing p) ac = (AtSelect, send_msg env (SPong p) ac)"
| "message_point env (CPong p) ac = (AtSelect, ac)"
| "message_point env (Subscribe i p) ac =
     (if \<not> ac_initialized ac then
        (CleaningConn, send_frame (OutClose UNAUTHORIZED ''Unauthorized: connection_init required'') ac)
      else (CheckingSub i p, ac))"
| "message_point env (CComplete i) ac = (CompletingConn i, ac)"

definition frame_point :: "ws_env \<Rightarrow> ws_frame \<Rightarrow> actor \<Rightarrow> actor_point \<times> actor" where
  "frame_point env fr ac =
     (case fr of
        WsClose _ \<Rightarrow> (CleaningConn, ac)
      | WsPing d \<Rightarrow> (AtSelect, send_frame (OutPong d) ac)
      | _ \<Rightarrow> (case we_to_text env fr of
                None \<Rightarrow> (AtSelect, ac)
              | Some text \<Rightarrow>
                  (case we_from_str env text of
                     Inl _ \<Rightarrow> (CleaningConn, send_frame (OutClose BAD_REQUEST ''Invalid JSON'') ac)
                   | Inr m \<Rightarrow> message_point env m ac)))"

text \<open>What the \<open>select\<close> yields, up to the first lock of the hub.\<close>

fun event_point :: "ws_env \<Rightarrow> actor_event \<Rightarrow> actor \<Rightarrow> channel \<Rightarrow> actor_point \<times> actor \<times> channel" where
  "event_point env (Outgoing ok) ac ch =
     (case ch_queue ch of
        [] \<Rightarrow> (AtSelect, ac, ch)
      | m # ms \<Rightarrow>
          (case we_to_string env m of
             Inl _ \<Rightarrow> (AtSelect, ac, ch\<lparr>ch_queue := ms\<rparr>)
           | Inr j \<Rightarrow> (if ok then AtSelect else CleaningConn, if ok then send_frame (OutText j) ac else ac,
                       ch\<lparr>ch_queue := ms\<rparr>)))"
| "event_point env (PingTick ok) ac ch =
     (case we_to_string env (SPing None) of
        Inl _ \<Rightarrow> (AtSelect, ac, ch)
      | Inr j \<Rightarrow> (if ok then AtSelect else CleaningConn, if ok then send_frame (OutText j) ac else ac, ch))"
| "event_point env (Incoming fr) ac ch = (let (pt, ac') = frame_point env fr ac in (pt, ac', ch))"
| "event_point env ReadError ac ch = (CleaningConn, ac, ch)"
| "event_point env StreamEnd ac ch = (CleaningConn, ac, ch)"

text \<open>One section, up to the next lock or back to the \<open>select\<close>.\<close>

fun actor_section :: "ws_env \<Rightarrow> uuid \<Rightarrow> actor_point \<times> actor \<times> hub \<Rightarrow> actor_point \<times> actor \<times> hub" where
  "actor_section env c (CheckingSub i p, ac, h) =
     (if has_subscription c i h then
        (CleaningConn, send_frame (OutClose SUBSCRIBER_ALREADY_EXISTS
                         (''Subscriber for '' @ quoted i @ '' already exists'')) ac, h)
      else case derive_subscription_topic (we_apollo env) (we_show_num env) (we_prefix env)
                  (sp_query p) (sp_variables p) of
             Inr (topic, root_field) \<Rightarrow>
               (RegisteringTopic \<lparr>rg_conn = c, rg_sub = i, rg_topic = topic,
                                  rg_root_field = root_field, rg_tx = c\<rparr>, ac, h)
           | Inl e \<Rightarrow> (AtSelect, send_msg env (ErrorMsg i [JObject [(''message'', JString e)]]) ac, h))"
| "actor_section env c (RegisteringTopic r, ac, h) = (RegisteringConn r, ac, register_topic r h)"
| "actor_section env c (RegisteringConn r, ac, h) = (AtSelect, ac, register_connection r h)"
| "actor_section env c (CompletingConn s, ac, h) =
     (case deregister_entry c s h of
        (Some t, h') \<Rightarrow> (CompletingTopic s t, ac, h')
      | (None, h') \<Rightarrow> (AtSelect, ac, h'))"
| "actor_section env c (CompletingTopic s t, ac, h) = (AtSelect, ac, drop_from_topic c s t h)"
| "actor_section env c (CleaningConn, ac, h) =
     (case disconnect_entry c h of
        (Some l, h') \<Rightarrow> (CleaningTopics l, ac, h')
      | (None, h') \<Rightarrow> (Returning, ac, h'))"
| "actor_section env c (CleaningTopics l, ac, h) = (Returning, ac, fold (\<lambda>(s, t). drop_from_topic c s t) l h)"
| "actor_section env c (AtSelect, ac, h) = (AtSelect, ac, h)"
| "actor_section env c (Returning, ac, h) = (Returning, ac, h)"

section \<open>A broadcast as a task\<close>

datatype broadcast_point =
    Looking string json
  | Sending json "registration list" nat "(uuid \<times> string) list"
  | Removing nat "(uuid \<times> string) list"
  | RemovingTopic uuid string string nat "(uuid \<times> string) list"
  | Counted nat

fun broadcast_section ::
  "broadcast_point \<times> hub \<times> (chan_id \<Rightarrow> channel) \<Rightarrow> broadcast_point \<times> hub \<times> (chan_id \<Rightarrow> channel)" where
  "broadcast_section (Looking topic payload, h, chs) =
     (case map_of (topics h) topic of
        None \<Rightarrow> (Counted 0, h, chs)
      | Some subs \<Rightarrow> (Sending payload subs 0 [], h, chs))"
| "broadcast_section (Sending payload [] n dead, h, chs) = (Removing n dead, h, chs)"
| "broadcast_section (Sending payload (r # rs) n dead, h, chs) =
     (case try_send chs (rg_tx r) (next_message payload r) of
        (SendOk, chs') \<Rightarrow> (Sending payload rs (Suc n) dead, h, chs')
      | (SendClosed, chs') \<Rightarrow> (Sending payload rs n (dead @ [(rg_conn r, rg_sub r)]), h, chs')
      | (SendFull, chs') \<Rightarrow> (Sending payload rs n dead, h, chs'))"
| "broadcast_section (Removing n [], h, chs) = (Counted n, h, chs)"
| "broadcast_section (Removing n ((c, s) # dead), h, chs) =
     (case deregister_entry c s h of
        (Some t, h') \<Rightarrow> (RemovingTopic c s t n dead, h', chs)
      | (None, h') \<Rightarrow> (Removing n dead, h', chs))"
| "broadcast_section (RemovingTopic c s t n dead, h, chs) = (Removing n dead, drop_from_topic c s t h, chs)"
| "broadcast_section (Counted n, h, chs) = (Counted n, h, chs)"

section \<open>Sections side by side\<close>

record section_world =
  sw_hub :: hub
  sw_chans :: "chan_id \<Rightarrow> channel"
  sw_actors :: "uuid \<Rightarrow> (actor_point \<times> actor) option"
  sw_used :: "uuid list"
  sw_tasks :: "broadcast_point list"

definition section_world_new :: section_world where
  "section_world_new = \<lparr>sw_hub = hub_new, sw_chans = (\<lambda>_. \<lparr>ch_queue = [], ch_capacity = 0, ch_closed = True\<rparr>),
                        sw_actors = (\<lambda>_. None), sw_used = [], sw_tasks = []\<rparr>"

text \<open>The start of a connection under a fresh id; an event of the \<open>select\<close>; the next section of an
  actor that waits for a lock, or its return; the handler's abort, wherever the actor is; the start of
  a broadcast; the next step of one.\<close>

datatype section_event =
    SConnect uuid
  | SEvent uuid actor_event
  | SSection uuid
  | SAbort uuid
  | SPublish string json
  | STask nat

definition close_channel :: "chan_id \<Rightarrow> (chan_id \<Rightarrow> channel) \<Rightarrow> chan_id \<Rightarrow> channel" where
  "close_channel c chs = chs(c := (chs c)\<lparr>ch_closed := True\<rparr>)"

fun section_step :: "ws_env \<Rightarrow> section_event \<Rightarrow> section_world \<Rightarrow> section_world" where
  "section_step env (SConnect c) w =
     (if c \<in> set (sw_used w) then w
      else w\<lparr>sw_chans := (sw_chans w)(c := \<lparr>ch_queue = [], ch_capacity = we_capacity env, ch_closed = False\<rparr>),
             sw_actors := (sw_actors w)(c \<mapsto> (AtSelect, \<lparr>ac_initialized = False, ac_sent = []\<rparr>)),
             sw_used := c # sw_used w\<rparr>)"
| "section_step env (SEvent c ev) w =
     (case sw_actors w c of
        Some (AtSelect, ac) \<Rightarrow>
          (case event_point env ev ac (sw_chans w c) of
             (pt', ac', ch') \<Rightarrow>
               w\<lparr>sw_chans := (sw_chans w)(c := ch'), sw_actors := (sw_actors w)(c \<mapsto> (pt', ac'))\<rparr>)
      | _ \<Rightarrow> w)"
| "section_step env (SSection c) w =
     (case sw_actors w c of
        None \<Rightarrow> w
      | Some (Returning, ac) \<Rightarrow>
          w\<lparr>sw_chans := close_channel c (sw_chans w), sw_actors := (sw_actors w)(c := None)\<rparr>
      | Some (pt, ac) \<Rightarrow>
          (case actor_section env c (pt, ac, sw_hub w) of
             (pt', ac', h') \<Rightarrow> w\<lparr>sw_hub := h', sw_actors := (sw_actors w)(c \<mapsto> (pt', ac'))\<rparr>))"
| "section_step env (SAbort c) w =
     (case sw_actors w c of
        None \<Rightarrow> w
      | Some _ \<Rightarrow> w\<lparr>sw_chans := close_channel c (sw_chans w), sw_actors := (sw_actors w)(c := None)\<rparr>)"
| "section_step env (SPublish topic payload) w = w\<lparr>sw_tasks := sw_tasks w @ [Looking topic payload]\<rparr>"
| "section_step env (STask i) w =
     (if i < length (sw_tasks w) then
        (case broadcast_section (sw_tasks w ! i, sw_hub w, sw_chans w) of
           (tk', h', chs') \<Rightarrow> w\<lparr>sw_hub := h', sw_chans := chs', sw_tasks := (sw_tasks w)[i := tk']\<rparr>)
      else w)"

inductive reachable_sections :: "ws_env \<Rightarrow> section_world \<Rightarrow> bool" for env where
  init: "reachable_sections env section_world_new"
| step: "reachable_sections env w \<Longrightarrow> reachable_sections env (section_step env ev w)"

section \<open>Without interruption the sections are the operations\<close>

lemma deregister_sections:
  "deregister c s h = (case deregister_entry c s h of (Some t, h') \<Rightarrow> drop_from_topic c s t h' | (None, h') \<Rightarrow> h')"
  by (simp add: deregister_def deregister_entry_def split: option.split)

lemma deregister_connection_sections:
  "deregister_connection c h =
     (case disconnect_entry c h of
        (Some l, h') \<Rightarrow> fold (\<lambda>(s, t). drop_from_topic c s t) l h' | (None, h') \<Rightarrow> h')"
  by (simp add: deregister_connection_def disconnect_entry_def split: option.split)

lemma sections_AtSelect [simp]: "(actor_section env c ^^ n) (AtSelect, ac, h) = (AtSelect, ac, h)"
  by (induction n) simp_all

lemma sections_Returning [simp]: "(actor_section env c ^^ n) (Returning, ac, h) = (Returning, ac, h)"
  by (induction n) simp_all

lemma sections_Suc: "(actor_section env c ^^ Suc n) x = (actor_section env c ^^ n) (actor_section env c x)"
  by (simp add: funpow_swap1)

lemma cleaning_sections:
  "(actor_section env c ^^ Suc (Suc n)) (CleaningConn, ac, h) = (Returning, ac, deregister_connection c h)"
  by (auto simp: sections_Suc deregister_connection_sections simp del: funpow.simps split: prod.split option.split)

text \<open>Where the sections of a turn end when nothing comes between: the outcome of the turn.\<close>

definition turn_end :: "uuid \<Rightarrow> bool \<times> actor \<times> hub \<Rightarrow> actor_point \<times> actor \<times> hub" where
  "turn_end c = (\<lambda>(go, ac, h). if go then (AtSelect, ac, h) else (Returning, ac, deregister_connection c h))"

lemma message_sections:
  "(actor_section env c ^^ 3) (case message_point env m ac of (pt, ac') \<Rightarrow> (pt, ac', h)) = turn_end c (handle_message env c m ac h)"
  unfolding numeral_3_eq_3
  by (cases m) (auto simp: turn_end_def sections_Suc register_def deregister_sections deregister_connection_sections
      simp del: funpow.simps split: prod.split option.split sum.split)

lemma frame_sections:
  "(actor_section env c ^^ 3) (case frame_point env fr ac of (pt, ac') \<Rightarrow> (pt, ac', h)) = turn_end c (handle_frame env c fr ac h)"
proof -
  note m = message_sections [unfolded numeral_3_eq_3]
  show ?thesis unfolding numeral_3_eq_3
    by (cases fr) (auto simp: frame_point_def handle_frame_def handle_text_def m cleaning_sections turn_end_def
        simp del: funpow.simps split: option.split sum.split)
qed

lemma turn_sections:
  assumes "actor_turn env c ev ac h ch = (go, ac', h', ch')"
  shows "\<exists>pt ac1. event_point env ev ac ch = (pt, ac1, ch') \<and> (actor_section env c ^^ 3) (pt, ac1, h) = turn_end c (go, ac', h')"
proof -
  have clean: "(actor_section env c ^^ 3) (CleaningConn, a, g) = (Returning, a, deregister_connection c g)" for a g
    unfolding numeral_3_eq_3 by (rule cleaning_sections)
  show ?thesis
  proof (cases ev)
    case (Incoming fr)
    then show ?thesis using assms frame_sections [of env c h fr ac] by (auto split: prod.splits)
  qed (use assms in \<open>auto simp: clean turn_end_def simp del: funpow.simps split: list.splits sum.splits if_splits\<close>)
qed


text \<open>A broadcast that runs alone does what \<open>Subscriptions.broadcast\<close> says.\<close>

lemma sending_alone:
  "\<exists>k. (broadcast_section ^^ k) (Sending payload rs n dead, h, chs)
     = (case send_all payload rs chs of (m, gone, chs') \<Rightarrow> (Removing (n + m) (dead @ gone), h, chs'))"
proof (induction rs arbitrary: n dead chs)
  case Nil
  show ?case by (rule exI [of _ 1]) simp
next
  case (Cons r rs)
  obtain res chs1 where t: "try_send chs (rg_tx r) (next_message payload r) = (res, chs1)" by fastforce
  obtain n1 dead1 where s: "broadcast_section (Sending payload (r # rs) n dead, h, chs) = (Sending payload rs n1 dead1, h, chs1)"
    and a: "(case send_all payload (r # rs) chs of (m, gone, chs') \<Rightarrow> (n + m, dead @ gone, chs'))
      = (case send_all payload rs chs1 of (m, gone, chs') \<Rightarrow> (n1 + m, dead1 @ gone, chs'))"
    using t by (cases res) (auto split: prod.split)
  obtain k where "(broadcast_section ^^ k) (Sending payload rs n1 dead1, h, chs1)
      = (case send_all payload rs chs1 of (m, gone, chs') \<Rightarrow> (Removing (n1 + m) (dead1 @ gone), h, chs'))"
    using Cons.IH by blast
  then show ?case using s a by (intro exI [of _ "Suc k"]) (auto simp: funpow_swap1 simp del: send_all.simps split: prod.splits)
qed

lemma removing_alone:
  "\<exists>k. (broadcast_section ^^ k) (Removing n dead, h, chs) = (Counted n, fold (\<lambda>(c, s). deregister c s) dead h, chs)"
proof (induction dead arbitrary: h)
  case Nil
  show ?case by (rule exI [of _ 1]) simp
next
  case (Cons p dead)
  obtain c s where p: "p = (c, s)" by (cases p)
  obtain k where k: "(broadcast_section ^^ k) (Removing n dead, deregister c s h, chs)
      = (Counted n, fold (\<lambda>(c, s). deregister c s) dead (deregister c s h), chs)"
    using Cons.IH by blast
  show ?case
  proof (cases "deregister_entry c s h")
    case (Pair t h')
    show ?thesis
    proof (cases t)
      case None
      then show ?thesis using k Pair p by (intro exI [of _ "Suc k"]) (simp add: funpow_swap1 deregister_sections [of c s h])
    next
      case (Some t')
      then show ?thesis using k Pair p by (intro exI [of _ "Suc (Suc k)"]) (simp add: funpow_swap1 deregister_sections [of c s h])
    qed
  qed
qed

lemma broadcast_alone:
  "\<exists>k. (broadcast_section ^^ k) (Looking topic payload, h, chs)
     = (case broadcast topic payload h chs of (n, h', chs') \<Rightarrow> (Counted n, h', chs'))"
proof (cases "map_of (topics h) topic")
  case None
  then show ?thesis by (intro exI [of _ 1]) (simp add: broadcast_def)
next
  case (Some subs)
  obtain m gone chs' where s: "send_all payload subs chs = (m, gone, chs')" by (metis prod_cases3)
  obtain k where "(broadcast_section ^^ k) (Sending payload subs 0 [], h, chs) = (Removing m gone, h, chs')"
    using sending_alone [of payload subs 0 "[]" h chs] s by auto
  moreover obtain l where "(broadcast_section ^^ l) (Removing m gone, h, chs')
      = (Counted m, fold (\<lambda>(c, s). deregister c s) gone h, chs')"
    using removing_alone by blast
  ultimately have "(broadcast_section ^^ (l + k)) (Sending payload subs 0 [], h, chs)
      = (Counted m, fold (\<lambda>(c, s). deregister c s) gone h, chs')"
    by (simp add: funpow_add)
  then show ?thesis using Some s by (intro exI [of _ "Suc (l + k)"]) (simp add: funpow_swap1 broadcast_def)
qed

section \<open>What holds between the sections\<close>

definition held :: "hub \<Rightarrow> uuid \<Rightarrow> (string \<times> string) set" where
  "held h c = {(s, t). \<exists>r \<in> set (topic_list h t). same_sub c s r}"

text \<open>How the registrations \<open>T\<close> in the topic map and the entries \<open>C\<close> of the connection differ at each point.\<close>

fun point_ok :: "uuid \<Rightarrow> actor \<Rightarrow> actor_point \<Rightarrow> (string \<times> string) set \<Rightarrow> (string \<times> string) set \<Rightarrow> bool" where
  "point_ok c ac (CheckingSub i p) T C = (T = C \<and> ac_initialized ac)"
| "point_ok c ac (RegisteringTopic r) T C =
     (T = C \<and> ac_initialized ac \<and> rg_conn r = c \<and> rg_tx r = c \<and> rg_sub r \<notin> fst ` C)"
| "point_ok c ac (RegisteringConn r) T C =
     (T = insert (rg_sub r, rg_topic r) C \<and> ac_initialized ac \<and> rg_conn r = c \<and> rg_tx r = c \<and> rg_sub r \<notin> fst ` C)"
| "point_ok c ac (CompletingTopic s t) T C = (T = insert (s, t) C \<and> s \<notin> fst ` C)"
| "point_ok c ac (CleaningTopics l) T C = (C = {} \<and> T = set l)"
| "point_ok c ac Returning T C = (C = {} \<and> T = {})"
| "point_ok c ac _ T C = (T = C)"

definition conn_ok ::
  "uuid \<Rightarrow> bool \<Rightarrow> (actor_point \<times> actor) option \<Rightarrow> bool \<Rightarrow> (string \<times> string) set \<Rightarrow> (string \<times> string) list \<Rightarrow> bool" where
  "conn_ok c used a closed T l =
     (distinct (map fst l) \<and> inj_on fst T \<and> (\<not> used \<longrightarrow> a = None \<and> T = {} \<and> l = [])
      \<and> (case a of
           Some (pt, ac) \<Rightarrow> \<not> closed \<and> (T \<noteq> {} \<longrightarrow> ac_initialized ac) \<and> point_ok c ac pt T (set l)
         | None \<Rightarrow> closed \<and> set l \<subseteq> T))"

lemma topic_list_sections [simp]:
  "topic_list (register_topic r h) t =
     (if t = rg_topic r then filter (\<lambda>q. \<not> same_sub (rg_conn r) (rg_sub r) q) (topic_list h t) @ [r] else topic_list h t)"
  "topic_list (register_connection r h) = topic_list h"
  "conn_list (register_topic r h) = conn_list h"
  "conn_list (register_connection r h) c =
     (if c = rg_conn r then filter (\<lambda>p. fst p \<noteq> rg_sub r) (conn_list h c) @ [(rg_sub r, rg_topic r)] else conn_list h c)"
  by (auto simp: register_topic_def register_connection_def topic_list_def conn_list_def fun_eq_iff)

lemma deregister_entry_eq:
  assumes "deregister_entry c s h = (res, h')"
  shows "res = map_of (conn_list h c) s" "topic_list h' = topic_list h"
    "conn_list h' d = (if d = c then remove_first s (conn_list h c) else conn_list h d)"
proof -
  have "map_of l s = None \<Longrightarrow> remove_first s l = l" for l by (induction l) auto
  then show "res = map_of (conn_list h c) s" "topic_list h' = topic_list h"
    "conn_list h' d = (if d = c then remove_first s (conn_list h c) else conn_list h d)"
    using assms by (auto simp: deregister_entry_def conn_list_def split: option.splits)
qed

lemma deregister_entry_held: "deregister_entry c s h = (res, h') \<Longrightarrow> held h' = held h"
  using deregister_entry_eq(2) [of c s h res h'] by (simp add: held_def fun_eq_iff)

lemma disconnect_entry_eq:
  assumes "disconnect_entry c h = (res, h')"
  shows "conn_list h c = unwrap_or res []" "topic_list h' = topic_list h"
    "conn_list h' d = (if d = c then [] else conn_list h d)"
  using assms by (auto simp: disconnect_entry_def conn_list_def split: option.splits)

lemma disconnect_entry_held: "disconnect_entry c h = (res, h') \<Longrightarrow> held h' = held h"
  using disconnect_entry_eq(2) [of c h res h'] by (simp add: held_def fun_eq_iff)

lemma held_cong: "topic_list h' = topic_list h \<Longrightarrow> held h' = held h"
  by (simp add: held_def fun_eq_iff)

lemma held_register_topic [simp]:
  "held (register_topic r h) c = (if c = rg_conn r then insert (rg_sub r, rg_topic r) (held h c) else held h c)"
  by (auto simp: held_def same_sub_def)

lemma held_register_connection [simp]: "held (register_connection r h) = held h"
  by (rule held_cong) simp

lemma held_drop [simp]: "held (drop_from_topic c s t h) d = (if d = c then held h c - {(s, t)} else held h d)"
  by (auto simp: held_def same_sub_def)

lemma held_fold_drop [simp]:
  "held (fold (\<lambda>(s, t). drop_from_topic c s t) l h) d = (if d = c then held h c - set l else held h d)"
  by (auto simp: held_def same_sub_def topic_list_fold_drop)

lemma conn_list_fold_drop [simp]: "conn_list (fold (\<lambda>(s, t). drop_from_topic c s t) l h) = conn_list h"
  by (simp add: conn_list_def fun_eq_iff)


text \<open>A section of an actor keeps what holds of its connection and touches no other.\<close>

lemma has_subscription_entry: "has_subscription c s h \<longleftrightarrow> s \<in> fst ` set (conn_list h c)"
  by (force simp: has_subscription_def conn_list_def list_ex_iff split: option.splits)

lemma remove_first_entry:
  assumes "distinct (map fst l)" and "map_of l s = Some t"
  shows "set l = insert (s, t) (set (remove_first s l))" "s \<notin> fst ` set (remove_first s l)"
    "distinct (map fst (remove_first s l))"
proof -
  have r: "remove_first s l = filter (\<lambda>p. fst p \<noteq> s) l" using assms(1) by (rule remove_first_filter)
  have "(s, t') \<in> set l \<longleftrightarrow> t' = t" for t'
  proof -
    have "(s, t') \<in> set l \<longleftrightarrow> map_of l s = Some t'" using assms(1) by simp
    then show ?thesis using assms(2) by auto
  qed
  note in_l = this
  have "x \<in> set l \<longleftrightarrow> x \<in> insert (s, t) (set (remove_first s l))" for x
  proof (cases x)
    case (Pair i t')
    then show ?thesis using in_l [of t'] by (cases "i = s") (simp_all add: r)
  qed
  then show "set l = insert (s, t) (set (remove_first s l))" by (rule set_eqI)
  show "s \<notin> fst ` set (remove_first s l)" by (auto simp: r)
  show "distinct (map fst (remove_first s l))" using assms(1) by (simp add: r distinct_map_filter)
qed

lemma remove_first_none: "map_of l s = None \<Longrightarrow> remove_first s l = l"
  by (induction l) auto

lemma conn_okD:
  assumes "conn_ok c used (Some (pt, ac)) closed T l"
  shows "used" "\<not> closed" "distinct (map fst l)" "inj_on fst T" "T \<noteq> {} \<Longrightarrow> ac_initialized ac" "point_ok c ac pt T (set l)"
  using assms by (auto simp: conn_ok_def)

lemma inj_on_fst_insert: "inj_on fst C \<Longrightarrow> s \<notin> fst ` C \<Longrightarrow> inj_on fst (insert (s, t) C)"
  by (auto simp: inj_on_def)

lemma section_conn_ok:
  assumes "conn_ok c True (Some (pt, ac)) False (held h c) (conn_list h c)"
    and "actor_section env c (pt, ac, h) = (pt', ac', h')"
  shows "conn_ok c True (Some (pt', ac')) False (held h' c) (conn_list h' c)"
proof -
  note d = conn_okD [OF assms(1)]
  show ?thesis
  proof (cases pt)
    case (CheckingSub i p)
    then show ?thesis using assms
      by (auto simp: conn_ok_def has_subscription_entry split: if_splits sum.splits)
  next
    case (RegisteringTopic r)
    then show ?thesis using assms by (auto simp: conn_ok_def intro: inj_on_fst_insert)
  next
    case (RegisteringConn r)
    moreover have "filter (\<lambda>p. fst p \<noteq> rg_sub r) (conn_list h c) = conn_list h c"
      using d(6) RegisteringConn by (force intro: filter_True)
    ultimately show ?thesis using assms by (auto simp: conn_ok_def)
  next
    case (CompletingConn s)
    obtain res h1 where e: "deregister_entry c s h = (res, h1)" by fastforce
    note eq = deregister_entry_eq [OF e] and T = deregister_entry_held [OF e]
    have p: "held h c = set (conn_list h c)" using d(6) CompletingConn by simp
    show ?thesis
    proof (cases res)
      case None
      then have "map_of (conn_list h c) s = None" using eq(1) by simp
      then have "conn_list h1 c = conn_list h c" using eq(3) [of c] by (simp add: remove_first_none)
      moreover have "pt' = AtSelect" "ac' = ac" "h' = h1" using assms(2) CompletingConn e None by simp_all
      ultimately show ?thesis using assms(1) T CompletingConn by (auto simp: conn_ok_def)
    next
      case (Some t)
      then have m: "map_of (conn_list h c) s = Some t" using eq(1) by simp
      note rf = remove_first_entry [OF d(3) m]
      have "pt' = CompletingTopic s t" "ac' = ac" "h' = h1" using assms(2) CompletingConn e Some by simp_all
      then show ?thesis using assms(1) T rf p eq(3) [of c] CompletingConn by (simp add: conn_ok_def)
    qed
  next
    case (CompletingTopic s t)
    then have T: "held h c - {(s, t)} = set (conn_list h c)" using d(6) by force
    have "inj_on fst (held h c - {(s, t)})" using d(4) by (rule inj_on_subset) blast
    then show ?thesis using assms d(5) CompletingTopic T by (auto simp: conn_ok_def)
  next
    case CleaningConn
    obtain res h1 where e: "disconnect_entry c h = (res, h1)" by fastforce
    note eq = disconnect_entry_eq [OF e]
    show ?thesis using assms CleaningConn e eq(1) eq(3) [of c] disconnect_entry_held [OF e] by (cases res) (auto simp: conn_ok_def)
  next
    case (CleaningTopics l)
    then show ?thesis using assms by (auto simp: conn_ok_def)
  qed (use assms in auto)
qed

lemma section_other:
  assumes "actor_section env c (pt, ac, h) = (pt', ac', h')" and "\<forall>r. pt = RegisteringTopic r \<or> pt = RegisteringConn r \<longrightarrow> rg_conn r = c"
    and "d \<noteq> c"
  shows "held h' d = held h d" "conn_list h' d = conn_list h d"
proof -
  have "held h' d = held h d \<and> conn_list h' d = conn_list h d"
  proof (cases pt)
    case (CompletingConn s)
    obtain res h1 where e: "deregister_entry c s h = (res, h1)" by fastforce
    then have "h' = h1" using assms(1) CompletingConn by (auto split: option.splits)
    then show ?thesis using deregister_entry_eq(3) [OF e, of d] deregister_entry_held [OF e] assms(3) by simp
  next
    case CleaningConn
    obtain res h1 where e: "disconnect_entry c h = (res, h1)" by fastforce
    then have "h' = h1" using assms(1) CleaningConn by (auto split: option.splits)
    then show ?thesis using disconnect_entry_eq(3) [OF e, of d] disconnect_entry_held [OF e] assms(3) by simp
  qed (use assms in \<open>auto split: if_splits sum.splits\<close>)
  then show "held h' d = held h d" "conn_list h' d = conn_list h d" by simp_all
qed

lemma section_topics:
  assumes "actor_section env c (pt, ac, h) = (pt', ac', h')" and "q \<in> set (topic_list h' t)"
  shows "q \<in> set (topic_list h t) \<or> (pt = RegisteringTopic q \<and> rg_topic q = t)"
proof (cases pt)
  case (CompletingConn s)
  obtain res h1 where e: "deregister_entry c s h = (res, h1)" by fastforce
  then have "h' = h1" using assms(1) CompletingConn by (auto split: option.splits)
  then show ?thesis using deregister_entry_eq(2) [OF e] assms(2) by simp
next
  case CleaningConn
  obtain res h1 where e: "disconnect_entry c h = (res, h1)" by fastforce
  then have "h' = h1" using assms(1) CleaningConn by (auto split: option.splits)
  then show ?thesis using disconnect_entry_eq(2) [OF e] assms(2) by simp
qed (use assms in \<open>auto simp: topic_list_fold_drop split: if_splits sum.splits\<close>)


section \<open>The invariant\<close>

definition sw_conn_ok :: "section_world \<Rightarrow> uuid \<Rightarrow> bool" where
  "sw_conn_ok w c = conn_ok c (c \<in> set (sw_used w)) (sw_actors w c) (ch_closed (sw_chans w c))
     (held (sw_hub w) c) (conn_list (sw_hub w) c)"

definition ended :: "section_world \<Rightarrow> uuid \<Rightarrow> bool" where
  "ended w c = (c \<in> set (sw_used w) \<and> sw_actors w c = None)"

lemma ended_updates [simp]:
  "ended (w\<lparr>sw_hub := h\<rparr>) = ended w" "ended (w\<lparr>sw_chans := chs\<rparr>) = ended w" "ended (w\<lparr>sw_tasks := tks\<rparr>) = ended w"
  by (simp_all add: ended_def fun_eq_iff)

text \<open>A broadcast removes only subscriptions of connections that have ended.\<close>

fun task_ok :: "section_world \<Rightarrow> broadcast_point \<Rightarrow> bool" where
  "task_ok w (Sending p rs n dead) =
     (list_all (\<lambda>r. rg_tx r = rg_conn r \<and> rg_conn r \<in> set (sw_used w)) rs \<and> list_all (\<lambda>(c, s). ended w c) dead)"
| "task_ok w (Removing n dead) = list_all (\<lambda>(c, s). ended w c) dead"
| "task_ok w (RemovingTopic c s t n dead) =
     (ended w c \<and> s \<notin> fst ` set (conn_list (sw_hub w) c) \<and> list_all (\<lambda>(c, s). ended w c) dead)"
| "task_ok w _ = True"

definition regs_ok :: "section_world \<Rightarrow> bool" where
  "regs_ok w = (\<forall>t. \<forall>r \<in> set (topic_list (sw_hub w) t). rg_topic r = t \<and> rg_tx r = rg_conn r)"

definition sections_ok :: "section_world \<Rightarrow> bool" where
  "sections_ok w = (regs_ok w \<and> (\<forall>c. sw_conn_ok w c) \<and> list_all (task_ok w) (sw_tasks w))"

lemma sections_okD:
  assumes "sections_ok w"
  shows "r \<in> set (topic_list (sw_hub w) t) \<Longrightarrow> rg_topic r = t \<and> rg_tx r = rg_conn r"
    and "sw_conn_ok w c" and "tk \<in> set (sw_tasks w) \<Longrightarrow> task_ok w tk"
  using assms by (auto simp: sections_ok_def regs_ok_def list_all_iff)

lemma sections_ok_new: "sections_ok section_world_new"
  by (auto simp: sections_ok_def section_world_new_def sw_conn_ok_def conn_ok_def held_def topic_list_def conn_list_def
      hub_new_def regs_ok_def)

lemma registered_used:
  assumes "sections_ok w" and "r \<in> set (topic_list (sw_hub w) t)"
  shows "rg_conn r \<in> set (sw_used w)" "(rg_sub r, t) \<in> held (sw_hub w) (rg_conn r)"
proof -
  show h: "(rg_sub r, t) \<in> held (sw_hub w) (rg_conn r)" using assms(2) by (auto simp: held_def same_sub_def)
  show "rg_conn r \<in> set (sw_used w)" using h sections_okD(2) [OF assms(1), of "rg_conn r"] by (auto simp: sw_conn_ok_def conn_ok_def)
qed

text \<open>A step that only changes one connection which has not ended.\<close>

lemma task_ok_mono:
  assumes "task_ok w tk" and "set (sw_used w) \<subseteq> set (sw_used w')" and "\<And>c. ended w c \<Longrightarrow> ended w' c"
    and "\<And>c. ended w c \<Longrightarrow> set (conn_list (sw_hub w') c) \<subseteq> set (conn_list (sw_hub w) c)"
  shows "task_ok w' tk"
proof (cases tk)
  case (Sending p rs n dead)
  then show ?thesis using assms(1,2,3) by (auto simp: list_all_iff)
next
  case (Removing n dead)
  then show ?thesis using assms(1,3) by (auto simp: list_all_iff)
next
  case (RemovingTopic c s t n dead)
  then show ?thesis using assms(1,3) assms(4) [of c] by (auto simp: list_all_iff)
qed simp_all

lemma sections_ok_update:
  assumes w: "sections_ok w" and c: "\<not> ended w c"
    and own: "sw_conn_ok w' c"
    and other: "\<And>d. d \<noteq> c \<Longrightarrow> sw_actors w' d = sw_actors w d \<and> ch_closed (sw_chans w' d) = ch_closed (sw_chans w d)
        \<and> (d \<in> set (sw_used w') \<longleftrightarrow> d \<in> set (sw_used w)) \<and> held (sw_hub w') d = held (sw_hub w) d
        \<and> conn_list (sw_hub w') d = conn_list (sw_hub w) d"
    and used: "set (sw_used w) \<subseteq> set (sw_used w')"
    and regs: "regs_ok w'" and tasks: "sw_tasks w' = sw_tasks w"
  shows "sections_ok w'"
proof -
  have "sw_conn_ok w' d" for d
    using own other [of d] sections_okD(2) [OF w, of d] by (cases "d = c") (auto simp: sw_conn_ok_def)
  moreover have e: "ended w' d" "conn_list (sw_hub w') d = conn_list (sw_hub w) d" if "ended w d" for d
    using that c other [of d] by (cases "d = c"; auto simp: ended_def)+
  have "task_ok w' tk" if "tk \<in> set (sw_tasks w)" for tk
    by (rule task_ok_mono [OF sections_okD(3) [OF w that] used]) (simp_all add: e)
  ultimately show ?thesis using regs tasks by (simp add: sections_ok_def list_all_iff)
qed


lemma event_point_ok:
  assumes "event_point env ev ac ch = (pt', ac', ch')" and "conn_ok c True (Some (AtSelect, ac)) closed T l"
  shows "conn_ok c True (Some (pt', ac')) closed T l \<and> ch_closed ch' = ch_closed ch"
proof -
  have m: "conn_ok c True (Some (p, a)) closed T l" if "message_point env m ac = (p, a)" for m p a
    using that assms(2) by (cases m) (auto simp: conn_ok_def split: if_splits)
  have f: "conn_ok c True (Some (p, a)) closed T l" if "frame_point env fr ac = (p, a)" for fr p a
    using that assms(2) m
    by (cases fr) (auto simp: frame_point_def conn_ok_def split: option.splits sum.splits)
  show ?thesis
    using assms f by (cases ev) (auto simp: conn_ok_def split: list.splits sum.splits if_splits prod.splits)
qed

lemma point_ok_subset: "point_ok c ac pt T C \<Longrightarrow> C \<subseteq> T"
  by (cases pt) auto

lemma stopped_ok:
  assumes "conn_ok c used (Some (pt, ac)) False T l"
  shows "conn_ok c used None True T l"
  using assms point_ok_subset [of c ac pt T "set l"] by (auto simp: conn_ok_def)

lemma running:
  assumes "sections_ok w" and "sw_actors w c = Some a"
  shows "c \<in> set (sw_used w)" "\<not> ch_closed (sw_chans w c)" "\<not> ended w c"
    "conn_ok c True (Some a) False (held (sw_hub w) c) (conn_list (sw_hub w) c)"
  using sections_okD(2) [OF assms(1), of c] assms(2) by (cases a; auto simp: sw_conn_ok_def conn_ok_def ended_def)+

lemma regs_ok_same: "regs_ok w \<Longrightarrow> topic_list (sw_hub w') = topic_list (sw_hub w) \<Longrightarrow> regs_ok w'"
  by (simp add: regs_ok_def)

lemma sections_ok_regs: "sections_ok w \<Longrightarrow> regs_ok w"
  by (simp add: sections_ok_def)

lemma connect_ok:
  assumes w: "sections_ok w" shows "sections_ok (section_step env (SConnect c) w)"
proof (cases "c \<in> set (sw_used w)")
  case False
  have "held (sw_hub w) c = {}" "conn_list (sw_hub w) c = []"
    using sections_okD(2) [OF w, of c] False by (auto simp: sw_conn_ok_def conn_ok_def)
  then show ?thesis using False
    by (intro sections_ok_update [OF w, of c])
      (auto simp: ended_def sw_conn_ok_def conn_ok_def intro: regs_ok_same [OF sections_ok_regs [OF w]])
qed (use w in simp)

lemma event_ok:
  assumes w: "sections_ok w" shows "sections_ok (section_step env (SEvent c ev) w)"
proof (cases "\<exists>ac. sw_actors w c = Some (AtSelect, ac)")
  case True
  then obtain ac where a: "sw_actors w c = Some (AtSelect, ac)" by blast
  obtain pt' ac' ch' where e: "event_point env ev ac (sw_chans w c) = (pt', ac', ch')" by (metis prod_cases3)
  note r = running [OF w a] and p = event_point_ok [OF e running(4) [OF w a]]
  show ?thesis
    by (rule sections_ok_update [OF w r(3)])
      (use a e p r(1,2) in \<open>auto simp: sw_conn_ok_def intro: regs_ok_same [OF sections_ok_regs [OF w]]\<close>)
next
  case False
  then have "section_step env (SEvent c ev) w = w"
    by (cases "sw_actors w c") (auto split: actor_point.split)
  then show ?thesis using w by simp
qed

lemma abort_ok:
  assumes w: "sections_ok w" and a: "sw_actors w c = Some a"
  shows "sections_ok (w\<lparr>sw_chans := close_channel c (sw_chans w), sw_actors := (sw_actors w)(c := None)\<rparr>)"
proof -
  obtain pt ac where p: "a = (pt, ac)" by (cases a)
  note r = running [OF w a]
  have "conn_ok c True None True (held (sw_hub w) c) (conn_list (sw_hub w) c)"
    using r(4) unfolding p by (rule stopped_ok)
  then show ?thesis using r(1)
    by (intro sections_ok_update [OF w r(3)])
      (auto simp: sw_conn_ok_def close_channel_def intro: regs_ok_same [OF sections_ok_regs [OF w]])
qed

lemma section_ok:
  assumes w: "sections_ok w" shows "sections_ok (section_step env (SSection c) w)"
proof (cases "sw_actors w c")
  case (Some a)
  obtain pt ac where p: "a = (pt, ac)" by (cases a)
  note r = running [OF w Some [unfolded p]]
  obtain pt' ac' h' where s: "actor_section env c (pt, ac, sw_hub w) = (pt', ac', h')" by (metis prod_cases3)
  have reg: "\<forall>q. pt = RegisteringTopic q \<or> pt = RegisteringConn q \<longrightarrow> rg_conn q = c \<and> rg_tx q = c"
    using conn_okD(6) [OF r(4)] by auto
  let ?w = "w\<lparr>sw_hub := h', sw_actors := (sw_actors w)(c \<mapsto> (pt', ac'))\<rparr>"
  have "regs_ok ?w"
    using section_topics [OF s] sections_okD(1) [OF w] reg by (auto simp: regs_ok_def)
  moreover have "sw_conn_ok ?w c"
    using section_conn_ok [OF r(4) s] r(1,2) by (simp add: sw_conn_ok_def)
  ultimately have ok: "sections_ok ?w"
    by (intro sections_ok_update [OF w r(3)]) (use section_other [OF s] reg in auto)
  show ?thesis
  proof (cases "pt = Returning")
    case True
    then show ?thesis using abort_ok [OF w Some] Some p by simp
  next
    case False
    then have "section_step env (SSection c) w = ?w" using Some p s by (cases pt) simp_all
    then show ?thesis using ok by simp
  qed
qed (use w in simp)

text \<open>A step of a broadcast: it only takes away, and only from connections that have ended.\<close>

lemma task_step_ok:
  assumes w: "sections_ok w" and i: "i < length (sw_tasks w)"
    and conn: "\<And>d. sw_conn_ok w' d" and regs: "regs_ok w'" and used: "sw_used w' = sw_used w" and act: "sw_actors w' = sw_actors w"
    and sub: "\<And>d. set (conn_list (sw_hub w') d) \<subseteq> set (conn_list (sw_hub w) d)"
    and tk: "task_ok w' tk'" and tasks: "sw_tasks w' = (sw_tasks w)[i := tk']"
  shows "sections_ok w'"
proof -
  have "task_ok w' tk" if "tk \<in> set (sw_tasks w)" for tk
    by (rule task_ok_mono [OF sections_okD(3) [OF w that]]) (use used act sub in \<open>simp_all add: ended_def\<close>)
  moreover have "set (sw_tasks w') \<subseteq> insert tk' (set (sw_tasks w))" unfolding tasks by (rule set_update_subset_insert)
  ultimately show ?thesis using conn regs tk by (auto simp: sections_ok_def list_all_iff)
qed


lemma try_send_closed:
  "try_send chs ch m = (res, chs') \<Longrightarrow> ch_closed (chs' d) = ch_closed (chs d)"
  "try_send chs ch m = (SendClosed, chs') \<Longrightarrow> ch_closed (chs ch)"
  by (auto simp: try_send_def Let_def split: if_splits)

lemma closed_ended:
  assumes "sections_ok w" and "c \<in> set (sw_used w)" and "ch_closed (sw_chans w c)"
  shows "ended w c"
  using sections_okD(2) [OF assms(1), of c] assms(2,3) by (auto simp: sw_conn_ok_def conn_ok_def ended_def split: option.splits)

lemma sw_conn_ok_same:
  assumes "sw_conn_ok w d" and "held (sw_hub w') d = held (sw_hub w) d" "conn_list (sw_hub w') d = conn_list (sw_hub w) d"
    "ch_closed (sw_chans w' d) = ch_closed (sw_chans w d)" "sw_used w' = sw_used w" "sw_actors w' = sw_actors w"
  shows "sw_conn_ok w' d"
  using assms by (simp add: sw_conn_ok_def)

lemma ended_conn_ok:
  assumes "sw_conn_ok w c" and "ended w c"
  shows "conn_ok c True None True (held (sw_hub w) c) (conn_list (sw_hub w) c)" "c \<in> set (sw_used w)"
    "sw_actors w c = None" "ch_closed (sw_chans w c)"
  using assms by (auto simp: sw_conn_ok_def ended_def conn_ok_def)

lemma conn_ok_remove_first: "conn_ok c True None True T l \<Longrightarrow> conn_ok c True None True T (remove_first s l)"
  by (auto simp: conn_ok_def remove_first_filter distinct_map_filter)

lemma conn_ok_drop:
  assumes "conn_ok c True None True T l" and "s \<notin> fst ` set l"
  shows "conn_ok c True None True (T - {(s, t)}) l"
proof -
  have "set l \<subseteq> T - {(s, t)}" using assms by (force simp: conn_ok_def)
  moreover have "inj_on fst (T - {(s, t)})" using assms(1) by (auto simp: conn_ok_def intro: inj_on_subset)
  ultimately show ?thesis using assms(1) by (simp add: conn_ok_def)
qed

lemma broadcast_step_ok:
  assumes w: "sections_ok w" shows "sections_ok (section_step env (STask i) w)"
proof (cases "i < length (sw_tasks w)")
  case True
  obtain tk' h' chs' where b: "broadcast_section (sw_tasks w ! i, sw_hub w, sw_chans w) = (tk', h', chs')" by (metis prod_cases3)
  let ?w = "w\<lparr>sw_hub := h', sw_chans := chs', sw_tasks := (sw_tasks w)[i := tk']\<rparr>"
  have tk: "task_ok w (sw_tasks w ! i)" using sections_okD(3) [OF w] True by simp
  note ok = sections_okD(2) [OF w] and rg = sections_ok_regs [OF w]
  have same: "sections_ok ?w" if h: "h' = sw_hub w" and cl: "\<And>d. ch_closed (chs' d) = ch_closed (sw_chans w d)" and t: "task_ok ?w tk'"
  proof (rule task_step_ok [OF w True])
    show "sw_conn_ok ?w d" for d by (rule sw_conn_ok_same [OF ok [of d]]) (simp_all add: h cl)
  qed (use h t in \<open>auto intro: regs_ok_same [OF rg]\<close>)
  have "sections_ok ?w"
  proof (cases "sw_tasks w ! i")
    case (Looking topic payload)
    have "list_all (\<lambda>r. rg_tx r = rg_conn r \<and> rg_conn r \<in> set (sw_used w)) (topic_list (sw_hub w) topic)"
      using sections_okD(1) [OF w] registered_used(1) [OF w] by (auto simp: list_all_iff)
    then show ?thesis using b Looking by (intro same) (auto simp: topic_list_def split: option.splits)
  next
    case (Sending p rs n dead)
    show ?thesis
    proof (cases rs)
      case Nil then show ?thesis using b Sending tk by (intro same) auto
    next
      case (Cons r rs')
      obtain res chs1 where t: "try_send (sw_chans w) (rg_tx r) (next_message p r) = (res, chs1)" by fastforce
      have "h' = sw_hub w \<and> chs' = chs1" using b Sending Cons t by (auto split: send_result.splits)
      moreover have "res = SendClosed \<Longrightarrow> ended w (rg_conn r)"
        using t try_send_closed(2) [of "sw_chans w"] tk Sending Cons closed_ended [OF w] by auto
      then have "task_ok ?w tk'" using b Sending Cons t tk by (cases res) auto
      ultimately show ?thesis using try_send_closed(1) [OF t] by (intro same) auto
    qed
  next
    case (Removing n dead)
    show ?thesis
    proof (cases dead)
      case Nil then show ?thesis using b Removing tk by (intro same) auto
    next
      case (Cons x dead')
      obtain c s where x: "x = (c, s)" by (cases x)
      obtain res h1 where e: "deregister_entry c s (sw_hub w) = (res, h1)" by fastforce
      have h: "h' = h1" "chs' = sw_chans w" using b Removing Cons x e by (auto split: option.splits)
      have c: "ended w c" and dead: "list_all (\<lambda>(c, s). ended w c) dead'" using tk Removing Cons x by simp_all
      note eq = deregister_entry_eq [OF e] and E = ended_conn_ok [OF ok c]
      have l: "distinct (map fst (conn_list (sw_hub w) c))" using E(1) by (simp add: conn_ok_def)
      have "sw_conn_ok ?w d" for d
        using conn_ok_remove_first [OF E(1), of s] E(2,3,4) sw_conn_ok_same [OF ok, of ?w d] h eq(3) [of d] deregister_entry_held [OF e]
        by (cases "d = c") (simp_all add: sw_conn_ok_def)
      moreover have "task_ok ?w tk'"
      proof (cases res)
        case None
        then have "tk' = Removing n dead'" using b Removing Cons x e by auto
        then show ?thesis using dead by simp
      next
        case (Some t)
        then have "tk' = RemovingTopic c s t n dead'" using b Removing Cons x e by auto
        moreover have "map_of (conn_list (sw_hub w) c) s = Some t" using eq(1) Some by simp
        ultimately show ?thesis using dead c eq(3) [of c] h(1) remove_first_entry(2) [OF l] by simp
      qed
      moreover have "set (conn_list h1 d) \<subseteq> set (conn_list (sw_hub w) d)" for d
        using eq(3) [of d] l by (simp add: remove_first_filter)
      ultimately show ?thesis using h by (intro task_step_ok [OF w True]) (auto simp: eq(2) intro: regs_ok_same [OF rg])
    qed
  next
    case (RemovingTopic c s t n dead)
    have h: "h' = drop_from_topic c s t (sw_hub w)" "chs' = sw_chans w" "tk' = Removing n dead" using b RemovingTopic by simp_all
    have c: "ended w c" and s: "s \<notin> fst ` set (conn_list (sw_hub w) c)" using tk RemovingTopic by simp_all
    note E = ended_conn_ok [OF ok c]
    have "sw_conn_ok ?w d" for d
      using conn_ok_drop [OF E(1) s, of t] E(2,3,4) sw_conn_ok_same [OF ok, of ?w d] h
      by (cases "d = c") (simp_all add: sw_conn_ok_def)
    moreover have "regs_ok ?w" using rg by (auto simp: regs_ok_def h split: if_splits)
    ultimately show ?thesis using h tk RemovingTopic by (intro task_step_ok [OF w True]) auto
  next
    case (Counted n)
    then have "tk' = Counted n" "h' = sw_hub w" "chs' = sw_chans w" using b by simp_all
    then show ?thesis by (intro same) simp_all
  qed
  then show ?thesis using True b by simp
qed (use w in simp)

lemma sections_ok_step: "sections_ok w \<Longrightarrow> sections_ok (section_step env ev w)"
proof (cases ev)
  case (SPublish t p)
  assume w: "sections_ok w"
  have "task_ok (w\<lparr>sw_tasks := x\<rparr>) tk = task_ok w tk" for x tk by (cases tk) simp_all
  then have "task_ok (w\<lparr>sw_tasks := x\<rparr>) = task_ok w" for x by (simp add: fun_eq_iff)
  then show ?thesis using w SPublish by (simp add: sections_ok_def regs_ok_def sw_conn_ok_def)
next
  case (SAbort c)
  assume "sections_ok w"
  then show ?thesis using SAbort abort_ok [of w c] by (cases "sw_actors w c") simp_all
qed (simp_all only: connect_ok event_ok section_ok broadcast_step_ok)

lemma reachable_sections_ok: "reachable_sections env w \<Longrightarrow> sections_ok w"
  by (induction rule: reachable_sections.induct) (auto intro: sections_ok_new sections_ok_step)


section \<open>Registrations and their connections\<close>

lemma fold_deregister_topics:
  assumes "\<forall>c. distinct (map fst (conn_list h c))"
  shows "r \<in> set (topic_list (fold (\<lambda>(c, s). deregister c s) dead h) t)
    \<longleftrightarrow> r \<in> set (topic_list h t)
      \<and> \<not> ((rg_conn r, rg_sub r) \<in> set dead \<and> map_of (conn_list h (rg_conn r)) (rg_sub r) = Some t)"
  using assms
proof (induction dead arbitrary: h)
  case (Cons x dead)
  obtain c s where x: "x = (c, s)" by (cases x)
  let ?h = "deregister c s h"
  have d: "distinct (map fst (conn_list h c))" using Cons.prems by blast
  have "\<forall>c. distinct (map fst (conn_list ?h c))"
    using Cons.prems by (auto simp: remove_first_filter distinct_map_filter)
  note IH = Cons.IH [OF this]
  have m: "map_of (remove_first s (conn_list h c)) i = (if i = s then None else map_of (conn_list h c) i)" for i
  proof -
    have "distinct (map fst l) \<Longrightarrow> map_of (remove_first s l) i = (if i = s then None else map_of l i)" for l :: "(string \<times> string) list"
    proof (induction l)
      case (Cons p l)
      then have "map_of l (fst p) = None" by (simp add: map_of_eq_None_iff)
      then show ?case using Cons by (cases p) auto
    qed simp
    then show ?thesis using d by blast
  qed
  show ?case
    unfolding x fold.simps o_apply prod.case IH using m [of "rg_sub r"]
    by (cases "(rg_conn r, rg_sub r) = (c, s)") (auto simp: topic_list_deregister same_sub_def)
qed simp

lemma broadcast_keeps:
  assumes w: "sections_ok w" and r: "r \<in> set (topic_list (sw_hub w) t)"
    and b: "broadcast t payload (sw_hub w) (sw_chans w) = (n, h', chs')"
  shows "r \<in> set (topic_list h' t)
    \<longleftrightarrow> \<not> ch_closed (sw_chans w (rg_tx r)) \<or> \<not> has_subscription (rg_conn r) (rg_sub r) (sw_hub w)"
proof -
  let ?h = "sw_hub w" and ?c = "rg_conn r" and ?s = "rg_sub r"
  obtain m dead chs1 where s: "send_all payload (topic_list ?h t) (sw_chans w) = (m, dead, chs1)" by (metis prod_cases3)
  have h': "h' = fold (\<lambda>(c, s). deregister c s) dead ?h"
    using b s r by (auto simp: broadcast_def topic_list_def split: option.splits)
  have rt: "rg_tx q = rg_conn q" if "q \<in> set (topic_list ?h t)" for q using sections_okD(1) [OF w that] by simp
  have dead: "(?c, ?s) \<in> set dead \<longleftrightarrow> ch_closed (sw_chans w (rg_tx r))"
    using r rt by (auto simp: send_all_dead [OF s])
  have d: "\<forall>c. distinct (map fst (conn_list ?h c))"
    using sections_okD(2) [OF w] by (simp add: sw_conn_ok_def conn_ok_def)
  have "map_of (conn_list ?h ?c) ?s = Some t \<longleftrightarrow> has_subscription ?c ?s ?h" if cl: "ch_closed (sw_chans w (rg_tx r))"
  proof -
    have "ended w ?c" using cl rt [OF r] registered_used(1) [OF w r] closed_ended [OF w] by simp
    note E = ended_conn_ok(1) [OF sections_okD(2) [OF w] this]
    have inj: "inj_on fst (held ?h ?c)" and sub: "set (conn_list ?h ?c) \<subseteq> held ?h ?c"
      using E by (simp_all add: conn_ok_def)
    have "t' = t" if "(?s, t') \<in> set (conn_list ?h ?c)" for t'
      using inj_onD [OF inj _ subsetD [OF sub that] registered_used(2) [OF w r]] by simp
    then have "(?s, t) \<in> set (conn_list ?h ?c) \<longleftrightarrow> ?s \<in> fst ` set (conn_list ?h ?c)" by force
    then show ?thesis using d by (simp add: has_subscription_entry)
  qed
  then show ?thesis
    using fold_deregister_topics [OF d, of r dead t] r unfolding h' dead by blast
qed

text \<open>C15. In every state the hub can reach, with the sections of any number of connections and broadcasts
  interleaved and any actor aborted at any point, a registration in the topic map stands under its
  own topic and delivers to its own connection's channel.  That connection either runs, has been
  initialised and has an open channel, and then lists the subscription whenever its actor is at the
  \<open>select\<close>; or it has ended and its channel is closed.  A broadcast on the topic, undisturbed from then on,
  removes the registration exactly if the connection has ended and still lists the subscription: one
  whose entry an abort left missing stays.\<close>

theorem registrations_belong_to_connections:
  assumes "reachable_sections env w" and "r \<in> set (topic_list (sw_hub w) t)"
  shows "rg_topic r = t \<and> rg_tx r = rg_conn r
    \<and> (case sw_actors w (rg_conn r) of
         Some (pt, ac) \<Rightarrow> ac_initialized ac \<and> \<not> ch_closed (sw_chans w (rg_tx r))
           \<and> (pt = AtSelect \<longrightarrow> (rg_sub r, t) \<in> set (conn_list (sw_hub w) (rg_conn r)))
       | None \<Rightarrow> ch_closed (sw_chans w (rg_tx r)))
    \<and> (case broadcast t payload (sw_hub w) (sw_chans w) of (n, h', chs') \<Rightarrow>
         r \<notin> set (topic_list h' t)
           \<longleftrightarrow> sw_actors w (rg_conn r) = None \<and> has_subscription (rg_conn r) (rg_sub r) (sw_hub w))"
proof -
  have w: "sections_ok w" using assms(1) by (rule reachable_sections_ok)
  note own = sections_okD(1) [OF w assms(2)] and reg = registered_used [OF w assms(2)]
  obtain n h' chs' where b: "broadcast t payload (sw_hub w) (sw_chans w) = (n, h', chs')" by (metis prod_cases3)
  note keeps = broadcast_keeps [OF w assms(2) b]
  show ?thesis
  proof (cases "sw_actors w (rg_conn r)")
    case None
    then have "ended w (rg_conn r)" using reg(1) by (simp add: ended_def)
    then show ?thesis using ended_conn_ok(4) [OF sections_okD(2) [OF w]] own keeps b None by simp
  next
    case (Some a)
    obtain pt ac where a: "a = (pt, ac)" by (cases a)
    note run = running [OF w Some]
    have "ac_initialized ac" "pt = AtSelect \<longrightarrow> (rg_sub r, t) \<in> set (conn_list (sw_hub w) (rg_conn r))"
      using conn_okD(5,6) [OF run(4) [unfolded a]] reg(2) by auto
    then show ?thesis using own keeps b Some a run(2) by simp
  qed
qed

text \<open>A connection that has ended only loses registrations; one whose actor has come to the end of
  \<open>run\<close> has none, and none comes back.\<close>

lemma ended_shrinks:
  assumes w: "sections_ok w" and c: "ended w c"
  shows "ended (section_step env ev w) c \<and> held (sw_hub (section_step env ev w)) c \<subseteq> held (sw_hub w) c"
proof (cases ev)
  case (SEvent d e)
  have "sw_hub (section_step env (SEvent d e) w) = sw_hub w \<and> ended (section_step env (SEvent d e) w) c"
    using c by (cases "d = c") (auto simp: ended_def split: option.split actor_point.split prod.split)
  then show ?thesis using SEvent by simp
next
  case (SSection d)
  show ?thesis
  proof (cases "sw_actors w d")
    case (Some a)
    obtain pt ac where p: "a = (pt, ac)" by (cases a)
    have d: "c \<noteq> d" using c Some by (auto simp: ended_def)
    obtain pt' ac' h' where s: "actor_section env d (pt, ac, sw_hub w) = (pt', ac', h')" by (metis prod_cases3)
    have "\<forall>r. pt = RegisteringTopic r \<or> pt = RegisteringConn r \<longrightarrow> rg_conn r = d"
      using conn_okD(6) [OF running(4) [OF w Some [unfolded p]]] by auto
    then have "held h' c = held (sw_hub w) c" using d by (rule section_other(1) [OF s])
    then show ?thesis using SSection Some p s c d by (cases pt) (auto simp: ended_def)
  qed (use SSection c in simp)
next
  case (STask i)
  obtain tk' h' chs' where b: "broadcast_section (sw_tasks w ! i, sw_hub w, sw_chans w) = (tk', h', chs')" by (metis prod_cases3)
  have "held h' c \<subseteq> held (sw_hub w) c"
    using b by (cases "(sw_tasks w ! i, sw_hub w, sw_chans w)" rule: broadcast_section.cases)
      (auto split: option.splits send_result.splits prod.splits if_splits dest: deregister_entry_held)
  then show ?thesis using b c STask by (simp add: ended_def)
qed (use c in \<open>auto simp: ended_def split: option.split\<close>)

lemma returned_connection_gone:
  assumes "reachable_sections env w" and "sw_actors w c = Some (Returning, ac)"
  shows "held (sw_hub (fold (section_step env) evs (section_step env (SSection c) w))) c = {}"
proof -
  have w: "sections_ok w" using assms(1) by (rule reachable_sections_ok)
  let ?w = "section_step env (SSection c) w"
  have "held (sw_hub ?w) c = {}" "ended ?w c"
    using conn_okD(6) [OF running(4) [OF w assms(2)]] running(1) [OF w assms(2)] assms(2) by (auto simp: ended_def)
  moreover have "ended v c \<Longrightarrow> held (sw_hub v) c = {} \<Longrightarrow> sections_ok v \<Longrightarrow> held (sw_hub (fold (section_step env) evs v)) c = {}" for v
  proof (induction evs arbitrary: v)
    case (Cons ev evs)
    then show ?case using ended_shrinks [OF Cons.prems(3,1), of env ev] sections_ok_step [OF Cons.prems(3), of env ev] by simp
  qed simp
  ultimately show ?thesis using sections_ok_step [OF w] by blast
qed

section \<open>Examples\<close>

lemma reachable_sections_fold: "reachable_sections env w \<Longrightarrow> reachable_sections env (fold (section_step env) evs w)"
  by (induction evs arbitrary: w) (auto intro: reachable_sections.step)

text \<open>A connection up to the point between the two sections of its registration.\<close>

definition half_registered :: "section_event list" where
  "half_registered = [SConnect 7, SEvent 7 (Incoming (WsText ''init'')), SEvent 7 (Incoming (WsText ''sub'')), SSection 7, SSection 7]"

lemma half_registered_topic:
  "sample_registration \<in> set (topic_list (sw_hub (fold (section_step sample_env) half_registered section_world_new)) ''p.events.orders'')"
  by code_simp

theorem registrations_belong_to_connections_witness:
  "let w = fold (section_step sample_env) half_registered section_world_new
   in rg_tx sample_registration = rg_conn sample_registration
      \<and> (case broadcast ''p.events.orders'' JNull (sw_hub w) (sw_chans w) of (n, h', chs') \<Rightarrow>
           sample_registration \<notin> set (topic_list h' ''p.events.orders'')
             \<longleftrightarrow> sw_actors w (rg_conn sample_registration) = None \<and> has_subscription (rg_conn sample_registration) (rg_sub sample_registration) (sw_hub w))"
proof -
  have "reachable_sections sample_env (fold (section_step sample_env) half_registered section_world_new)"
    by (intro reachable_sections_fold reachable_sections.init)
  note out = registrations_belong_to_connections [OF this half_registered_topic, of JNull]
  show ?thesis unfolding Let_def
    by (rule conjI [OF out [THEN conjunct2, THEN conjunct1] out [THEN conjunct2, THEN conjunct2, THEN conjunct2]])
qed

text \<open>An abort between the two sections of \<open>register\<close> leaves a registration that no broadcast removes;
  every one finds its channel closed again.\<close>

lemma aborted_registration_stays:
  "let w = fold (section_step sample_env) (half_registered @ [SAbort 7, SPublish ''p.events.orders'' JNull] @ replicate 9 (STask 0)) section_world_new
   in sw_tasks w = [Counted 0] \<and> active_subscriptions_count (sw_hub w) = 1 \<and> active_connection_count (sw_hub w) = 0"
  by code_simp

end
