(* ===== verification/AuthKeys.thy ===== *)
theory AuthKeys
  imports Auth
begin

text \<open>
  Where the keys of \<open>interceptors/auth.rs\<close> come from: the constructors of \<open>AuthProvider\<close>, the fetch of a
  JWKS document and the background refresh, and the builder methods of the RBAC interceptor.

  The HTTP client is an argument: its construction, the answer to the request with its status,
  and the bytes of the body.
\<close>

section \<open>Providers\<close>

definition hmac_provider :: "string \<Rightarrow> auth_provider" where
  "hmac_provider secret = Hmac secret"

definition static_rsa :: "crypto \<Rightarrow> string option \<Rightarrow> string \<Rightarrow> string \<Rightarrow> auth_provider result" where
  "static_rsa cr kid n_b64url e_b64url =
     (case decode_b64url cr n_b64url of
        Inl err \<Rightarrow> Inl (''Invalid RSA modulus '' @ quoted ''n'' @ '': '' @ err)
      | Inr n \<Rightarrow>
          (case decode_b64url cr e_b64url of
             Inl err \<Rightarrow> Inl (''Invalid RSA exponent '' @ quoted ''e'' @ '': '' @ err)
           | Inr e \<Rightarrow> Inr (StaticKey kid (RsaPkcs1 (rsa_components_to_der n e)))))"

definition static_ed25519 :: "crypto \<Rightarrow> string option \<Rightarrow> string \<Rightarrow> auth_provider result" where
  "static_ed25519 cr kid x_b64url =
     (case decode_b64url cr x_b64url of
        Inl err \<Rightarrow> Inl (''Invalid Ed25519 public key '' @ quoted ''x'' @ '': '' @ err)
      | Inr raw \<Rightarrow> Inr (StaticKey kid (Ed25519 raw)))"

record http_fetch =
  hf_client :: "unit result"
  hf_get :: "string \<Rightarrow> (nat \<times> string result) result"
  hf_show_status :: "nat \<Rightarrow> string"

definition fetch_jwks :: "crypto \<Rightarrow> http_fetch \<Rightarrow> string \<Rightarrow> (string \<times> jwks_key) list result" where
  "fetch_jwks cr hf url =
     (case hf_client hf of
        Inl e \<Rightarrow> Inl (''Failed to create HTTP client: '' @ e)
      | Inr _ \<Rightarrow>
          (case hf_get hf url of
             Inl e \<Rightarrow> Inl (''Failed to fetch JWKS from '' @ quoted url @ '': '' @ e)
           | Inr (status, body) \<Rightarrow>
               if \<not> (200 \<le> status \<and> status < 300)
               then Inl (''JWKS endpoint '' @ quoted url @ '' returned HTTP '' @ hf_show_status hf status)
               else case body of
                      Inl e \<Rightarrow> Inl (''Failed to read JWKS response bytes: '' @ e)
                    | Inr bytes \<Rightarrow>
                        (case json_from_slice cr bytes of
                           Inl e \<Rightarrow> Inl (''Failed to parse JWKS JSON from '' @ quoted url @ '': '' @ e)
                         | Inr v \<Rightarrow> parse_jwks_from_json cr v)))"

text \<open>The provider with the time of the last refresh, and whether a task refreshes it: one is only
  started inside a runtime.\<close>

record jwks_source =
  js_provider :: auth_provider
  js_last_refreshed :: "nat option"
  js_refreshed_by_task :: bool

definition jwks_provider :: "bool \<Rightarrow> string \<Rightarrow> jwks_source" where
  "jwks_provider in_runtime url =
     \<lparr>js_provider = Jwks url [], js_last_refreshed = None, js_refreshed_by_task = in_runtime\<rparr>"

text \<open>One turn of the task; \<open>now\<close> is the instant after the fetch.\<close>

definition refresh_turn :: "crypto \<Rightarrow> http_fetch \<times> nat \<Rightarrow> jwks_source \<Rightarrow> jwks_source" where
  "refresh_turn cr turn js =
     (case js_provider js of
        Jwks url _ \<Rightarrow>
          (if js_refreshed_by_task js then
             (case fetch_jwks cr (fst turn) url of
                Inr fetched \<Rightarrow> js\<lparr>js_provider := set_jwks_keys fetched (js_provider js), js_last_refreshed := Some (snd turn)\<rparr>
              | Inl _ \<Rightarrow> js)
           else js)
      | _ \<Rightarrow> js)"

section \<open>Builder methods of the interceptor\<close>

text \<open>The cache is made by the library; \<open>cache_new\<close> is \<open>LruCache::new\<close>.\<close>

definition with_cache_capacity :: "(nat \<Rightarrow> 'c) \<Rightarrow> nat \<Rightarrow> rbac \<times> 'c \<Rightarrow> rbac \<times> 'c" where
  "with_cache_capacity cache_new capacity x = (if capacity = 0 then x else (fst x, cache_new capacity))"

definition with_provider :: "auth_provider \<Rightarrow> rbac \<Rightarrow> rbac" where
  "with_provider p r = r\<lparr>rb_provider := Some p\<rparr>"

definition with_claims_mapping :: "claims_mapping \<Rightarrow> rbac \<Rightarrow> rbac" where
  "with_claims_mapping m r = r\<lparr>rb_claims_mapping := m\<rparr>"

section \<open>Properties\<close>

text \<open>The keys after a sequence of turns: those of the last fetch that succeeded.\<close>

definition last_fetched ::
  "crypto \<Rightarrow> string \<Rightarrow> (string \<times> jwks_key) list \<Rightarrow> (http_fetch \<times> nat) list \<Rightarrow> (string \<times> jwks_key) list" where
  "last_fetched cr url keys turns =
     fold (\<lambda>t ks. case fetch_jwks cr (fst t) url of Inr ks' \<Rightarrow> ks' | Inl _ \<Rightarrow> ks) turns keys"

lemma refresh_turns:
  assumes "js_provider js = Jwks url keys" "js_refreshed_by_task js"
  shows "js_provider (fold (refresh_turn cr) turns js) = Jwks url (last_fetched cr url keys turns)"
  using assms
proof (induction turns arbitrary: js keys)
  case (Cons t turns)
  obtain keys' where k: "js_provider (refresh_turn cr t js) = Jwks url keys'" "js_refreshed_by_task (refresh_turn cr t js)"
      "keys' = (case fetch_jwks cr (fst t) url of Inr ks' \<Rightarrow> ks' | Inl _ \<Rightarrow> keys)"
    using Cons.prems by (auto simp: refresh_turn_def set_jwks_keys_def split: sum.splits)
  from Cons.IH [OF k(1,2)] show ?case by (simp add: k(3) last_fetched_def)
qed (simp add: last_fetched_def)

lemma jwks_signature_key:
  assumes "verify_signature cr (Jwks url keys) alg kid d sig = Inr ()"
  shows "\<exists>key \<in> snd ` set keys. verify_key cr key alg d sig = Inr ()"
  using assms
  by (auto simp: verify_signature_def split: option.splits list.splits dest!: map_of_SomeD)
    (metis image_eqI snd_conv)+

text \<open>The signature of the token is one of the key, under the algorithm the header names.\<close>

definition token_verified_by :: "crypto \<Rightarrow> string \<Rightarrow> jwks_key \<Rightarrow> bool" where
  "token_verified_by cr token key =
     (case split_on CHR ''.'' token of
        [h, pl, sg] \<Rightarrow>
          (case (decode_json_b64url cr h, decode_b64url cr sg) of
             (Inr hj, Inr sig) \<Rightarrow> verify_key cr key (unwrap_or (get_str hj ''alg'') ''RS256'') (h @ ''.'' @ pl) sig = Inr ()
           | _ \<Rightarrow> False)
      | _ \<Rightarrow> False)"

lemma jwks_token_key:
  assumes "verify_jwt cr (Jwks url keys) now token = Inr claims"
  shows "list_ex (token_verified_by cr token) (map snd keys)"
proof -
  from assms obtain h pl sg hj sig where "split_on CHR ''.'' token = [h, pl, sg]" "decode_json_b64url cr h = Inr hj"
      "decode_b64url cr sg = Inr sig"
      "verify_signature cr (Jwks url keys) (unwrap_or (get_str hj ''alg'') ''RS256'') (get_str hj ''kid'') (h @ ''.'' @ pl) sig = Inr ()"
    by (auto simp: verify_jwt_def split: list.splits sum.splits)
  with jwks_signature_key [OF this(4)] show ?thesis
    by (force simp: token_verified_by_def list_ex_iff)
qed

lemma unrefreshed_provider:
  "\<not> js_refreshed_by_task js \<Longrightarrow> fold (refresh_turn cr) turns js = js"
  by (induction turns) (auto simp: refresh_turn_def split: auth_provider.splits)

text \<open>A provider made outside a runtime is never refreshed and accepts no token.\<close>

lemma jwks_without_runtime_rejects:
  "\<exists>e. verify_jwt cr (js_provider (fold (refresh_turn cr) turns (jwks_provider False url))) now token = Inl e"
proof (cases "verify_jwt cr (Jwks url []) now token")
  case (Inl e)
  then show ?thesis by (simp add: unrefreshed_provider jwks_provider_def)
next
  case (Inr claims)
  from jwks_token_key [OF this] show ?thesis by simp
qed

text \<open>C8. Key rotation takes effect: after any sequence of refreshes a token is accepted only under a
  key of the last document that was fetched and read successfully, so that a key that document no
  longer lists verifies nothing; before the first such document nothing is accepted.\<close>

theorem rotated_keys_only:
  assumes "verify_jwt cr (js_provider (fold (refresh_turn cr) turns (jwks_provider in_runtime url))) now token = Inr claims"
  shows "list_ex (token_verified_by cr token) (map snd (last_fetched cr url [] turns))"
proof (cases in_runtime)
  case True
  then have "js_provider (fold (refresh_turn cr) turns (jwks_provider in_runtime url)) = Jwks url (last_fetched cr url [] turns)"
    by (intro refresh_turns) (simp_all add: jwks_provider_def)
  with assms show ?thesis by (intro jwks_token_key) simp
next
  case False
  with assms jwks_without_runtime_rejects [of cr turns url now token] show ?thesis by auto
qed

definition jwks_crypto :: crypto where
  "jwks_crypto = toy_crypto\<lparr>json_from_slice := (\<lambda>s.
       if s = ''h'' then Inr (JObject [(''alg'', JString ''EdDSA''), (''kid'', JString ''k1'')])
       else if s = ''p'' then Inr (JObject [])
       else if s = ''doc'' then Inr (JObject [(''keys'', JArray [JObject [(''kty'', JString ''OKP''), (''kid'', JString ''k1''),
                                   (''crv'', JString ''Ed25519''), (''x'', JString ''x'')]])])
       else Inl ''bad''),
     ed25519_verify := (\<lambda>k d s. k = ''x'' \<and> d = ''h.p'' \<and> s = ''s'')\<rparr>"

definition jwks_answers :: http_fetch where
  "jwks_answers = \<lparr>hf_client = Inr (), hf_get = (\<lambda>_. Inr (200, Inr ''doc'')), hf_show_status = show_nat\<rparr>"

theorem rotated_keys_only_witness:
  "list_ex (token_verified_by jwks_crypto ''h.p.s'') (map snd (last_fetched jwks_crypto ''u'' [] [(jwks_answers, 1)]))"
proof -
  have "verify_jwt jwks_crypto (js_provider (fold (refresh_turn jwks_crypto) [(jwks_answers, 1)] (jwks_provider True ''u''))) 5 ''h.p.s''
      = Inr (JObject [])"
    by (simp add: jwks_crypto_def jwks_answers_def jwks_provider_def refresh_turn_def fetch_jwks_def set_jwks_keys_def
        parse_jwks_from_json_def toy_crypto_eval verify_key_def alist_insert_def unwrap_or_def)
  then show ?thesis by (rule rotated_keys_only)
qed

text \<open>A failed refresh keeps the old keys, however old they are: the time of the last refresh is
  written and never read.\<close>

lemma failed_refresh_keeps_keys:
  assumes "js_provider js = Jwks url keys" "\<And>t. t \<in> set turns \<Longrightarrow> \<exists>e. hf_get (fst t) url = Inl e"
  shows "js_provider (fold (refresh_turn cr) turns js) = Jwks url keys"
  using assms
proof (induction turns arbitrary: js)
  case (Cons t turns)
  have "refresh_turn cr t js = js"
    using Cons.prems(1) Cons.prems(2) [of t]
    by (auto simp: refresh_turn_def fetch_jwks_def split: sum.splits)
  with Cons show ?case by simp
qed simp

end
