(* ===== verification/WasmHost.thy ===== *)
theory WasmHost
  imports Cel Wasm
begin

text \<open>
  The host side of the plugins in \<open>interceptors/evaluators/wasm.rs\<close>: the evaluator with its epoch
  ticker thread and what the ticker makes of the time limit of a guest; and the rule port of
  \<open>interceptors/rules.rs\<close> with its three implementations, native, CEL and WASM.
\<close>

section \<open>The evaluator\<close>

record 'm wasm_evaluator =
  we_config :: engine_config
  we_plugins :: "'m plugins"
  we_ticker_running :: bool

definition default_engine_config :: engine_config where
  "default_engine_config = \<lparr>ec_strict_aot = True, ec_allow_jit = False, ec_tick_ms = 1\<rparr>"

text \<open>\<open>engine\<close> and \<open>spawn\<close> are what Wasmtime and the operating system answer.\<close>

definition wasm_evaluator_new :: "unit result \<Rightarrow> unit result \<Rightarrow> engine_config \<Rightarrow> 'm wasm_evaluator result" where
  "wasm_evaluator_new engine spawn ec =
     (case with_context ''Failed to initialize Wasmtime Engine with epoch interruption'' engine of
        Inl e \<Rightarrow> Inl e
      | Inr _ \<Rightarrow>
          (case with_context ''Failed to spawn Wasmtime epoch ticker thread'' spawn of
             Inl e \<Rightarrow> Inl e
           | Inr _ \<Rightarrow> Inr \<lparr>we_config = ec, we_plugins = Map.empty, we_ticker_running = True\<rparr>))"

definition drop_evaluator :: "'m wasm_evaluator \<Rightarrow> 'm wasm_evaluator" where
  "drop_evaluator e = e\<lparr>we_ticker_running := False\<rparr>"

definition precompile :: "(string \<Rightarrow> string result) \<Rightarrow> string \<Rightarrow> string result" where
  "precompile precompile_module wasm_bytes =
     with_context ''Failed to precompile WASM bytecode into AOT artifact'' (precompile_module wasm_bytes)"

definition tick_interval :: "engine_config \<Rightarrow> nat" where
  "tick_interval ec = max (ec_tick_ms ec) 1"

section \<open>The epoch ticker\<close>

text \<open>The loop of the ticker thread: in each turn the flag it read and how long its sleep took.  The
  result is the times at which it incremented the epoch of the engine.\<close>

fun ticker_loop :: "(bool \<times> nat) list \<Rightarrow> nat \<Rightarrow> nat list" where
  "ticker_loop [] now = []"
| "ticker_loop ((running, slept) # turns) now =
     (if running then (now + slept) # ticker_loop turns (now + slept) else [])"

definition epoch_at :: "nat list \<Rightarrow> nat \<Rightarrow> nat" where
  "epoch_at ticks t = length (filter (\<lambda>x. x \<le> t) ticks)"

text \<open>\<open>Store::set_epoch_deadline\<close>: a guest whose store got \<open>n\<close> ticks at time \<open>s\<close> is past its deadline
  once the epoch has reached the epoch of that time plus \<open>n\<close>.\<close>

definition past_deadline :: "nat list \<Rightarrow> nat \<Rightarrow> nat \<Rightarrow> nat \<Rightarrow> bool" where
  "past_deadline ticks s n t = (epoch_at ticks s + n \<le> epoch_at ticks t)"

definition ticks_between :: "nat list \<Rightarrow> nat \<Rightarrow> nat \<Rightarrow> nat" where
  "ticks_between ticks s t = length (filter (\<lambda>x. s < x \<and> x \<le> t) ticks)"

lemma epoch_at_split: "s \<le> t \<Longrightarrow> epoch_at ticks t = epoch_at ticks s + ticks_between ticks s t"
  by (induction ticks) (auto simp: epoch_at_def ticks_between_def)

lemma ticks_between_simps [simp]:
  "ticks_between [] s t = 0"
  "ticks_between (x # ticks) s t = (if s < x \<and> x \<le> t then 1 else 0) + ticks_between ticks s t"
  by (simp_all add: ticks_between_def)

lemma ticks_between_mono: "t \<le> t' \<Longrightarrow> ticks_between ticks s t \<le> ticks_between ticks s t'"
  by (induction ticks) auto

lemma past_deadline_iff: "s \<le> t \<Longrightarrow> past_deadline ticks s n t \<longleftrightarrow> n \<le> ticks_between ticks s t"
  by (simp add: past_deadline_def epoch_at_split)

text \<open>A ticker that sleeps at least its interval cannot tick too often \<dots>\<close>

lemma ticks_from_base:
  "list_all (\<lambda>(_, d). tick \<le> d) turns \<Longrightarrow> s \<le> now \<Longrightarrow>
   ticks_between (ticker_loop turns now) s t = 0 \<or> now + ticks_between (ticker_loop turns now) s t * tick \<le> t"
proof (induction turns now rule: ticker_loop.induct)
  case (2 running slept turns now)
  then show ?case
    using "2.IH" by (cases "now + slept \<le> t") fastforce+
qed simp

lemma ticks_at_most:
  "list_all (\<lambda>(_, d). tick \<le> d) turns \<Longrightarrow> 0 < ticks_between (ticker_loop turns now) s t \<Longrightarrow>
   s + (ticks_between (ticker_loop turns now) s t - 1) * tick < t"
proof (induction turns now rule: ticker_loop.induct)
  case (2 running slept turns now)
  show ?case
  proof (cases "s < now + slept")
    case True
    with "2.prems" ticks_from_base [of tick turns s "now + slept" t] show ?thesis
      by (cases running; cases "now + slept \<le> t") auto
  next
    case False
    with 2 show ?thesis by (cases running) auto
  qed
qed simp

text \<open>\<dots> and one whose sleeps take at most \<open>g\<close>, while it runs, ticks often enough.\<close>

definition steady :: "nat \<Rightarrow> nat \<Rightarrow> (bool \<times> nat) list \<Rightarrow> bool" where
  "steady tick g turns = list_all (\<lambda>(running, d). running \<and> tick \<le> d \<and> d \<le> g) turns"

lemma steady_simps [simp]:
  "steady tick g []"
  "steady tick g (x # turns) = (fst x \<and> tick \<le> snd x \<and> snd x \<le> g \<and> steady tick g turns)"
  by (auto simp: steady_def split: prod.splits)

lemma ticks_at_least_base:
  "steady tick g turns \<Longrightarrow> 0 < tick \<Longrightarrow> 0 < g \<Longrightarrow> s \<le> now \<Longrightarrow> n * g \<le> sum_list (map snd turns) \<Longrightarrow>
   n \<le> ticks_between (ticker_loop turns now) s (now + n * g)"
proof (induction turns now arbitrary: n rule: ticker_loop.induct)
  case (2 running slept turns now)
  show ?case
  proof (cases n)
    case (Suc m)
    have "m \<le> ticks_between (ticker_loop turns (now + slept)) s (now + slept + m * g)"
      using 2 Suc by auto
    also have "\<dots> \<le> ticks_between (ticker_loop turns (now + slept)) s (now + n * g)"
      using "2.prems" Suc by (intro ticks_between_mono) auto
    finally show ?thesis using "2.prems" Suc by auto
  qed simp
qed simp

lemma ticks_at_least:
  "steady tick g turns \<Longrightarrow> 0 < tick \<Longrightarrow> 0 < g \<Longrightarrow> now \<le> s \<Longrightarrow> s + n * g \<le> now + sum_list (map snd turns) \<Longrightarrow>
   n \<le> ticks_between (ticker_loop turns now) s (s + n * g)"
proof (induction turns now rule: ticker_loop.induct)
  case (2 running slept turns now)
  show ?case
  proof (cases "now + slept \<le> s \<or> n = 0")
    case False
    then obtain m where n: "n = Suc m" by (cases n) auto
    have "m \<le> ticks_between (ticker_loop turns (now + slept)) s (now + slept + m * g)"
      using "2.prems" False n by (intro ticks_at_least_base [of tick g]) auto
    also have "\<dots> \<le> ticks_between (ticker_loop turns (now + slept)) s (s + n * g)"
      using "2.prems" n by (intro ticks_between_mono) auto
    finally show ?thesis using "2.prems" False n by auto
  qed (use 2 in auto)
qed (cases n; simp)

text \<open>After the evaluator is dropped the thread ends at the next reading of the flag.\<close>

lemma dropped_ticker_ends:
  "ticker_loop (turns @ (False, d) # rest) now = ticker_loop turns now"
  by (induction turns now rule: ticker_loop.induct) auto

lemma deadline_ticks_bounds:
  "timeout_ms < (deadline_ticks timeout_ms tick_ms + 1) * max tick_ms 1"
  "deadline_ticks timeout_ms tick_ms * max tick_ms 1 \<le> max timeout_ms (max tick_ms 1)"
proof -
  let ?t = "max tick_ms 1"
  have d: "timeout_ms div ?t \<le> deadline_ticks timeout_ms tick_ms" by (simp add: deadline_ticks_def)
  have "timeout_ms < (timeout_ms div ?t + 1) * ?t"
    using dividend_less_div_times [of ?t timeout_ms] by simp
  also have "\<dots> \<le> (deadline_ticks timeout_ms tick_ms + 1) * ?t" using d by (intro mult_le_mono1) simp
  finally show "timeout_ms < (deadline_ticks timeout_ms tick_ms + 1) * ?t" .
  show "deadline_ticks timeout_ms tick_ms * ?t \<le> max timeout_ms ?t"
    using div_times_less_eq_dividend [of timeout_ms ?t]
    by (cases "timeout_ms div ?t \<le> 1") (simp_all add: deadline_ticks_def le_max_iff_disj max_absorb1 max_absorb2 del: div_times_less_eq_dividend)
qed



text \<open>With an interval that does not divide the time limit the guest is cut off early: 7 ms at an
  interval of 4 ms are one tick, which may come 1 ms after the start.\<close>

lemma deadline_cut_early:
  "deadline_ticks 7 4 = 1 \<and> past_deadline (ticker_loop [(True, 4), (True, 4)] 0) 3 1 4"
  by (simp add: deadline_ticks_def past_deadline_def epoch_at_def)

section \<open>The rule port\<close>

definition has_rule :: "rule_registry \<Rightarrow> string \<Rightarrow> bool" where
  "has_rule rs n = (rs n \<noteq> None)"

definition wasm_evaluate ::
  "('m \<Rightarrow> plugin_config \<Rightarrow> string \<Rightarrow> json \<Rightarrow> json result) \<Rightarrow> 'm plugins \<Rightarrow> string \<Rightarrow> json \<Rightarrow> rule_error + bool" where
  "wasm_evaluate invoke ps rule_name input =
     (case ps rule_name of
        None \<Rightarrow> Inl (RuleNotFound rule_name)
      | Some p \<Rightarrow>
          (case invoke (pl_module p) (pl_config p) ''spectragql_evaluate_rule'' input of
             Inr val \<Rightarrow> Inr (unwrap_or (Option.bind (json_get val ''result'') as_bool) False)
           | Inl e \<Rightarrow> Inl (EvaluationFailed e)))"

text \<open>What the trait \<open>RuleEvaluator\<close> promises its callers: a missing rule is reported under its own
  name, a known one decides or fails, and no evaluator finds fault with its input.\<close>

locale rule_port =
  fixes evaluate :: "'s \<Rightarrow> string \<Rightarrow> json \<Rightarrow> rule_error + bool"
    and known :: "'s \<Rightarrow> string \<Rightarrow> bool"
  assumes missing: "\<not> known s n \<Longrightarrow> evaluate s n i = Inl (RuleNotFound n)"
    and present: "known s n \<Longrightarrow> evaluate s n i \<in> range Inr \<union> range (Inl \<circ> EvaluationFailed)"
begin

lemma not_found_iff: "evaluate s n i = Inl (RuleNotFound m) \<longleftrightarrow> \<not> known s n \<and> m = n"
  using missing [of s n i] present [of s n i] by (cases "known s n") auto

lemma never_invalid_input: "evaluate s n i \<noteq> Inl (InvalidInput m)"
  using missing [of s n i] present [of s n i] by (cases "known s n") auto

end

text \<open>An evaluator that takes rules: \<open>add\<close> may refuse one, and a rule it takes replaces the one of the
  same name and touches no other.\<close>

fun register_all :: "(string \<Rightarrow> 'r \<Rightarrow> 's \<Rightarrow> 's result) \<Rightarrow> (string \<times> 'r) list \<Rightarrow> 's \<Rightarrow> 's result" where
  "register_all add [] s = Inr s"
| "register_all add ((n, r) # rs) s = (case add n r s of Inl e \<Rightarrow> Inl e | Inr s' \<Rightarrow> register_all add rs s')"

locale rule_store = rule_port evaluate known
  for evaluate :: "'s \<Rightarrow> string \<Rightarrow> json \<Rightarrow> rule_error + bool" and known :: "'s \<Rightarrow> string \<Rightarrow> bool" +
  fixes add :: "string \<Rightarrow> 'r \<Rightarrow> 's \<Rightarrow> 's result"
  assumes add_known: "add n r s = Inr s' \<Longrightarrow> known s' m \<longleftrightarrow> m = n \<or> known s m"
    and add_other: "add n r s = Inr s' \<Longrightarrow> m \<noteq> n \<Longrightarrow> evaluate s' m i = evaluate s m i"
    and add_same: "add n r s = Inr s' \<Longrightarrow> add n r t = Inr t' \<Longrightarrow> evaluate s' n i = evaluate t' n i"
begin

lemma registered_known:
  "register_all add rs s = Inr s' \<Longrightarrow> known s' m \<longleftrightarrow> m \<in> fst ` set rs \<or> known s m"
proof (induction rs arbitrary: s)
  case (Cons x rs)
  then obtain s1 where "add (fst x) (snd x) s = Inr s1" "register_all add rs s1 = Inr s'"
    by (cases x) (auto split: sum.splits)
  with Cons.IH [of s1] show ?case by (simp add: add_known disj_ac)
qed simp

lemma registered_other:
  "register_all add rs s = Inr s' \<Longrightarrow> m \<notin> fst ` set rs \<Longrightarrow> evaluate s' m i = evaluate s m i"
  by (induction rs arbitrary: s) (auto simp: add_other split: sum.splits)

lemma last_registration_wins:
  assumes "register_all add (rs @ (n, r) # rs') s = Inr s'" "n \<notin> fst ` set rs'" "add n r t = Inr t'"
  shows "evaluate s' n i = evaluate t' n i"
  using assms(1)
proof (induction rs arbitrary: s)
  case Nil
  then obtain s1 where "add n r s = Inr s1" "register_all add rs' s1 = Inr s'" by (auto split: sum.splits)
  with assms(2,3) show ?case using registered_other add_same by metis
qed (auto split: sum.splits)

end

definition add_native :: "string \<Rightarrow> (json \<Rightarrow> bool) \<Rightarrow> rule_registry \<Rightarrow> rule_registry result" where
  "add_native n p rs = Inr (register_rule n p rs)"

definition add_wasm ::
  "(string \<Rightarrow> 'm result) \<Rightarrow> engine_config \<Rightarrow> string \<Rightarrow> string \<times> plugin_config \<Rightarrow> 'm plugins \<Rightarrow> 'm plugins result" where
  "add_wasm compile ec n r ps =
     (case load_wasm_bytes compile ec n (fst r) (snd r) ps of (Inl e, _) \<Rightarrow> Inl e | (Inr _, ps') \<Rightarrow> Inr ps')"

lemma add_wasm_Inr:
  "add_wasm compile ec n r ps = Inr ps' \<longleftrightarrow>
   (ec_strict_aot ec \<longrightarrow> ec_allow_jit ec) \<and> (\<exists>md. compile (fst r) = Inr md \<and> ps' = register_plugin n md (snd r) ps)"
  by (auto simp: add_wasm_def load_wasm_bytes_def split: sum.splits)

lemma cel_register_Inr:
  "cel_register compile n expr ps = Inr ps' \<longleftrightarrow> (\<exists>p. compile expr = Inr p \<and> ps' = ps(n \<mapsto> p))"
  by (auto simp: cel_register_def split: sum.splits)

interpretation native_rules: rule_store evaluate_rule has_rule add_native
  by unfold_locales (auto simp: evaluate_rule_def has_rule_def add_native_def register_rule_def)

interpretation cel_rules: rule_store "cel_evaluate execute debug_val" "\<lambda>ps n. ps n \<noteq> None" "cel_register compile"
  for execute debug_val compile
  by unfold_locales (auto simp: cel_evaluate_def cel_register_Inr split: option.splits sum.splits cel_value.splits)

interpretation wasm_rules: rule_store "wasm_evaluate invoke" "\<lambda>ps n. ps n \<noteq> None" "add_wasm compile ec"
  for invoke compile ec
  by unfold_locales (auto simp: wasm_evaluate_def add_wasm_Inr register_plugin_def split: option.splits sum.splits)

text \<open>The breaker guards the interceptors only: a rule is evaluated by its plugin also while the
  circuit is open, and its outcome is not counted.\<close>

lemma rule_ignores_breaker:
  "wasm_evaluate invoke (ps(n := map_option (pl_breaker_update f) (ps n))) = wasm_evaluate invoke ps"
  by (auto simp: wasm_evaluate_def fun_eq_iff split: option.splits)

end
