(* ===== verification/WellFormed.thy ===== *)
theory WellFormed
  imports Manager
begin

text \<open>
  What may go on the wire.  The types \<open>HeaderName\<close>, \<open>HeaderValue\<close> and \<open>StatusCode\<close> of the \<open>http\<close> crate keep the
  gateway from writing an ill-formed message; the model has plain strings and numbers, and here
  it is shown that nothing the configured interceptors do leaves those types, whatever a plugin, a
  token or a policy of the configuration says.
\<close>

section \<open>The types\<close>

definition is_field_byte :: "char \<Rightarrow> bool" where
  "is_field_byte c = (32 \<le> (of_char c :: nat) \<and> (of_char c :: nat) \<noteq> 127 \<or> (of_char c :: nat) = 9)"

definition header_name_ok :: "string \<Rightarrow> bool" where
  "header_name_ok n = (n \<noteq> [] \<and> list_all is_tchar n \<and> to_lowercase n = n)"

definition headers_ok :: "header_map \<Rightarrow> bool" where
  "headers_ok h = list_all (\<lambda>(n, v). header_name_ok n \<and> list_all is_field_byte v) h"

definition status_ok :: "nat \<Rightarrow> bool" where
  "status_ok s = (100 \<le> s \<and> s \<le> 999)"

fun verdict_ok :: "verdict \<Rightarrow> bool" where
  "verdict_ok (Reject r) = status_ok (rej_status r)"
| "verdict_ok (Transform h b) = (case h of Some hs \<Rightarrow> headers_ok hs | None \<Rightarrow> True)"
| "verdict_ok _ = True"

lemma visible_field_byte: "is_visible c \<Longrightarrow> is_field_byte c"
  by (auto simp: is_visible_def is_field_byte_def)

lemma header_value_ok: "header_value_from_str s = Some v \<Longrightarrow> list_all is_field_byte v"
  by (auto simp: header_value_from_str_def list_all_iff visible_field_byte split: if_splits)

lemma lower_char_tchar: "is_tchar c \<Longrightarrow> is_tchar (lower_char c)"
proof (cases "is_upper_ascii c")
  case True
  then have n: "65 \<le> (of_char c :: nat)" "(of_char c :: nat) \<le> 90" by (simp_all add: is_upper_ascii_def)
  have "(of_char (char_of (of_char c + 32 :: nat)) :: nat) = of_char c + 32" using n by simp
  with n True show ?thesis by (simp add: lower_char_def is_tchar_def is_lower_ascii_def)
qed (simp add: lower_char_def)

lemma header_name_from_ok: "header_name_from_bytes s = Some n \<Longrightarrow> header_name_ok n"
  by (auto simp: header_name_from_bytes_def header_name_ok_def list_all_iff lower_char_tchar
      to_lowercase_def split: if_splits)

lemma status_from_ok: "status_from_u16 n = Some s \<Longrightarrow> status_ok s"
  by (auto simp: status_from_u16_def status_ok_def split: if_splits)

lemma headers_ok_insert:
  "headers_ok h \<Longrightarrow> header_name_ok n \<Longrightarrow> list_all is_field_byte v \<Longrightarrow> headers_ok (header_insert h n v)"
  by (fastforce simp: headers_ok_def list_all_iff header_insert_set)

section \<open>The interceptors\<close>

lemma insert_if_valid_ok:
  "headers_ok (headers p) \<Longrightarrow> header_name_ok n \<Longrightarrow> headers_ok (headers (insert_if_valid n v p))"
  by (auto simp: insert_if_valid_def headers_ok_insert dest: header_value_ok split: option.split)

lemma identity_names_ok:
  "header_name_ok ''x-user-id''" "header_name_ok ''x-tenant-id''" "header_name_ok ''x-user-roles''"
  by code_simp+

lemma propagate_identity_ok: "headers_ok (headers p) \<Longrightarrow> headers_ok (headers (propagate_identity cl p))"
  by (auto simp: propagate_identity_def Let_def insert_if_valid_ok identity_names_ok split: option.split)

lemma verdict_headers_ok: "headers_ok (verdict_headers obj)"
proof -
  define put where "put = (\<lambda>(k, v) h.
     case (header_name_from_bytes k, header_value_from_str (unwrap_or (as_str v) [])) of
       (Some hn, Some hv) \<Rightarrow> header_insert h hn hv
     | _ \<Rightarrow> h)"
  have put: "headers_ok (put kv h)" if "headers_ok h" for kv h
    using that by (auto simp: put_def intro!: headers_ok_insert dest: header_name_from_ok header_value_ok
        split: prod.split option.split)
  have "headers_ok (fold put obj acc)" if "headers_ok acc" for acc
    using that by (induction obj arbitrary: acc) (simp_all add: put)
  then show ?thesis by (simp add: verdict_headers_def put_def headers_ok_def)
qed

lemma unwrap_status_ok: "status_ok d \<Longrightarrow> status_ok (unwrap_or (Option.bind x (\<lambda>y. Option.bind (g y) (\<lambda>s. status_from_u16 (f s)))) d)"
  by (cases "Option.bind x (\<lambda>y. Option.bind (g y) (\<lambda>s. status_from_u16 (f s)))")
    (auto simp: unwrap_or_def bind_eq_Some_conv status_from_ok)

lemma parse_verdict_ok: "verdict_ok (parse_verdict val)"
proof -
  have "status_ok 400" by (simp add: status_ok_def)
  note st = unwrap_status_ok [OF this]
  have h: "case map_option verdict_headers x of Some hs \<Rightarrow> headers_ok hs | None \<Rightarrow> True" for x
    by (cases x) (simp_all add: verdict_headers_ok)
  show ?thesis
    unfolding parse_verdict_def Let_def rejection_new_def with_details_def
    using h by (simp add: st verdict_headers_ok split: option.split)
qed

lemma run_plugin_ok: "verdict_ok (fst (run_plugin invoke now done_at name ps))"
  by (auto simp: run_plugin_def handle_execution_error_def rejection_new_def status_ok_def parse_verdict_ok
      split: option.split prod.split permission.split fail_mode.split sum.split)

definition rule_ok :: "'p cel_rule \<Rightarrow> bool" where
  "rule_ok r = status_ok (cel_status r)"

lemma cel_verdict_ok: "rule_ok r \<Longrightarrow> verdict_ok (cel_verdict debug_val r res)"
  by (auto simp: cel_verdict_def rule_ok_def rejection_new_def split: cel_action.split sum.split cel_value.split bool.split)

fun request_int_ok :: "('p, 'm) request_int \<Rightarrow> bool" where
  "request_int_ok (CelReq r) = rule_ok r"
| "request_int_ok _ = True"

fun response_int_ok :: "('p, 'm) response_int \<Rightarrow> bool" where
  "response_int_ok (CelResp r) = rule_ok r"
| "response_int_ok _ = True"

text \<open>One run: the verdict and the request that is left.\<close>

lemma run_request_ok:
  assumes "request_int_ok i" "headers_ok (headers p)" "run_request ie ck i w c p body = (v, w', c', p')"
  shows "verdict_ok v \<and> headers_ok (headers p')"
proof (cases i)
  case (CelReq r)
  with assms show ?thesis by (auto simp: cel_intercept_request_def cel_verdict_ok)
next
  case (WasmReq n)
  with assms(2,3) show ?thesis
    by (auto simp: wasm_intercept_request_def split: prod.splits) (metis fst_conv run_plugin_ok)
next
  case SyntaxReq
  with assms(2,3) show ?thesis
    by (auto simp: syntax_interceptor_def rejection_new_def status_ok_def Let_def split: if_splits sum.splits option.splits)
next
  case HeaderReq
  with assms(2,3) show ?thesis
    by (auto simp: header_validation_interceptor_def rejection_new_def status_ok_def Let_def split: if_splits)
next
  case (DeployReq tok)
  with assms(2,3) show ?thesis
    by (auto simp: deploy_auth_interceptor_def rejection_new_def status_ok_def Let_def split: if_splits option.splits)
next
  case (RbacReq n r)
  have "verdict_ok (unauthorized_verdict m op' cl err)" for m op' cl err
    by (auto simp: unauthorized_verdict_def rejection_new_def status_ok_def Let_def split: policy_mode.split)
  with RbacReq assms(2,3) show ?thesis
    by (auto simp: rbac_intercept_request_def propagate_identity_ok Let_def split: prod.splits option.splits if_splits)
qed

lemma run_response_ok:
  assumes "response_int_ok i" "run_response ie ck i w c p body = (v, w', p')"
  shows "verdict_ok v \<and> p' = p"
proof (cases i)
  case (CelResp r)
  with assms show ?thesis by (auto simp: cel_intercept_response_def cel_verdict_ok)
next
  case (WasmResp n)
  with assms(2) show ?thesis
    by (auto simp: wasm_intercept_response_def split: prod.splits) (metis fst_conv run_plugin_ok)
next
  case (SensitiveResp sd)
  with assms(2) show ?thesis
    by (auto simp: sensitive_data_interceptor_def rejection_new_def status_ok_def Let_def
        split: option.splits sum.splits bool.splits)
qed

section \<open>The pipelines\<close>

lemma request_pipeline_ok:
  assumes "list_all request_int_ok is" "headers_ok (headers p)" "verdict_ok (unwrap_or audit Pass)"
    and "request_pipeline (map (run_request ie ck) is) audit w c p body = (v, w', c', p')"
  shows "verdict_ok v \<and> headers_ok (headers p')"
  using assms
proof (induction "is" arbitrary: audit w c p)
  case (Cons i "is")
  obtain v1 w1 c1 p1 where r: "run_request ie ck i w c p body = (v1, w1, c1, p1)" by (metis prod_cases4)
  have ok: "verdict_ok v1 \<and> headers_ok (headers p1)"
    using run_request_ok [OF _ _ r] Cons.prems(1,2) by simp
  show ?case
  proof (cases v1)
    case Pass
    with Cons.IH [of p1 audit w1 c1] Cons.prems r ok show ?thesis by simp
  next
    case (Audit n t m)
    with Cons.IH [of p1 "Some (Audit n t m)" w1 c1] Cons.prems r ok show ?thesis by (simp add: unwrap_or_def)
  qed (use Cons.prems r ok in auto)
qed simp

lemma response_pipeline_ok:
  assumes "list_all response_int_ok is" "verdict_ok (Transform (acc_headers a) b)" "verdict_ok (unwrap_or (acc_audit a) Pass)"
    and "response_pipeline (map (run_response ie ck) is) a w c p body = (v, w', p')"
  shows "verdict_ok v \<and> p' = p"
  using assms
proof (induction "is" arbitrary: a w)
  case (Cons i "is")
  obtain v1 w1 p1 where r: "run_response ie ck i w c p (unwrap_or (acc_body a) body) = (v1, w1, p1)" by (metis prod_cases3)
  have ok: "verdict_ok v1" "p1 = p" using run_response_ok [OF _ r] Cons.prems(1) by simp_all
  show ?case
  proof (cases v1)
    case Pass
    with Cons.IH [of a w1] Cons.prems r ok show ?thesis by simp
  next
    case (Transform h b')
    with Cons.IH [of "a\<lparr>acc_headers := or_else h (acc_headers a), acc_body := or_else b' (acc_body a)\<rparr>" w1] Cons.prems r ok
    show ?thesis by (cases h) (simp_all add: or_else_def)
  next
    case (Audit n t m)
    with Cons.IH [of "a\<lparr>acc_audit := Some (Audit n t m)\<rparr>" w1] Cons.prems r ok show ?thesis by (simp add: unwrap_or_def)
  qed (use Cons.prems r ok in auto)
qed (auto split: if_splits)

section \<open>What a configuration can build\<close>

definition registry_ok :: "('p, 'm) registry \<Rightarrow> bool" where
  "registry_ok reg = (list_all (request_int_ok \<circ> snd) (reg_request reg) \<and> list_all (response_int_ok \<circ> snd) (reg_response reg))"

lemma alist_insert_all: "list_all (P \<circ> snd) al \<Longrightarrow> P v \<Longrightarrow> list_all (P \<circ> snd) (alist_insert k v al)"
  by (auto simp: alist_insert_def list_all_iff)

lemma cel_status_ok:
  "cel_with_options compile d dc dm name expr (map_option (\<lambda>c. unwrap_or (status_from_u16 c) 403) sc) code msg act tag = Inr r \<Longrightarrow>
   status_ok d \<Longrightarrow> rule_ok r"
  by (cases sc) (auto simp: cel_with_options_def rule_ok_def unwrap_or_def status_from_u16_def status_ok_def
      split: sum.splits option.splits if_splits)

lemma build_interceptor_ok:
  assumes "registry_ok reg" "build_interceptor ie cfg (name, ic) reg = Inr reg'"
  shows "registry_ok reg'"
proof -
  have "status_ok 403" "status_ok 500" by (simp_all add: status_ok_def)
  then have cel: "build_cel ie name ic reg = Inr reg' \<Longrightarrow> ?thesis"
    using assms(1)
    by (auto simp: build_cel_def cel_request_new_def cel_response_new_def registry_ok_def alist_insert_all Let_def
        dest: cel_status_ok split: option.splits interceptor_stage.splits sum.splits)
  show ?thesis
    using assms cel
    by (cases "ic_type ic")
      (auto simp: build_wasm_def build_native_def registry_ok_def alist_insert_all Let_def
        split: option.splits interceptor_stage.splits sum.splits prod.splits if_splits)
qed

lemma build_all_ok: "build_all ie cfg ics reg = Inr reg' \<Longrightarrow> registry_ok reg \<Longrightarrow> registry_ok reg'"
proof (induction ie cfg ics reg rule: build_all.induct)
  case (2 ie cfg ic ics reg)
  then show ?case using build_interceptor_ok [of reg ie cfg "fst ic" "snd ic"] by (auto split: sum.splits)
qed simp

definition pipes_ok :: "('p, 'm) pipes \<Rightarrow> bool" where
  "pipes_ok ps = (list_all request_int_ok (fst ps) \<and> list_all response_int_ok (snd ps))"

lemma registered_ok:
  "list_all (P \<circ> snd) al \<Longrightarrow> map_of al n = Some i \<Longrightarrow> P i"
  by (fastforce simp: list_all_iff dest: map_of_SomeD)

lemma assemble_ok: "assemble msg reg ns ps = Inr ps' \<Longrightarrow> registry_ok reg \<Longrightarrow> pipes_ok ps \<Longrightarrow> pipes_ok ps'"
proof (induction msg reg ns ps rule: assemble.induct)
  case (2 msg reg n ns rq rs)
  then show ?case
    by (auto simp: registry_ok_def pipes_ok_def dest: registered_ok split: option.splits)
qed simp

definition manager_ok :: "('p, 'm) manager \<Rightarrow> bool" where
  "manager_ok mg =
     (pipes_ok (global_request mg, global_response mg)
      \<and> list_all (list_all request_int_ok \<circ> snd) (route_request mg)
      \<and> list_all (list_all response_int_ok \<circ> snd) (route_response mg))"

lemma assemble_routes_ok:
  "assemble_routes reg rs mg = Inr mg' \<Longrightarrow> registry_ok reg \<Longrightarrow> manager_ok mg \<Longrightarrow> manager_ok mg'"
proof (induction reg rs mg rule: assemble_routes.induct)
  case (2 reg key rc rs mg)
  let ?msg = "\<lambda>n. ''Route '' @ quoted key @ '' references unknown interceptor '' @ quoted n"
  from "2.prems"(1) obtain rq rp where a: "assemble ?msg reg (route_interceptors rc) ([], []) = Inr (rq, rp)"
    by (auto split: sum.splits)
  have "pipes_ok (rq, rp)" using assemble_ok [OF a "2.prems"(2)] by (simp add: pipes_ok_def)
  with "2.IH" [OF a refl] "2.prems" a show ?case
    by (auto simp: manager_ok_def pipes_ok_def alist_insert_all)
qed simp

lemma from_config_ok:
  assumes "from_config ie cfg = Inr (mg, ps)"
  shows "manager_ok mg"
proof -
  let ?reg0 = "\<lparr>reg_request = [], reg_response = [], reg_plugins = Map.empty\<rparr>"
  let ?msg = "\<lambda>n. ''Global interceptor '' @ quoted n @ '' is not registered in [interceptors]''"
  from assms obtain reg rq rp where b: "build_all ie cfg (cfg_interceptors cfg) ?reg0 = Inr reg"
    and a: "assemble ?msg reg (gql_interceptors (cfg_gql cfg)) ([], []) = Inr (rq, rp)"
    and r: "assemble_routes reg (gql_routes (cfg_gql cfg))
              (manager_empty\<lparr>global_request := rq, global_response := rp\<rparr>) = Inr mg"
    by (auto simp: from_config_def Let_def split: sum.splits)
  have reg: "registry_ok reg" using build_all_ok [OF b] by (simp add: registry_ok_def)
  then have "pipes_ok (rq, rp)" using assemble_ok [OF a] by (simp add: pipes_ok_def)
  then show ?thesis using assemble_routes_ok [OF r reg] by (simp add: manager_ok_def manager_empty_def)
qed

lemma get_pipelines_ok:
  assumes "manager_ok mg"
  shows "list_all request_int_ok (get_request_pipeline mg op)" "list_all response_int_ok (get_response_pipeline mg op)"
  using assms
  by (auto simp: manager_ok_def pipes_ok_def get_request_pipeline_def get_response_pipeline_def unwrap_or_def
      dest: registered_ok split: option.split)


text \<open>A policy with a status out of range: the gateway answers 403.\<close>

definition odd_status_config :: spectra_config where
  "odd_status_config = guarded_config\<lparr>cfg_interceptors :=
     [(''policy'', (blank_interceptor CelType)\<lparr>ic_status_code := Some 42\<rparr>)]\<rparr>"

definition refusing_env :: "(string, unit, unit) int_env" where
  "refusing_env = toy_env\<lparr>ie_execute := \<lambda>_ _. Inr (CBool False)\<rparr>"

definition odd_parts :: http_parts where
  "odd_parts = \<lparr>http_method = ''POST'', uri = ''/graphql'', uri_path = ''/graphql'', uri_query = None,
     http_version = ''HTTP/1.1'', headers = [(''accept'', ''*/*'')]\<rparr>"


end
