(* ===== verification/SharedIdempotency.thy ===== *)
theory SharedIdempotency
  imports Gateway
begin

text \<open>
  The Redis back end of \<open>idempotency/mod.rs\<close> with a server behind it, shared by the requests of any
  number of gateways.  A check is one or two round trips, so the commands of different
  requests interleave.

  The server is an argument: \<open>rv_exec\<close> executes a command at a time of the server's clock and gives the
  reply, and \<open>redis_laws\<close> is the documented behaviour of SET with NX and EX, GET and DEL, over what a GET
  at a given time would return (\<open>rv_look\<close>).
\<close>

section \<open>The server\<close>

record 'r redis_server =
  rv_exec :: "nat \<Rightarrow> redis_cmd \<Rightarrow> 'r \<Rightarrow> string option \<times> 'r"
  rv_look :: "nat \<Rightarrow> 'r \<Rightarrow> string \<Rightarrow> string option"

definition stored_until :: "(nat \<Rightarrow> 'r \<Rightarrow> string \<Rightarrow> string option) \<Rightarrow> nat \<Rightarrow> 'r \<Rightarrow> 'r \<Rightarrow> string \<Rightarrow> string \<Rightarrow> nat \<Rightarrow> bool" where
  "stored_until look t r r' k v e =
     (\<forall>t' k'. t \<le> t' \<longrightarrow> look t' r' k' = (if k' = k then (if t' < e then Some v else None) else look t' r k'))"

definition same_from :: "(nat \<Rightarrow> 'r \<Rightarrow> string \<Rightarrow> string option) \<Rightarrow> nat \<Rightarrow> 'r \<Rightarrow> 'r \<Rightarrow> bool" where
  "same_from look t r r' = (\<forall>t' k'. t \<le> t' \<longrightarrow> look t' r' k' = look t' r k')"

definition redis_laws :: "'r redis_server \<Rightarrow> bool" where
  "redis_laws sv =
     ((\<forall>t r k v ttl reply r'. rv_exec sv t (SetNx k v ttl) r = (reply, r') \<longrightarrow>
         (if rv_look sv t r k = None then reply \<noteq> None \<and> stored_until (rv_look sv) t r r' k v (t + unat ttl)
          else reply = None \<and> same_from (rv_look sv) t r r'))
      \<and> (\<forall>t r k v ttl. stored_until (rv_look sv) t r (snd (rv_exec sv t (SetEx k v ttl) r)) k v (t + unat ttl))
      \<and> (\<forall>t r k reply r'. rv_exec sv t (GetCmd k) r = (reply, r') \<longrightarrow>
           reply = rv_look sv t r k \<and> same_from (rv_look sv) t r r')
      \<and> (\<forall>t r k v. stored_until (rv_look sv) t r (snd (rv_exec sv t (DelCmd k) r)) k v t))"

text \<open>The serialiser of the records: \<open>serde_json\<close> reads back what it wrote.\<close>

definition codec_ok :: "(idem_record \<Rightarrow> string result) \<Rightarrow> (string \<Rightarrow> idem_record result) \<Rightarrow> bool" where
  "codec_ok to_json from_json = (\<forall>rec. \<exists>js. to_json rec = Inr js \<and> from_json js = Inr rec)"

record 'r redis_env =
  re_server :: "'r redis_server"
  re_to_json :: "idem_record \<Rightarrow> string result"
  re_from_json :: "string \<Rightarrow> idem_record result"
  re_prefix :: string
  re_ttl :: u64

definition redis_env_ok :: "'r redis_env \<Rightarrow> bool" where
  "redis_env_ok re = (redis_laws (re_server re) \<and> codec_ok (re_to_json re) (re_from_json re))"

definition redis_key :: "'r redis_env \<Rightarrow> string \<Rightarrow> string" where
  "redis_key re k = re_prefix re @ '':'' @ k"

lemma redis_key_eq [simp]: "redis_key re j = redis_key re k \<longleftrightarrow> j = k"
  by (simp add: redis_key_def)

abbreviation check_decision ::
  "'r redis_env \<Rightarrow> u64 \<Rightarrow> string \<Rightarrow> hlc_timestamp \<Rightarrow> string option result \<Rightarrow> string option result \<Rightarrow> idem_outcome \<times> redis_cmd list" where
  "check_decision re now k h \<equiv> redis_check_or_insert (re_to_json re) (re_from_json re) (re_prefix re) (re_ttl re) now k h True"

definition lease :: "'r redis_env \<Rightarrow> nat" where
  "lease re = unat (max (re_ttl re) 1)"

fun send_all :: "'r redis_env \<Rightarrow> nat \<Rightarrow> redis_cmd list \<Rightarrow> 'r \<Rightarrow> 'r" where
  "send_all re t [] r = r"
| "send_all re t (c # cs) r = send_all re t cs (snd (rv_exec (re_server re) t c r))"

lemma lease_pos: "0 < lease re"
proof -
  have "unat (1 :: u64) \<le> unat (max (re_ttl re) 1)" by (rule iffD1 [OF word_le_nat_alt]) simp
  then show ?thesis by (simp add: lease_def)
qed

section \<open>The commands of a request\<close>

text \<open>The two round trips of \<open>check_or_insert\<close>.  The first settles the check, or the reply was nil and the
  second follows.\<close>

definition first_trip ::
  "'r redis_env \<Rightarrow> nat \<Rightarrow> u64 \<Rightarrow> string \<Rightarrow> hlc_timestamp \<Rightarrow> 'r \<Rightarrow> idem_outcome option \<times> 'r" where
  "first_trip re t now k h r =
     (case snd (check_decision re now k h (Inr (Some [])) (Inr None)) of
        [] \<Rightarrow> (Some NewOp, r)
      | c # _ \<Rightarrow>
          (case rv_exec (re_server re) t c r of
             (None, r') \<Rightarrow> (None, r')
           | (Some ok, r') \<Rightarrow> (Some (fst (check_decision re now k h (Inr (Some ok)) (Inr None))), r')))"

definition second_trip ::
  "'r redis_env \<Rightarrow> nat \<Rightarrow> u64 \<Rightarrow> string \<Rightarrow> hlc_timestamp \<Rightarrow> 'r \<Rightarrow> idem_outcome \<times> 'r" where
  "second_trip re t now k h r =
     (case rv_exec (re_server re) t (last (snd (check_decision re now k h (Inr None) (Inr None)))) r of
        (reply, r') \<Rightarrow> (fst (check_decision re now k h (Inr None) (Inr reply)), r'))"

lemma check_commands:
  assumes "codec_ok (re_to_json re) (re_from_json re)"
  obtains js where "re_to_json re (InProgress h now) = Inr js" "re_from_json re js = Inr (InProgress h now)"
    "snd (check_decision re now k h (Inr (Some ok)) g) = [SetNx (redis_key re k) js (max (re_ttl re) 1)]"
    "fst (check_decision re now k h (Inr (Some ok)) g) = NewOp"
    "last (snd (check_decision re now k h (Inr None) g)) = GetCmd (redis_key re k)"
proof -
  obtain js where "re_to_json re (InProgress h now) = Inr js" "re_from_json re js = Inr (InProgress h now)"
    using assms by (auto simp: codec_ok_def)
  then show thesis using that by (simp add: redis_check_or_insert_def redis_key_def Let_def)
qed

lemma redis_law:
  assumes "redis_laws sv"
  shows "rv_exec sv t (SetNx k v ttl) r = (reply, r') \<Longrightarrow>
      if rv_look sv t r k = None then reply \<noteq> None \<and> stored_until (rv_look sv) t r r' k v (t + unat ttl)
      else reply = None \<and> same_from (rv_look sv) t r r'"
    and "stored_until (rv_look sv) t r (snd (rv_exec sv t (SetEx k v ttl) r)) k v (t + unat ttl)"
    and "rv_exec sv t (GetCmd k) r = (reply, r') \<Longrightarrow> reply = rv_look sv t r k \<and> same_from (rv_look sv) t r r'"
    and "stored_until (rv_look sv) t r (snd (rv_exec sv t (DelCmd k) r)) k v t"
proof -
  note laws = assms [unfolded redis_laws_def]
  note l2 = laws [THEN conjunct2]
  note l3 = l2 [THEN conjunct2]
  show "rv_exec sv t (SetNx k v ttl) r = (reply, r') \<Longrightarrow>
      if rv_look sv t r k = None then reply \<noteq> None \<and> stored_until (rv_look sv) t r r' k v (t + unat ttl)
      else reply = None \<and> same_from (rv_look sv) t r r'"
    by (rule laws [THEN conjunct1, rule_format])
  show "stored_until (rv_look sv) t r (snd (rv_exec sv t (SetEx k v ttl) r)) k v (t + unat ttl)"
    by (rule l2 [THEN conjunct1, rule_format])
  show "rv_exec sv t (GetCmd k) r = (reply, r') \<Longrightarrow> reply = rv_look sv t r k \<and> same_from (rv_look sv) t r r'"
    by (rule l3 [THEN conjunct1, rule_format])
  show "stored_until (rv_look sv) t r (snd (rv_exec sv t (DelCmd k) r)) k v t"
    by (rule l3 [THEN conjunct2, rule_format])
qed

text \<open>What each of the two trips does and answers.\<close>

lemma first_trip_cases:
  assumes "redis_env_ok re" "first_trip re t now k h r = (out, r')"
  shows "if rv_look (re_server re) t r (redis_key re k) = None
    then out = Some NewOp \<and> (\<exists>js. re_from_json re js = Inr (InProgress h now)
      \<and> stored_until (rv_look (re_server re)) t r r' (redis_key re k) js (t + lease re))
    else out = None \<and> same_from (rv_look (re_server re)) t r r'"
proof -
  obtain js where js: "re_from_json re js = Inr (InProgress h now)"
    "snd (check_decision re now k h (Inr (Some [])) (Inr None)) = [SetNx (redis_key re k) js (max (re_ttl re) 1)]"
    using check_commands [of re h now k "[]" "Inr None"] assms(1) by (auto simp: redis_env_ok_def)
  obtain reply r1 where e: "rv_exec (re_server re) t (SetNx (redis_key re k) js (max (re_ttl re) 1)) r = (reply, r1)" by fastforce
  have new: "fst (check_decision re now k h (Inr (Some ok)) (Inr None)) = NewOp" for ok
    using check_commands [of re h now k ok "Inr None"] assms(1) by (auto simp: redis_env_ok_def)
  have "if rv_look (re_server re) t r (redis_key re k) = None
    then reply \<noteq> None \<and> stored_until (rv_look (re_server re)) t r r1 (redis_key re k) js (t + lease re)
    else reply = None \<and> same_from (rv_look (re_server re)) t r r1"
    using redis_law(1) [OF _ e] assms(1) unfolding redis_env_ok_def lease_def by blast
  with assms(2) js e new show ?thesis by (cases reply) (auto simp: first_trip_def split: if_splits)
qed

lemma second_trip_cases:
  assumes "redis_env_ok re" "second_trip re t now k h r = (out, r')"
  shows "same_from (rv_look (re_server re)) t r r'
    \<and> out = fst (check_decision re now k h (Inr None) (Inr (rv_look (re_server re) t r (redis_key re k))))"
proof -
  have "last (snd (check_decision re now k h (Inr None) (Inr None))) = GetCmd (redis_key re k)"
    using check_commands [of re h now k "[]" "Inr None"] assms(1) by (auto simp: redis_env_ok_def)
  with assms show ?thesis
    using redis_law(3) by (fastforce simp: second_trip_def redis_env_ok_def split: prod.splits)
qed

lemma decision_on_record:
  assumes "codec_ok (re_to_json re) (re_from_json re)"
  shows "fst (check_decision re now k h (Inr None) (Inr reply)) =
    (case Option.bind reply (\<lambda>raw. case re_from_json re raw of Inr rec \<Rightarrow> Some rec | Inl _ \<Rightarrow> None) of
       Some (InProgress h' _) \<Rightarrow> Conflict h' | Some (Completed h' st hs b _) \<Rightarrow> Replay h' st hs b | None \<Rightarrow> NewOp)"
proof -
  obtain js where "re_to_json re (InProgress h now) = Inr js" using assms by (auto simp: codec_ok_def)
  then show ?thesis
    by (auto simp: redis_check_or_insert_def Let_def split: option.split sum.split idem_record.split)
qed

section \<open>The engine at one moment\<close>

text \<open>The three methods with the Redis back end while nothing comes between the round trips of one call, and the
  table of the records that can be read.\<close>

definition redis_ops :: "'r redis_env \<Rightarrow> nat \<Rightarrow> u64 \<Rightarrow> 'r idem_ops" where
  "redis_ops re t now =
     \<lparr>io_check = (\<lambda>k h r.
        case first_trip re t now k h r of
          (Some out, r1) \<Rightarrow> (out, r1)
        | (None, r1) \<Rightarrow> second_trip re t now k h r1),
      io_complete = (\<lambda>k h st hs b.
        send_all re t (redis_complete (re_to_json re) (re_prefix re) (re_ttl re) now k h st hs b True)),
      io_remove = (\<lambda>k. send_all re t (redis_remove (re_prefix re) k True))\<rparr>"

definition read_record :: "'r redis_env \<Rightarrow> string option \<Rightarrow> idem_record option" where
  "read_record re v = Option.bind v (\<lambda>js. case re_from_json re js of Inr rec \<Rightarrow> Some rec | Inl _ \<Rightarrow> None)"

definition redis_look :: "'r redis_env \<Rightarrow> nat \<Rightarrow> 'r \<Rightarrow> idem_table" where
  "redis_look re t r k = read_record re (rv_look (re_server re) t r (redis_key re k))"

text \<open>Whatever lies under the prefix is a record.\<close>

definition redis_readable :: "'r redis_env \<Rightarrow> nat \<Rightarrow> 'r \<Rightarrow> bool" where
  "redis_readable re t r = (redis_env_ok re
     \<and> (\<forall>k. rv_look (re_server re) t r (redis_key re k) \<noteq> None \<longrightarrow> redis_look re t r k \<noteq> None))"

lemma read_record_simps [simp]:
  "read_record re None = None"
  "re_from_json re js = Inr rec \<Longrightarrow> read_record re (Some js) = Some rec"
  by (simp_all add: read_record_def)

lemma redis_look_stored:
  assumes "stored_until (rv_look (re_server re)) t r r' (redis_key re k) v e"
  shows "redis_look re t r' = (redis_look re t r)(k := read_record re (if t < e then Some v else None))"
  using assms by (auto simp: redis_look_def stored_until_def)

lemma redis_look_same: "same_from (rv_look (re_server re)) t r r' \<Longrightarrow> redis_look re t r' = redis_look re t r"
  by (auto simp: redis_look_def same_from_def)

text \<open>How the two writing commands change what the server holds.\<close>

lemma complete_stores:
  assumes "redis_env_ok re"
  obtains js where "re_from_json re js = Inr (Completed h st (kept_headers hs) b now)"
    "stored_until (rv_look (re_server re)) t r
       (send_all re t (redis_complete (re_to_json re) (re_prefix re) (re_ttl re) now k h st hs b True) r)
       (redis_key re k) js (t + lease re)"
proof -
  obtain js where js: "re_to_json re (Completed h st (kept_headers hs) b now) = Inr js"
      "re_from_json re js = Inr (Completed h st (kept_headers hs) b now)"
    using assms by (auto simp: redis_env_ok_def codec_ok_def)
  have "stored_until (rv_look (re_server re)) t r
      (snd (rv_exec (re_server re) t (SetEx (redis_key re k) js (max (re_ttl re) 1)) r)) (redis_key re k) js (t + lease re)"
    using redis_law(2) [of "re_server re"] assms unfolding redis_env_ok_def lease_def by blast
  with js show thesis using that by (simp add: redis_complete_def redis_key_def)
qed

lemma remove_frees:
  assumes "redis_env_ok re"
  shows "stored_until (rv_look (re_server re)) t r (send_all re t (redis_remove (re_prefix re) k True) r) (redis_key re k) v t"
proof -
  have "stored_until (rv_look (re_server re)) t r
      (snd (rv_exec (re_server re) t (DelCmd (redis_key re k)) r)) (redis_key re k) v t"
    using redis_law(4) [of "re_server re"] assms unfolding redis_env_ok_def by blast
  then show ?thesis by (simp add: redis_remove_def redis_key_def)
qed

interpretation redis_port: idem_port "redis_ops re t now" "redis_look re t" "redis_readable re t"
  for re t now
proof
  fix r k h st hs b out r'
  assume ready: "redis_readable re t r"
  then have ok: "redis_env_ok re" by (simp add: redis_readable_def)
  obtain js where "re_from_json re js = Inr (Completed h st (kept_headers hs) b now)"
    "stored_until (rv_look (re_server re)) t r (io_complete (redis_ops re t now) k h st hs b r) (redis_key re k) js (t + lease re)"
    using complete_stores [OF ok, of h st hs b now t r k] by (auto simp: redis_ops_def)
  then show "\<exists>at. redis_look re t (io_complete (redis_ops re t now) k h st hs b r)
      = (redis_look re t r)(k \<mapsto> Completed h st (kept_headers hs) b at)"
    by (auto simp: redis_look_stored lease_pos)
  have "stored_until (rv_look (re_server re)) t r (io_remove (redis_ops re t now) k r) (redis_key re k) [] t"
    using remove_frees [OF ok] by (simp add: redis_ops_def)
  then show "redis_look re t (io_remove (redis_ops re t now) k r) = (redis_look re t r)(k := None)"
    by (simp add: redis_look_stored)
  assume c: "io_check (redis_ops re t now) k h r = (out, r')"
  obtain o1 r1 where f: "first_trip re t now k h r = (o1, r1)" by fastforce
  show "case out of NewOp \<Rightarrow> \<exists>at. redis_look re t r' = (redis_look re t r)(k \<mapsto> InProgress h at)
      | _ \<Rightarrow> redis_look re t r' = redis_look re t r"
  proof (cases "rv_look (re_server re) t r (redis_key re k) = None")
    case True
    then obtain js where "re_from_json re js = Inr (InProgress h now)" "o1 = Some NewOp"
      "stored_until (rv_look (re_server re)) t r r1 (redis_key re k) js (t + lease re)"
      using first_trip_cases [OF ok f] by auto
    then show ?thesis using c f by (auto simp: redis_ops_def redis_look_stored lease_pos)
  next
    case False
    then have o1: "o1 = None" "same_from (rv_look (re_server re)) t r r1" using first_trip_cases [OF ok f] by auto
    then have g: "second_trip re t now k h r1 = (out, r')" using c f by (simp add: redis_ops_def)
    note s = second_trip_cases [OF ok g]
    obtain js rec where js: "rv_look (re_server re) t r1 (redis_key re k) = Some js" "re_from_json re js = Inr rec"
      using False ready o1(2) by (auto simp: redis_readable_def redis_look_def read_record_def same_from_def split: sum.splits)
    have "out \<noteq> NewOp" using s js decision_on_record [of re] ok by (simp add: redis_env_ok_def split: idem_record.split)
    moreover have "redis_look re t r' = redis_look re t r" using s o1(2) redis_look_same by metis
    ultimately show ?thesis by (cases out) simp_all
  qed
qed

text \<open>A proxied request settles its key in the shared Redis as it does in the memory engine.\<close>

lemma logging_settles_shared_key:
  assumes "gv_idem gv = redis_ops re t now" "redis_readable re t (cl_engine s)"
    and "logs_outcome s" "px_idempotency_key (cl_ctx s) = Some k"
  shows "\<exists>rec. redis_look re t (cl_engine (logging gv tbl err s)) = (redis_look re t (cl_engine s))(k := rec)
    \<and> (if succeeded err (cl_ctx s)
       then \<exists>st hs at. rec = Some (Completed (px_hlc (cl_ctx s)) st (kept_headers hs) (kept_body gv (cl_ctx s)) at)
              \<and> px_response_parts (cl_ctx s) = Some \<lparr>resp_status = st, resp_headers = hs\<rparr>
       else rec = None)"
  using assms by (rule redis_port.logging_settles)

section \<open>Many requests at once\<close>

text \<open>\<open>AskLost\<close> and \<open>LookLost\<close> are trips whose connection or answer is lost; the command of the first may have been
  applied all the same.\<close>

datatype shared_event =
    Ask nat string hlc_timestamp u64
  | Look nat string
  | AskLost nat string hlc_timestamp u64 bool
  | LookLost nat string
  | Finish string hlc_timestamp nat header_map string u64
  | GiveUp string

record 'r shared =
  sh_server :: 'r
  sh_waiting :: "nat \<rightharpoonup> string \<times> hlc_timestamp \<times> u64"

fun shared_step ::
  "'r redis_env \<Rightarrow> nat \<Rightarrow> shared_event \<Rightarrow> 'r shared \<Rightarrow> (string \<times> idem_outcome) list \<times> 'r shared" where
  "shared_step re t (Ask i k h now) s =
     (case first_trip re t now k h (sh_server s) of
        (Some out, r) \<Rightarrow> ([(k, out)], s\<lparr>sh_server := r\<rparr>)
      | (None, r) \<Rightarrow> ([], \<lparr>sh_server = r, sh_waiting = (sh_waiting s)(i \<mapsto> (k, h, now))\<rparr>))"
| "shared_step re t (Look i k) s =
     (case sh_waiting s i of
        Some (k', h, now) \<Rightarrow>
          if k' = k then
            (case second_trip re t now k h (sh_server s) of
               (out, r) \<Rightarrow> ([(k, out)], \<lparr>sh_server = r, sh_waiting = (sh_waiting s)(i := None)\<rparr>))
          else ([], s)
      | None \<Rightarrow> ([], s))"
| "shared_step re t (AskLost i k h now applied) s =
     ([(k, fst (check_decision re now k h (Inl []) (Inr None)))],
      if applied then s\<lparr>sh_server := snd (first_trip re t now k h (sh_server s))\<rparr> else s)"
| "shared_step re t (LookLost i k) s =
     (case sh_waiting s i of
        Some (k', h, now) \<Rightarrow>
          if k' = k then ([(k, fst (check_decision re now k h (Inr None) (Inl [])))], s\<lparr>sh_waiting := (sh_waiting s)(i := None)\<rparr>)
          else ([], s)
      | None \<Rightarrow> ([], s))"
| "shared_step re t (Finish k h st hs b now) s =
     ([], s\<lparr>sh_server := send_all re t
        (redis_complete (re_to_json re) (re_prefix re) (re_ttl re) now k h st hs b True) (sh_server s)\<rparr>)"
| "shared_step re t (GiveUp k) s =
     ([], s\<lparr>sh_server := send_all re t (redis_remove (re_prefix re) k True) (sh_server s)\<rparr>)"

fun shared_run :: "'r redis_env \<Rightarrow> (nat \<times> shared_event) list \<Rightarrow> 'r shared \<Rightarrow> (string \<times> idem_outcome) list \<times> 'r shared" where
  "shared_run re [] s = ([], s)"
| "shared_run re ((t, e) # es) s =
     (case shared_step re t e s of (o1, s1) \<Rightarrow> (case shared_run re es s1 of (o2, s2) \<Rightarrow> (o1 @ o2, s2)))"

text \<open>The events under which a key stays held: everything but giving it up and losing an answer about it.\<close>

fun calm :: "string \<Rightarrow> shared_event \<Rightarrow> bool" where
  "calm k (AskLost i j h now applied) = (j \<noteq> k)"
| "calm k (LookLost i j) = (j \<noteq> k)"
| "calm k (GiveUp j) = (j \<noteq> k)"
| "calm k _ = True"

text \<open>The key has a readable record from \<open>t\<close> on until \<open>e\<close>.\<close>

definition held :: "'r redis_env \<Rightarrow> string \<Rightarrow> nat \<Rightarrow> nat \<Rightarrow> 'r \<Rightarrow> bool" where
  "held re k t e r = (\<forall>t'. t \<le> t' \<longrightarrow> t' < e \<longrightarrow>
     (\<exists>js rec. rv_look (re_server re) t' r (redis_key re k) = Some js \<and> re_from_json re js = Inr rec))"

lemma held_later: "held re k t e r \<Longrightarrow> t \<le> t' \<Longrightarrow> held re k t' e r"
  by (auto simp: held_def)

lemma held_same: "held re k t e r \<Longrightarrow> same_from (rv_look (re_server re)) t r r' \<Longrightarrow> held re k t e r'"
  by (simp add: held_def same_from_def)

lemma held_stored:
  assumes "stored_until (rv_look (re_server re)) t r r' (redis_key re j) v e'"
    and "if j = k then e \<le> e' \<and> (\<exists>rec. re_from_json re v = Inr rec) else held re k t e r"
  shows "held re k t e r'"
  using assms by (auto simp: held_def stored_until_def split: if_splits)

lemma first_trip_held:
  assumes "redis_env_ok re" "held re k t e r" "t < e" "first_trip re t now j h r = (out, r')"
  shows "held re k t e r' \<and> (j = k \<longrightarrow> out = None)"
proof (cases "rv_look (re_server re) t r (redis_key re j) = None")
  case True
  then obtain js where js: "stored_until (rv_look (re_server re)) t r r' (redis_key re j) js (t + lease re)"
    using first_trip_cases [OF assms(1,4)] by auto
  have "j \<noteq> k" using True assms(2,3) by (force simp: held_def)
  with held_stored [OF js] assms(2) show ?thesis by simp
next
  case False
  with first_trip_cases [OF assms(1,4)] held_same [OF assms(2)] show ?thesis by simp
qed

lemma second_trip_held:
  assumes "redis_env_ok re" "held re k t e r" "t < e" "second_trip re t now j h r = (out, r')"
  shows "held re k t e r' \<and> (j = k \<longrightarrow> out \<noteq> NewOp)"
proof -
  note c = second_trip_cases [OF assms(1,4)]
  have ok: "codec_ok (re_to_json re) (re_from_json re)" using assms(1) by (simp add: redis_env_ok_def)
  have "out \<noteq> NewOp" if "j = k"
  proof -
    obtain js rec where "rv_look (re_server re) t r (redis_key re k) = Some js" "re_from_json re js = Inr rec"
      using assms(2,3) by (auto simp: held_def)
    with c that show ?thesis by (simp add: decision_on_record [OF ok] split: idem_record.split)
  qed
  with c held_same [OF assms(2)] show ?thesis by blast
qed

lemma finish_held:
  assumes "redis_env_ok re" "held re k t e r" "e \<le> t + lease re"
  shows "held re k t e (send_all re t (redis_complete (re_to_json re) (re_prefix re) (re_ttl re) now j h st hs b True) r)"
proof -
  obtain js where "re_from_json re js = Inr (Completed h st (kept_headers hs) b now)"
    "stored_until (rv_look (re_server re)) t r
       (send_all re t (redis_complete (re_to_json re) (re_prefix re) (re_ttl re) now j h st hs b True) r)
       (redis_key re j) js (t + lease re)"
    using complete_stores [OF assms(1)] by blast
  from held_stored [OF this(2), of k e] this(1) assms show ?thesis by simp
qed

lemma give_up_held:
  assumes "redis_env_ok re" "held re k t e r" "j \<noteq> k"
  shows "held re k t e (send_all re t (redis_remove (re_prefix re) j True) r)"
  by (rule held_stored [OF remove_frees [OF assms(1)]]) (simp add: assms(2,3))

lemma shared_step_held:
  assumes "redis_env_ok re" "held re k t e (sh_server s)" "t < e" "e \<le> t + lease re" "calm k ev"
    and "shared_step re t ev s = (outs, s')"
  shows "held re k t e (sh_server s') \<and> (k, NewOp) \<notin> set outs"
proof (cases ev)
  case (Ask i j h now)
  obtain out r where f: "first_trip re t now j h (sh_server s) = (out, r)" by fastforce
  from first_trip_held [OF assms(1-3) f] Ask f assms(6) show ?thesis by (cases out) auto
next
  case (Look i j)
  show ?thesis
  proof (cases "\<exists>h now. sh_waiting s i = Some (j, h, now)")
    case True
    then obtain h now where w: "sh_waiting s i = Some (j, h, now)" by blast
    obtain out r where f: "second_trip re t now j h (sh_server s) = (out, r)" by fastforce
    from second_trip_held [OF assms(1-3) f] Look w f assms(6) show ?thesis by auto
  next
    case False
    with Look assms(2,6) show ?thesis by (auto split: option.splits if_splits)
  qed
next
  case (AskLost i j h now applied)
  obtain out r where f: "first_trip re t now j h (sh_server s) = (out, r)" by fastforce
  from first_trip_held [OF assms(1-3) f] AskLost f assms(2,5,6) show ?thesis by (auto split: if_splits)
next
  case (LookLost i j)
  with assms(2,5,6) show ?thesis by (auto split: option.splits if_splits)
next
  case (Finish j h st hs b now)
  with finish_held [OF assms(1,2,4)] assms(6) show ?thesis by auto
next
  case (GiveUp j)
  with give_up_held [OF assms(1,2)] assms(5,6) show ?thesis by auto
qed

definition in_time :: "nat \<Rightarrow> nat \<Rightarrow> (nat \<times> shared_event) list \<Rightarrow> bool" where
  "in_time t e es = (sorted (t # map fst es) \<and> list_all (\<lambda>x. fst x < e) es)"

lemma shared_run_held:
  "redis_env_ok re \<Longrightarrow> held re k t e (sh_server s) \<Longrightarrow> e \<le> t + lease re \<Longrightarrow> in_time t e es \<Longrightarrow> list_all (calm k \<circ> snd) es
   \<Longrightarrow> (k, NewOp) \<notin> set (fst (shared_run re es s))"
proof (induction es arbitrary: t s)
  case (Cons x es)
  obtain t1 ev where x: "x = (t1, ev)" by fastforce
  obtain outs s1 where st: "shared_step re t1 ev s = (outs, s1)" by fastforce
  have t1: "t \<le> t1" "t1 < e" "in_time t1 e es" using Cons.prems(4) x by (auto simp: in_time_def)
  have h: "held re k t1 e (sh_server s1) \<and> (k, NewOp) \<notin> set outs"
    using shared_step_held [OF Cons.prems(1) held_later [OF Cons.prems(2) t1(1)] t1(2) _ _ st] Cons.prems(3,5) t1(1) x by simp
  from Cons.IH [OF Cons.prems(1) conjunct1 [OF h] _ t1(3)] Cons.prems(3,5) t1(1) h x st show ?case
    by (auto split: prod.splits)
qed simp

text \<open>C10. One execution among all gateways.  Once a check got the key from the shared Redis at a time \<open>t0\<close> of
  the server's clock, every other check of this key by any gateway is refused or replayed for the whole time
  to live, however the round trips of all of them interleave and whatever happens to other
  keys, as long as no request gives this key up and no answer about it is lost (the code then lets the
  request through).\<close>

theorem shared_key_exclusive:
  assumes "redis_env_ok re" "shared_step re t0 (Ask i k h now) s0 = ([(k, NewOp)], s1)"
    and "in_time t0 (t0 + lease re) es" "list_all (calm k \<circ> snd) es"
  shows "(k, NewOp) \<notin> set (fst (shared_run re es s1))"
proof -
  obtain out r where f: "first_trip re t0 now k h (sh_server s0) = (out, r)" by fastforce
  with assms(2) have o: "out = Some NewOp" "s1 = s0\<lparr>sh_server := r\<rparr>" by (auto split: option.splits)
  then obtain js where "re_from_json re js = Inr (InProgress h now)"
      "stored_until (rv_look (re_server re)) t0 (sh_server s0) r (redis_key re k) js (t0 + lease re)"
    using first_trip_cases [OF assms(1) f] by (auto split: if_splits)
  then have "held re k t0 (t0 + lease re) (sh_server s1)"
    using held_stored [of re t0 "sh_server s0" r k js "t0 + lease re" k "t0 + lease re"] o(2) by simp
  from shared_run_held [OF assms(1) this order_refl assms(3,4)] show ?thesis .
qed

section \<open>What the protocol leaves open\<close>

text \<open>A release frees the key whoever holds it: the DEL of \<open>remove\<close> names no holder, so a request that gives up
  after its lease has run out opens the key its successor holds.\<close>

lemma free_key_granted:
  assumes "redis_env_ok re" "rv_look (re_server re) t (sh_server s) (redis_key re k) = None"
  shows "fst (shared_step re t (Ask i k h now) s) = [(k, NewOp)]"
proof -
  obtain out r where f: "first_trip re t now k h (sh_server s) = (out, r)" by fastforce
  with first_trip_cases [OF assms(1) f] assms(2) show ?thesis by simp
qed

lemma release_frees:
  assumes "redis_env_ok re" "t \<le> t'"
  shows "rv_look (re_server re) t' (sh_server (snd (shared_step re t (GiveUp k) s))) (redis_key re k) = None"
  using remove_frees [OF assms(1), of t "sh_server s" k "[]"] assms(2) by (simp add: stored_until_def)

lemma release_opens_key:
  "redis_env_ok re \<Longrightarrow> t \<le> t' \<Longrightarrow> fst (shared_step re t' (Ask i k h now) (snd (shared_step re t (GiveUp k) s))) = [(k, NewOp)]"
  by (rule free_key_granted [OF _ release_frees])

text \<open>A request whose SET was refused and whose GET comes after the release goes ahead without the key: it
  stored nothing, so the next request gets the key while this one runs.\<close>

lemma lost_race:
  assumes "redis_env_ok re" "sh_waiting s i = Some (k, h, now)" "t \<le> t'" "t' \<le> t''"
    and "s1 = snd (shared_step re t (GiveUp k) s)" "s2 = snd (shared_step re t' (Look i k) s1)"
  shows "fst (shared_step re t' (Look i k) s1) = [(k, NewOp)] \<and> fst (shared_step re t'' (Ask j k h' now') s2) = [(k, NewOp)]"
proof -
  have w: "sh_waiting s1 i = Some (k, h, now)" using assms(2,5) by simp
  have free: "rv_look (re_server re) u (sh_server s1) (redis_key re k) = None" if "t \<le> u" for u
    using release_frees [OF assms(1) that] assms(5) by simp
  obtain out r where f: "second_trip re t' now k h (sh_server s1) = (out, r)" by fastforce
  note c = second_trip_cases [OF assms(1) f]
  have "out = NewOp"
    using c free [OF assms(3)] decision_on_record [of re] assms(1) by (simp add: redis_env_ok_def)
  moreover have "rv_look (re_server re) t'' (sh_server s2) (redis_key re k) = None"
    using c free [of t''] f w assms(3,4,6) by (simp add: same_from_def)
  ultimately show ?thesis using f w free_key_granted [OF assms(1)] by simp
qed

section \<open>A server and a codec\<close>

text \<open>Redis as a map from keys to values with their expiry.\<close>

fun sample_exec :: "nat \<Rightarrow> redis_cmd \<Rightarrow> (string \<rightharpoonup> string \<times> nat) \<Rightarrow> string option \<times> (string \<rightharpoonup> string \<times> nat)" where
  "sample_exec t (SetNx k v ttl) r =
     (case r k of
        Some (_, e) \<Rightarrow> if t < e then (None, r) else (Some ''OK'', r(k \<mapsto> (v, t + unat ttl)))
      | None \<Rightarrow> (Some ''OK'', r(k \<mapsto> (v, t + unat ttl))))"
| "sample_exec t (SetEx k v ttl) r = (Some ''OK'', r(k \<mapsto> (v, t + unat ttl)))"
| "sample_exec t (GetCmd k) r =
     (case r k of Some (v, e) \<Rightarrow> (if t < e then Some v else None, r) | None \<Rightarrow> (None, r))"
| "sample_exec t (DelCmd k) r = (None, r(k := None))"

definition sample_look :: "nat \<Rightarrow> (string \<rightharpoonup> string \<times> nat) \<Rightarrow> string \<Rightarrow> string option" where
  "sample_look t r k = (case r k of Some (v, e) \<Rightarrow> if t < e then Some v else None | None \<Rightarrow> None)"

definition sample_server :: "(string \<rightharpoonup> string \<times> nat) redis_server" where
  "sample_server = \<lparr>rv_exec = sample_exec, rv_look = sample_look\<rparr>"

lemma sample_server_laws: "redis_laws sample_server"
  unfolding redis_laws_def sample_server_def redis_server.simps
proof (intro conjI allI impI)
  fix t r k v ttl reply r'
  assume "sample_exec t (SetNx k v ttl) r = (reply, r')"
  then show "if sample_look t r k = None
    then reply \<noteq> None \<and> stored_until sample_look t r r' k v (t + unat ttl)
    else reply = None \<and> same_from sample_look t r r'"
    by (auto simp: sample_look_def stored_until_def same_from_def split: option.splits if_splits prod.splits)
next
  fix t r k reply r'
  assume "sample_exec t (GetCmd k) r = (reply, r')"
  then show "reply = sample_look t r k" "same_from sample_look t r r'"
    by (auto simp: sample_look_def same_from_def split: option.splits prod.splits)
qed (auto simp: sample_look_def stored_until_def)

text \<open>A record as a text: numbers in unary, lengths before texts.\<close>

definition put_nat :: "nat \<Rightarrow> string" where
  "put_nat n = replicate n CHR ''1'' @ ''.''"

fun get_nat :: "string \<Rightarrow> nat \<times> string" where
  "get_nat [] = (0, [])"
| "get_nat (c # cs) = (if c = CHR ''1'' then (case get_nat cs of (n, r) \<Rightarrow> (Suc n, r)) else (0, cs))"

definition put_text :: "string \<Rightarrow> string" where
  "put_text s = put_nat (length s) @ s"

definition get_text :: "string \<Rightarrow> string \<times> string" where
  "get_text s = (case get_nat s of (n, r) \<Rightarrow> (take n r, drop n r))"

fun put_pairs :: "header_map \<Rightarrow> string" where
  "put_pairs [] = []"
| "put_pairs ((a, b) # ps) = put_text a @ put_text b @ put_pairs ps"

fun get_pairs :: "nat \<Rightarrow> string \<Rightarrow> header_map \<times> string" where
  "get_pairs 0 s = ([], s)"
| "get_pairs (Suc n) s =
     (case get_text s of (a, s1) \<Rightarrow> case get_text s1 of (b, s2) \<Rightarrow> case get_pairs n s2 of (ps, s3) \<Rightarrow> ((a, b) # ps, s3))"

definition put_hlc :: "hlc_timestamp \<Rightarrow> string" where
  "put_hlc h = put_nat (unat (physical h)) @ put_nat (unat (logical h))"

definition get_hlc :: "string \<Rightarrow> hlc_timestamp \<times> string" where
  "get_hlc s = (case get_nat s of (p, s1) \<Rightarrow> case get_nat s1 of (l, s2) \<Rightarrow> (hlc_new (of_nat p) (of_nat l), s2))"

fun put_record_text :: "idem_record \<Rightarrow> string result" where
  "put_record_text (InProgress h t) = Inr (put_nat 0 @ put_hlc h @ put_nat (unat t))"
| "put_record_text (Completed h st hs b t) =
     Inr (put_nat 1 @ put_hlc h @ put_nat (unat t) @ put_nat st @ put_nat (length hs) @ put_pairs hs @ put_text b)"

definition get_record_text :: "string \<Rightarrow> idem_record result" where
  "get_record_text s =
     (case get_nat s of (tag, s0) \<Rightarrow> case get_hlc s0 of (h, s1) \<Rightarrow> case get_nat s1 of (t, s2) \<Rightarrow>
        if tag = 0 then Inr (InProgress h (of_nat t))
        else case get_nat s2 of (st, s3) \<Rightarrow> case get_nat s3 of (n, s4) \<Rightarrow> case get_pairs n s4 of (hs, s5) \<Rightarrow>
          Inr (Completed h st hs (fst (get_text s5)) (of_nat t)))"

lemma get_put_nat [simp]: "get_nat (put_nat n @ r) = (n, r)"
  by (induction n) (simp_all add: put_nat_def)

lemma get_put_text [simp]: "get_text (put_text s @ r) = (s, r)"
  by (simp add: put_text_def get_text_def)

lemma get_put_pairs [simp]: "get_pairs (length ps) (put_pairs ps @ r) = (ps, r)"
  by (induction ps rule: put_pairs.induct) simp_all

lemma get_put_hlc [simp]: "get_hlc (put_hlc h @ r) = (h, r)"
  by (simp add: get_hlc_def put_hlc_def hlc_new_def)

lemma sample_codec_ok: "codec_ok put_record_text get_record_text"
  unfolding codec_ok_def
proof
  fix rec
  show "\<exists>js. put_record_text rec = Inr js \<and> get_record_text js = Inr rec"
    using get_put_nat [where r = "[]"] get_put_text [where r = "[]"]
    by (cases rec) (simp_all add: get_record_text_def)
qed

definition sample_shared_redis :: "(string \<rightharpoonup> string \<times> nat) redis_env" where
  "sample_shared_redis = \<lparr>re_server = sample_server, re_to_json = put_record_text, re_from_json = get_record_text,
     re_prefix = ''spectra'', re_ttl = 300\<rparr>"

lemma sample_shared_redis_ok: "redis_env_ok sample_shared_redis"
  by (simp add: redis_env_ok_def sample_shared_redis_def sample_server_laws sample_codec_ok)

definition empty_shared :: "(string \<rightharpoonup> string \<times> nat) shared" where
  "empty_shared = \<lparr>sh_server = Map.empty, sh_waiting = Map.empty\<rparr>"

theorem shared_key_exclusive_witness:
  "(''pay'', NewOp) \<notin> set (fst (shared_run sample_shared_redis
     [(10, Ask 1 ''pay'' (hlc_new 2 0) 7), (20, Look 1 ''pay''), (30, Ask 2 ''refund'' (hlc_new 3 0) 7), (35, GiveUp ''refund''),
      (40, Finish ''pay'' (hlc_new 1 0) 200 [] ''ok'' 8), (50, Ask 3 ''pay'' (hlc_new 4 0) 9), (304, Look 3 ''pay'')]
     (snd (shared_step sample_shared_redis 5 (Ask 0 ''pay'' (hlc_new 1 0) 6) empty_shared))))"
proof -
  have free: "rv_look (re_server sample_shared_redis) 5 (sh_server empty_shared) (redis_key sample_shared_redis ''pay'') = None"
    by (simp add: sample_shared_redis_def sample_server_def empty_shared_def sample_look_def)
  have ask: "shared_step sample_shared_redis 5 (Ask 0 ''pay'' (hlc_new 1 0) 6) empty_shared
      = ([(''pay'', NewOp)], snd (shared_step sample_shared_redis 5 (Ask 0 ''pay'' (hlc_new 1 0) 6) empty_shared))"
    using free_key_granted [OF sample_shared_redis_ok free] by (simp add: prod_eq_iff del: shared_step.simps)
  have "lease sample_shared_redis = 300" by (simp add: lease_def sample_shared_redis_def max_def word_le_nat_alt)
  then show ?thesis
    by (intro shared_key_exclusive [OF sample_shared_redis_ok ask]) (simp_all add: in_time_def)
qed

end
