(* ===== verification/Spec2Isabelle.thy ===== *)
theory Spec2Isabelle
  imports Boot Delivery Pump HubSections AuthKeys WasmHost WellFormed SharedIdempotency
begin

text \<open>
  SpectraGQL is an HTTP and GraphQL gateway: it authenticates and inspects requests at the edge,
  proxies them to an upstream (Mode A) or turns them into commands on a message broker
  (Mode B), publishes what happened, and serves GraphQL subscriptions over WebSockets.  This
  development models its decision logic as HOL functions and proves what the parts promise
  each other.  Paths below are relative to \<open>src/src/\<close>.

  \<^bold>\<open>Theories, parts and code\<close>

  \<^item> \<open>Prelude\<close>: the parts of the standard library the code uses (ASCII text, UTF-8, decimal text,
    saturating words, association lists, JSON values, header maps) and the lemmas about them.
  \<^item> \<open>Clock\<close>: \<open>core/clock.rs\<close>.  The clock word, \<open>now\<close> and \<open>update\<close>, and the compare-and-swap loops
    of concurrent callers as a step relation; issued time stamps increase, drift is bounded.
  \<^item> \<open>Config\<close>: \<open>core/types.rs\<close>, \<open>core/config.rs\<close>, \<open>core/config_store.rs\<close>.  Records and defaults,
    resolution of upstreams and applications, the local stores (interface \<open>config_store\<close>).
  \<^item> \<open>ConfigStores\<close>: the Redis and PostgreSQL stores of \<open>core/config_store.rs\<close> and every store behind
    one type.  A failed save may have been applied (interface \<open>remote_store\<close>, which \<open>config_store\<close>
    implies); what is loaded is always a saved text in full.
  \<^item> \<open>Sanitizer\<close>: \<open>interceptors/sanitizer.rs\<close> (interface \<open>redactor\<close>).
  \<^item> \<open>Protocol\<close>: \<open>protocol/\<close>.  Choice of the operation, request descriptions, type state, errors.
  \<^item> \<open>Interceptors\<close>: \<open>interceptors/{context,rules,request,response}.rs\<close>.  Verdicts, native
    interceptors and the pipelines; the interface \<open>request_port\<close> is what the gateway relies on of
    every request interceptor, interpreted on each of them.
  \<^item> \<open>Auth\<close>, \<open>AuthKeys\<close>: \<open>interceptors/auth.rs\<close>.  JWT, JWKS, DER, RBAC and the token cache; the
    providers, the fetch of keys and their rotation over time.
  \<^item> \<open>Wasm\<close>, \<open>Cel\<close>: \<open>interceptors/evaluators/\<close>.  Circuit breaker, guest protocol, fail modes;
    variables and verdicts of CEL rules.
  \<^item> \<open>WasmHost\<close>: the WASM evaluator with its epoch ticker and the time it gives a guest; the trait
    \<open>RuleEvaluator\<close> (interfaces \<open>rule_port\<close> and \<open>rule_store\<close>, interpreted on the native, the CEL and
    the WASM evaluator).
  \<^item> \<open>Manager\<close>: \<open>interceptors/manager.rs\<close>.  Building and assembling what is configured.
  \<^item> \<open>WellFormed\<close>: the types of the \<open>http\<close> crate as predicates (legal header names, values and
    status codes), which everything the configured pipelines produce satisfies.
  \<^item> \<open>Idempotency\<close>: \<open>idempotency/mod.rs\<close>, \<open>gateway/filters/idempotency.rs\<close>.  The sharded memory
    engine refines a table with a time to live (interface \<open>idempotency_table\<close>); the commands
    of the Redis engine; the conflict and replay responses.
  \<^item> \<open>SharedIdempotency\<close>: the Redis engine with a server behind it, its round trips interleaved with
    those of every other gateway: how long a key is exclusive and which races end that (interface
    \<open>idem_port\<close> again, so a request settles its key there as in memory).
  \<^item> \<open>Telemetry\<close>: \<open>telemetry/event.rs\<close>, \<open>telemetry/topic.rs\<close>.  Events and topics.
  \<^item> \<open>Brokers\<close>: the seven broker clients of \<open>telemetry/\<close>, the encoder and the choice of a client: their
    connections, the messages they build and their errors.
  \<^item> \<open>SinkContract\<close>: what the clients promise (interfaces \<open>event_sink\<close>, on all of them, and
    \<open>confirmed_sink\<close>, on all but RabbitMQ): the acknowledged messages are those reported as
    delivered.  Terminal events, the JetStream stream, reconnection.
  \<^item> \<open>Subscriptions\<close>: \<open>subscriptions/\<close>.  The hub refines a table (interface
    \<open>subscription_table\<close>); the connection actor, and many of them with the broadcasts as a
    reachability relation whose steps are whole turns and whole broadcasts.
  \<^item> \<open>HubSections\<close>: the same with every critical section of the hub as a step, actors that can be
    aborted between any two, and broadcasts that run beside them: which registrations a
    broadcast removes, and which an abort leaves for ever.
  \<^item> \<open>Pump\<close>: the byte pump of \<open>subscriptions/handler.rs\<close> over two bounded buffers, as a
    reachability relation: what it relays, when it ends, and that it can wait for ever for the actor
    or for a client that does not read.
  \<^item> \<open>Routing\<close>: \<open>gateway/mod.rs\<close>, \<open>gateway/filters/strategy.rs\<close> and the state, DNS and service
    parts of \<open>gateway/composite_service.rs\<close>.
  \<^item> \<open>Gateway\<close>: the phases of \<open>gateway/composite_service.rs\<close> and \<open>gateway/filters/\<close>, with the
    engine behind the interface \<open>idem_port\<close>.
  \<^item> \<open>Delivery\<close>: the proxy with a broker client in place of the assumed answers; what a command
    receipt means, and what a refused event leaves in the log.
  \<^item> \<open>AdminData\<close>: \<open>admin/traffic.rs\<close>, \<open>admin/registry.rs\<close>.  The traffic buffer and the logs of workers
    are windows on unbounded streams (interface \<open>rolling_log\<close>, interpreted on both).
  \<^item> \<open>AdminSchema\<close>: \<open>admin/schema_inspector.rs\<close>.  Coverage and drift against a reference.
  \<^item> \<open>EventSink\<close>: \<open>admin/eventsink.rs\<close>.  Inspection of the brokers and its cache.
  \<^item> \<open>AdminAccess\<close>: the allowlist and the write token of \<open>admin/mod.rs\<close>, and \<open>admin/router.rs\<close>.
  \<^item> \<open>Admin\<close>: \<open>admin/api.rs\<close> and the handlers of \<open>admin/mod.rs\<close>.  Who can change the configuration and
    what an update leaves behind.
  \<^item> \<open>Boot\<close>: the configuration layers of \<open>core/config.rs\<close>, \<open>lib.rs\<close>, \<open>main.rs\<close> and the builder methods of
    \<open>gateway/composite_service.rs\<close>.  The configuration that takes effect, and the cell the proxy and
    the console share.
  \<^item> This theory: the proxy and the console on one configuration, over sequences of requests, and the
    life of a gateway from its start over such a sequence to its next start on the same store.

  \<^bold>\<open>How state and effects are modelled\<close>

  A struct is a record, an enum a datatype, a panic or an \<open>Err\<close> a value.  State behind a lock or an
  atomic pointer is a value that operations take and return; each critical section is one step.
  Locks are atomic in the engine, and in the hub but for \<open>HubSections\<close>; the clock, which uses none, is
  modelled with its interleavings.  Code outside the repository is an argument: parsers, hashes, signature
  checks, the LRU cache, the regular expressions, Wasmtime, the CEL interpreter, the path
  router, the resolver, the client libraries of the brokers and stores, the HTTP client.  Their
  answers may differ from call to call.  What is relied on of them is a named predicate
  (\<open>lru_cache_laws\<close>, \<open>lru_laws\<close>, \<open>router_sound\<close>, \<open>redis_laws\<close>), and the witnesses instantiate it.

  \<^bold>\<open>Bounds\<close>

  Every function terminates; none uses fuel.  The clock theorems assume a wall clock below \<open>2 ^ 47\<close>
  milliseconds and fewer than \<open>2 ^ 63\<close> time stamps, the engine theorems room for the operations
  they mention (\<open>mem_room\<close>); a fresh engine has room for as many as its capacity.  The buffers of the
  pump have any capacity; the code uses \<open>DUPLEX_CAPACITY\<close>.

  \<^bold>\<open>Not modelled\<close>

  How the \<open>config\<close> crate merges its layers and reads TOML (an argument of \<open>Boot\<close>); the command line, the
  signal handler and the server loop of \<open>main.rs\<close>; logging, but for the line of a refused event; the
  serialisers derived by \<open>serde\<close>, which are
  arguments.  The time-outs of HTTP clients and of the runtime appear as error answers.  The record the
  gateway makes of a request leaves out the latency and the formatted time; \<open>AdminData\<close> adds them,
  with \<open>f64\<close> as a type parameter.  The call that gives the memory of a guest's result back, right
  before the store of the guest is dropped, is left out.
\<close>

section \<open>The proxy and the console together\<close>

text \<open>
  One request to the gateway: the phase \<open>request_filter\<close> runs on the configuration in force, and what it
  leaves to the console is handed to \<open>AdminFilter::handle\<close>, which shares that configuration.  Without a
  link between the two the proxy keeps the configuration \<open>st0\<close> it was started with.
\<close>

datatype 'f served =
    ByProxy filter_result
  | ByConsole "'f admin_response result"

definition in_force :: "('p, 'm) gateway_state \<Rightarrow> ('p, 'm, 's, 'k, 'f) admin_world \<Rightarrow> ('p, 'm) gateway_state" where
  "in_force st0 w = (case aw_state w of Some (st, _) \<Rightarrow> st | None \<Rightarrow> st0)"

record ('p, 'm, 'c, 'e, 's, 'r, 'k, 't, 'f) incoming =
  rq_gv :: "('p, 'm, 'c, 'e) gw_env"
  rq_ae :: "('p, 'm, 'c, 's, 'r, 'k, 't, 'f) admin_env"
  rq_chunks :: "string result list"
  rq_call :: "('m, 'c, 'e) call"

definition serve ::
  "'r admin_engine option \<Rightarrow> subscriptions_config \<Rightarrow> ('p, 'm) gateway_state
     \<Rightarrow> ('p, 'm, 'c, 'e, 's, 'r, 'k, 't, 'f) incoming \<Rightarrow> ('p, 'm, 's, 'k, 'f) admin_world
     \<Rightarrow> 'f served \<times> ('m, 'c, 'e) call \<times> ('p, 'm, 's, 'k, 'f) admin_world" where
  "serve admin subs st0 rq w =
     (case request_filter (rq_gv rq) (map_option ad_config admin) subs (in_force st0 w) (rq_chunks rq) (rq_call rq) of
        (Delegated ToAdmin, s) \<Rightarrow>
          (case admin_filter_handle (rq_ae rq) admin (cl_req s) (rq_chunks rq) w of
             (Some r, w') \<Rightarrow> (ByConsole r, s, w')
           | (None, w') \<Rightarrow> (ByProxy (Delegated ToAdmin), s, w'))
      | (r, s) \<Rightarrow> (ByProxy r, s, w))"

definition serve_all ::
  "'r admin_engine option \<Rightarrow> subscriptions_config \<Rightarrow> ('p, 'm) gateway_state
     \<Rightarrow> ('p, 'm, 'c, 'e, 's, 'r, 'k, 't, 'f) incoming list \<Rightarrow> ('p, 'm, 's, 'k, 'f) admin_world \<Rightarrow> ('p, 'm, 's, 'k, 'f) admin_world" where
  "serve_all admin subs st0 rqs w = fold (\<lambda>rq w. snd (snd (serve admin subs st0 rq w))) rqs w"

text \<open>What a request needs to change the configuration: a path of the console, an admitted address and,
  when a token is configured, that token.\<close>

definition may_reconfigure ::
  "'r admin_engine option \<Rightarrow> ('p, 'm, 'c, 'e, 's, 'r, 'k, 't, 'f) incoming \<Rightarrow> bool" where
  "may_reconfigure admin rq =
     (case admin of
        None \<Rightarrow> False
      | Some en \<Rightarrow>
          (let ae = rq_ae rq; req = cl_req (rq_call rq); env = ie_env (ae_ie ae)
           in is_admin_request (Some (ad_config en)) (uri_path req)
              \<and> is_ip_allowed (ae_parse_ip ae) (extract_client_ip (ae_parse_ip ae) (ae_socket_ip ae) req)
                   (allowed_ips (ad_config en))
              \<and> (if auth_required env (ad_config en)
                 then map_option trim (provided_token (headers req)) = map_option trim (expected_token env (ad_config en))
                 else True)))"

lemma edge_stage_console:
  "edge_stage gv admin subs s = (Some (Delegated ToAdmin), s') \<Longrightarrow> s' = s \<and> is_admin_request admin (uri_path (cl_req s))"
  by (auto simp: edge_stage_def Let_def split: option.splits if_splits)

lemma and_then_delegates:
  "fst (and_then f g s) = Some (Delegated t) \<longleftrightarrow>
     fst (f s) = Some (Delegated t) \<or> fst (f s) = None \<and> fst (g (snd (f s))) = Some (Delegated t)"
  by (cases "f s"; cases "fst (f s)") (auto simp: and_then_def)

lemma later_stages_settle:
  "fst (idempotency_stage gv d res s) \<noteq> Some (Delegated t)" "fst (body_stage gv chunks s) \<noteq> Some (Delegated t)"
  "fst (route_stage gv st info s) \<noteq> Some (Delegated t)"
  by (auto simp: idempotency_stage_def body_stage_def route_stage_def Let_def split: intercept_result.split option.split
      prod.split sum.split bool.split)

lemma decode_stage_settles: "fst (decode_stage gv st s) \<noteq> Some (Delegated t)"
proof -
  have "fst (fst (request_interceptor_stage gv st info body s)) \<noteq> Some (Delegated t)" for info body s
    by (auto simp: request_interceptor_stage_def Let_def split: option.split prod.split verdict.split)
  moreover have "fst (fingerprint_stage gv info body s) \<noteq> Some (Delegated t)" for info body s
    by (auto simp: fingerprint_stage_def Let_def later_stages_settle split: option.split)
  ultimately have "fst (handle_decoded gv st info body s) \<noteq> Some (Delegated t)" for info body s
    by (cases "request_interceptor_stage gv st info body (set_ctx (decoded_ctx gv st info body) s)";
        cases "fst (fst (request_interceptor_stage gv st info body (set_ctx (decoded_ctx gv st info body) s)))")
      (auto simp: handle_decoded_def and_then_delegates later_stages_settle, metis fst_conv)
  then show ?thesis by (auto simp: decode_stage_def Let_def split: option.split sum.split)
qed

lemma request_filter_console:
  assumes "request_filter gv admin subs st chunks s = (Delegated ToAdmin, s')"
  shows "s' = s \<and> is_admin_request admin (uri_path (cl_req s))"
proof (cases "edge_stage gv admin subs s")
  case (Pair r s1)
  show ?thesis
  proof (cases r)
    case None
    let ?all = "and_then (edge_stage gv admin subs) (and_then (\<lambda>s. explicit_key_stage gv (stamp_request gv s))
      (and_then (body_stage gv chunks) (decode_stage gv st))) s"
    have "fst ?all \<noteq> Some (Delegated ToAdmin)"
      using None Pair by (simp add: and_then_delegates explicit_key_stage_def later_stages_settle decode_stage_settles)
    with assms show ?thesis by (auto simp: request_filter_def split: prod.splits option.splits)
  next
    case (Some res)
    with Pair assms have "edge_stage gv admin subs s = (Some (Delegated ToAdmin), s')"
      by (auto simp: request_filter_def and_then_def)
    then show ?thesis by (rule edge_stage_console)
  qed
qed

lemma serve_guard:
  assumes "aw_state (snd (snd (serve admin subs st0 rq w))) \<noteq> aw_state w
      \<or> aw_store (snd (snd (serve admin subs st0 rq w))) \<noteq> aw_store w"
  shows "may_reconfigure admin rq"
proof -
  let ?f = "request_filter (rq_gv rq) (map_option ad_config admin) subs (in_force st0 w) (rq_chunks rq) (rq_call rq)"
  obtain r s where f: "?f = (r, s)" by fastforce
  have r: "r = Delegated ToAdmin"
    using assms f by (auto simp: serve_def split: filter_result.splits delegate.splits)
  with f request_filter_console have s: "s = rq_call rq"
    and path: "is_admin_request (map_option ad_config admin) (uri_path (cl_req (rq_call rq)))" by blast+
  from path obtain en where en: "admin = Some en" by (cases admin) (auto simp: is_admin_request_def)
  have "snd (snd (serve admin subs st0 rq w)) = snd (handle_request (rq_ae rq) en (cl_req (rq_call rq)) (rq_chunks rq) w)"
    using f r s en path by (simp add: serve_def admin_filter_handle_def split: prod.split)
  then have "aw_state (snd (handle_request (rq_ae rq) en (cl_req (rq_call rq)) (rq_chunks rq) w)) \<noteq> aw_state w
      \<or> aw_store (snd (handle_request (rq_ae rq) en (cl_req (rq_call rq)) (rq_chunks rq) w)) \<noteq> aw_store w"
    using assms by metis
  from write_guard [OF this] show ?thesis
    using en path by (auto simp: may_reconfigure_def Let_def)
qed

text \<open>C4. Who can change the configuration.  Over any sequence of requests of any kind, proxied or for the
  console, the configuration in force and the stored one are still those of the start unless one of
  the requests was for a path of the console, from an address the allowlist admits, and carried
  the write token when one is configured.\<close>

theorem configuration_guarded:
  assumes "aw_state (serve_all admin subs st0 rqs w) \<noteq> aw_state w \<or> aw_store (serve_all admin subs st0 rqs w) \<noteq> aw_store w"
  shows "\<exists>rq \<in> set rqs. may_reconfigure admin rq"
proof (rule ccontr)
  assume none: "\<not> (\<exists>rq \<in> set rqs. may_reconfigure admin rq)"
  have "aw_state (serve_all admin subs st0 rqs w) = aw_state w \<and> aw_store (serve_all admin subs st0 rqs w) = aw_store w"
    using none
  proof (induction rqs arbitrary: w)
    case (Cons rq rqs)
    have "aw_state (snd (snd (serve admin subs st0 rq w))) = aw_state w
        \<and> aw_store (snd (snd (serve admin subs st0 rq w))) = aw_store w"
      using serve_guard [of admin subs st0 rq w] Cons.prems by auto
    with Cons.IH [of "snd (snd (serve admin subs st0 rq w))"] Cons.prems show ?case
      by (simp add: serve_all_def)
  qed (simp add: serve_all_def)
  with assms show False by blast
qed

text \<open>A request with the token that updates the configuration through the whole gateway.\<close>

definition sample_incoming ::
  "(string, unit, unit, (nat \<times> (string \<times> idem_record) list) memory_backend, string option,
    (string \<times> admin_route) list, unit, unit, unit) incoming" where
  "sample_incoming = \<lparr>rq_gv = sample_gw, rq_ae = sample_admin_env, rq_chunks = [Inr ''ok''],
     rq_call = sample_call\<lparr>cl_req := update_request ''PUT'' ''s3cret''\<rparr>\<rparr>"

lemma sample_incoming_served:
  "aw_store (snd (snd (serve (Some sample_engine) default_subscriptions st0 sample_incoming sample_admin_world))) = Some ''ok''"
proof -
  have c: "ad_config sample_engine = default_admin\<lparr>admin_enabled := True, deploy_token := Some ''s3cret''\<rparr>"
    by (simp add: sample_engine_def admin_engine_new_def)
  have "request_filter (rq_gv sample_incoming) (map_option ad_config (Some sample_engine)) default_subscriptions st
      (rq_chunks sample_incoming) (rq_call sample_incoming) = (Delegated ToAdmin, rq_call sample_incoming)" for st
    by (simp add: request_filter_def and_then_def edge_stage_def Let_def sample_incoming_def update_request_def
        health_response_def is_favicon_request_def is_admin_request_def c default_admin_def starts_with_def)
  moreover have "is_admin_request (Some (ad_config sample_engine)) (uri_path (update_request ''PUT'' ''s3cret''))"
    by (simp add: is_admin_request_def c default_admin_def starts_with_def update_request_def)
  ultimately show ?thesis
    using sample_request_reconfigures
    by (cases "handle_request sample_admin_env sample_engine (update_request ''PUT'' ''s3cret'') [Inr ''ok''] sample_admin_world")
      (simp add: serve_def admin_filter_handle_def sample_incoming_def)
qed

theorem configuration_guarded_witness: "may_reconfigure (Some sample_engine) sample_incoming"
proof -
  have "aw_store (serve_all (Some sample_engine) default_subscriptions gateway_state_default [sample_incoming] sample_admin_world)
      \<noteq> aw_store sample_admin_world"
    using sample_incoming_served [of gateway_state_default] by (simp add: serve_all_def sample_admin_world_def)
  then have "\<exists>rq \<in> set [sample_incoming]. may_reconfigure (Some sample_engine) rq"
    by (intro configuration_guarded) blast
  then show ?thesis by simp
qed

section \<open>The life of a gateway\<close>

text \<open>The console's view of the opened store, and what it shares with a gateway that has just started.\<close>

definition store_port :: "store_libs \<Rightarrow> open_store \<Rightarrow> store_world store_ops" where
  "store_port sl st = \<lparr>so_load = load_config sl st, so_save = save_config sl st, so_backend_name = backend_name st,
     so_descriptor = descriptor path_display st\<rparr>"

definition console_world ::
  "('p, 'm, 'd, 'r, 'q, 'f) running \<Rightarrow> store_world \<Rightarrow> ('p, 'm, store_world, 'k, 'f) admin_world" where
  "console_world rn w =
     (let c = rn_composite rn
      in \<lparr>aw_state = Some (rn_cells rn ! cs_state c), aw_store = w, aw_recorder = cs_recorder c,
          aw_registry = worker_registry_default, aw_coverage = None,
          aw_inspector = (case cs_admin c of
             Some (en, _) \<Rightarrow> inspector_new (ad_broker_method en) (ad_broker_addr en) | None \<Rightarrow> inspector_new [] [])\<rparr>)"

definition serve_running ::
  "('p, 'm, 'd, 'r, 'q, 'f) running \<Rightarrow> ('p, 'm, 'c, 'e, store_world, 'q, 'k, 't, 'f) incoming list \<Rightarrow> store_world
     \<Rightarrow> ('p, 'm, store_world, 'k, 'f) admin_world" where
  "serve_running rn rqs w =
     (let c = rn_composite rn
      in serve_all (map_option fst (cs_admin c)) (cs_subscriptions c) (fst (rn_cells rn ! cs_state c)) rqs
           (console_world rn w))"

text \<open>A request as the running process handles it: its handlers parse a configuration as the start does and
  use the store the process opened, whose answers may be different for every request.\<close>

definition attached ::
  "('p, 'm, 'c, 'd, 'r, 'q) boot_env \<Rightarrow> open_store \<Rightarrow> ('p, 'm, 'c, 'e, store_world, 'q, 'k, 't, 'f) incoming \<Rightarrow> bool" where
  "attached bo st rq =
     (ae_parse_config (rq_ae rq) = from_toml_str (bo_finish bo) (bo_env bo)
      \<and> (\<exists>sl. ae_store (rq_ae rq) = Some (store_port sl st)))"

lemma serve_stores:
  "aw_store (snd (snd (serve admin subs st0 rq w))) = aw_store w
   \<or> (\<exists>content cfg so. submitted_text (rq_ae rq) (rq_chunks rq) = Some content
        \<and> ae_parse_config (rq_ae rq) content = Inr cfg \<and> ae_store (rq_ae rq) = Some so
        \<and> aw_store (snd (snd (serve admin subs st0 rq w))) = snd (so_save so (aw_store w) content))"
proof -
  obtain r s where f: "request_filter (rq_gv rq) (map_option ad_config admin) subs (in_force st0 w) (rq_chunks rq) (rq_call rq) = (r, s)"
    by fastforce
  show ?thesis
  proof (cases "\<exists>en. r = Delegated ToAdmin \<and> admin = Some en \<and> is_admin_request (Some (ad_config en)) (uri_path (cl_req s))")
    case True
    then obtain en where "r = Delegated ToAdmin" "admin = Some en" "is_admin_request (Some (ad_config en)) (uri_path (cl_req s))"
      by blast
    then have "snd (snd (serve admin subs st0 rq w)) = snd (handle_request (rq_ae rq) en (cl_req s) (rq_chunks rq) w)"
      using f by (cases "handle_request (rq_ae rq) en (cl_req s) (rq_chunks rq) w") (simp add: serve_def admin_filter_handle_def)
    with handle_request_stores [of "rq_ae rq" en "cl_req s" "rq_chunks rq" w] show ?thesis by simp
  next
    case False
    with f show ?thesis
      by (cases r) (auto simp: serve_def admin_filter_handle_def split: delegate.splits option.splits prod.splits)
  qed
qed

text \<open>The texts a later start may find: the one that was there, or one that a request of the session
  was entitled to store and that parses.\<close>

definition storable ::
  "'r admin_engine option \<Rightarrow> ('p, 'm, 'c, 'e, 's, 'r, 'k, 't, 'f) incoming list \<Rightarrow> string \<Rightarrow> bool" where
  "storable admin rqs t =
     (\<exists>rq \<in> set rqs. may_reconfigure admin rq \<and> submitted_text (rq_ae rq) (rq_chunks rq) = Some t
        \<and> (\<exists>cfg. ae_parse_config (rq_ae rq) t = Inr cfg))"

lemma session_store:
  assumes "store_ok st" "load_config (healthy sp) st (aw_store w) = Inr (Some t0)"
    and "list_all (attached bo st) rqs"
  shows "\<exists>t. load_config (healthy sp) st (aw_store (serve_all admin subs st0 rqs w)) = Inr (Some t)
    \<and> (t = t0 \<or> storable admin rqs t)"
  using assms(2,3)
proof (induction rqs arbitrary: w t0)
  case (Cons rq rqs)
  let ?w1 = "snd (snd (serve admin subs st0 rq w))"
  have "\<exists>t1. load_config (healthy sp) st (aw_store ?w1) = Inr (Some t1) \<and> (t1 = t0 \<or> storable admin [rq] t1)"
  proof (cases "aw_store ?w1 = aw_store w")
    case False
    with serve_stores [of admin subs st0 rq w] obtain content cfg so where
      s: "submitted_text (rq_ae rq) (rq_chunks rq) = Some content" "ae_parse_config (rq_ae rq) content = Inr cfg"
        "ae_store (rq_ae rq) = Some so" "aw_store ?w1 = snd (so_save so (aw_store w) content)" by blast
    obtain sl where "so = store_port sl st" using s(3) Cons.prems(2) by (auto simp: attached_def)
    with s(4) have "aw_store ?w1 = snd (save_config sl st (aw_store w) content)" by (simp add: store_port_def)
    with save_outcome [OF assms(1), of sl "aw_store w" content _ "aw_store ?w1" sp] Cons.prems(1)
    have "load_config (healthy sp) st (aw_store ?w1) \<in> {Inr (Some t0), Inr (Some content)}"
      by (cases "save_config sl st (aw_store w) content") (auto split: if_splits)
    moreover have "storable admin [rq] content"
      using s(1,2) serve_guard [of admin subs st0 rq w] False by (auto simp: storable_def)
    ultimately show ?thesis by auto
  qed (use Cons.prems(1) in simp)
  then obtain t1 where t1: "load_config (healthy sp) st (aw_store ?w1) = Inr (Some t1)"
      "t1 = t0 \<or> storable admin [rq] t1" by blast
  from Cons.IH [OF t1(1)] Cons.prems(2) t1(2) show ?case
    by (auto simp: serve_all_def storable_def)
qed (simp add: serve_all_def)

text \<open>C17. The life of a gateway.  A gateway serves any sequence of requests, with a store whose answers may
  fail or get lost at any request, and is stopped.  When it is started again on the same store, now
  reachable, the configuration in force is the one stored at its first start or one that a request of
  the sequence brought which was entitled to change it, whether or not that text ever was in force (an
  update may decline the reload, and a failed reload leaves its text in the store).  A text that does
  not parse is never in the store; if the stored one is blank the startup configuration is in force
  instead.  The in-memory store is excluded.\<close>

theorem restart_after_session:
  fixes rn :: "('p, 'm, 'd, 'r, 'q, 'f) running"
  assumes "cs_admin (rn_composite rn) = Some (en, a, st)"
    and "store_ok st" "st \<noteq> OpenMemory" "load_config (healthy sp) st w = Inr (Some t0)"
    and "from_toml_str (bo_finish bo) (bo_env bo) t0 = Inr cfg0"
    and "list_all (attached bo st) rqs" "w' = aw_store (serve_running rn rqs w)"
    and "bo_libs bo = healthy sp" "bo_runtime bo = Inr ()"
    and "create_store (bo_postgres bo) (bo_env bo) (config_store_cfg startup) = Inr ch"
    and "open_chosen (healthy sp) ch w' = (Inr st, w1)"
  shows "\<exists>t cfg. (t = t0 \<or> storable (Some en) rqs t)
    \<and> from_toml_str (bo_finish bo) (bo_env bo) t = Inr cfg
    \<and> (if trim t = [] then fst (boot_config bo startup w') = Inr (st, startup, default_raw bo startup)
       else boot_config bo startup w' = (Inr (st, cfg, t), w1))"
proof -
  obtain t where t: "load_config (healthy sp) st w' = Inr (Some t)" "t = t0 \<or> storable (Some en) rqs t"
    using session_store [OF assms(2) _ assms(6), of sp "console_world rn w" t0 "Some en"] assms(1,4,7)
    by (auto simp: serve_running_def console_world_def Let_def)
  have "\<exists>cfg. from_toml_str (bo_finish bo) (bo_env bo) t = Inr cfg"
    using t(2) assms(5,6) by (fastforce simp: storable_def attached_def list_all_iff)
  moreover have "load_config (healthy sp) st w1 = Inr (Some t)" by (rule reopened_store_keeps [OF assms(11,3) t(1)])
  ultimately show ?thesis
    using t(2) assms(8-11) by (force simp: boot_config_def factory_create_def hydrate_def nonblank_def Let_def)
qed

text \<open>A session on a Redis store with one request that may bring a configuration.\<close>

definition session_env ::
  "(string, unit, unit, store_world, (string \<times> admin_route) list, unit, unit, unit) admin_env" where
  "session_env =
     (let ae = sample_admin_env
      in \<lparr>ae_ie = ae_ie ae, ae_parse_ip = ae_parse_ip ae, ae_show_ip = ae_show_ip ae, ae_socket_ip = ae_socket_ip ae,
          ae_router = ae_router ae, ae_parse_config = from_toml_str (bo_finish sample_boot) (bo_env sample_boot),
          ae_update_request = ae_update_request ae, ae_validate_request = ae_validate_request ae,
          ae_report = ae_report ae, ae_store = Some (store_port (lost_answer (Pair [])) sample_redis),
          ae_resolve = ae_resolve ae, ae_sha256_hex = ae_sha256_hex ae, ae_now_ms = ae_now_ms ae,
          ae_now_secs = ae_now_secs ae, ae_instant = ae_instant ae, ae_upstream_order = ae_upstream_order ae,
          ae_target_order = ae_target_order ae, ae_post = ae_post ae, ae_show_status = ae_show_status ae,
          ae_sink = ae_sink ae, ae_show_json = ae_show_json ae, ae_utf8_error = ae_utf8_error ae,
          ae_to_vec = ae_to_vec ae, ae_idempotency = ae_idempotency ae, ae_hub = ae_hub ae,
          ae_version = ae_version ae, ae_html = ae_html ae, ae_favicon = ae_favicon ae\<rparr>)"

definition session_request ::
  "(string, unit, unit, (nat \<times> (string \<times> idem_record) list) memory_backend, store_world,
    (string \<times> admin_route) list, unit, unit, unit) incoming" where
  "session_request = \<lparr>rq_gv = sample_gw, rq_ae = session_env, rq_chunks = [Inr ''ok''],
     rq_call = sample_call\<lparr>cl_req := update_request ''PUT'' ''s3cret''\<rparr>\<rparr>"

definition session_gateway ::
  "(string, unit, nat \<times> (string \<times> idem_record) list, (string \<times> nat) list, (string \<times> admin_route) list, unit) running" where
  "session_gateway =
     (let (c, cells) = composite_new list_lru [] []
      in \<lparr>rn_composite = c\<lparr>cs_admin := Some (sample_engine, 0, sample_redis)\<rparr>, rn_cells = cells, rn_refresher = False,
          rn_bind_addr = ''0.0.0.0:8000''\<rparr>)"

definition session_start :: store_world where
  "session_start = sample_world\<lparr>sw_redis := [''active'' \<mapsto> ''a = 1'']\<rparr>"

theorem restart_after_session_witness:
  "\<exists>t cfg w1. (t = ''a = 1'' \<or> storable (Some sample_engine) [session_request] t)
     \<and> (if trim t = [] then True
        else boot_config sample_boot (sample_config\<lparr>config_store_cfg := default_store\<lparr>store_backend := ''redis'',
               redis_url := Some ''redis://r''\<rparr>\<rparr>)
             (aw_store (serve_running session_gateway [session_request] session_start :: (_, _, _, unit, _) admin_world))
           = (Inr (sample_redis, cfg, t), w1))"
proof -
  let ?w' = "aw_store (serve_running session_gateway [session_request] session_start :: (_, _, _, unit, _) admin_world)"
  let ?startup = "sample_config\<lparr>config_store_cfg := default_store\<lparr>store_backend := ''redis'', redis_url := Some ''redis://r''\<rparr>\<rparr>"
  have c: "create_store (bo_postgres sample_boot) (bo_env sample_boot) (config_store_cfg ?startup)
      = Inr (RedisStore ''redis://r'' ''active'')"
    by (simp add: sample_boot_def create_store_def default_store_def Let_def or_else_def unwrap_or_def to_lowercase_def
        lower_char_def is_upper_ascii_def)
  have o: "open_chosen (healthy (Pair [])) (RedisStore ''redis://r'' ''active'') ?w' = (Inr sample_redis, ?w')"
    by (simp add: healthy_def redis_store_new_def sample_redis_def)
  have a: "cs_admin (rn_composite session_gateway) = Some (sample_engine, 0, sample_redis)"
    by (simp add: session_gateway_def composite_new_def new_cell_def)
  have l: "load_config (healthy (Pair [])) sample_redis session_start = Inr (Some ''a = 1'')"
    by (simp add: sample_redis_def healthy_def redis_load_reached session_start_def)
  have p: "from_toml_str (bo_finish sample_boot) (bo_env sample_boot) ''a = 1'' = Inr sample_config"
    by (simp add: from_toml_str_def sample_boot_def)
  have at: "list_all (attached sample_boot sample_redis) [session_request]"
    by (auto simp: attached_def session_request_def session_env_def Let_def)
  have b: "bo_libs sample_boot = healthy (Pair [])" "bo_runtime sample_boot = Inr ()" by (simp_all add: sample_boot_def)
  have r: "store_ok sample_redis" "sample_redis \<noteq> OpenMemory" by (simp_all add: sample_redis_def store_ok_def)
  from restart_after_session [OF a r l p at refl b c o] show ?thesis by (metis (no_types, lifting))
qed

text \<open>An update that is answered with a failed reload is stored all the same; when no state can be built
  from it, the gateway does not start again on this store.\<close>

lemma unbuildable_update_blocks_restart:
  assumes "authorized ae en req" "submitted_text ae chunks = Some content" "ae_parse_config ae content = Inr cfg"
    and "ae_store ae = Some (store_port sl st)" "store_ok st" "st \<noteq> OpenMemory" "trim content \<noteq> []"
    and "save_config sl st (aw_store w) content = (Inr (), w')"
    and "ae_parse_config ae = from_toml_str (bo_finish bo) (bo_env bo)"
    and "bo_libs bo = healthy sp" "bo_runtime bo = Inr ()"
    and "create_store (bo_postgres bo) (bo_env bo) (config_store_cfg startup) = Inr ch"
    and "open_chosen (healthy sp) ch w' = (Inr st, w1)"
    and "new_from_config (bo_ie bo) (bo_resolve bo) (bo_sha256_hex bo) (bo_now_ms bo) cfg content 1 = Inl e"
  shows "aw_store (snd (handle_config_update ae en req chunks w)) = w'
    \<and> build_composite_service bo startup cells w' = (Some (Inl e), w1)"
proof -
  have "aw_store (snd (handle_config_update ae en req chunks w)) = w'"
    using assms(1-4,8) by (auto simp: handle_config_update_def submitted_text_def store_port_def answer_def respond_json_def Let_def
        split: option.splits sum.splits prod.splits)
  moreover have "load_config (healthy sp) st w1 = Inr (Some content)"
    using reopened_store_keeps [OF assms(13,6)] save_outcome [OF assms(5,8), of sp] by simp
  then have "boot_config bo startup w' = (Inr (st, cfg, content), w1)"
    using assms hydrate_stored [of bo st w1 content cfg startup] by (simp add: boot_config_def factory_create_def)
  ultimately show ?thesis using unbuildable_blocks_start assms(14) by blast
qed

end
